(* ===== verification/Regions.thy ===== *)
theory Regions
  imports Prelude
begin

text \<open>
  Spelling-tolerant comparison of places: \<^verbatim>\<open>packages/shared-types/src/country.ts\<close>
  (\<^verbatim>\<open>countryAliases\<close>, \<^verbatim>\<open>countryMatches\<close>, \<^verbatim>\<open>currencyForCountry\<close>) and
  \<^verbatim>\<open>packages/shared-types/src/india-states.ts\<close> (\<^verbatim>\<open>normalise\<close>, \<^verbatim>\<open>regionAliases\<close>, \<^verbatim>\<open>regionMatches\<close>,
  \<^verbatim>\<open>indiaState\<close>).  The fee bands and the tax engine decide with these functions whether a rule
  applies and whether a sale crosses a state border.
\<close>

section \<open>Countries\<close>

definition ALIASES :: "(string \<times> string list) list" where
  "ALIASES =
    [(''IN'', [''india'', ''in'']),
     (''US'', [''united states'', ''united states of america'', ''usa'', ''us'']),
     (''CA'', [''canada'', ''ca'']),
     (''GB'', [''united kingdom'', ''great britain'', ''uk'', ''gb'']),
     (''AE'', [''united arab emirates'', ''uae'', ''ae'']),
     (''SG'', [''singapore'', ''sg'']),
     (''AU'', [''australia'', ''au'']),
     (''NZ'', [''new zealand'', ''nz''])]"

definition countryAliases :: "string \<Rightarrow> string list" where
  "countryAliases value =
    (let needle = lower (trim value) in
     if needle = [] then []
     else case map_of ALIASES (upper needle) of
       Some direct \<Rightarrow> unique (needle # direct)
     | None \<Rightarrow>
        (case find (\<lambda>(alpha2, names). needle \<in> set names) ALIASES of
           Some (alpha2, names) \<Rightarrow> unique (needle # lower alpha2 # names)
         | None \<Rightarrow> [needle]))"

definition countryMatches :: "string \<Rightarrow> string \<Rightarrow> bool" where
  "countryMatches stored value \<longleftrightarrow> lower (trim stored) \<in> set (countryAliases value)"

definition COUNTRY_CURRENCY :: "(string \<times> string) list" where
  "COUNTRY_CURRENCY =
    [(''IN'', ''INR''), (''US'', ''USD''), (''CA'', ''CAD''), (''GB'', ''GBP''),
     (''AE'', ''AED''), (''SG'', ''SGD''), (''AU'', ''AUD''), (''NZ'', ''NZD'')]"

definition currencyForCountry :: "string option \<Rightarrow> string option" where
  "currencyForCountry country =
    (case country of None \<Rightarrow> None
     | Some c \<Rightarrow>
        if c = [] then None
        else let needle = lower (trim c) in
          if needle = [] then None
          else map_option snd (find (\<lambda>(alpha2, _). needle \<in> set (countryAliases alpha2)) COUNTRY_CURRENCY))"

section \<open>Indian states\<close>

record india_state =
  st_code :: string
  st_abbr :: string
  st_name :: string

definition mk_state :: "string \<Rightarrow> string \<Rightarrow> string \<Rightarrow> india_state" where
  "mk_state c a n = \<lparr>st_code = c, st_abbr = a, st_name = n\<rparr>"

definition INDIA_STATES :: "india_state list" where
  "INDIA_STATES =
    [mk_state ''01'' ''JK'' ''Jammu and Kashmir'', mk_state ''02'' ''HP'' ''Himachal Pradesh'',
     mk_state ''03'' ''PB'' ''Punjab'', mk_state ''04'' ''CH'' ''Chandigarh'',
     mk_state ''05'' ''UK'' ''Uttarakhand'', mk_state ''06'' ''HR'' ''Haryana'',
     mk_state ''07'' ''DL'' ''Delhi'', mk_state ''08'' ''RJ'' ''Rajasthan'',
     mk_state ''09'' ''UP'' ''Uttar Pradesh'', mk_state ''10'' ''BR'' ''Bihar'',
     mk_state ''11'' ''SK'' ''Sikkim'', mk_state ''12'' ''AR'' ''Arunachal Pradesh'',
     mk_state ''13'' ''NL'' ''Nagaland'', mk_state ''14'' ''MN'' ''Manipur'',
     mk_state ''15'' ''MZ'' ''Mizoram'', mk_state ''16'' ''TR'' ''Tripura'',
     mk_state ''17'' ''ML'' ''Meghalaya'', mk_state ''18'' ''AS'' ''Assam'',
     mk_state ''19'' ''WB'' ''West Bengal'', mk_state ''20'' ''JH'' ''Jharkhand'',
     mk_state ''21'' ''OD'' ''Odisha'', mk_state ''22'' ''CG'' ''Chhattisgarh'',
     mk_state ''23'' ''MP'' ''Madhya Pradesh'', mk_state ''24'' ''GJ'' ''Gujarat'',
     mk_state ''26'' ''DNHDD'' ''Dadra and Nagar Haveli and Daman and Diu'',
     mk_state ''27'' ''MH'' ''Maharashtra'', mk_state ''29'' ''KA'' ''Karnataka'',
     mk_state ''30'' ''GA'' ''Goa'', mk_state ''31'' ''LD'' ''Lakshadweep'',
     mk_state ''32'' ''KL'' ''Kerala'', mk_state ''33'' ''TN'' ''Tamil Nadu'',
     mk_state ''34'' ''PY'' ''Puducherry'', mk_state ''35'' ''AN'' ''Andaman and Nicobar Islands'',
     mk_state ''36'' ''TG'' ''Telangana'', mk_state ''37'' ''AP'' ''Andhra Pradesh'',
     mk_state ''38'' ''LA'' ''Ladakh'', mk_state ''97'' ''OT'' ''Other Territory'']"

text \<open>\<^verbatim>\<open>replace(/[\s.-]+/g, '')\<close> deletes white space, dots and hyphens.\<close>

definition normalise :: "string \<Rightarrow> string" where
  "normalise value = filter (\<lambda>c. \<not> (js_space c \<or> c = CHR ''.'' \<or> c = CHR ''-'')) (lower (trim value))"

definition state_forms :: "india_state \<Rightarrow> string list" where
  "state_forms s = map normalise [st_code s, st_abbr s, st_name s]"

definition state_of :: "string \<Rightarrow> india_state option" where
  "state_of needle = find (\<lambda>s. needle \<in> set (state_forms s)) INDIA_STATES"

definition regionAliases :: "string \<Rightarrow> string list" where
  "regionAliases value =
    (let needle = normalise value in
     if needle = [] then []
     else case state_of needle of
       Some s \<Rightarrow> unique (state_forms s)
     | None \<Rightarrow> [needle])"

definition regionMatches :: "string option \<Rightarrow> string option \<Rightarrow> bool" where
  "regionMatches a b \<longleftrightarrow>
    (if blank a \<or> blank b then False
     else \<exists>form \<in> set (regionAliases (the b)). form \<in> set (regionAliases (the a)))"

definition indiaState :: "string option \<Rightarrow> india_state option" where
  "indiaState value =
    (if blank value then None
     else let needle = normalise (the value) in state_of needle)"

section \<open>Region matching is an equivalence\<close>

lemma distinct_concat_owner:
  "distinct (concat (map f xs)) \<Longrightarrow> x \<in> set xs \<Longrightarrow> y \<in> set xs \<Longrightarrow> a \<in> set (f x) \<Longrightarrow> a \<in> set (f y)
   \<Longrightarrow> x = y"
  by (induction xs) auto

lemma state_forms_distinct: "distinct (concat (map state_forms INDIA_STATES))"
  by code_simp

text \<open>No spelling belongs to two states.\<close>

lemmas state_forms_owner = distinct_concat_owner [OF state_forms_distinct]

lemma state_of_Some: "state_of f = Some s \<longleftrightarrow> s \<in> set INDIA_STATES \<and> f \<in> set (state_forms s)"
proof
  assume "state_of f = Some s"
  then show "s \<in> set INDIA_STATES \<and> f \<in> set (state_forms s)"
    by (auto simp: state_of_def find_Some_iff in_set_conv_nth)
next
  assume s: "s \<in> set INDIA_STATES \<and> f \<in> set (state_forms s)"
  then obtain t where t: "state_of f = Some t"
    by (cases "state_of f") (auto simp: state_of_def find_None_iff)
  then have "t \<in> set INDIA_STATES" "f \<in> set (state_forms t)"
    by (auto simp: state_of_def find_Some_iff in_set_conv_nth)
  with s have "t = s" by (blast intro: state_forms_owner)
  with t show "state_of f = Some s" by simp
qed

lemma state_of_None: "state_of f = None \<longleftrightarrow> (\<forall>s \<in> set INDIA_STATES. f \<notin> set (state_forms s))"
  by (auto simp: state_of_def find_None_iff)

lemma normalise_blank: "trim v = [] \<Longrightarrow> normalise v = []"
  by (simp add: normalise_def lower_def)

text \<open>
  Region matching, specified: two spellings match exactly when both are non-empty after
  normalisation and either name the same Indian state or, when neither is a known spelling, are the
  same normalised text.  It is therefore symmetric and transitive, and a state's code, abbreviation
  and name are interchangeable, which is what the CGST/SGST-or-IGST decision relies on.
\<close>

lemma regionMatches_spec:
  "regionMatches (Some a) (Some b) \<longleftrightarrow>
    normalise a \<noteq> [] \<and> normalise b \<noteq> [] \<and>
    indiaState (Some a) = indiaState (Some b) \<and>
    (indiaState (Some a) = None \<longrightarrow> normalise a = normalise b)"
proof (cases "normalise a = [] \<or> normalise b = []")
  case True
  then show ?thesis by (auto simp: regionMatches_def regionAliases_def)
next
  case False
  then have nb: "\<not> blank (Some a)" "\<not> blank (Some b)"
    by (auto simp: blank_def normalise_blank)
  then have st: "indiaState (Some a) = state_of (normalise a)" "indiaState (Some b) = state_of (normalise b)"
    by (simp_all add: indiaState_def)
  have m: "regionMatches (Some a) (Some b) \<longleftrightarrow> set (regionAliases a) \<inter> set (regionAliases b) \<noteq> {}"
    using nb by (auto simp: regionMatches_def)
  have al: "set (regionAliases v) = (case state_of (normalise v) of Some s \<Rightarrow> set (state_forms s) | None \<Rightarrow> {normalise v})"
    if "normalise v \<noteq> []" for v
    using that by (simp add: regionAliases_def split: option.splits)
  show ?thesis
  proof (cases "state_of (normalise a)"; cases "state_of (normalise b)")
    fix s t assume s: "state_of (normalise a) = Some s" and t: "state_of (normalise b) = Some t"
    have own: "\<And>f. f \<in> set (state_forms s) \<Longrightarrow> f \<in> set (state_forms t) \<Longrightarrow> s = t"
      using s t unfolding state_of_Some by (blast intro: state_forms_owner)
    have ne: "normalise a \<in> set (state_forms s)" using s unfolding state_of_Some by blast
    show ?thesis
      unfolding m st using False s t own ne by (auto simp: al)
  next
    fix t assume a: "state_of (normalise a) = None" and t: "state_of (normalise b) = Some t"
    then have "normalise a \<notin> set (state_forms t)" by (auto simp: state_of_None state_of_Some)
    then show ?thesis unfolding m st using False a t by (simp add: al)
  next
    fix s assume s: "state_of (normalise a) = Some s" and b: "state_of (normalise b) = None"
    then have "normalise b \<notin> set (state_forms s)" by (auto simp: state_of_None state_of_Some)
    then show ?thesis unfolding m st using False s b by (simp add: al)
  next
    assume "state_of (normalise a) = None" "state_of (normalise b) = None"
    then show ?thesis unfolding m st using False by (auto simp: al)
  qed
qed

section \<open>Country matching is an equivalence\<close>

lemma lower_upper_lower_char: "lower_char (upper_char (lower_char c)) = lower_char c"
  by (auto simp: lower_char_def upper_char_def Let_def)

lemma lower_upper_lower: "lower (upper (lower s)) = lower s"
  by (simp add: lower_def upper_def lower_upper_lower_char)

lemma alias_names_distinct: "distinct (concat (map snd ALIASES))"
  by code_simp

lemmas alias_owner = distinct_concat_owner [OF alias_names_distinct]

lemma alias_alpha2: "(\<forall>p \<in> set ALIASES. lower (fst p) \<in> set (snd p))"
  by code_simp

text \<open>The spellings of a country: the names of the row that lists it, or just itself.\<close>

lemma set_countryAliases:
  "set (countryAliases v) =
    (let n = lower (trim v) in
     if n = [] then {} else if \<exists>p \<in> set ALIASES. n \<in> set (snd p)
     then \<Union> (set ` snd ` {p \<in> set ALIASES. n \<in> set (snd p)}) else {n})"
proof -
  define n where "n = lower (trim v)"
  have row: "set (countryAliases v) = set (snd p)" if p: "p \<in> set ALIASES" "n \<in> set (snd p)" and n: "n \<noteq> []" for p
  proof (cases "map_of ALIASES (upper n)")
    case (Some d)
    then have d: "(upper n, d) \<in> set ALIASES" by (rule map_of_SomeD)
    with alias_alpha2 have "lower (upper n) \<in> set d" by fastforce
    then have "n \<in> set d" by (simp add: n_def lower_upper_lower)
    with d p have "p = (upper n, d)" by (intro alias_owner [of _ _ n]) auto
    with Some n p(2) show ?thesis by (auto simp: countryAliases_def n_def [symmetric])
  next
    case None
    have "find (\<lambda>(alpha2, names). n \<in> set names) ALIASES \<noteq> None"
      unfolding find_None_iff using p by (metis (mono_tags, lifting) case_prod_beta)
    then obtain q where q: "find (\<lambda>(alpha2, names). n \<in> set names) ALIASES = Some q" by auto
    then have q': "q \<in> set ALIASES" "n \<in> set (snd q)"
      by (auto simp: find_Some_iff in_set_conv_nth)
    with p have "q = p" by (intro alias_owner [of q p n])
    moreover have "lower (fst q) \<in> set (snd q)" using alias_alpha2 q'(1) by blast
    ultimately show ?thesis
      using None q n q'(2) by (simp add: countryAliases_def n_def [symmetric] case_prod_beta insert_absorb
        del: unique.simps)
  qed
  have self: "set (countryAliases v) = {n}" if none: "\<not> (\<exists>p \<in> set ALIASES. n \<in> set (snd p))" and n: "n \<noteq> []"
  proof -
    have "map_of ALIASES (upper n) = None"
    proof (rule ccontr)
      assume "map_of ALIASES (upper n) \<noteq> None"
      then obtain d where "(upper n, d) \<in> set ALIASES" by (auto dest: map_of_SomeD)
      with alias_alpha2 have "lower (upper n) \<in> set d" by fastforce
      with \<open>(upper n, d) \<in> set ALIASES\<close> none show False by (auto simp: n_def lower_upper_lower)
    qed
    moreover have "find (\<lambda>(alpha2, names). n \<in> set names) ALIASES = None"
      using none by (auto simp: find_None_iff)
    ultimately show ?thesis using n by (simp add: countryAliases_def n_def [symmetric])
  qed
  show ?thesis
  proof (cases "n = []")
    case True
    then show ?thesis by (simp add: countryAliases_def n_def)
  next
    case False
    show ?thesis
    proof (cases "\<exists>p \<in> set ALIASES. n \<in> set (snd p)")
      case True
      then obtain p where p: "p \<in> set ALIASES" "n \<in> set (snd p)" by blast
      then have "{q \<in> set ALIASES. n \<in> set (snd q)} = {p}" by (auto intro: alias_owner)
      with p False True row [OF p False] show ?thesis by (simp add: n_def [symmetric] Let_def)
    qed (use False self in \<open>simp add: n_def [symmetric] Let_def\<close>)
  qed
qed

lemma alias_nonempty: "[] \<notin> set (concat (map snd ALIASES))"
  by code_simp

text \<open>
  Country matching is symmetric: a stored spelling matches a requested one exactly when the
  requested one matches the stored one, so it does not matter which side is the database row.
\<close>

lemma countryMatches_sym: "countryMatches a b \<longleftrightarrow> countryMatches b a"
  using alias_nonempty by (auto simp: countryMatches_def set_countryAliases Let_def dest: alias_owner split: if_splits)

end
