(* ===== verification/JsNumber.thy ===== *)
theory JsNumber
  imports Prelude "HOL-Library.Log_Nat"
begin

text \<open>
  Numbers of the sources.  Every amount is a JavaScript number holding an integer of minor units,
  modelled as \<^typ>\<open>int\<close>; the only non-integers are the quotients that \<^verbatim>\<open>Math.round\<close> and
  \<^verbatim>\<open>Math.ceil\<close> are applied to.  \<open>round_div n d\<close> is the exact \<open>round(n / d)\<close> with ties up.
  The second half models IEEE double rounding (53 significant bits, ties to even; exponent range
  ignored) and shows that \<^verbatim>\<open>Math.round(n / d)\<close> computed in doubles is \<open>round_div n d\<close> for every
  numerator below \<open>2^52\<close>, which is what entitles the money models to the exact function.
\<close>

section \<open>Exact rounding of quotients\<close>

definition round_div :: "int \<Rightarrow> int \<Rightarrow> int" where
  "round_div n d = (2 * n + d) div (2 * d)"

definition ceil_div :: "int \<Rightarrow> int \<Rightarrow> int" where
  "ceil_div n d = - ((- n) div d)"

lemma round_div_0 [simp]: "0 < d \<Longrightarrow> round_div 0 d = 0"
  by (simp add: round_div_def)

lemma round_div_nonneg: "0 \<le> n \<Longrightarrow> 0 < d \<Longrightarrow> 0 \<le> round_div n d"
  by (simp add: round_div_def pos_imp_zdiv_nonneg_iff)

lemma round_div_mono: "n \<le> m \<Longrightarrow> 0 < d \<Longrightarrow> round_div n d \<le> round_div m d"
  by (simp add: round_div_def zdiv_mono1)

lemma round_div_cancel [simp]: "0 < d \<Longrightarrow> round_div (k * d) d = k"
  unfolding round_div_def by (rule int_div_pos_eq [where r = d]) (simp_all add: algebra_simps)

lemma round_div_bounds:
  assumes "0 < d"
  shows "2 * n - d < 2 * d * round_div n d" and "2 * d * round_div n d \<le> 2 * n + d"
proof -
  let ?q = "round_div n d"
  have e: "2 * n + d = 2 * d * ?q + (2 * n + d) mod (2 * d)"
    by (simp add: round_div_def)
  have r: "0 \<le> (2 * n + d) mod (2 * d)" "(2 * n + d) mod (2 * d) < 2 * d"
    using assms by simp_all
  from e r show "2 * n - d < 2 * d * ?q" by linarith
  from e r show "2 * d * ?q \<le> 2 * n + d" by linarith
qed

lemma round_div_le_self: "0 \<le> n \<Longrightarrow> 0 \<le> k \<Longrightarrow> k \<le> d \<Longrightarrow> 0 < d \<Longrightarrow> round_div (n * k) d \<le> n"
  using round_div_mono [of "n * k" "n * d" d] by (simp add: mult_left_mono)

lemma round_div_floor: "0 < d \<Longrightarrow> round_div n d = \<lfloor>of_int n / of_int d + 1 / 2 :: rat\<rfloor>"
proof -
  assume d: "0 < d"
  have "of_int n / of_int d + 1 / 2 = (of_int (2 * n + d) / of_int (2 * d) :: rat)"
    using d by (simp add: field_simps)
  then show ?thesis by (simp only: round_div_def floor_divide_of_int_eq)
qed

lemma ceil_div_half_bounds: "n \<le> 2 * ceil_div n 2" "2 * ceil_div n 2 \<le> n + 1"
  unfolding ceil_div_def by presburger+

lemma ceil_div_half: "0 \<le> n \<Longrightarrow> 0 \<le> ceil_div n 2" "0 \<le> n \<Longrightarrow> ceil_div n 2 \<le> n"
  unfolding ceil_div_def by presburger+

section \<open>IEEE doubles\<close>

text \<open>\<open>ilog2 x\<close> is the exponent of a positive rational: \<open>2^e \<le> x < 2^(e+1)\<close>.\<close>

definition ilog2 :: "rat \<Rightarrow> int" where
  "ilog2 x = (let (p, q) = quotient_of x; k = int (floorlog 2 (nat p)) - int (floorlog 2 (nat q))
              in if 2 powi k \<le> x then k else k - 1)"

text \<open>Round half to even.\<close>

definition rne :: "rat \<Rightarrow> int" where
  "rne y = (let f = \<lfloor>y\<rfloor>; r = y - of_int f
            in if r < 1 / 2 then f else if 1 / 2 < r then f + 1 else if even f then f else f + 1)"

text \<open>The double nearest to a non-negative rational.\<close>

definition fl :: "rat \<Rightarrow> rat" where
  "fl x = (if x \<le> 0 then 0 else let e = ilog2 x - 52 in of_int (rne (x / 2 powi e)) * 2 powi e)"

text \<open>\<^verbatim>\<open>Math.round\<close>: the nearest integer, ties towards positive infinity.\<close>

definition math_round :: "rat \<Rightarrow> int" where
  "math_round x = \<lfloor>x + 1 / 2\<rfloor>"

text \<open>\<^verbatim>\<open>Math.round(n / d)\<close> in double arithmetic.\<close>

definition js_round_div :: "int \<Rightarrow> int \<Rightarrow> int" where
  "js_round_div n d = math_round (fl (of_int n / of_int d))"

text \<open>\<^verbatim>\<open>Math.round(a * (n / d))\<close> in double arithmetic: the quotient is rounded, then the product.\<close>

definition js_scale :: "int \<Rightarrow> int \<Rightarrow> int \<Rightarrow> int" where
  "js_scale a n d = math_round (fl (of_int a * fl (of_int n / of_int d)))"

lemma rne_err: "\<bar>of_int (rne y) - y\<bar> \<le> 1 / 2"
proof -
  define f where "f = \<lfloor>y\<rfloor>"
  have "of_int f \<le> y" "y < of_int f + 1"
    unfolding f_def by linarith+
  then show ?thesis by (auto simp: rne_def Let_def f_def [symmetric] abs_if)
qed

lemma rne_of_int [simp]: "rne (of_int k) = k"
  by (simp add: rne_def)

lemma pow2_quot: "(2 :: rat) ^ a / 2 ^ b = 2 powi (int a - int b)"
  by (simp add: power_int_diff)

lemma floorlog_rat:
  assumes "0 < p"
  shows "0 < floorlog 2 (nat p)"
    and "2 ^ (floorlog 2 (nat p) - 1) \<le> (of_int p :: rat)"
    and "(of_int p :: rat) < 2 ^ floorlog 2 (nat p)"
proof -
  have n: "0 < nat p" and c: "(of_int p :: rat) = of_nat (nat p)"
    using assms by simp_all
  show "0 < floorlog 2 (nat p)"
    using n by (simp add: floorlog_def)
  have b: "2 ^ (floorlog 2 (nat p) - 1) \<le> nat p" "nat p < 2 ^ floorlog 2 (nat p)"
    using n floorlog_bounds [of "nat p" 2] by auto
  show "2 ^ (floorlog 2 (nat p) - 1) \<le> (of_int p :: rat)"
    unfolding c using b(1) by (metis of_nat_le_iff of_nat_numeral of_nat_power)
  show "(of_int p :: rat) < 2 ^ floorlog 2 (nat p)"
    unfolding c using b(2) by (metis of_nat_less_iff of_nat_numeral of_nat_power)
qed

lemma ilog2_bounds:
  assumes "0 < x"
  shows "2 powi ilog2 x \<le> x" and "x < 2 powi (ilog2 x + 1)"
proof -
  obtain p q where pq: "quotient_of x = (p, q)" by fastforce
  have q: "0 < q" and x: "x = of_int p / of_int q"
    using pq quotient_of_denom_pos quotient_of_div by auto
  with assms have p: "0 < p"
    by (simp add: zero_less_divide_iff)
  define a b where "a = floorlog 2 (nat p)" and "b = floorlog 2 (nat q)"
  note fa = floorlog_rat [OF p, folded a_def] and fb = floorlog_rat [OF q, folded b_def]
  have "x < 2 ^ a / 2 ^ (b - 1)"
    unfolding x using fa fb p by (intro frac_less) (auto simp: less_imp_le)
  also have "\<dots> = 2 powi (int a - int b + 1)"
    using fb(1) by (simp add: pow2_quot of_nat_diff algebra_simps)
  finally have up: "x < 2 powi (int a - int b + 1)" .
  have "2 powi (int a - int b - 1) = (2 :: rat) ^ (a - 1) / 2 ^ b"
    using fa(1) by (simp add: pow2_quot of_nat_diff algebra_simps)
  also have "\<dots> \<le> x"
    unfolding x using fa fb q p by (intro frac_le) (auto simp: less_imp_le)
  finally have lo: "2 powi (int a - int b - 1) \<le> x" .
  have i: "ilog2 x = (if 2 powi (int a - int b) \<le> x then int a - int b else int a - int b - 1)"
    by (simp add: ilog2_def pq a_def b_def)
  from lo up i show "2 powi ilog2 x \<le> x" and "x < 2 powi (ilog2 x + 1)"
    by (auto split: if_splits)
qed

text \<open>The relative error of a rounding is at most \<open>2^-53\<close>.\<close>

lemma fl_err:
  assumes "0 \<le> x"
  shows "\<bar>fl x - x\<bar> \<le> x / 2 ^ 53"
proof (cases "x = 0")
  case False
  with assms have x: "0 < x" by simp
  define u :: rat where "u = 2 powi (ilog2 x - 52)"
  have u: "0 < u" by (simp add: u_def)
  have "\<bar>fl x - x\<bar> = \<bar>of_int (rne (x / u)) - x / u\<bar> * u"
    using x u by (simp add: fl_def Let_def u_def [symmetric] field_simps abs_mult [symmetric])
  also have "\<dots> \<le> 1 / 2 * u"
    using rne_err u by (intro mult_right_mono) auto
  also have "\<dots> = 2 powi ilog2 x / 2 ^ 53"
    by (simp add: u_def power_int_diff)
  also have "\<dots> \<le> x / 2 ^ 53"
    using ilog2_bounds(1) [OF x] by (intro divide_right_mono) auto
  finally show ?thesis .
qed (simp add: fl_def)

lemma fl_nonneg: "0 \<le> fl x"
proof -
  have "0 \<le> rne y" if "0 \<le> y" for y
    using that by (auto simp: rne_def Let_def)
  then show ?thesis by (auto simp: fl_def Let_def)
qed

text \<open>Half-integers below \<open>2^52\<close> are doubles.\<close>

lemma fl_half_int:
  assumes "0 \<le> m" "m < 2 ^ 53"
  shows "fl (of_int m / 2) = of_int m / 2"
proof (cases "m = 0")
  case False
  define x :: rat where "x = of_int m / 2"
  have x: "0 < x" "x < 2 ^ 52"
    using assms False by (auto simp: x_def)
  have "ilog2 x < 52"
  proof (rule ccontr)
    assume "\<not> ilog2 x < 52"
    then have "(2 :: rat) powi 52 \<le> 2 powi ilog2 x"
      by (intro power_int_increasing) auto
    with ilog2_bounds(1) [OF x(1)] x(2) show False
      by (simp add: power_int_def)
  qed
  then have k: "ilog2 x = 51 - int (nat (51 - ilog2 x))" by simp
  define k where "k = nat (51 - ilog2 x)"
  note k = k [folded k_def]
  have "ilog2 x - 52 = - int (Suc k)" using k by simp
  then have "2 powi (ilog2 x - 52) = inverse ((2 :: rat) ^ Suc k)"
    by (simp only: power_int_minus power_int_of_nat)
  then have "x / 2 powi (ilog2 x - 52) = x * 2 ^ Suc k"
    by (simp only: divide_inverse inverse_inverse_eq)
  also have "\<dots> = of_int (m * 2 ^ k)" by (simp add: x_def)
  finally have c: "x / 2 powi (ilog2 x - 52) = of_int (m * 2 ^ k)" .
  have "x = x / 2 powi (ilog2 x - 52) * 2 powi (ilog2 x - 52)" by simp
  then have "x = of_int (rne (x / 2 powi (ilog2 x - 52))) * 2 powi (ilog2 x - 52)"
    unfolding c rne_of_int .
  then show ?thesis
    using x(1) unfolding fl_def Let_def x_def [symmetric] by simp
qed (simp add: fl_def)

text \<open>
  With a numerator below \<open>2^52\<close> the double quotient never crosses a rounding boundary: the exact
  quotient is either a half-integer, which is itself a double, or at least \<open>1/(2d)\<close> away from one,
  while the rounding error is below that.
\<close>

lemma js_round_div_exact:
  assumes n: "0 \<le> n" "n < 2 ^ 52" and d: "0 < d"
  shows "js_round_div n d = round_div n d"
proof -
  define k where "k = round_div n d"
  define x :: rat where "x = of_int n / of_int d"
  define D :: rat where "D = of_int d"
  have D: "0 < D" using d by (simp add: D_def)
  have xD: "x * D = of_int n" using d by (simp add: x_def D_def)
  note b = round_div_bounds [OF d, of n, folded k_def]
  have nq: "(of_int n :: rat) < 2 ^ 52"
    using n(2) by (metis of_int_less_iff of_int_numeral of_int_power)
  have "\<bar>fl x - x\<bar> * (2 * D) < 1"
  proof -
    have "\<bar>fl x - x\<bar> * (2 * D) \<le> x / 2 ^ 53 * (2 * D)"
      using D n d by (intro mult_right_mono fl_err) (auto simp: x_def)
    also have "\<dots> = of_int n / 2 ^ 52" using xD by (simp add: field_simps)
    also have "\<dots> < 1" using nq by simp
    finally show ?thesis .
  qed
  then have "\<bar>(fl x - x) * (2 * D)\<bar> < 1"
    using D by (simp add: abs_mult)
  then have err: "(fl x - x) * (2 * D) < 1" "(x - fl x) * (2 * D) < 1"
    by (simp_all add: abs_less_iff algebra_simps)
  have up: "fl x < of_int k + 1 / 2"
  proof -
    have "2 * n + 1 \<le> 2 * d * k + d" using b(1) by linarith
    then have "(of_int (2 * n + 1) :: rat) \<le> of_int (2 * d * k + d)" by (rule of_int_le_iff [THEN iffD2])
    then have "x * (2 * D) + 1 \<le> (of_int k + 1 / 2) * (2 * D)"
      using xD by (simp add: D_def [symmetric] algebra_simps)
    with err(1) have "fl x * (2 * D) < (of_int k + 1 / 2) * (2 * D)" by (simp add: algebra_simps)
    with D show ?thesis by simp
  qed
  have lo: "of_int k - 1 / 2 \<le> fl x"
  proof (cases "2 * d * k = 2 * n + d")
    case True
    then have m: "2 * n = (2 * k - 1) * d" by (simp add: algebra_simps)
    then have "(2 :: rat) * of_int n = of_int (2 * k - 1) * D"
      unfolding D_def by (metis of_int_mult of_int_numeral)
    then have "(2 * x) * D = of_int (2 * k - 1) * D" using xD by (simp add: mult.assoc)
    then have "2 * x = of_int (2 * k - 1)" using D by simp
    then have x: "x = of_int (2 * k - 1) / 2" by simp
    have "0 \<le> (2 * k - 1) * d" using m n(1) by simp
    then have k0: "0 \<le> 2 * k - 1" using d by (simp add: zero_le_mult_iff)
    have "(2 * k - 1) * 1 \<le> (2 * k - 1) * d" using k0 d by (intro mult_left_mono) auto
    with m n have "2 * k - 1 < 2 ^ 53" by simp
    with k0 have "fl x = x" unfolding x by (intro fl_half_int)
    with x show ?thesis by simp
  next
    case False
    with b(2) have "2 * d * k + 1 \<le> 2 * n + d" by linarith
    then have "(of_int (2 * d * k + 1) :: rat) \<le> of_int (2 * n + d)" by (rule of_int_le_iff [THEN iffD2])
    then have "(of_int k - 1 / 2) * (2 * D) + 1 \<le> x * (2 * D)"
      using xD by (simp add: D_def [symmetric] algebra_simps)
    with err(2) have "(of_int k - 1 / 2) * (2 * D) < fl x * (2 * D)" by (simp add: algebra_simps)
    with D show ?thesis by simp
  qed
  have "math_round (fl x) = k"
    unfolding math_round_def using up lo by (intro floor_unique) auto
  then show ?thesis by (simp add: js_round_div_def x_def k_def)
qed

text \<open>Scaling by a share \<open>n / d \<le> 1\<close> in doubles never leaves \<open>[0, a]\<close>.\<close>

lemma js_scale_bounds:
  assumes a: "0 \<le> a" "a < 2 ^ 51" and n: "0 \<le> n" "n \<le> d" and d: "0 < d"
  shows "0 \<le> js_scale a n d" and "js_scale a n d \<le> a"
proof -
  define s where "s = fl (of_int n / of_int d)"
  have q: "0 \<le> of_int n / (of_int d :: rat)" "of_int n / (of_int d :: rat) \<le> 1"
    using n d by auto
  have s: "0 \<le> s" "s \<le> 1 + 1 / 2 ^ 53"
    using fl_err [OF q(1)] q by (auto simp: s_def fl_nonneg abs_if split: if_splits)
  have aq: "(of_int a :: rat) < 2 ^ 51"
    using a(2) by (metis of_int_less_iff of_int_numeral of_int_power)
  have a0: "(0 :: rat) \<le> of_int a" using a by simp
  have p: "0 \<le> of_int a * s" using s a by simp
  have ps: "of_int a * s \<le> of_int a * (1 + 1 / 2 ^ 53)"
    using s(2) a0 by (intro mult_left_mono) auto
  have "fl (of_int a * s) \<le> of_int a * s * (1 + 1 / 2 ^ 53)"
    using fl_err [OF p] by (simp add: abs_if algebra_simps split: if_splits)
  also have "\<dots> \<le> of_int a * (1 + 1 / 2 ^ 53) * (1 + 1 / 2 ^ 53)"
    using ps by (intro mult_right_mono) auto
  also have "\<dots> < of_int a + 1 / 2"
    using aq by simp
  finally have "fl (of_int a * s) < of_int a + 1 / 2" .
  then have "math_round (fl (of_int a * s)) \<le> a"
    unfolding math_round_def floor_le_iff by simp
  then show "js_scale a n d \<le> a" by (simp add: js_scale_def s_def)
  show "0 \<le> js_scale a n d"
    by (simp add: js_scale_def math_round_def fl_nonneg add_nonneg_nonneg)
qed

lemma js_scale_0 [simp]: "js_scale 0 n d = 0" "0 < d \<Longrightarrow> js_scale a 0 d = 0"
proof -
  have "math_round 0 = 0" by (simp add: math_round_def floor_eq_iff)
  then show "js_scale 0 n d = 0" "0 < d \<Longrightarrow> js_scale a 0 d = 0"
    by (simp_all add: js_scale_def fl_def)
qed

end
