(* ===== verification/JsSort.thy ===== *)
theory JsSort
  imports Prelude "HOL-Library.Multiset"
begin

text \<open>
  \<^verbatim>\<open>Array.prototype.sort\<close> with a comparator.  ECMAScript sorts stably, so for a consistent
  comparator (an antisymmetric sign and transitive \<open>\<le>\<close>) the result is determined; insertion sort
  computes it.  The locale \<open>js_comparator\<close> is the interface a comparator promises to the callers of
  \<^verbatim>\<open>sort\<close>: it gives sortedness, stability and the rule that the first match of a sorted array is a
  least one.  \<open>cmp_key\<close> and \<open>cmp_lex\<close> are the two comparator shapes of the sources,
  \<^verbatim>\<open>(a, b) => f(a) - f(b)\<close> and \<^verbatim>\<open>c1(a, b) || c2(a, b)\<close>.
\<close>

type_synonym 'a cmp = "'a \<Rightarrow> 'a \<Rightarrow> int"

fun insert_cmp :: "'a cmp \<Rightarrow> 'a \<Rightarrow> 'a list \<Rightarrow> 'a list" where
  "insert_cmp cmp x [] = [x]"
| "insert_cmp cmp x (y # ys) = (if cmp x y \<le> 0 then x # y # ys else y # insert_cmp cmp x ys)"

definition sort_cmp :: "'a cmp \<Rightarrow> 'a list \<Rightarrow> 'a list" where
  "sort_cmp cmp xs = foldr (insert_cmp cmp) xs []"

definition cmp_key :: "('a \<Rightarrow> int) \<Rightarrow> 'a cmp" where
  "cmp_key f a b = f a - f b"

definition cmp_lex :: "'a cmp \<Rightarrow> 'a cmp \<Rightarrow> 'a cmp" where
  "cmp_lex c1 c2 a b = (if c1 a b \<noteq> 0 then c1 a b else c2 a b)"

text \<open>The default order of \<^verbatim>\<open>Array.prototype.sort\<close> on strings.\<close>

fun code_cmp :: "string cmp" where
  "code_cmp [] [] = 0"
| "code_cmp [] (_ # _) = - 1"
| "code_cmp (_ # _) [] = 1"
| "code_cmp (x # xs) (y # ys) =
    (let a = of_char x :: int; b = of_char y in if a < b then - 1 else if b < a then 1 else code_cmp xs ys)"

lemma mset_insert_cmp [simp]: "mset (insert_cmp cmp x ys) = add_mset x (mset ys)"
  by (induction ys) auto

lemma mset_sort_cmp [simp]: "mset (sort_cmp cmp xs) = mset xs"
  by (induction xs) (auto simp: sort_cmp_def)

lemma set_sort_cmp [simp]: "set (sort_cmp cmp xs) = set xs"
  by (metis mset_sort_cmp set_mset_mset)

lemma length_sort_cmp [simp]: "length (sort_cmp cmp xs) = length xs"
  by (metis mset_sort_cmp size_mset)

lemma sum_list_sort_cmp [simp]: "sum_list (map f (sort_cmp cmp xs)) = sum_list (map f xs)" for f :: "'a \<Rightarrow> 'b :: comm_monoid_add"
  by (metis mset_map mset_sort_cmp sum_mset_sum_list)

lemma distinct_sort_cmp [simp]: "distinct (sort_cmp cmp xs) \<longleftrightarrow> distinct xs"
  by (metis mset_sort_cmp mset_eq_imp_distinct_iff)

lemma sort_cmp_Nil [simp]: "sort_cmp cmp [] = []" "sort_cmp cmp xs = [] \<longleftrightarrow> xs = []"
  using length_sort_cmp [of cmp xs] by (auto simp: sort_cmp_def simp del: length_sort_cmp)

lemma sort_cmp_Cons: "sort_cmp cmp (x # xs) = insert_cmp cmp x (sort_cmp cmp xs)"
  by (simp add: sort_cmp_def)

lemma set_insert_cmp [simp]: "set (insert_cmp cmp x ys) = insert x (set ys)"
  by (induction ys) auto

locale js_comparator =
  fixes cmp :: "'a cmp"
  assumes cmp_flip: "cmp x y \<le> 0 \<longleftrightarrow> 0 \<le> cmp y x"
    and cmp_trans: "cmp x y \<le> 0 \<Longrightarrow> cmp y z \<le> 0 \<Longrightarrow> cmp x z \<le> 0"
begin

lemma cmp_refl: "cmp x x = 0"
  using cmp_flip [of x x] by linarith

lemma cmp_total: "cmp x y \<le> 0 \<or> cmp y x \<le> 0"
  using cmp_flip [of y x] by linarith

lemma sorted_insert:
  "sorted_wrt (\<lambda>a b. cmp a b \<le> 0) ys \<Longrightarrow> sorted_wrt (\<lambda>a b. cmp a b \<le> 0) (insert_cmp cmp x ys)"
proof (induction ys)
  case (Cons y ys)
  show ?case
  proof (cases "cmp x y \<le> 0")
    case True
    with Cons.prems show ?thesis by (auto intro: cmp_trans)
  next
    case False
    then have "cmp y x \<le> 0" using cmp_total by blast
    with False Cons show ?thesis by auto
  qed
qed simp

lemma sorted_sort: "sorted_wrt (\<lambda>a b. cmp a b \<le> 0) (sort_cmp cmp xs)"
  by (induction xs) (simp_all add: sort_cmp_Cons sorted_insert)

lemma filter_insert_equal:
  "cmp x z = 0 \<Longrightarrow> filter (\<lambda>y. cmp y z = 0) (insert_cmp cmp x ys) = x # filter (\<lambda>y. cmp y z = 0) ys"
proof (induction ys)
  case (Cons y ys)
  show ?case
  proof (cases "cmp x y \<le> 0")
    case False
    have "cmp y z \<noteq> 0"
    proof
      assume yz: "cmp y z = 0"
      with cmp_flip [of y z] cmp_flip [of z y] have "cmp z y \<le> 0" by auto
      with Cons.prems have "cmp x y \<le> 0" by (intro cmp_trans [of x z y]) auto
      with False show False by simp
    qed
    with False Cons show ?thesis by simp
  qed (simp add: Cons.prems)
qed simp

lemma filter_insert_other:
  "cmp x z \<noteq> 0 \<Longrightarrow> filter (\<lambda>y. cmp y z = 0) (insert_cmp cmp x ys) = filter (\<lambda>y. cmp y z = 0) ys"
  by (induction ys) auto

text \<open>Stability: elements that compare equal keep the order they had.\<close>

lemma sort_stable: "filter (\<lambda>y. cmp y z = 0) (sort_cmp cmp xs) = filter (\<lambda>y. cmp y z = 0) xs"
  by (induction xs) (simp_all add: sort_cmp_Cons filter_insert_equal filter_insert_other)

text \<open>The first match in a sorted array is a least match.\<close>

lemma find_sort_least:
  assumes "find P (sort_cmp cmp xs) = Some y"
  shows "y \<in> set xs" and "P y" and "\<And>z. z \<in> set xs \<Longrightarrow> P z \<Longrightarrow> cmp y z \<le> 0"
proof -
  from assms obtain i where i: "i < length xs" "P (sort_cmp cmp xs ! i)" "y = sort_cmp cmp xs ! i"
      "\<And>j. j < i \<Longrightarrow> \<not> P (sort_cmp cmp xs ! j)"
    by (auto simp: find_Some_iff)
  show "y \<in> set xs" using i(1,3) nth_mem [of i "sort_cmp cmp xs"] by simp
  show "P y" using i(2,3) by simp
  fix z assume z: "z \<in> set xs" "P z"
  then obtain j where j: "j < length xs" "z = sort_cmp cmp xs ! j"
    using in_set_conv_nth [of z "sort_cmp cmp xs"] by auto
  show "cmp y z \<le> 0"
  proof (cases i j rule: linorder_cases)
    case less
    then show ?thesis using sorted_sort i j by (auto simp: sorted_wrt_iff_nth_less)
  next
    case equal
    then show ?thesis using i j by (simp add: cmp_refl)
  next
    case greater
    then show ?thesis using i(4) j z by blast
  qed
qed

lemma find_sort_None: "find P (sort_cmp cmp xs) = None \<longleftrightarrow> (\<forall>x\<in>set xs. \<not> P x)"
  by (auto simp: find_None_iff)

text \<open>Filtering commutes with sorting, and sorting a sorted array changes nothing.\<close>

lemma filter_insert_cmp:
  "sorted_wrt (\<lambda>a b. cmp a b \<le> 0) ys \<Longrightarrow>
    filter P (insert_cmp cmp x ys) = (if P x then insert_cmp cmp x (filter P ys) else filter P ys)"
proof (induction ys)
  case (Cons y ys)
  note sorted = Cons.prems
  have "insert_cmp cmp x (filter P ys) = x # filter P ys" if "cmp x y \<le> 0"
  proof (cases "filter P ys")
    case (Cons z zs)
    then have "z \<in> set ys" by (metis filter_eq_ConsD in_set_conv_decomp)
    with sorted that have "cmp x z \<le> 0" by (auto intro: cmp_trans)
    with Cons show ?thesis by simp
  qed simp
  with Cons show ?case by auto
qed simp

lemma filter_sort: "filter P (sort_cmp cmp xs) = sort_cmp cmp (filter P xs)"
  by (induction xs) (simp_all add: sort_cmp_Cons filter_insert_cmp sorted_sort)

lemma sort_sorted: "sorted_wrt (\<lambda>a b. cmp a b \<le> 0) xs \<Longrightarrow> sort_cmp cmp xs = xs"
proof (induction xs)
  case (Cons x xs)
  then show ?case by (cases xs) (simp_all add: sort_cmp_Cons)
qed simp

lemma sort_sort: "sort_cmp cmp (sort_cmp cmp xs) = sort_cmp cmp xs"
  by (rule sort_sorted [OF sorted_sort])

end

lemma js_comparator_key: "js_comparator (cmp_key f)"
  by unfold_locales (auto simp: cmp_key_def)

lemma js_comparator_lex:
  assumes "js_comparator c1" "js_comparator c2"
  shows "js_comparator (cmp_lex c1 c2)"
proof -
  note f1 = js_comparator.cmp_flip [OF assms(1)] and f2 = js_comparator.cmp_flip [OF assms(2)]
  note t1 = js_comparator.cmp_trans [OF assms(1)] and t2 = js_comparator.cmp_trans [OF assms(2)]
  show ?thesis
  proof
    fix x y
    show "cmp_lex c1 c2 x y \<le> 0 \<longleftrightarrow> 0 \<le> cmp_lex c1 c2 y x"
      using f1 [of x y] f1 [of y x] f2 [of x y] by (auto simp: cmp_lex_def)
  next
    fix x y z
    assume "cmp_lex c1 c2 x y \<le> 0" "cmp_lex c1 c2 y z \<le> 0"
    then show "cmp_lex c1 c2 x z \<le> 0"
      using t1 [of x y z] t1 [of y z x] t1 [of z x y] t2 [of x y z]
        f1 [of x y] f1 [of y z] f1 [of z x] f1 [of y x] f1 [of z y] f1 [of x z]
      by (auto simp: cmp_lex_def split: if_splits)
  qed
qed

end
