(* ===== verification/TaxCalculator.thy ===== *)
theory TaxCalculator
  imports JsNumber JsSort Regions
begin

text \<open>
  The tax engine, \<^verbatim>\<open>apps/api/src/pricing/tax-calculator.ts\<close>: rule selection, the refusal of
  tickets that the classified rules cannot rate, the per-ticket group contest, the discount
  apportionment, and the lines that one levy reaches the receipt as.

  A \<^verbatim>\<open>Map<TaxRuleInput, number>\<close> is keyed by the identity of the rule object; rules are identified
  by their position in the selected list, so the map is \<open>nat \<rightharpoonup> int\<close>.  \<^verbatim>\<open>localeCompare\<close> depends on the
  run-time's locale data and is the parameter \<open>lc\<close>; \<^verbatim>\<open>new Date()\<close> is the parameter \<open>now\<close>.
\<close>

section \<open>Data\<close>

datatype tax_base = TICKETS | FEES | TICKETS_AND_FEES | MAINTENANCE | PLATFORM_SERVICES

datatype tax_split = SplitNone | CGST_SGST

record tax_rule =
  tr_label :: string
  tr_rateBasisPoints :: bps
  tr_appliesTo :: tax_base
  tr_country :: "string option"
  tr_region :: "string option"
  tr_currency :: "string option"
  tr_priority :: "int option"
  tr_active :: "bool option"
  tr_effectiveFrom :: "time_ms option"
  tr_effectiveTo :: "time_ms option"
  tr_taxGroup :: "string option"
  tr_category :: "string option"
  tr_minUnitMinor :: "minor option"
  tr_maxUnitMinor :: "minor option"
  tr_inclusive :: bool
  tr_split :: "tax_split option"

record tax_place =
  tp_country :: "string option"
  tp_region :: "string option"
  tp_supplierRegion :: "string option"
  tp_customerRegion :: "string option"
  tp_platformRegion :: "string option"
  tp_currency :: "string option"
  tp_at :: "time_ms option"

record admission_line =
  al_unitPriceMinor :: minor
  al_quantity :: int
  al_category :: "string option"

record tax_line =
  tl_label :: string
  tl_rateBasisPoints :: bps
  tl_baseMinor :: minor
  tl_amountMinor :: minor
  tl_basis :: tax_base
  tl_inclusive :: bool

record tax_calc_result =
  tc_taxLines :: "tax_line list"
  tc_taxMinor :: minor
  tc_taxAddedMinor :: minor

datatype gap_code = TAX_CLASSIFICATION_MISSING | TAX_RULE_NOT_FOUND

record classification_gap =
  gap_code :: gap_code
  gap_category :: "string option"
  gap_unitPriceMinor :: minor
  gap_lineIndex :: int

datatype tax_error =
    TaxClassificationError "classification_gap list"
  | ScopedRuleNeedsLines string

record tax_calc_input =
  ti_netSubtotalMinor :: minor
  ti_grossSubtotalMinor :: "minor option"
  ti_admissionLines :: "admission_line list option"
  ti_customerFeeMinor :: minor
  ti_maintenanceMinor :: "minor option"
  ti_rules :: "tax_rule list"
  ti_place :: tax_place

definition no_place :: tax_place where
  "no_place = \<lparr>tp_country = None, tp_region = None, tp_supplierRegion = None, tp_customerRegion = None,
     tp_platformRegion = None, tp_currency = None, tp_at = None\<rparr>"

section \<open>Selecting rules\<close>

definition WILDCARD :: string where
  "WILDCARD = ''*''"

definition matches :: "string option \<Rightarrow> string option \<Rightarrow> bool" where
  "matches ruleValue actual \<longleftrightarrow>
    (let rule = trim (nvl ruleValue WILDCARD) in
     if rule = WILDCARD \<or> rule = [] then True
     else case actual of None \<Rightarrow> False | Some a \<Rightarrow> upper rule = upper (trim a))"

definition inEffect :: "tax_rule \<Rightarrow> time_ms \<Rightarrow> bool" where
  "inEffect rule t \<longleftrightarrow>
    (case tr_effectiveFrom rule of None \<Rightarrow> True | Some from \<Rightarrow> \<not> t < from) \<and>
    (case tr_effectiveTo rule of None \<Rightarrow> True | Some to \<Rightarrow> \<not> to \<le> t)"

definition rule_cmp :: "string cmp \<Rightarrow> tax_rule cmp" where
  "rule_cmp lc = cmp_lex (cmp_key (\<lambda>r. nvl (tr_priority r) 100)) (\<lambda>a b. lc (tr_label a) (tr_label b))"

definition rule_applies :: "tax_place \<Rightarrow> time_ms \<Rightarrow> tax_rule \<Rightarrow> bool" where
  "rule_applies place t r \<longleftrightarrow>
    tr_active r \<noteq> Some False \<and> inEffect r t \<and>
    matches (tr_country r) (tp_country place) \<and> matches (tr_region r) (tp_region place) \<and>
    matches (tr_currency r) (tp_currency place)"

definition selectTaxRules :: "string cmp \<Rightarrow> time_ms \<Rightarrow> tax_rule list \<Rightarrow> tax_place \<Rightarrow> tax_rule list" where
  "selectTaxRules lc now rules place =
    sort_cmp (rule_cmp lc) (filter (rule_applies place (nvl (tp_at place) now)) rules)"

section \<open>Classification of tickets\<close>

definition inBand :: "tax_rule \<Rightarrow> admission_line \<Rightarrow> bool" where
  "inBand rule line \<longleftrightarrow>
    (case tr_minUnitMinor rule of None \<Rightarrow> True | Some lo \<Rightarrow> \<not> al_unitPriceMinor line < lo) \<and>
    (case tr_maxUnitMinor rule of None \<Rightarrow> True | Some hi \<Rightarrow> \<not> hi < al_unitPriceMinor line)"

definition isTicketRule :: "tax_rule \<Rightarrow> bool" where
  "isTicketRule rule \<longleftrightarrow> tr_appliesTo rule = TICKETS \<or> tr_appliesTo rule = TICKETS_AND_FEES"

definition namesCategory :: "tax_rule \<Rightarrow> bool" where
  "namesCategory rule \<longleftrightarrow>
    (let category = trim (nvl (tr_category rule) WILDCARD) in category \<noteq> [] \<and> category \<noteq> WILDCARD)"

definition groupOf :: "tax_rule \<Rightarrow> string" where
  "groupOf rule = trim (nvl (tr_taxGroup rule) [])"

definition isClassifiedTicketRule :: "tax_rule \<Rightarrow> bool" where
  "isClassifiedTicketRule rule \<longleftrightarrow> isTicketRule rule \<and> groupOf rule \<noteq> []"

definition line_total :: "admission_line \<Rightarrow> minor" where
  "line_total line = al_unitPriceMinor line * al_quantity line"

definition line_category :: "admission_line \<Rightarrow> string option" where
  "line_category line =
    (case al_category line of None \<Rightarrow> None | Some c \<Rightarrow> if trim c = [] then None else Some (trim c))"

definition line_gap :: "tax_rule list \<Rightarrow> string list \<Rightarrow> nat \<times> admission_line \<Rightarrow> classification_gap list" where
  "line_gap classified groups il =
    (case il of (i, line) \<Rightarrow>
      if line_total line \<le> 0 then []
      else case line_category line of
        None \<Rightarrow> [\<lparr>gap_code = TAX_CLASSIFICATION_MISSING, gap_category = None,
                  gap_unitPriceMinor = al_unitPriceMinor line, gap_lineIndex = int i\<rparr>]
      | Some category \<Rightarrow>
          if \<exists>group \<in> set groups. \<not> (\<exists>r \<in> set classified.
               groupOf r = group \<and> namesCategory r \<and> matches (tr_category r) (Some category) \<and> inBand r line)
          then [\<lparr>gap_code = TAX_RULE_NOT_FOUND, gap_category = Some category,
                 gap_unitPriceMinor = al_unitPriceMinor line, gap_lineIndex = int i\<rparr>]
          else [])"

definition admissionClassificationGaps :: "tax_rule list \<Rightarrow> admission_line list \<Rightarrow> classification_gap list" where
  "admissionClassificationGaps rules lines =
    (let classified = filter isClassifiedTicketRule rules in
     if classified = [] then []
     else concat (map (line_gap classified (unique (map groupOf classified))) (enumerate 0 lines)))"

definition requiresTaxClassification :: "string cmp \<Rightarrow> time_ms \<Rightarrow> tax_rule list \<Rightarrow> tax_place \<Rightarrow> bool" where
  "requiresTaxClassification lc now rules place \<longleftrightarrow>
    (\<exists>r \<in> set (selectTaxRules lc now rules place). isClassifiedTicketRule r)"

definition error_code :: "classification_gap list \<Rightarrow> gap_code" where
  "error_code gaps =
    (if \<exists>g \<in> set gaps. gap_code g = TAX_CLASSIFICATION_MISSING then TAX_CLASSIFICATION_MISSING
     else TAX_RULE_NOT_FOUND)"

definition isScoped :: "tax_rule \<Rightarrow> bool" where
  "isScoped rule \<longleftrightarrow>
    tr_minUnitMinor rule \<noteq> None \<or> tr_maxUnitMinor rule \<noteq> None \<or>
    (case tr_category rule of None \<Rightarrow> False | Some c \<Rightarrow> trim c \<noteq> WILDCARD)"

section \<open>Presentation of one levy\<close>

definition crossesStateBorder :: "tax_rule \<Rightarrow> tax_place \<Rightarrow> bool" where
  "crossesStateBorder rule place \<longleftrightarrow>
    (let isFee = (tr_appliesTo rule = FEES);
         supply = (if isFee then tp_customerRegion place else tp_region place);
         supplier = (if isFee then tp_platformRegion place else tp_supplierRegion place)
     in if blank supply \<or> blank supplier then False else \<not> regionMatches supply supplier)"

definition splitComponents :: "tax_rule \<Rightarrow> bps \<Rightarrow> bool \<Rightarrow> (string \<times> bps) list" where
  "splitComponents rule rate interState =
    (if nvl (tr_split rule) SplitNone \<noteq> CGST_SGST then [(tr_label rule, rate)]
     else if interState then [(''IGST'', rate)]
     else let half = round_div rate 2 in [(''CGST'', half), (''SGST'', rate - half)])"

fun split_shares :: "minor \<Rightarrow> bps \<Rightarrow> bps \<Rightarrow> minor \<Rightarrow> bps list \<Rightarrow> minor list" where
  "split_shares totalMinor rateSum cumulative allocated [] = []"
| "split_shares totalMinor rateSum cumulative allocated [rate] = [totalMinor - allocated]"
| "split_shares totalMinor rateSum cumulative allocated (rate # next # rest) =
    (let cumulative' = cumulative + rate; upTo = round_div (totalMinor * cumulative') rateSum
     in (upTo - allocated) # split_shares totalMinor rateSum cumulative' upTo (next # rest))"

definition splitTaxAmount :: "minor \<Rightarrow> bps list \<Rightarrow> minor list" where
  "splitTaxAmount totalMinor rates =
    (if length rates \<le> 1 then [totalMinor]
     else let rateSum = sum_list rates in
       if rateSum \<le> 0 then totalMinor # replicate (length rates - 1) 0
       else split_shares totalMinor rateSum 0 0 rates)"

section \<open>Computing the tax of one order\<close>

type_synonym gross_map = "nat \<rightharpoonup> minor"
type_synonym indexed_rule = "nat \<times> tax_rule"

definition addGross :: "gross_map \<Rightarrow> nat \<Rightarrow> minor \<Rightarrow> gross_map" where
  "addGross g i amount = g(i \<mapsto> nvl (g i) 0 + amount)"

definition baseFor :: "tax_rule \<Rightarrow> minor \<Rightarrow> minor \<Rightarrow> minor \<Rightarrow> minor" where
  "baseFor rule net customerFee maintenance =
    (case tr_appliesTo rule of
       TICKETS \<Rightarrow> net
     | FEES \<Rightarrow> customerFee
     | TICKETS_AND_FEES \<Rightarrow> net + customerFee
     | MAINTENANCE \<Rightarrow> maintenance
     | PLATFORM_SERVICES \<Rightarrow> 0)"

text \<open>The rules that rate one admission line; a group already taken is skipped.\<close>

definition rule_rates_line :: "admission_line \<Rightarrow> tax_rule \<Rightarrow> bool" where
  "rule_rates_line line rule \<longleftrightarrow>
    matches (tr_category rule) (al_category line) \<and> inBand rule line \<and>
    \<not> (isClassifiedTicketRule rule \<and> \<not> namesCategory rule)"

fun rate_line :: "admission_line \<Rightarrow> string set \<Rightarrow> indexed_rule list \<Rightarrow> gross_map \<Rightarrow> gross_map" where
  "rate_line line taken [] g = g"
| "rate_line line taken ((i, rule) # rules) g =
    (if \<not> rule_rates_line line rule then rate_line line taken rules g
     else if groupOf rule \<noteq> [] \<and> groupOf rule \<in> taken then rate_line line taken rules g
     else rate_line line (if groupOf rule \<noteq> [] then insert (groupOf rule) taken else taken) rules
            (addGross g i (line_total line)))"

fun rate_lines :: "indexed_rule list \<Rightarrow> admission_line list \<Rightarrow> gross_map \<Rightarrow> gross_map" where
  "rate_lines rules [] g = g"
| "rate_lines rules (line # lines) g =
    rate_lines rules lines (if line_total line \<le> 0 then g else rate_line line {} rules g)"

definition apportion :: "minor \<Rightarrow> minor \<Rightarrow> indexed_rule list \<Rightarrow> gross_map \<Rightarrow> gross_map" where
  "apportion net gross ticketRules g =
    (if 0 < gross \<and> net < gross
     then (\<lambda>i. case g i of None \<Rightarrow> None
               | Some atList \<Rightarrow> if i \<in> fst ` set ticketRules then Some (js_scale atList net gross) else Some atList)
     else g)"

fun rate_total :: "minor \<Rightarrow> minor \<Rightarrow> indexed_rule list \<Rightarrow> gross_map \<Rightarrow> tax_error + gross_map" where
  "rate_total net maintenance [] g = Inr g"
| "rate_total net maintenance ((i, rule) # rules) g =
    (if isClassifiedTicketRule rule then
       (if net \<le> 0 then rate_total net maintenance rules g
        else Inl (TaxClassificationError [\<lparr>gap_code = TAX_CLASSIFICATION_MISSING, gap_category = None,
                    gap_unitPriceMinor = net, gap_lineIndex = -1\<rparr>]))
     else if isScoped rule then Inl (ScopedRuleNeedsLines (tr_label rule))
     else rate_total net maintenance rules (addGross g i (baseFor rule net 0 maintenance)))"

text \<open>One supply for the whole order (the fee, a maintenance charge): each group is contested once.\<close>

fun contest :: "minor \<Rightarrow> string set \<Rightarrow> indexed_rule list \<Rightarrow> gross_map \<Rightarrow> gross_map" where
  "contest amount taken [] g = g"
| "contest amount taken ((i, rule) # rules) g =
    (if groupOf rule \<noteq> [] \<and> groupOf rule \<in> taken then contest amount taken rules g
     else contest amount (if groupOf rule \<noteq> [] then insert (groupOf rule) taken else taken) rules
            (addGross g i amount))"

definition is_fee_rule :: "tax_rule \<Rightarrow> bool" where
  "is_fee_rule r \<longleftrightarrow> tr_appliesTo r = FEES \<or> tr_appliesTo r = TICKETS_AND_FEES"

definition taxable_of :: "tax_rule \<Rightarrow> minor \<Rightarrow> minor" where
  "taxable_of rule gross =
    (if tr_inclusive rule then round_div (gross * 10000) (10000 + tr_rateBasisPoints rule) else gross)"

definition levy_of :: "tax_rule \<Rightarrow> minor \<Rightarrow> minor" where
  "levy_of rule gross =
    (if tr_inclusive rule then gross - taxable_of rule gross
     else round_div (taxable_of rule gross * tr_rateBasisPoints rule) 10000)"

definition rule_charged :: "tax_rule \<Rightarrow> minor \<Rightarrow> bool" where
  "rule_charged rule gross \<longleftrightarrow> 0 < gross \<and> \<not> (tr_rateBasisPoints rule \<le> 0 \<and> \<not> isScoped rule)"

definition rule_lines :: "tax_place \<Rightarrow> gross_map \<Rightarrow> indexed_rule \<Rightarrow> tax_line list" where
  "rule_lines place g ir =
    (case ir of (i, rule) \<Rightarrow>
      let gross = nvl (g i) 0 in
      if \<not> rule_charged rule gross then []
      else let components = splitComponents rule (tr_rateBasisPoints rule) (crossesStateBorder rule place);
               amounts = splitTaxAmount (levy_of rule gross) (map snd components)
           in map (\<lambda>((label, rate), amount).
                \<lparr>tl_label = label, tl_rateBasisPoints = rate, tl_baseMinor = taxable_of rule gross,
                 tl_amountMinor = amount, tl_basis = tr_appliesTo rule, tl_inclusive = tr_inclusive rule\<rparr>)
              (zip components amounts))"

definition gross_by_rule :: "tax_calc_input \<Rightarrow> tax_rule list \<Rightarrow> tax_error + gross_map" where
  "gross_by_rule input applicable =
    (let net = max 0 (ti_netSubtotalMinor input);
         custFee = max 0 (ti_customerFeeMinor input);
         maintenance = max 0 (nvl (ti_maintenanceMinor input) 0);
         indexed = enumerate 0 applicable;
         ticketRules = filter (isTicketRule \<circ> snd) indexed;
         feeRules = filter (is_fee_rule \<circ> snd) indexed;
         maintenanceRules = filter (\<lambda>ir. tr_appliesTo (snd ir) = MAINTENANCE) indexed
     in rbind
          (case ti_admissionLines input of
             Some lines \<Rightarrow>
               (let gaps = admissionClassificationGaps applicable lines in
                if gaps \<noteq> [] then Inl (TaxClassificationError gaps)
                else Inr (apportion net (nvl (ti_grossSubtotalMinor input) 0) ticketRules
                            (rate_lines ticketRules lines Map.empty)))
           | None \<Rightarrow> rate_total net maintenance ticketRules Map.empty)
          (\<lambda>g. let g1 = (if 0 < maintenance then contest maintenance {} maintenanceRules g else g);
                   g2 = (if 0 < custFee then contest custFee {} feeRules g1 else g1)
               in Inr g2))"

definition taxes_of :: "tax_place \<Rightarrow> tax_rule list \<Rightarrow> gross_map \<Rightarrow> tax_calc_result" where
  "taxes_of place applicable g =
    (let lines = concat (map (rule_lines place g) (enumerate 0 applicable))
     in \<lparr>tc_taxLines = lines,
         tc_taxMinor = sum_list (map tl_amountMinor lines),
         tc_taxAddedMinor = sum_list (map tl_amountMinor (filter (\<lambda>l. \<not> tl_inclusive l) lines))\<rparr>)"

definition computeTax :: "string cmp \<Rightarrow> time_ms \<Rightarrow> tax_calc_input \<Rightarrow> tax_error + tax_calc_result" where
  "computeTax lc now input =
    (let applicable = selectTaxRules lc now (ti_rules input) (ti_place input)
     in rbind (gross_by_rule input applicable) (\<lambda>g. Inr (taxes_of (ti_place input) applicable g)))"

section \<open>Reference notions\<close>

text \<open>What one rule charges, whatever the lines it is presented as; and what the rules of one group collect.\<close>

definition rule_tax :: "gross_map \<Rightarrow> indexed_rule \<Rightarrow> minor" where
  "rule_tax g ir = (let gross = nvl (g (fst ir)) 0 in if rule_charged (snd ir) gross then levy_of (snd ir) gross else 0)"

definition group_sum :: "string \<Rightarrow> indexed_rule list \<Rightarrow> gross_map \<Rightarrow> minor" where
  "group_sum G rules g = sum_list (map (\<lambda>ir. if groupOf (snd ir) = G then nvl (g (fst ir)) 0 else 0) rules)"

text \<open>A sample rule table, for evaluating the model: India's cinema admission rate and the fee rate.\<close>

definition ex_cinema_rule :: tax_rule where
  "ex_cinema_rule = \<lparr>tr_label = ''GST'', tr_rateBasisPoints = 1800, tr_appliesTo = TICKETS, tr_country = Some ''IN'',
     tr_region = None, tr_currency = None, tr_priority = None, tr_active = Some True, tr_effectiveFrom = None,
     tr_effectiveTo = None, tr_taxGroup = Some ''admission'', tr_category = Some ''MOVIE'', tr_minUnitMinor = Some 10001,
     tr_maxUnitMinor = None, tr_inclusive = True, tr_split = Some CGST_SGST\<rparr>"

definition ex_fee_rule :: tax_rule where
  "ex_fee_rule = \<lparr>tr_label = ''GST on fees'', tr_rateBasisPoints = 1800, tr_appliesTo = FEES, tr_country = None,
     tr_region = None, tr_currency = None, tr_priority = Some 10, tr_active = None, tr_effectiveFrom = None,
     tr_effectiveTo = None, tr_taxGroup = None, tr_category = None, tr_minUnitMinor = None, tr_maxUnitMinor = None,
     tr_inclusive = False, tr_split = Some CGST_SGST\<rparr>"

definition ex_seats :: "admission_line list" where
  "ex_seats = [\<lparr>al_unitPriceMinor = 25000, al_quantity = 2, al_category = Some ''movie''\<rparr>]"

definition ex_tax_input :: tax_calc_input where
  "ex_tax_input = \<lparr>ti_netSubtotalMinor = 50000, ti_grossSubtotalMinor = Some 50000, ti_admissionLines = Some ex_seats,
     ti_customerFeeMinor = 3527, ti_maintenanceMinor = None, ti_rules = [ex_cinema_rule, ex_fee_rule],
     ti_place = no_place\<lparr>tp_country := Some ''IN''\<rparr>\<rparr>"

section \<open>One levy, one amount\<close>

lemma sum_split_shares:
  "rates \<noteq> [] \<Longrightarrow> sum_list (split_shares totalMinor rateSum c a rates) = totalMinor - a"
  by (induction totalMinor rateSum c a rates rule: split_shares.induct) (auto simp: Let_def)

lemma length_split_shares: "length (split_shares totalMinor rateSum c a rates) = length rates"
  by (induction totalMinor rateSum c a rates rule: split_shares.induct) (auto simp: Let_def)

lemma sum_splitTaxAmount [simp]: "sum_list (splitTaxAmount totalMinor rates) = totalMinor"
  by (cases rates) (auto simp: splitTaxAmount_def Let_def sum_list_replicate sum_split_shares)

lemma length_splitTaxAmount: "rates \<noteq> [] \<Longrightarrow> length (splitTaxAmount totalMinor rates) = length rates"
  by (cases rates) (auto simp: splitTaxAmount_def Let_def length_split_shares)

lemma splitComponents_nonempty: "splitComponents rule rate b \<noteq> []"
  by (auto simp: splitComponents_def Let_def)

lemma sum_splitComponents: "sum_list (map snd (splitComponents rule rate b)) = rate"
  by (auto simp: splitComponents_def Let_def)

text \<open>
  Dividing a tax amount between the components it is presented as loses nothing: the parts are
  as many as the components and add back to the amount exactly, whatever the rates.
\<close>

lemma splitTaxAmount_exact:
  "rates \<noteq> [] \<Longrightarrow>
    length (splitTaxAmount totalMinor rates) = length rates \<and> sum_list (splitTaxAmount totalMinor rates) = totalMinor"
  by (simp add: length_splitTaxAmount)

lemma splitTaxAmount_exact_witness:
  "length (splitTaxAmount 635 [900, 900]) = 2 \<and> sum_list (splitTaxAmount 635 [900, 900]) = 635
   \<and> splitTaxAmount 635 [900, 900] = [318, 317]"
  using splitTaxAmount_exact [of "[900, 900]" 635]
  by (simp add: splitTaxAmount_def Let_def round_div_def)

lemma sum_rule_lines: "sum_list (map tl_amountMinor (rule_lines place g ir)) = rule_tax g ir"
proof (cases ir)
  case (Pair i rule)
  let ?gross = "nvl (g i) 0"
  let ?cs = "splitComponents rule (tr_rateBasisPoints rule) (crossesStateBorder rule place)"
  let ?as = "splitTaxAmount (levy_of rule ?gross) (map snd ?cs)"
  have "length ?as = length ?cs"
    using length_splitTaxAmount [of "map snd ?cs"] splitComponents_nonempty by simp
  then have "map snd (zip ?cs ?as) = ?as" by simp
  then show ?thesis
    by (simp add: Pair rule_lines_def rule_tax_def Let_def comp_def case_prod_beta)
qed

lemma rule_lines_inclusive: "l \<in> set (rule_lines place g ir) \<Longrightarrow> tl_inclusive l = tr_inclusive (snd ir)"
  by (auto simp: rule_lines_def Let_def case_prod_beta split: prod.splits if_splits)

lemma sum_rule_lines_added:
  "sum_list (map tl_amountMinor (filter (\<lambda>l. \<not> tl_inclusive l) (rule_lines place g ir))) =
    (if tr_inclusive (snd ir) then 0 else rule_tax g ir)"
proof -
  have "filter (\<lambda>l. \<not> tl_inclusive l) (rule_lines place g ir) =
      (if tr_inclusive (snd ir) then [] else rule_lines place g ir)"
    by (auto simp: filter_empty_conv rule_lines_inclusive intro!: filter_True)
  then show ?thesis by (simp add: sum_rule_lines)
qed

lemma taxMinor_rules:
  "tc_taxMinor (taxes_of place applicable g) = sum_list (map (rule_tax g) (enumerate 0 applicable))"
  by (simp add: taxes_of_def Let_def sum_list_map_concat comp_def sum_rule_lines)

lemma taxAddedMinor_rules:
  "tc_taxAddedMinor (taxes_of place applicable g) =
    sum_list (map (\<lambda>ir. if tr_inclusive (snd ir) then 0 else rule_tax g ir) (enumerate 0 applicable))"
  by (simp add: taxes_of_def Let_def filter_concat sum_list_map_concat comp_def sum_rule_lines_added)

lemma selectTaxRules_place:
  "tp_country p = tp_country q \<Longrightarrow> tp_region p = tp_region q \<Longrightarrow> tp_currency p = tp_currency q \<Longrightarrow>
   tp_at p = tp_at q \<Longrightarrow> selectTaxRules lc now rules p = selectTaxRules lc now rules q"
  by (simp add: selectTaxRules_def rule_applies_def cong: filter_cong)

lemma gross_by_rule_place: "gross_by_rule (input\<lparr>ti_place := p\<rparr>) applicable = gross_by_rule input applicable"
  by (simp add: gross_by_rule_def Let_def split: option.split)

text \<open>
  C36.  The presentation of a levy never moves the price: whatever the seller's, the buyer's and the
  platform's states are (and so whether the levy is shown as CGST and SGST or as IGST), the same order
  is refused for the same reason or charged exactly the same tax, in total and on top of the price.
\<close>

theorem computeTax_state_independent:
  "map_sum id (\<lambda>r. (tc_taxMinor r, tc_taxAddedMinor r))
     (computeTax lc now (input\<lparr>ti_place := p\<lparr>tp_supplierRegion := s, tp_customerRegion := c, tp_platformRegion := q\<rparr>\<rparr>)) =
   map_sum id (\<lambda>r. (tc_taxMinor r, tc_taxAddedMinor r)) (computeTax lc now (input\<lparr>ti_place := p\<rparr>))"
proof -
  let ?p = "p\<lparr>tp_supplierRegion := s, tp_customerRegion := c, tp_platformRegion := q\<rparr>"
  have sel: "selectTaxRules lc now (ti_rules input) ?p = selectTaxRules lc now (ti_rules input) p"
    by (rule selectTaxRules_place) simp_all
  show ?thesis
    by (cases "gross_by_rule input (selectTaxRules lc now (ti_rules input) p)")
      (simp_all add: computeTax_def Let_def sel gross_by_rule_place taxMinor_rules taxAddedMinor_rules)
qed

section \<open>Inclusive and exclusive amounts\<close>

lemma taxable_le_gross:
  "0 \<le> gross \<Longrightarrow> 0 \<le> tr_rateBasisPoints rule \<Longrightarrow> 0 \<le> taxable_of rule gross \<and> taxable_of rule gross \<le> gross"
  using round_div_le_self [of gross 10000 "10000 + tr_rateBasisPoints rule"]
  by (auto simp: taxable_of_def intro: round_div_nonneg)

lemma levy_nonneg: "0 \<le> gross \<Longrightarrow> 0 \<le> tr_rateBasisPoints rule \<Longrightarrow> 0 \<le> levy_of rule gross"
  using taxable_le_gross [of gross rule] by (auto simp: levy_of_def intro!: round_div_nonneg)

lemma rule_tax_nonneg: "0 \<le> tr_rateBasisPoints (snd ir) \<Longrightarrow> 0 \<le> rule_tax g ir"
  by (auto simp: rule_tax_def Let_def rule_charged_def intro: levy_nonneg)

lemma selectTaxRules_subset: "set (selectTaxRules lc now rules place) \<subseteq> set rules"
  by (auto simp: selectTaxRules_def)

lemma enumerate_snd: "ir \<in> set (enumerate n xs) \<Longrightarrow> snd ir \<in> set xs"
  by (metis in_set_zip enumerate_eq_zip nth_mem)

lemma sum_list_mono_int:
  "(\<And>x. x \<in> set xs \<Longrightarrow> f x \<le> (h x :: int)) \<Longrightarrow> sum_list (map f xs) \<le> sum_list (map h xs)"
  by (induction xs) (auto intro: add_mono)

text \<open>
  With non-negative rates no order is ever credited tax: the tax added to the price is
  non-negative and at most the tax reported; a tax that is inside the price is reported but never
  added, and where no rule is inclusive the two are equal.
\<close>

lemma computeTax_added_bounds:
  assumes rates: "\<forall>r \<in> set (ti_rules input). 0 \<le> tr_rateBasisPoints r"
    and ok: "computeTax lc now input = Inr res"
  shows "0 \<le> tc_taxAddedMinor res \<and> tc_taxAddedMinor res \<le> tc_taxMinor res \<and>
    ((\<forall>r \<in> set (ti_rules input). tr_inclusive r) \<longrightarrow> tc_taxAddedMinor res = 0) \<and>
    ((\<forall>r \<in> set (ti_rules input). \<not> tr_inclusive r) \<longrightarrow> tc_taxAddedMinor res = tc_taxMinor res)"
proof -
  let ?app = "selectTaxRules lc now (ti_rules input) (ti_place input)"
  from ok obtain g where res: "res = taxes_of (ti_place input) ?app g"
    by (auto simp: computeTax_def Let_def rbind_Inr_iff)
  have mem: "snd ir \<in> set (ti_rules input)" if "ir \<in> set (enumerate 0 ?app)" for ir
    using enumerate_snd [OF that] selectTaxRules_subset by blast
  have nn: "0 \<le> rule_tax g ir" if "ir \<in> set (enumerate 0 ?app)" for ir
    using mem [OF that] rates by (intro rule_tax_nonneg) blast
  have "0 \<le> tc_taxAddedMinor res"
    unfolding res taxAddedMinor_rules using nn by (intro sum_list_nonneg_int) auto
  moreover have "tc_taxAddedMinor res \<le> tc_taxMinor res"
    unfolding res taxAddedMinor_rules taxMinor_rules using nn by (intro sum_list_mono_int) auto
  moreover have "tc_taxAddedMinor res = 0" if "\<forall>r \<in> set (ti_rules input). tr_inclusive r"
    unfolding res taxAddedMinor_rules using that mem by (simp add: map_idI cong: map_cong)
  moreover have "tc_taxAddedMinor res = tc_taxMinor res" if "\<forall>r \<in> set (ti_rules input). \<not> tr_inclusive r"
    unfolding res taxAddedMinor_rules taxMinor_rules using that mem by (simp cong: map_cong)
  ultimately show ?thesis by blast
qed

text \<open>The sample order: 7,627 of GST inside the two tickets, 635 added on the fee.\<close>

lemma ex_tax_run:
  "computeTax (\<lambda>_ _. 0) 0 ex_tax_input =
    Inr \<lparr>tc_taxLines =
           [\<lparr>tl_label = ''CGST'', tl_rateBasisPoints = 900, tl_baseMinor = 3527, tl_amountMinor = 318,
             tl_basis = FEES, tl_inclusive = False\<rparr>,
            \<lparr>tl_label = ''SGST'', tl_rateBasisPoints = 900, tl_baseMinor = 3527, tl_amountMinor = 317,
             tl_basis = FEES, tl_inclusive = False\<rparr>,
            \<lparr>tl_label = ''CGST'', tl_rateBasisPoints = 900, tl_baseMinor = 42373, tl_amountMinor = 3814,
             tl_basis = TICKETS, tl_inclusive = True\<rparr>,
            \<lparr>tl_label = ''SGST'', tl_rateBasisPoints = 900, tl_baseMinor = 42373, tl_amountMinor = 3813,
             tl_basis = TICKETS, tl_inclusive = True\<rparr>],
         tc_taxMinor = 8262, tc_taxAddedMinor = 635\<rparr>"
  by code_simp

lemma computeTax_added_bounds_witness:
  "\<exists>res. computeTax (\<lambda>_ _. 0) 0 ex_tax_input = Inr res \<and>
     0 \<le> tc_taxAddedMinor res \<and> tc_taxAddedMinor res \<le> tc_taxMinor res \<and> tc_taxAddedMinor res = 635"
proof -
  have "\<forall>r \<in> set (ti_rules ex_tax_input). 0 \<le> tr_rateBasisPoints r" by code_simp
  from computeTax_added_bounds [OF this ex_tax_run] ex_tax_run show ?thesis by auto
qed

section \<open>Every ticket is taxed once per group\<close>

lemma addGross_other [simp]: "j \<noteq> i \<Longrightarrow> addGross g i x j = g j"
  and addGross_same [simp]: "addGross g i x i = Some (nvl (g i) 0 + x)"
  by (simp_all add: addGross_def)

lemma group_sum_addGross_other:
  "i \<notin> fst ` set rules \<Longrightarrow> group_sum G rules (addGross g i x) = group_sum G rules g"
  unfolding group_sum_def by (rule arg_cong [of _ _ sum_list], rule map_cong) (force simp: addGross_def)+

lemma rate_line_other: "i \<notin> fst ` set rules \<Longrightarrow> rate_line line taken rules g i = g i"
  by (induction line taken rules g rule: rate_line.induct) auto

lemma group_sum_Cons:
  "group_sum G ((i, r) # rules) g = (if groupOf r = G then nvl (g i) 0 else 0) + group_sum G rules g"
  by (simp add: group_sum_def)

lemma rate_line_group_sum:
  "distinct (map fst rules) \<Longrightarrow> G \<noteq> [] \<Longrightarrow>
    group_sum G rules (rate_line line taken rules g) =
    group_sum G rules g +
      (if G \<notin> taken \<and> (\<exists>ir \<in> set rules. groupOf (snd ir) = G \<and> rule_rates_line line (snd ir))
       then line_total line else 0)"
proof (induction line taken rules g rule: rate_line.induct)
  case (1 line taken g)
  then show ?case by (simp add: group_sum_def)
next
  case (2 line taken i rule rules g)
  from 2(4) have i: "i \<notin> fst ` set rules" by simp
  note simps = group_sum_Cons rate_line_other [OF i] group_sum_addGross_other [OF i]
  consider (skip) "\<not> rule_rates_line line rule \<or> groupOf rule \<noteq> [] \<and> groupOf rule \<in> taken"
    | (take) "rule_rates_line line rule" "\<not> (groupOf rule \<noteq> [] \<and> groupOf rule \<in> taken)"
    by blast
  then show ?case
  proof cases
    case skip
    with 2(1,2,4,5) show ?thesis by (auto simp: simps)
  next
    case take
    with 2(3-5) show ?thesis by (auto simp: simps)
  qed
qed

lemma rate_lines_group_sum:
  assumes "distinct (map fst rules)" "G \<noteq> []"
    and "\<And>line. line \<in> set lines \<Longrightarrow> 0 < line_total line \<Longrightarrow>
      \<exists>ir \<in> set rules. groupOf (snd ir) = G \<and> rule_rates_line line (snd ir)"
  shows "group_sum G rules (rate_lines rules lines g) =
    group_sum G rules g + sum_list (map line_total (filter (\<lambda>l. 0 < line_total l) lines))"
  using assms(3)
proof (induction lines arbitrary: g)
  case (Cons line lines)
  show ?case
  proof (cases "line_total line \<le> 0")
    case False
    have "group_sum G rules (rate_line line {} rules g) = group_sum G rules g + line_total line"
      using rate_line_group_sum [OF assms(1,2), of line "{}" g] Cons.prems [of line] False by simp
    with False Cons show ?thesis by simp
  qed (use Cons in simp)
qed simp

lemma no_gap_rated:
  assumes gaps: "admissionClassificationGaps applicable lines = []"
    and r: "r \<in> set applicable" "isClassifiedTicketRule r"
    and line: "line \<in> set lines" "0 < line_total line"
  shows "\<exists>r' \<in> set applicable. isTicketRule r' \<and> groupOf r' = groupOf r \<and> rule_rates_line line r'"
proof -
  let ?cl = "filter isClassifiedTicketRule applicable"
  from r have ne: "?cl \<noteq> []" by (auto simp: filter_empty_conv)
  from line(1) obtain i where "i < length lines" "lines ! i = line" by (auto simp: in_set_conv_nth)
  then have i: "(i, line) \<in> set (enumerate 0 lines)" by (auto simp: in_set_enumerate_eq)
  with gaps ne have g: "line_gap ?cl (unique (map groupOf ?cl)) (i, line) = []"
    by (auto simp: admissionClassificationGaps_def Let_def)
  with line(2) obtain c where c: "line_category line = Some c"
    by (cases "line_category line") (auto simp: line_gap_def)
  with g line(2) r obtain r' where r': "r' \<in> set ?cl" "groupOf r' = groupOf r" "namesCategory r'"
      "matches (tr_category r') (Some c)" "inBand r' line"
    by (force simp: line_gap_def split: if_splits)
  have "matches (tr_category r') (al_category line)"
    using c r'(4) by (auto simp: line_category_def matches_def Let_def split: option.splits if_splits)
  with r' show ?thesis by (auto simp: rule_rates_line_def isClassifiedTicketRule_def)
qed

lemma distinct_enumerate_filter: "distinct (map fst (filter P (enumerate n xs)))"
  by (simp add: distinct_map_filter)

text \<open>
  C28.  Every paid ticket is taxed exactly once in every classified group: when no line of the order is
  refused, the list-price amounts collected by the rules of one group (India's alternative admission
  rates) add up to the value of the paid tickets, so no ticket is taxed twice and none escapes.
\<close>

theorem tickets_taxed_once_per_group:
  assumes "admissionClassificationGaps applicable lines = []"
    and "r \<in> set applicable" "isClassifiedTicketRule r"
  shows "group_sum (groupOf r) (filter (isTicketRule \<circ> snd) (enumerate 0 applicable))
      (rate_lines (filter (isTicketRule \<circ> snd) (enumerate 0 applicable)) lines Map.empty)
    = sum_list (map line_total (filter (\<lambda>l. 0 < line_total l) lines))"
proof -
  let ?rules = "filter (isTicketRule \<circ> snd) (enumerate 0 applicable)"
  have ex: "\<exists>ir \<in> set ?rules. groupOf (snd ir) = groupOf r \<and> rule_rates_line line (snd ir)"
    if "line \<in> set lines" "0 < line_total line" for line
  proof -
    from no_gap_rated [OF assms that] obtain r' where r': "r' \<in> set applicable" "isTicketRule r'"
        "groupOf r' = groupOf r" "rule_rates_line line r'" by blast
    then obtain i where "i < length applicable" "applicable ! i = r'" by (auto simp: in_set_conv_nth)
    then have "(i, r') \<in> set (enumerate 0 applicable)" by (auto simp: in_set_enumerate_eq)
    with r' show ?thesis by force
  qed
  have z: "group_sum G rules Map.empty = 0" for G rules by (induction rules) (auto simp: group_sum_def)
  show ?thesis
    using rate_lines_group_sum [where G = "groupOf r" and rules = ?rules and lines = lines and g = Map.empty,
        OF distinct_enumerate_filter _ ex] assms(3)
    by (simp add: z isClassifiedTicketRule_def)
qed

text \<open>
  With the cart broken into lines, the only refusal is an unclassifiable ticket: the computation
  fails exactly when some line has a classification gap, and then it reports precisely those gaps.
\<close>

lemma computeTax_refuses_iff_gaps:
  assumes "ti_admissionLines input = Some lines"
  shows "computeTax lc now input = Inl e \<longleftrightarrow>
    (let gaps = admissionClassificationGaps (selectTaxRules lc now (ti_rules input) (ti_place input)) lines
     in gaps \<noteq> [] \<and> e = TaxClassificationError gaps)"
  using assms by (auto simp: computeTax_def gross_by_rule_def Let_def rbind_Inl_iff)

lemma computeTax_refuses_iff_gaps_witness:
  "computeTax (\<lambda>_ _. 0) 0 (ex_tax_input\<lparr>ti_admissionLines := Some [\<lparr>al_unitPriceMinor = 25000, al_quantity = 1, al_category = None\<rparr>]\<rparr>) =
    Inl (TaxClassificationError [\<lparr>gap_code = TAX_CLASSIFICATION_MISSING, gap_category = None,
      gap_unitPriceMinor = 25000, gap_lineIndex = 0\<rparr>])"
proof -
  let ?ls = "[\<lparr>al_unitPriceMinor = 25000, al_quantity = 1, al_category = None\<rparr>]"
  have gaps: "admissionClassificationGaps (selectTaxRules (\<lambda>_ _. 0) 0 (ti_rules ex_tax_input) (ti_place ex_tax_input)) ?ls =
    [\<lparr>gap_code = TAX_CLASSIFICATION_MISSING, gap_category = None, gap_unitPriceMinor = 25000, gap_lineIndex = 0\<rparr>]"
    by code_simp
  show ?thesis
    by (subst computeTax_refuses_iff_gaps [where lines = ?ls]) (simp_all add: gaps Let_def)
qed

theorem tickets_taxed_once_per_group_witness:
  "group_sum ''admission'' (filter (isTicketRule \<circ> snd) (enumerate 0 [ex_cinema_rule, ex_fee_rule]))
     (rate_lines (filter (isTicketRule \<circ> snd) (enumerate 0 [ex_cinema_rule, ex_fee_rule])) ex_seats Map.empty) = 50000"
proof -
  have h: "admissionClassificationGaps [ex_cinema_rule, ex_fee_rule] ex_seats = []"
    "ex_cinema_rule \<in> set [ex_cinema_rule, ex_fee_rule]" "isClassifiedTicketRule ex_cinema_rule"
    by code_simp+
  have "groupOf ex_cinema_rule = ''admission''"
    "sum_list (map line_total (filter (\<lambda>l. 0 < line_total l) ex_seats)) = 50000" by code_simp+
  with tickets_taxed_once_per_group [OF h] show ?thesis by simp
qed

end
