(* ===== verification/FeeCalculator.thy ===== *)
theory FeeCalculator
  imports TaxCalculator
begin

text \<open>
  Platform fees, \<^verbatim>\<open>apps/api/src/pricing/fee-calculator.ts\<close>: fee bands and their four types, the
  optional whole-order limits, the scoping of bands to a place, the choice of the band, and
  \<^verbatim>\<open>calculateFees\<close> with its split between the customer and the organizer.

  The spread \<^verbatim>\<open>{ currency, ...taxPlace }\<close> is modelled with an unset \<^verbatim>\<open>taxPlace.currency\<close> as an absent
  key.
\<close>

section \<open>Data\<close>

datatype fee_tier_type = FLAT | PERCENT | COMBINED | FIXED_PER_TICKET

datatype fee_limit = LimitMin | LimitMax

datatype fee_mode = CUSTOMER_PAYS | ORGANIZER_PAYS | SHARED

record fee_tier =
  ft_minMinor :: minor
  ft_maxMinor :: "minor option"
  ft_feeMinor :: minor
  ft_type :: "fee_tier_type option"
  ft_percentBps :: "bps option"
  ft_minFeeMinor :: "minor option"
  ft_maxFeeMinor :: "minor option"

record fee_rule =
  fr_country :: string
  fr_region :: string
  fr_minMinor :: minor
  fr_maxMinor :: "minor option"
  fr_feeMinor :: minor
  fr_feeType :: "string option"
  fr_feePercentBps :: "bps option"
  fr_minFeeMinor :: "minor option"
  fr_maxFeeMinor :: "minor option"

record fee_place =
  fp_country :: "string option"
  fp_region :: "string option"

record fee_breakdown =
  fb_type :: fee_tier_type
  fb_percentBps :: bps
  fb_fixedPerTicketMinor :: minor
  fb_ticketCount :: int
  fb_percentPartMinor :: minor
  fb_fixedPartMinor :: minor
  fb_limits :: "(minor option \<times> minor option \<times> fee_limit option) option"

record fee_parts = fee_breakdown +
  fb_totalMinor :: minor

record fee_calc_input =
  fi_subtotalMinor :: minor
  fi_feeMode :: fee_mode
  fi_discountMinor :: "minor option"
  fi_tiers :: "fee_tier list option"
  fi_paymentFeeBps :: "bps option"
  fi_ticketCount :: "int option"
  fi_currency :: "string option"
  fi_taxRules :: "tax_rule list option"
  fi_taxPlace :: "tax_place option"

record fee_calc_result =
  fc_currency :: string
  fc_subtotalMinor :: minor
  fc_discountMinor :: minor
  fc_netSubtotalMinor :: minor
  fc_bookingFeeMinor :: minor
  fc_paymentFeeMinor :: minor
  fc_customerFeeMinor :: minor
  fc_organizerFeeMinor :: minor
  fc_taxLines :: "tax_line list"
  fc_taxMinor :: minor
  fc_totalMinor :: minor
  fc_platformFeeBreakdown :: "fee_breakdown option"

section \<open>What one band charges\<close>

definition tierType :: "string option \<Rightarrow> fee_tier_type" where
  "tierType t =
    (if t = Some ''PERCENT'' then PERCENT
     else if t = Some ''COMBINED'' then COMBINED
     else if t = Some ''FIXED_PER_TICKET'' then FIXED_PER_TICKET
     else FLAT)"

definition feeTierFromRule :: "fee_rule \<Rightarrow> fee_tier" where
  "feeTierFromRule rule =
    \<lparr>ft_minMinor = fr_minMinor rule, ft_maxMinor = fr_maxMinor rule, ft_feeMinor = fr_feeMinor rule,
     ft_type = Some (tierType (fr_feeType rule)), ft_percentBps = fr_feePercentBps rule,
     ft_minFeeMinor = fr_minFeeMinor rule, ft_maxFeeMinor = fr_maxFeeMinor rule\<rparr>"

definition isPerTicketType :: "fee_tier_type option \<Rightarrow> bool" where
  "isPerTicketType t \<longleftrightarrow> t = Some COMBINED \<or> t = Some FIXED_PER_TICKET"

definition applyFeeLimits :: "minor \<Rightarrow> minor option \<Rightarrow> minor option \<Rightarrow> minor \<times> fee_limit option" where
  "applyFeeLimits computed minFee maxFee =
    (let fee1 = (case minFee of None \<Rightarrow> computed | Some lo \<Rightarrow> max computed lo);
         fee = (case maxFee of None \<Rightarrow> fee1 | Some hi \<Rightarrow> min fee1 hi)
     in (fee, if computed < fee then Some LimitMin else if fee < computed then Some LimitMax else None))"

definition percentOf :: "minor \<Rightarrow> bps option \<Rightarrow> minor" where
  "percentOf amount b = round_div (max 0 amount * max 0 (nvl b 0)) 10000"

definition perTicketFeeParts :: "fee_tier \<Rightarrow> minor \<Rightarrow> int \<Rightarrow> fee_parts" where
  "perTicketFeeParts tier amount ticketCount =
    (let type = (if ft_type tier = Some FIXED_PER_TICKET then FIXED_PER_TICKET else COMBINED);
         tickets = max 0 ticketCount;
         fixedPerTicket = max 0 (ft_feeMinor tier);
         percentBps = (if type = COMBINED then max 0 (nvl (ft_percentBps tier) 0) else 0);
         percentPart = (if type = COMBINED then percentOf amount (Some percentBps) else 0);
         fixedPart = fixedPerTicket * tickets;
         hasLimits = (ft_minFeeMinor tier \<noteq> None \<or> ft_maxFeeMinor tier \<noteq> None);
         limited = applyFeeLimits (percentPart + fixedPart) (ft_minFeeMinor tier) (ft_maxFeeMinor tier)
     in \<lparr>fb_type = type, fb_percentBps = percentBps, fb_fixedPerTicketMinor = fixedPerTicket,
         fb_ticketCount = tickets, fb_percentPartMinor = percentPart, fb_fixedPartMinor = fixedPart,
         fb_limits = (if hasLimits then Some (ft_minFeeMinor tier, ft_maxFeeMinor tier, snd limited) else None),
         fb_totalMinor = fst limited\<rparr>)"

definition feeForTier :: "fee_tier \<Rightarrow> minor \<Rightarrow> int \<Rightarrow> minor" where
  "feeForTier tier amount ticketCount =
    (if isPerTicketType (ft_type tier) then fb_totalMinor (perTicketFeeParts tier amount ticketCount)
     else if ft_type tier \<noteq> Some PERCENT then ft_feeMinor tier
     else fst (applyFeeLimits (percentOf amount (ft_percentBps tier)) (ft_minFeeMinor tier) (ft_maxFeeMinor tier)))"

definition combinedFeeParts :: "fee_tier \<Rightarrow> minor \<Rightarrow> int \<Rightarrow> fee_parts" where
  "combinedFeeParts tier amount ticketCount = perTicketFeeParts (tier\<lparr>ft_type := Some COMBINED\<rparr>) amount ticketCount"

definition breakdownOf :: "fee_parts \<Rightarrow> fee_breakdown" where
  "breakdownOf parts = fee_breakdown.truncate parts"

section \<open>Which bands apply where\<close>

definition scopeMatches :: "string \<Rightarrow> string option \<Rightarrow> bool" where
  "scopeMatches ruleValue actual \<longleftrightarrow>
    (let v = trim ruleValue in
     if v = ''*'' \<or> v = [] then True
     else if blank actual then False
     else upper v = upper (trim (the actual)))"

definition countryScopeMatches :: "string \<Rightarrow> string option \<Rightarrow> bool" where
  "countryScopeMatches ruleValue actual \<longleftrightarrow>
    (let v = trim ruleValue in
     if v = ''*'' \<or> v = [] then True
     else if blank actual then False
     else countryMatches (the actual) v)"

definition specificity :: "fee_rule \<Rightarrow> int" where
  "specificity rule =
    (if fr_region rule \<noteq> ''*'' then 2 else 0) + (if fr_country rule \<noteq> ''*'' then 1 else 0)"

definition band_cmp :: "fee_rule cmp" where
  "band_cmp = cmp_lex (cmp_key (\<lambda>r. - specificity r)) (cmp_key fr_minMinor)"

definition in_scope :: "fee_place \<Rightarrow> fee_rule \<Rightarrow> bool" where
  "in_scope place r \<longleftrightarrow> countryScopeMatches (fr_country r) (fp_country place) \<and> scopeMatches (fr_region r) (fp_region place)"

definition applicableTiers :: "fee_rule list \<Rightarrow> fee_place \<Rightarrow> fee_rule list" where
  "applicableTiers rules place = sort_cmp band_cmp (filter (in_scope place) rules)"

definition flat_tier :: "minor \<Rightarrow> minor option \<Rightarrow> minor \<Rightarrow> fee_tier" where
  "flat_tier lo hi fee = \<lparr>ft_minMinor = lo, ft_maxMinor = hi, ft_feeMinor = fee, ft_type = None,
     ft_percentBps = None, ft_minFeeMinor = None, ft_maxFeeMinor = None\<rparr>"

definition DEFAULT_FEE_TIERS :: "fee_tier list" where
  "DEFAULT_FEE_TIERS =
    [flat_tier 0 (Some 19900) 500, flat_tier 20000 (Some 49900) 1000,
     flat_tier 50000 (Some 99900) 1500, flat_tier 100000 None 2000]"

definition DEFAULT_PAYMENT_FEE_BPS :: bps where
  "DEFAULT_PAYMENT_FEE_BPS = 200"

definition scheduleTiers :: "fee_rule list \<Rightarrow> fee_place \<Rightarrow> fee_tier list" where
  "scheduleTiers rules place =
    (let applicable = applicableTiers rules place in
     if applicable = [] then DEFAULT_FEE_TIERS else map feeTierFromRule applicable)"

section \<open>Which band an order falls in\<close>

definition covers :: "minor \<Rightarrow> fee_tier \<Rightarrow> bool" where
  "covers amount tier \<longleftrightarrow>
    ft_minMinor tier \<le> amount \<and> (case ft_maxMinor tier of None \<Rightarrow> True | Some hi \<Rightarrow> amount \<le> hi)"

fun reduce_best :: "('a \<Rightarrow> 'a \<Rightarrow> bool) \<Rightarrow> 'a \<Rightarrow> 'a list \<Rightarrow> 'a" where
  "reduce_best better best [] = best"
| "reduce_best better best (t # ts) = reduce_best better (if better t best then t else best) ts"

definition resolveBookingTier :: "minor \<Rightarrow> fee_tier list \<Rightarrow> fee_tier option" where
  "resolveBookingTier amount tiers =
    (case find (covers amount) tiers of
       Some tier \<Rightarrow> Some tier
     | None \<Rightarrow>
        (case tiers of [] \<Rightarrow> None
         | t0 # ts \<Rightarrow>
            (case filter (\<lambda>t. ft_minMinor t \<le> amount) tiers of
               b0 # bs \<Rightarrow> Some (reduce_best (\<lambda>t best. ft_minMinor best < ft_minMinor t) b0 bs)
             | [] \<Rightarrow> Some (reduce_best (\<lambda>t best. ft_minMinor t < ft_minMinor best) t0 ts))))"

section \<open>The fees of one order\<close>

definition split_fees :: "fee_mode \<Rightarrow> minor \<Rightarrow> minor \<times> minor" where
  "split_fees mode totalFees =
    (case mode of
       CUSTOMER_PAYS \<Rightarrow> (totalFees, 0)
     | ORGANIZER_PAYS \<Rightarrow> (0, totalFees)
     | SHARED \<Rightarrow> (let customer = ceil_div totalFees 2 in (customer, totalFees - customer)))"

definition booking_fee :: "fee_tier option \<Rightarrow> minor \<Rightarrow> int \<Rightarrow> minor" where
  "booking_fee tier net ticketCount =
    (case tier of None \<Rightarrow> 0
     | Some t \<Rightarrow> if isPerTicketType (ft_type t) then fb_totalMinor (perTicketFeeParts t net ticketCount)
                else feeForTier t net ticketCount)"

definition fee_tax_input :: "fee_calc_input \<Rightarrow> minor \<Rightarrow> minor \<Rightarrow> tax_calc_input" where
  "fee_tax_input input net customerFee =
    (let place = nvl (fi_taxPlace input) no_place in
     \<lparr>ti_netSubtotalMinor = net, ti_grossSubtotalMinor = None, ti_admissionLines = None,
      ti_customerFeeMinor = customerFee, ti_maintenanceMinor = None, ti_rules = nvl (fi_taxRules input) [],
      ti_place = place\<lparr>tp_currency := Some (nvl (tp_currency place) (nvl (fi_currency input) ''INR''))\<rparr>\<rparr>)"

definition calculateFees :: "string cmp \<Rightarrow> time_ms \<Rightarrow> fee_calc_input \<Rightarrow> tax_error + fee_calc_result" where
  "calculateFees lc now input =
    (let tiers = nvl (fi_tiers input) DEFAULT_FEE_TIERS;
         b = nvl (fi_paymentFeeBps input) DEFAULT_PAYMENT_FEE_BPS;
         subtotal = max 0 (fi_subtotalMinor input);
         discount = min subtotal (max 0 (nvl (fi_discountMinor input) 0));
         net = subtotal - discount;
         tier = (if net = 0 then None else resolveBookingTier net tiers);
         ticketCount = nvl (fi_ticketCount input) 1;
         combined = (case tier of
             Some t \<Rightarrow> if isPerTicketType (ft_type t) then Some (perTicketFeeParts t net ticketCount) else None
           | None \<Rightarrow> None);
         bookingFee = booking_fee tier net ticketCount;
         paymentFee = round_div (b * (net + bookingFee)) 10000;
         totalFees = bookingFee + paymentFee;
         customerFee = fst (split_fees (fi_feeMode input) totalFees);
         organizerFee = snd (split_fees (fi_feeMode input) totalFees)
     in rbind (computeTax lc now (fee_tax_input input net customerFee)) (\<lambda>tax.
          Inr \<lparr>fc_currency = nvl (fi_currency input) ''INR'', fc_subtotalMinor = subtotal,
               fc_discountMinor = discount, fc_netSubtotalMinor = net, fc_bookingFeeMinor = bookingFee,
               fc_paymentFeeMinor = paymentFee, fc_customerFeeMinor = customerFee,
               fc_organizerFeeMinor = organizerFee, fc_taxLines = tc_taxLines tax, fc_taxMinor = tc_taxMinor tax,
               fc_totalMinor = net + customerFee + tc_taxMinor tax,
               fc_platformFeeBreakdown = map_option breakdownOf combined\<rparr>))"

text \<open>A band with no negative amount in it, as the admin API stores them.\<close>

definition tier_ok :: "fee_tier \<Rightarrow> bool" where
  "tier_ok t \<longleftrightarrow> 0 \<le> ft_feeMinor t \<and> 0 \<le> nvl (ft_minFeeMinor t) 0 \<and> 0 \<le> nvl (ft_maxFeeMinor t) 0"

text \<open>The amounts \<open>calculateFees\<close> works with, named for the statements below.\<close>

definition order_net :: "fee_calc_input \<Rightarrow> minor" where
  "order_net input =
    (let subtotal = max 0 (fi_subtotalMinor input)
     in subtotal - min subtotal (max 0 (nvl (fi_discountMinor input) 0)))"

definition order_tier :: "fee_calc_input \<Rightarrow> fee_tier option" where
  "order_tier input =
    (if order_net input = 0 then None
     else resolveBookingTier (order_net input) (nvl (fi_tiers input) DEFAULT_FEE_TIERS))"

definition order_booking_fee :: "fee_calc_input \<Rightarrow> minor" where
  "order_booking_fee input = booking_fee (order_tier input) (order_net input) (nvl (fi_ticketCount input) 1)"

definition order_payment_fee :: "fee_calc_input \<Rightarrow> minor" where
  "order_payment_fee input =
    round_div (nvl (fi_paymentFeeBps input) DEFAULT_PAYMENT_FEE_BPS * (order_net input + order_booking_fee input)) 10000"

definition order_split :: "fee_calc_input \<Rightarrow> minor \<times> minor" where
  "order_split input = split_fees (fi_feeMode input) (order_booking_fee input + order_payment_fee input)"

definition fee_result :: "fee_calc_input \<Rightarrow> tax_calc_result \<Rightarrow> fee_calc_result" where
  "fee_result input tax =
    \<lparr>fc_currency = nvl (fi_currency input) ''INR'', fc_subtotalMinor = max 0 (fi_subtotalMinor input),
     fc_discountMinor = min (max 0 (fi_subtotalMinor input)) (max 0 (nvl (fi_discountMinor input) 0)),
     fc_netSubtotalMinor = order_net input, fc_bookingFeeMinor = order_booking_fee input,
     fc_paymentFeeMinor = order_payment_fee input, fc_customerFeeMinor = fst (order_split input),
     fc_organizerFeeMinor = snd (order_split input), fc_taxLines = tc_taxLines tax, fc_taxMinor = tc_taxMinor tax,
     fc_totalMinor = order_net input + fst (order_split input) + tc_taxMinor tax,
     fc_platformFeeBreakdown = map_option breakdownOf
       (case order_tier input of
          Some t \<Rightarrow> if isPerTicketType (ft_type t)
                    then Some (perTicketFeeParts t (order_net input) (nvl (fi_ticketCount input) 1)) else None
        | None \<Rightarrow> None)\<rparr>"

definition ex_band :: "string \<Rightarrow> minor \<Rightarrow> minor option \<Rightarrow> minor \<Rightarrow> fee_rule" where
  "ex_band country lo hi fee = \<lparr>fr_country = country, fr_region = ''*'', fr_minMinor = lo, fr_maxMinor = hi,
     fr_feeMinor = fee, fr_feeType = None, fr_feePercentBps = None, fr_minFeeMinor = None, fr_maxFeeMinor = None\<rparr>"

definition ex_order :: fee_calc_input where
  "ex_order = \<lparr>fi_subtotalMinor = 25000, fi_feeMode = SHARED, fi_discountMinor = None, fi_tiers = None,
     fi_paymentFeeBps = None, fi_ticketCount = None, fi_currency = None,
     fi_taxRules = Some [ex_fee_rule\<lparr>tr_appliesTo := TICKETS, tr_inclusive := True\<rparr>], fi_taxPlace = None\<rparr>"

section \<open>Limits\<close>

lemma percentOf_nonneg: "0 \<le> percentOf a b"
  by (simp add: percentOf_def round_div_nonneg)

lemma applyFeeLimits_nonneg:
  "0 \<le> c \<Longrightarrow> 0 \<le> nvl lo 0 \<Longrightarrow> 0 \<le> nvl hi 0 \<Longrightarrow> 0 \<le> fst (applyFeeLimits c lo hi)"
  by (auto simp: applyFeeLimits_def Let_def split: option.splits)

text \<open>
  The limits of a band hold the whole-order fee: it never exceeds a configured maximum, never
  falls below a configured minimum that the maximum allows, is the computed fee when no limit bites,
  and the reported \<open>limitApplied\<close> says exactly which limit moved it.
\<close>

lemma applyFeeLimits_spec:
  "(case applyFeeLimits c lo hi of (fee, applied) \<Rightarrow>
     (\<forall>h. hi = Some h \<longrightarrow> fee \<le> h) \<and>
     (\<forall>l. lo = Some l \<longrightarrow> (hi = None \<or> l \<le> the hi) \<longrightarrow> l \<le> fee) \<and>
     (applied = Some LimitMin \<longleftrightarrow> c < fee) \<and> (applied = Some LimitMax \<longleftrightarrow> fee < c) \<and>
     (applied = None \<longleftrightarrow> fee = c) \<and>
     (applied = Some LimitMin \<longrightarrow> lo = Some fee \<or> hi = Some fee) \<and> (applied = Some LimitMax \<longrightarrow> hi = Some fee))"
  by (auto simp: applyFeeLimits_def Let_def max_def min_def split: option.splits)

lemma perTicket_nonneg: "tier_ok t \<Longrightarrow> 0 \<le> fb_totalMinor (perTicketFeeParts t a n)"
  by (simp add: perTicketFeeParts_def Let_def tier_ok_def applyFeeLimits_nonneg percentOf_nonneg)

lemma feeForTier_nonneg: "tier_ok t \<Longrightarrow> 0 \<le> feeForTier t a n"
  using perTicket_nonneg [of t a n]
  by (auto simp: feeForTier_def tier_ok_def intro!: applyFeeLimits_nonneg percentOf_nonneg)

lemma booking_fee_nonneg: "(\<And>t. tier = Some t \<Longrightarrow> tier_ok t) \<Longrightarrow> 0 \<le> booking_fee tier net n"
  by (auto simp: booking_fee_def perTicket_nonneg feeForTier_nonneg split: option.splits)

lemma booking_fee_feeForTier: "booking_fee (Some t) net n = feeForTier t net n"
  by (simp add: booking_fee_def feeForTier_def)

section \<open>The band of an order\<close>

lemma reduce_best_in: "reduce_best better b ts \<in> insert b (set ts)"
  by (induction ts arbitrary: b) (auto split: if_splits)

lemma reduce_best_key:
  fixes f :: "'a \<Rightarrow> int"
  shows "x \<in> insert b (set ts) \<Longrightarrow> f x \<le> f (reduce_best (\<lambda>t best. f best < f t) b ts)"
proof (induction ts arbitrary: b x)
  case (Cons t ts)
  let ?b' = "if f b < f t then t else b"
  have m: "f b \<le> f ?b'" "f t \<le> f ?b'" by simp_all
  have "f ?b' \<le> f (reduce_best (\<lambda>t best. f best < f t) ?b' ts)" by (rule Cons.IH) simp
  with m Cons show ?case by fastforce
qed simp

lemma find_in: "find P xs = Some x \<Longrightarrow> x \<in> set xs \<and> P x"
  by (auto simp: find_Some_iff)

lemma resolve_tier_nearest:
  assumes "tiers \<noteq> []"
  shows "\<exists>t \<in> set tiers. resolveBookingTier amount tiers = Some t \<and>
    ((\<exists>u \<in> set tiers. covers amount u) \<longrightarrow> find (covers amount) tiers = Some t) \<and>
    ((\<forall>u \<in> set tiers. \<not> covers amount u) \<longrightarrow>
      (if \<exists>u \<in> set tiers. ft_minMinor u \<le> amount
       then ft_minMinor t \<le> amount \<and> (\<forall>u \<in> set tiers. ft_minMinor u \<le> amount \<longrightarrow> ft_minMinor u \<le> ft_minMinor t)
       else \<forall>u \<in> set tiers. ft_minMinor t \<le> ft_minMinor u))"
proof (cases "find (covers amount) tiers")
  case (Some t)
  then show ?thesis using find_in [OF Some] by (auto simp: resolveBookingTier_def)
next
  case None
  then have nc: "\<forall>u \<in> set tiers. \<not> covers amount u" by (auto simp: find_None_iff)
  let ?below = "filter (\<lambda>t. ft_minMinor t \<le> amount) tiers"
  from assms obtain t0 ts where tiers: "tiers = t0 # ts" by (cases tiers) auto
  show ?thesis
  proof (cases ?below)
    case Nil
    let ?t = "reduce_best (\<lambda>t best. ft_minMinor t < ft_minMinor best) t0 ts"
    have r: "resolveBookingTier amount tiers = Some ?t"
      using None Nil by (simp add: resolveBookingTier_def tiers)
    have least: "\<forall>u \<in> set tiers. ft_minMinor ?t \<le> ft_minMinor u"
      using reduce_best_key [where f = "\<lambda>t. - ft_minMinor t" and b = t0 and ts = ts] by (simp add: tiers)
    have "?t \<in> set tiers" using reduce_best_in [of _ t0 ts] by (simp add: tiers)
    moreover have "\<not> (\<exists>u \<in> set tiers. ft_minMinor u \<le> amount)" using Nil by (auto simp: filter_empty_conv)
    ultimately show ?thesis using r least nc by auto
  next
    case (Cons b0 bs)
    let ?t = "reduce_best (\<lambda>t best. ft_minMinor best < ft_minMinor t) b0 bs"
    have r: "resolveBookingTier amount tiers = Some ?t"
      using None Cons by (simp add: resolveBookingTier_def tiers)
    have most: "\<forall>u \<in> set ?below. ft_minMinor u \<le> ft_minMinor ?t"
      using reduce_best_key [where f = ft_minMinor and b = b0 and ts = bs] unfolding Cons by simp
    have t: "?t \<in> set ?below" using reduce_best_in [of _ b0 bs] unfolding Cons by simp
    then have "\<exists>u \<in> set tiers. ft_minMinor u \<le> amount" by auto
    with r t most nc show ?thesis by (intro bexI [of _ ?t]) auto
  qed
qed

text \<open>
  The band that prices an order: some band is always chosen from a non-empty schedule; it covers
  the amount whenever any band does; and when the schedule has a hole it is the nearest one, the
  highest band starting at or below the amount or, failing that, the lowest band of all.
\<close>

lemma resolveBookingTier_spec:
  assumes "tiers \<noteq> []"
  shows "\<exists>t \<in> set tiers. resolveBookingTier amount tiers = Some t \<and>
    ((\<exists>u \<in> set tiers. covers amount u) \<longrightarrow> find (covers amount) tiers = Some t) \<and>
    ((\<forall>u \<in> set tiers. \<not> covers amount u) \<longrightarrow>
      (if \<exists>u \<in> set tiers. ft_minMinor u \<le> amount
       then ft_minMinor t \<le> amount \<and> (\<forall>u \<in> set tiers. ft_minMinor u \<le> amount \<longrightarrow> ft_minMinor u \<le> ft_minMinor t)
       else \<forall>u \<in> set tiers. ft_minMinor t \<le> ft_minMinor u))"
  by (rule resolve_tier_nearest [OF assms])

lemma resolveBookingTier_spec_witness:
  "resolveBookingTier 70000 [flat_tier 0 (Some 50000) 500, flat_tier 200000 None 2000] = Some (flat_tier 0 (Some 50000) 500)"
proof -
  let ?ts = "[flat_tier 0 (Some 50000) 500, flat_tier 200000 None 2000]"
  have ne: "?ts \<noteq> []" by simp
  from resolveBookingTier_spec [OF ne, of 70000] obtain t where t: "t \<in> set ?ts"
      "resolveBookingTier 70000 ?ts = Some t" "ft_minMinor t \<le> 70000"
    by (auto simp: covers_def flat_tier_def split: if_splits)
  then show ?thesis by (auto simp: flat_tier_def)
qed

interpretation band: js_comparator band_cmp
  unfolding band_cmp_def by (intro js_comparator_lex js_comparator_key)

lemma find_map_Some: "find P (map f xs) = Some y \<longleftrightarrow> (\<exists>x. find (P \<circ> f) xs = Some x \<and> y = f x)"
  by (induction xs) auto

text \<open>
  Adding a band for one place never hides the schedule around it, and the most specific band
  wins: if any stored band in scope covers the order, the order is priced by a stored band in scope
  that covers it and is at least as specific as every other such band.
\<close>

lemma schedule_most_specific_band:
  assumes "r \<in> set rules" "in_scope place r" "covers amount (feeTierFromRule r)"
  shows "\<exists>w \<in> set rules. in_scope place w \<and> covers amount (feeTierFromRule w) \<and>
    resolveBookingTier amount (scheduleTiers rules place) = Some (feeTierFromRule w) \<and>
    (\<forall>u \<in> set rules. in_scope place u \<and> covers amount (feeTierFromRule u) \<longrightarrow> specificity u \<le> specificity w)"
proof -
  let ?cand = "filter (in_scope place) rules"
  let ?P = "covers amount \<circ> feeTierFromRule"
  have "find ?P (sort_cmp band_cmp ?cand) \<noteq> None"
    using assms by (auto simp: find_None_iff)
  then obtain w where w: "find ?P (sort_cmp band_cmp ?cand) = Some w" by auto
  note least = band.find_sort_least [OF w]
  have "applicableTiers rules place \<noteq> []"
    using assms by (auto simp: applicableTiers_def filter_empty_conv)
  then have "find (covers amount) (scheduleTiers rules place) = Some (feeTierFromRule w)"
    using w by (auto simp: scheduleTiers_def Let_def find_map_Some applicableTiers_def)
  then have "resolveBookingTier amount (scheduleTiers rules place) = Some (feeTierFromRule w)"
    by (simp add: resolveBookingTier_def)
  moreover have "specificity u \<le> specificity w"
    if "u \<in> set rules" "in_scope place u" "covers amount (feeTierFromRule u)" for u
    using least(3) [of u] that by (auto simp: band_cmp_def cmp_lex_def cmp_key_def split: if_splits)
  ultimately show ?thesis using least(1,2) by auto
qed

lemma schedule_most_specific_band_witness:
  "\<exists>w \<in> set [ex_band ''*'' 0 None 1500, ex_band ''India'' 0 (Some 100000) 900].
     resolveBookingTier 70000 (scheduleTiers [ex_band ''*'' 0 None 1500, ex_band ''India'' 0 (Some 100000) 900]
       \<lparr>fp_country = Some ''IN'', fp_region = None\<rparr>) = Some (feeTierFromRule w) \<and> specificity w = 1"
proof -
  let ?rules = "[ex_band ''*'' 0 None 1500, ex_band ''India'' 0 (Some 100000) 900]"
  let ?place = "\<lparr>fp_country = Some ''IN'', fp_region = None\<rparr>"
  have "ex_band ''India'' 0 (Some 100000) 900 \<in> set ?rules" by simp
  moreover have "in_scope ?place (ex_band ''India'' 0 (Some 100000) 900)" by code_simp
  moreover have "covers 70000 (feeTierFromRule (ex_band ''India'' 0 (Some 100000) 900))" by code_simp
  ultimately obtain w where "w \<in> set ?rules" "resolveBookingTier 70000 (scheduleTiers ?rules ?place) = Some (feeTierFromRule w)"
      "specificity (ex_band ''India'' 0 (Some 100000) 900) \<le> specificity w"
    using schedule_most_specific_band [of "ex_band ''India'' 0 (Some 100000) 900" ?rules ?place 70000] by blast
  then show ?thesis by (intro bexI [of _ w]) (auto simp: specificity_def ex_band_def)
qed

section \<open>The fee computation\<close>

lemma split_fees_sum: "fst (split_fees mode t) + snd (split_fees mode t) = t"
  by (cases mode) (simp_all add: split_fees_def Let_def)

lemma split_fees_bounds:
  "0 \<le> t \<Longrightarrow> 0 \<le> fst (split_fees mode t) \<and> 0 \<le> snd (split_fees mode t) \<and> fst (split_fees mode t) \<le> t"
  using ceil_div_half [of t] by (cases mode) (simp_all add: split_fees_def Let_def)

lemma split_fees_shared:
  "snd (split_fees SHARED t) \<le> fst (split_fees SHARED t) \<and> fst (split_fees SHARED t) \<le> snd (split_fees SHARED t) + 1"
  using ceil_div_half_bounds [of t] by (simp add: split_fees_def Let_def)

lemma resolveBookingTier_in: "resolveBookingTier amount tiers = Some t \<Longrightarrow> t \<in> set tiers"
proof -
  assume r: "resolveBookingTier amount tiers = Some t"
  then have "tiers \<noteq> []" by (auto simp: resolveBookingTier_def)
  from resolve_tier_nearest [OF this, of amount] r show ?thesis by auto
qed

lemma order_net_bounds: "0 \<le> order_net input \<and> order_net input \<le> max 0 (fi_subtotalMinor input)"
  by (simp add: order_net_def Let_def)

lemma order_tier_in: "order_tier input = Some t \<Longrightarrow> t \<in> set (nvl (fi_tiers input) DEFAULT_FEE_TIERS)"
  by (auto simp: order_tier_def dest: resolveBookingTier_in split: if_splits)

lemma calculateFees_eq:
  "calculateFees lc now input =
    rbind (computeTax lc now (fee_tax_input input (order_net input) (fst (order_split input))))
      (\<lambda>tax. Inr (fee_result input tax))"
  unfolding calculateFees_def Let_def fee_result_def order_split_def order_payment_fee_def
    order_booking_fee_def order_tier_def order_net_def ..

lemma calculateFees_Inr:
  assumes "calculateFees lc now input = Inr r"
  shows "fc_netSubtotalMinor r = order_net input"
    and "fc_bookingFeeMinor r = order_booking_fee input"
    and "fc_paymentFeeMinor r = order_payment_fee input"
    and "fc_customerFeeMinor r = fst (order_split input)"
    and "fc_organizerFeeMinor r = snd (order_split input)"
    and "fc_totalMinor r = fc_netSubtotalMinor r + fc_customerFeeMinor r + fc_taxMinor r"
    and "fc_netSubtotalMinor r = fc_subtotalMinor r - fc_discountMinor r"
    and "fc_subtotalMinor r = max 0 (fi_subtotalMinor input)"
    and "fc_currency r = nvl (fi_currency input) ''INR''"
proof -
  from assms obtain tax where "r = fee_result input tax"
    by (auto simp: calculateFees_eq rbind_Inr_iff)
  then show "fc_netSubtotalMinor r = order_net input"
    and "fc_bookingFeeMinor r = order_booking_fee input"
    and "fc_paymentFeeMinor r = order_payment_fee input"
    and "fc_customerFeeMinor r = fst (order_split input)"
    and "fc_organizerFeeMinor r = snd (order_split input)"
    and "fc_totalMinor r = fc_netSubtotalMinor r + fc_customerFeeMinor r + fc_taxMinor r"
    and "fc_netSubtotalMinor r = fc_subtotalMinor r - fc_discountMinor r"
    and "fc_subtotalMinor r = max 0 (fi_subtotalMinor input)"
    and "fc_currency r = nvl (fi_currency input) ''INR''"
    by (simp_all only: fee_result_def fee_calc_result.simps order_net_def Let_def)
qed

lemma fees_nonneg:
  assumes "\<forall>t \<in> set (nvl (fi_tiers input) DEFAULT_FEE_TIERS). tier_ok t" "0 \<le> nvl (fi_paymentFeeBps input) 0"
  shows "0 \<le> order_booking_fee input" "0 \<le> order_payment_fee input"
proof -
  show b: "0 \<le> order_booking_fee input"
    unfolding order_booking_fee_def using assms(1) order_tier_in by (intro booking_fee_nonneg) blast
  have "0 \<le> nvl (fi_paymentFeeBps input) DEFAULT_PAYMENT_FEE_BPS"
    using assms(2) by (cases "fi_paymentFeeBps input") (simp_all add: DEFAULT_PAYMENT_FEE_BPS_def)
  then show "0 \<le> order_payment_fee input"
    unfolding order_payment_fee_def using b order_net_bounds [of input] by (intro round_div_nonneg) auto
qed

text \<open>
  The fee accounts balance: the customer's and the organizer's shares add up to the booking fee
  plus the payment fee, neither is negative, a shared fee is split to within one minor unit in the
  organizer's favour, the total is what the customer pays for the discounted tickets plus their share
  plus tax, and an order with nothing to pay carries no fee at all.
\<close>

lemma calculateFees_accounts:
  assumes "calculateFees lc now input = Inr r"
    and "\<forall>t \<in> set (nvl (fi_tiers input) DEFAULT_FEE_TIERS). tier_ok t" "0 \<le> nvl (fi_paymentFeeBps input) 0"
  shows "fc_customerFeeMinor r + fc_organizerFeeMinor r = fc_bookingFeeMinor r + fc_paymentFeeMinor r
    \<and> 0 \<le> fc_customerFeeMinor r \<and> 0 \<le> fc_organizerFeeMinor r
    \<and> (fi_feeMode input = SHARED \<longrightarrow>
        fc_organizerFeeMinor r \<le> fc_customerFeeMinor r \<and> fc_customerFeeMinor r \<le> fc_organizerFeeMinor r + 1)
    \<and> 0 \<le> fc_netSubtotalMinor r \<and> fc_netSubtotalMinor r = fc_subtotalMinor r - fc_discountMinor r
    \<and> fc_totalMinor r = fc_netSubtotalMinor r + fc_customerFeeMinor r + fc_taxMinor r
    \<and> (fc_netSubtotalMinor r = 0 \<longrightarrow> fc_bookingFeeMinor r = 0 \<and> fc_paymentFeeMinor r = 0)"
proof -
  note r = calculateFees_Inr [OF assms(1)]
  let ?t = "order_booking_fee input + order_payment_fee input"
  have t: "0 \<le> ?t" using fees_nonneg [OF assms(2,3)] by simp
  have z: "order_net input = 0 \<Longrightarrow> order_booking_fee input = 0 \<and> order_payment_fee input = 0"
    by (simp add: order_booking_fee_def order_payment_fee_def order_tier_def booking_fee_def)
  show ?thesis
    using split_fees_sum [of "fi_feeMode input" ?t] split_fees_bounds [OF t, of "fi_feeMode input"]
      split_fees_shared [of ?t] z order_net_bounds [of input] r(7)
    by (simp add: r(1-6) order_split_def)
qed

text \<open>
  \<open>calculateFees\<close> adds the reported tax, not the added tax: on an order whose only tax rule is
  inclusive, so that the tax engine says nothing is to be added, it still charges the tax on top of
  the price that already contains it.
\<close>

lemma calculateFees_adds_inclusive_tax:
  "map_sum (\<lambda>_. ()) (\<lambda>r. (fc_netSubtotalMinor r, fc_customerFeeMinor r, fc_taxMinor r, fc_totalMinor r))
     (calculateFees (\<lambda>_ _. 0) 0 ex_order) = Inr (25000, 760, 3814, 29574) \<and>
   map_sum (\<lambda>_. ()) tc_taxAddedMinor (computeTax (\<lambda>_ _. 0) 0 (fee_tax_input ex_order 25000 760)) = Inr 0"
  by code_simp

lemma ex_order_Inr: "\<exists>r. calculateFees (\<lambda>_ _. 0) 0 ex_order = Inr r"
proof -
  have "isl (calculateFees (\<lambda>_ _. 0) 0 ex_order) = False" by code_simp
  then show ?thesis by (cases "calculateFees (\<lambda>_ _. 0) 0 ex_order") auto
qed

lemma calculateFees_accounts_witness:
  "\<exists>r. calculateFees (\<lambda>_ _. 0) 0 ex_order = Inr r \<and>
     fc_customerFeeMinor r + fc_organizerFeeMinor r = fc_bookingFeeMinor r + fc_paymentFeeMinor r"
proof -
  obtain r where r: "calculateFees (\<lambda>_ _. 0) 0 ex_order = Inr r" using ex_order_Inr by blast
  have "\<forall>t \<in> set (nvl (fi_tiers ex_order) DEFAULT_FEE_TIERS). tier_ok t" "0 \<le> nvl (fi_paymentFeeBps ex_order) 0"
    by code_simp+
  from calculateFees_accounts [OF r this] r show ?thesis by blast
qed

end
