(* ===== verification/FeePolicy.thy ===== *)
theory FeePolicy
  imports FeeCalculator
begin

text \<open>
  Platform fee overrides and waivers: the pure part, \<^verbatim>\<open>apps/api/src/pricing/fee-policy.ts\<close>, the
  resolver \<^verbatim>\<open>fee-policy-resolver.service.ts\<close>, and the order limits counted in the database,
  \<^verbatim>\<open>fee-policy-redemption.ts\<close>.  The \<^verbatim>\<open>PlatformFeePolicy\<close> table is a map from ids to rows; each
  conditional \<^verbatim>\<open>UPDATE\<close> is one atomic step, as the row lock makes it.
\<close>

section \<open>Data\<close>

datatype fee_policy_scope = ScopeEvent | ScopeOrganization

datatype fee_policy_status =
  PolicyActive | PolicyInactive | PolicyExpired | PolicyExhausted
  | PolicyPendingApproval | PolicyRejected | PolicyWithdrawn

datatype effective_status =
  EffActive | EffScheduled | EffExpired | EffExhausted | EffInactive | EffPendingApproval | EffRejected | EffWithdrawn

record fee_policy_row =
  pp_kind :: string
  pp_feeMinor :: "minor option"
  pp_percentBps :: "bps option"
  pp_minFeeMinor :: "minor option"
  pp_maxFeeMinor :: "minor option"
  pp_id :: string
  pp_scope :: fee_policy_scope
  pp_eventId :: "string option"
  pp_organizationId :: string
  pp_currency :: "string option"
  pp_startsAt :: time_ms
  pp_endsAt :: "time_ms option"
  pp_maxOrders :: "int option"
  pp_usedOrders :: int
  pp_status :: fee_policy_status
  pp_version :: int
  pp_createdAt :: "time_ms option"

record fee_policy_context =
  fx_eventId :: "string option"
  fx_organizationId :: "string option"
  fx_at :: time_ms

record applied_fee_policy =
  ap_id :: string
  ap_kind :: string
  ap_scope :: fee_policy_scope
  ap_version :: int
  ap_maxOrders :: "int option"

datatype pricing_error =
    PricingTaxError tax_error
  | UnknownFeePolicyKind string

record fee_policy_outcome =
  fo_fees :: fee_calc_result
  fo_policy :: "applied_fee_policy option"
  fo_baseBookingFeeMinor :: "minor option"
  fo_feeWaivedMinor :: "minor option"

section \<open>Terms and selection\<close>

definition policy_tier :: "fee_tier_type \<Rightarrow> minor \<Rightarrow> bps option \<Rightarrow> minor option \<Rightarrow> minor option \<Rightarrow> fee_tier" where
  "policy_tier t fee pct lo hi = \<lparr>ft_minMinor = 0, ft_maxMinor = None, ft_feeMinor = fee, ft_type = Some t,
     ft_percentBps = pct, ft_minFeeMinor = lo, ft_maxFeeMinor = hi\<rparr>"

definition policyFeeTiers :: "fee_policy_row \<Rightarrow> pricing_error + fee_tier list" where
  "policyFeeTiers p =
    (let fee = max 0 (nvl (pp_feeMinor p) 0); pct = max 0 (nvl (pp_percentBps p) 0);
         lo = pp_minFeeMinor p; hi = pp_maxFeeMinor p
     in if pp_kind p = ''WAIVE'' then Inr [policy_tier FLAT 0 None None None]
        else if pp_kind p = ''FIXED'' then Inr [policy_tier FLAT fee None None None]
        else if pp_kind p = ''PERCENT'' then Inr [policy_tier PERCENT 0 (Some pct) lo hi]
        else if pp_kind p = ''COMBINED'' then Inr [policy_tier COMBINED fee (Some pct) lo hi]
        else if pp_kind p = ''FIXED_PER_TICKET'' then Inr [policy_tier FIXED_PER_TICKET fee None lo hi]
        else Inl (UnknownFeePolicyKind (pp_kind p)))"

definition ended :: "time_ms option \<Rightarrow> time_ms \<Rightarrow> bool" where
  "ended endsAt t \<longleftrightarrow> (case endsAt of None \<Rightarrow> False | Some e \<Rightarrow> e \<le> t)"

definition used_up :: "fee_policy_row \<Rightarrow> bool" where
  "used_up p \<longleftrightarrow> (case pp_maxOrders p of None \<Rightarrow> False | Some m \<Rightarrow> m \<le> pp_usedOrders p)"

definition feePolicyApplies :: "fee_policy_row \<Rightarrow> string \<Rightarrow> time_ms \<Rightarrow> bool" where
  "feePolicyApplies p currency t \<longleftrightarrow>
    (if pp_status p \<noteq> PolicyActive then False
     else if t < pp_startsAt p then False
     else if ended (pp_endsAt p) t then False
     else if used_up p then False
     else if truthy (pp_currency p) \<and> upper (trim (the (pp_currency p))) \<noteq> upper (trim currency) then False
     else True)"

definition newest_first :: "fee_policy_row cmp" where
  "newest_first = cmp_key (\<lambda>p. - nvl (pp_createdAt p) 0)"

definition selectFeePolicy :: "fee_policy_row list \<Rightarrow> string \<Rightarrow> fee_policy_context \<Rightarrow> fee_policy_row option" where
  "selectFeePolicy policies currency ctx =
    (let live = sort_cmp newest_first (filter (\<lambda>p. feePolicyApplies p currency (fx_at ctx)) policies);
         forEvent = (if truthy (fx_eventId ctx)
                     then find (\<lambda>p. pp_scope p = ScopeEvent \<and> pp_eventId p = fx_eventId ctx) live else None);
         forOrg = (if truthy (fx_organizationId ctx)
                   then find (\<lambda>p. pp_scope p = ScopeOrganization \<and> Some (pp_organizationId p) = fx_organizationId ctx) live
                   else None)
     in case forEvent of Some p \<Rightarrow> Some p | None \<Rightarrow> forOrg)"

definition appliedFeePolicy :: "fee_policy_row \<Rightarrow> applied_fee_policy" where
  "appliedFeePolicy p = \<lparr>ap_id = pp_id p, ap_kind = pp_kind p, ap_scope = pp_scope p, ap_version = pp_version p,
     ap_maxOrders = pp_maxOrders p\<rparr>"

definition calc_fees :: "string cmp \<Rightarrow> time_ms \<Rightarrow> fee_calc_input \<Rightarrow> pricing_error + fee_calc_result" where
  "calc_fees lc now input = map_sum PricingTaxError id (calculateFees lc now input)"

definition calculateFeesWithPolicy ::
  "string cmp \<Rightarrow> time_ms \<Rightarrow> fee_calc_input \<Rightarrow> fee_tier list \<Rightarrow>
    (fee_policy_row \<times> applied_fee_policy) option \<Rightarrow> pricing_error + fee_policy_outcome" where
  "calculateFeesWithPolicy lc now rest baseTiers policy =
    rbind (calc_fees lc now (rest\<lparr>fi_tiers := Some baseTiers\<rparr>)) (\<lambda>base.
      let plain = \<lparr>fo_fees = base, fo_policy = None, fo_baseBookingFeeMinor = None, fo_feeWaivedMinor = None\<rparr> in
      case policy of
        None \<Rightarrow> Inr plain
      | Some (p, applied) \<Rightarrow>
          rbind (policyFeeTiers p) (\<lambda>tiers.
          rbind (calc_fees lc now (rest\<lparr>fi_tiers := Some tiers\<rparr>)) (\<lambda>overridden.
            if fc_netSubtotalMinor base = 0 \<or> fc_bookingFeeMinor base < fc_bookingFeeMinor overridden then Inr plain
            else Inr \<lparr>fo_fees = overridden, fo_policy = Some applied,
                      fo_baseBookingFeeMinor = Some (fc_bookingFeeMinor base),
                      fo_feeWaivedMinor = Some (fc_bookingFeeMinor base - fc_bookingFeeMinor overridden)\<rparr>)))"

definition windowsOverlap :: "time_ms \<times> time_ms option \<Rightarrow> time_ms \<times> time_ms option \<Rightarrow> time_ms \<Rightarrow> bool" where
  "windowsOverlap a b now \<longleftrightarrow>
    (let aStart = max (fst a) now; bStart = max (fst b) now in
     if ended (snd a) aStart \<or> ended (snd b) bStart then False
     else \<not> ended (snd b) aStart \<and> \<not> ended (snd a) bStart)"

definition currenciesCollide :: "string option \<Rightarrow> string option \<Rightarrow> bool" where
  "currenciesCollide a b \<longleftrightarrow>
    (if \<not> truthy a \<or> \<not> truthy b then True else upper (trim (the a)) = upper (trim (the b)))"

definition effectiveFeePolicyStatus :: "fee_policy_row \<Rightarrow> time_ms \<Rightarrow> effective_status" where
  "effectiveFeePolicyStatus p now =
    (if pp_status p = PolicyInactive then EffInactive
     else if pp_status p = PolicyPendingApproval then EffPendingApproval
     else if pp_status p = PolicyRejected then EffRejected
     else if pp_status p = PolicyWithdrawn then EffWithdrawn
     else if ended (pp_endsAt p) now then EffExpired
     else if pp_status p = PolicyExpired then EffExpired
     else if pp_status p = PolicyExhausted \<or> used_up p then EffExhausted
     else if now < pp_startsAt p then EffScheduled
     else EffActive)"

section \<open>Order limits\<close>

datatype policy_event = EventExhausted string int "int option" | EventReopened string int

record policy_db =
  pd_rows :: "string \<rightharpoonup> fee_policy_row"
  pd_events :: "policy_event list"

definition candidates :: "fee_policy_row list \<Rightarrow> fee_policy_context \<Rightarrow> fee_policy_row list" where
  "candidates rows ctx =
    (if \<not> truthy (fx_eventId ctx) \<and> \<not> truthy (fx_organizationId ctx) then []
     else sort_cmp newest_first (filter (\<lambda>p.
        pp_status p = PolicyActive \<and> pp_startsAt p \<le> fx_at ctx \<and> \<not> ended (pp_endsAt p) (fx_at ctx) \<and>
        (truthy (fx_eventId ctx) \<and> pp_scope p = ScopeEvent \<and> pp_eventId p = fx_eventId ctx \<or>
         truthy (fx_organizationId ctx) \<and> pp_scope p = ScopeOrganization \<and>
           Some (pp_organizationId p) = fx_organizationId ctx)) rows))"

definition resolve :: "fee_policy_row list \<Rightarrow> string \<Rightarrow> fee_policy_context \<Rightarrow> fee_policy_row option" where
  "resolve rows currency ctx = selectFeePolicy (candidates rows ctx) currency ctx"

definition in_window :: "fee_policy_row \<Rightarrow> time_ms \<Rightarrow> bool" where
  "in_window p t \<longleftrightarrow> pp_startsAt p \<le> t \<and> \<not> ended (pp_endsAt p) t"

text \<open>\<open>None\<close> is the thrown \<^verbatim>\<open>FeePolicyUnavailableError\<close>.\<close>

definition reserveFeePolicyRedemption :: "policy_db \<Rightarrow> applied_fee_policy \<Rightarrow> time_ms \<Rightarrow> policy_db option" where
  "reserveFeePolicyRedemption db policy t =
    (case ap_maxOrders policy of
       None \<Rightarrow>
         (case pd_rows db (ap_id policy) of
            Some p \<Rightarrow> if pp_status p = PolicyActive \<and> in_window p t then Some db else None
          | None \<Rightarrow> None)
     | Some _ \<Rightarrow>
         (case pd_rows db (ap_id policy) of
            None \<Rightarrow> None
          | Some p \<Rightarrow>
              (case pp_maxOrders p of None \<Rightarrow> None
               | Some m \<Rightarrow>
                   if pp_status p = PolicyActive \<and> pp_usedOrders p < m \<and> in_window p t then
                     (let p' = p\<lparr>pp_usedOrders := pp_usedOrders p + 1,
                                 pp_status := if m \<le> pp_usedOrders p + 1 then PolicyExhausted else pp_status p\<rparr>
                      in Some (db\<lparr>pd_rows := (pd_rows db)(ap_id policy \<mapsto> p'),
                                  pd_events := (if pp_status p' = PolicyExhausted
                                    then pd_events db @ [EventExhausted (ap_id policy) (pp_usedOrders p') (Some m)]
                                    else pd_events db)\<rparr>))
                   else None)))"

definition releaseFeePolicyRedemption :: "policy_db \<Rightarrow> string \<Rightarrow> policy_db" where
  "releaseFeePolicyRedemption db pid =
    (case pd_rows db pid of
       None \<Rightarrow> db
     | Some p \<Rightarrow>
         if pp_maxOrders p = None \<or> pp_usedOrders p \<le> 0 then db
         else db\<lparr>pd_rows := (pd_rows db)(pid \<mapsto> p\<lparr>pp_usedOrders := pp_usedOrders p - 1,
                    pp_status := if pp_status p = PolicyExhausted then PolicyActive else pp_status p\<rparr>),
                 pd_events := (if pp_status p = PolicyExhausted
                   then pd_events db @ [EventReopened pid (pp_usedOrders p - 1)] else pd_events db)\<rparr>)"

section \<open>Sample values\<close>

definition ex_policy :: fee_policy_row where
  "ex_policy = \<lparr>pp_kind = ''FIXED'', pp_feeMinor = Some 500, pp_percentBps = None, pp_minFeeMinor = None,
     pp_maxFeeMinor = None, pp_id = ''p1'', pp_scope = ScopeEvent, pp_eventId = Some ''e1'', pp_organizationId = ''o1'',
     pp_currency = Some ''inr'', pp_startsAt = 100, pp_endsAt = Some 900, pp_maxOrders = Some 2, pp_usedOrders = 1,
     pp_status = PolicyActive, pp_version = 1, pp_createdAt = Some 50\<rparr>"

definition ex_org_policy :: fee_policy_row where
  "ex_org_policy = ex_policy\<lparr>pp_id := ''p2'', pp_scope := ScopeOrganization, pp_eventId := None, pp_createdAt := Some 90\<rparr>"

definition ex_policy_ctx :: fee_policy_context where
  "ex_policy_ctx = \<lparr>fx_eventId = Some ''e1'', fx_organizationId = Some ''o1'', fx_at = 500\<rparr>"

section \<open>An override only ever lowers the fee\<close>

lemma calc_fees_Inr: "calc_fees lc now input = Inr r \<longleftrightarrow> calculateFees lc now input = Inr r"
  by (cases "calculateFees lc now input") (auto simp: calc_fees_def)

lemma order_net_tiers [simp]: "order_net (input\<lparr>fi_tiers := t\<rparr>) = order_net input"
  by (simp add: order_net_def)

text \<open>
  Whatever policy is resolved, the customer's booking fee is never above what the platform
  schedule charges the same order.  When no policy is recorded the result is the schedule's own; when
  one is recorded it is the one passed in, the order has something to pay, and the amount waived is
  exactly the schedule's fee less the fee charged, which is not negative.
\<close>

lemma policy_only_lowers:
  assumes "calculateFees lc now (rest\<lparr>fi_tiers := Some baseTiers\<rparr>) = Inr base"
    and "calculateFeesWithPolicy lc now rest baseTiers policy = Inr out"
  shows "fc_bookingFeeMinor (fo_fees out) \<le> fc_bookingFeeMinor base \<and>
    fc_netSubtotalMinor (fo_fees out) = fc_netSubtotalMinor base \<and>
    (case fo_policy out of
       None \<Rightarrow> fo_fees out = base \<and> fo_baseBookingFeeMinor out = None \<and> fo_feeWaivedMinor out = None
     | Some a \<Rightarrow> fc_netSubtotalMinor base \<noteq> 0 \<and> (\<exists>p. policy = Some (p, a)) \<and>
         fo_baseBookingFeeMinor out = Some (fc_bookingFeeMinor base) \<and>
         (\<exists>w \<ge> 0. fo_feeWaivedMinor out = Some w \<and> fc_bookingFeeMinor (fo_fees out) + w = fc_bookingFeeMinor base))"
proof -
  let ?plain = "\<lparr>fo_fees = base, fo_policy = None, fo_baseBookingFeeMinor = None, fo_feeWaivedMinor = None\<rparr>"
  have b: "calc_fees lc now (rest\<lparr>fi_tiers := Some baseTiers\<rparr>) = Inr base"
    using assms(1) by (simp add: calc_fees_Inr)
  consider "out = ?plain"
    | p a tiers ov where "policy = Some (p, a)" "policyFeeTiers p = Inr tiers"
        "calculateFees lc now (rest\<lparr>fi_tiers := Some tiers\<rparr>) = Inr ov"
        "fc_netSubtotalMinor base \<noteq> 0" "fc_bookingFeeMinor ov \<le> fc_bookingFeeMinor base"
        "out = \<lparr>fo_fees = ov, fo_policy = Some a, fo_baseBookingFeeMinor = Some (fc_bookingFeeMinor base),
                fo_feeWaivedMinor = Some (fc_bookingFeeMinor base - fc_bookingFeeMinor ov)\<rparr>"
    using assms(2)
    by (auto simp: calculateFeesWithPolicy_def b rbind_Inr_iff calc_fees_Inr Let_def split: option.splits if_splits)
  then show ?thesis
  proof cases
    case 2
    then show ?thesis
      using calculateFees_Inr(1) [OF assms(1)] calculateFees_Inr(1) [OF 2(3)] by auto
  qed simp
qed

lemma policy_only_lowers_witness:
  "map_sum (\<lambda>_. ()) (\<lambda>f. fc_bookingFeeMinor (fo_fees f))
     (calculateFeesWithPolicy (\<lambda>_ _. 0) 0 ex_order [flat_tier 0 None 1500] (Some (ex_policy, appliedFeePolicy ex_policy)))
   = Inr 500 \<and> (500::int) \<le> 1500"
proof -
  let ?c = "calculateFees (\<lambda>_ _. 0) 0 (ex_order\<lparr>fi_tiers := Some [flat_tier 0 None 1500]\<rparr>)"
  let ?w = "calculateFeesWithPolicy (\<lambda>_ _. 0) 0 ex_order [flat_tier 0 None 1500] (Some (ex_policy, appliedFeePolicy ex_policy))"
  have c: "map_sum (\<lambda>_. ()) fc_bookingFeeMinor ?c = Inr 1500" by code_simp
  have w: "map_sum (\<lambda>_. ()) (\<lambda>f. fc_bookingFeeMinor (fo_fees f)) ?w = Inr 500" by code_simp
  obtain base where base: "?c = Inr base" using c by (cases ?c) auto
  obtain out where out: "?w = Inr out" using w by (cases ?w) auto
  show ?thesis using policy_only_lowers [OF base out] c w base out by simp
qed

section \<open>Which policy prices a sale\<close>

interpretation newest: js_comparator newest_first
  unfolding newest_first_def by (rule js_comparator_key)

definition names_event :: "fee_policy_context \<Rightarrow> fee_policy_row \<Rightarrow> bool" where
  "names_event ctx p \<longleftrightarrow> truthy (fx_eventId ctx) \<and> pp_scope p = ScopeEvent \<and> pp_eventId p = fx_eventId ctx"

definition names_organization :: "fee_policy_context \<Rightarrow> fee_policy_row \<Rightarrow> bool" where
  "names_organization ctx p \<longleftrightarrow>
    truthy (fx_organizationId ctx) \<and> pp_scope p = ScopeOrganization \<and> Some (pp_organizationId p) = fx_organizationId ctx"

definition newest_match :: "(fee_policy_row \<Rightarrow> bool) \<Rightarrow> fee_policy_row list \<Rightarrow> fee_policy_row option" where
  "newest_match P ps = find P (sort_cmp newest_first ps)"

lemma selectFeePolicy_levels:
  "selectFeePolicy ps currency ctx =
    (case newest_match (\<lambda>p. names_event ctx p) (filter (\<lambda>p. feePolicyApplies p currency (fx_at ctx)) ps) of
       Some p \<Rightarrow> Some p
     | None \<Rightarrow> newest_match (\<lambda>p. names_organization ctx p) (filter (\<lambda>p. feePolicyApplies p currency (fx_at ctx)) ps))"
proof -
  have "find (\<lambda>p. False) xs = None" for xs :: "fee_policy_row list"
    by (simp add: find_None_iff)
  then show ?thesis
    by (simp add: selectFeePolicy_def newest_match_def names_event_def [abs_def] names_organization_def [abs_def]
        Let_def split: option.split)
qed

lemma find_filter: "find P xs = (case filter P xs of [] \<Rightarrow> None | x # _ \<Rightarrow> Some x)"
  by (induction xs) auto

lemma newest_match_prefilter:
  assumes "\<And>p. P p \<Longrightarrow> A p \<Longrightarrow> Q p"
  shows "newest_match P (filter A (sort_cmp newest_first (filter Q ps))) = newest_match P (filter A ps)"
proof -
  have "filter P (filter A (filter Q ps)) = filter P (filter A ps)"
    using assms by (auto intro!: filter_cong)
  then show ?thesis
    by (simp only: newest_match_def find_filter newest.filter_sort newest.sort_sort)
qed

lemma resolve_selects:
  "resolve rows currency ctx = selectFeePolicy rows currency ctx"
proof (cases "truthy (fx_eventId ctx) \<or> truthy (fx_organizationId ctx)")
  case False
  then show ?thesis
    by (simp add: resolve_def candidates_def selectFeePolicy_def)
next
  case True
  let ?A = "\<lambda>p. feePolicyApplies p currency (fx_at ctx)"
  let ?Q = "\<lambda>p. pp_status p = PolicyActive \<and> pp_startsAt p \<le> fx_at ctx \<and> \<not> ended (pp_endsAt p) (fx_at ctx) \<and>
    (names_event ctx p \<or> names_organization ctx p)"
  have c: "candidates rows ctx = sort_cmp newest_first (filter ?Q rows)"
    using True by (auto simp: candidates_def names_event_def names_organization_def
        intro!: arg_cong [where f = "sort_cmp newest_first"] filter_cong)
  have "newest_match (names_event ctx) (filter ?A (candidates rows ctx)) = newest_match (names_event ctx) (filter ?A rows)"
    unfolding c by (rule newest_match_prefilter) (auto simp: feePolicyApplies_def split: if_splits)
  moreover have "newest_match (names_organization ctx) (filter ?A (candidates rows ctx)) =
      newest_match (names_organization ctx) (filter ?A rows)"
    unfolding c by (rule newest_match_prefilter) (auto simp: feePolicyApplies_def split: if_splits)
  ultimately show ?thesis by (simp add: resolve_def selectFeePolicy_levels split: option.split)
qed

text \<open>
  The database prefilter of the resolver loses nothing: pricing a sale from the candidate query
  gives the policy that selection over the whole policy table gives.
\<close>

lemma resolve_selects_from_table:
  "resolve rows currency ctx = selectFeePolicy rows currency ctx"
  by (rule resolve_selects)

lemma newest_match_Some:
  assumes "newest_match P ps = Some p"
  shows "p \<in> set ps" "P p" "\<And>q. q \<in> set ps \<Longrightarrow> P q \<Longrightarrow> nvl (pp_createdAt q) 0 \<le> nvl (pp_createdAt p) 0"
  using newest.find_sort_least [OF assms [unfolded newest_match_def]]
  by (auto simp: newest_first_def cmp_key_def)

lemma newest_match_None: "newest_match P ps = None \<longleftrightarrow> (\<forall>p \<in> set ps. \<not> P p)"
  unfolding newest_match_def by (rule newest.find_sort_None)

text \<open>
  Precedence: a live policy on the event beats every policy on the organization, a policy of the
  organization is used only when the event has none, the newest wins within a level, and the platform
  schedule prices the sale exactly when neither level has a live policy.
\<close>

lemma resolve_precedence:
  "case resolve rows currency ctx of
     None \<Rightarrow> \<forall>q \<in> set rows. \<not> (feePolicyApplies q currency (fx_at ctx) \<and> (names_event ctx q \<or> names_organization ctx q))
   | Some p \<Rightarrow> p \<in> set rows \<and> feePolicyApplies p currency (fx_at ctx) \<and>
       (names_event ctx p \<or>
        names_organization ctx p \<and> (\<forall>q \<in> set rows. feePolicyApplies q currency (fx_at ctx) \<longrightarrow> \<not> names_event ctx q)) \<and>
       (\<forall>q \<in> set rows. feePolicyApplies q currency (fx_at ctx) \<longrightarrow> names_event ctx q = names_event ctx p \<longrightarrow>
          names_organization ctx q = names_organization ctx p \<longrightarrow>
          nvl (pp_createdAt q) 0 \<le> nvl (pp_createdAt p) 0)"
proof -
  let ?live = "filter (\<lambda>p. feePolicyApplies p currency (fx_at ctx)) rows"
  note r = resolve_selects [of rows currency ctx]
  show ?thesis
  proof (cases "newest_match (names_event ctx) ?live")
    case (Some p)
    have no: "\<not> names_organization ctx p"
      using newest_match_Some(2) [OF Some] by (simp add: names_event_def names_organization_def)
    show ?thesis using newest_match_Some [OF Some] Some no by (auto simp: r selectFeePolicy_levels)
  next
    case None
    note ev = None
    show ?thesis
    proof (cases "newest_match (names_organization ctx) ?live")
      case (Some p)
      have "\<forall>q \<in> set ?live. \<not> names_event ctx q" using ev by (simp add: newest_match_None)
      then show ?thesis using newest_match_Some [OF Some] Some ev
        by (auto simp: r selectFeePolicy_levels)
    next
      case None
      then have "\<forall>q \<in> set ?live. \<not> names_event ctx q \<and> \<not> names_organization ctx q"
        using ev by (simp add: newest_match_None)
      then show ?thesis using ev None by (simp add: r selectFeePolicy_levels)
    qed
  qed
qed

lemma resolve_precedence_witness:
  "resolve [ex_org_policy, ex_policy] ''INR'' ex_policy_ctx = Some ex_policy \<and>
   ex_policy \<in> set [ex_org_policy, ex_policy]"
proof -
  have w: "map_option pp_id (resolve [ex_org_policy, ex_policy] ''INR'' ex_policy_ctx) = Some ''p1''" by code_simp
  then obtain p where p: "resolve [ex_org_policy, ex_policy] ''INR'' ex_policy_ctx = Some p" "pp_id p = ''p1''" by auto
  have "p \<in> set [ex_org_policy, ex_policy]"
    using resolve_precedence [of "[ex_org_policy, ex_policy]" "''INR''" ex_policy_ctx] p(1) by simp
  with p show ?thesis by (auto simp: ex_org_policy_def)
qed

section \<open>Windows and the effective status\<close>

lemma ended_mono: "ended e t \<Longrightarrow> t \<le> t' \<Longrightarrow> ended e t'"
  by (auto simp: ended_def split: option.splits)

text \<open>
  Two policy windows overlap exactly when some instant from now on lies in both half-open
  windows, so the creation check refuses precisely the pairs that could both price one sale.
\<close>

lemma windowsOverlap_spec:
  "windowsOverlap (s1, e1) (s2, e2) now \<longleftrightarrow>
    (\<exists>t \<ge> now. (s1 \<le> t \<and> \<not> ended e1 t) \<and> (s2 \<le> t \<and> \<not> ended e2 t))"
proof
  assume w: "windowsOverlap (s1, e1) (s2, e2) now"
  let ?t = "max (max s1 now) (max s2 now)"
  have "\<not> ended e1 ?t \<and> \<not> ended e2 ?t"
    using w by (auto simp: windowsOverlap_def Let_def max_def split: if_splits)
  then show "\<exists>t \<ge> now. (s1 \<le> t \<and> \<not> ended e1 t) \<and> (s2 \<le> t \<and> \<not> ended e2 t)"
    by (intro exI [of _ ?t]) auto
next
  assume "\<exists>t \<ge> now. (s1 \<le> t \<and> \<not> ended e1 t) \<and> (s2 \<le> t \<and> \<not> ended e2 t)"
  then obtain t where t: "now \<le> t" "s1 \<le> t" "s2 \<le> t" "\<not> ended e1 t" "\<not> ended e2 t" by blast
  then have "max s1 now \<le> t" "max s2 now \<le> t" by auto
  with t show "windowsOverlap (s1, e1) (s2, e2) now"
    unfolding windowsOverlap_def Let_def fst_conv snd_conv by (meson ended_mono)
qed

text \<open>
  The console never shows a policy as active that would not price a sale, nor the reverse: the
  effective status is \<^verbatim>\<open>ACTIVE\<close> exactly when the policy applies to a sale in its own currency.
\<close>

lemma effective_status_active_iff:
  "effectiveFeePolicyStatus p now = EffActive \<longleftrightarrow> feePolicyApplies p (nvl (pp_currency p) c) now"
  by (cases "pp_status p"; cases "pp_currency p")
    (auto simp: effectiveFeePolicyStatus_def feePolicyApplies_def truthy_def)

section \<open>Order limits under concurrent holds\<close>

definition row_ok :: "fee_policy_row \<Rightarrow> bool" where
  "row_ok p \<longleftrightarrow> (case pp_maxOrders p of None \<Rightarrow> pp_status p \<noteq> PolicyExhausted
    | Some m \<Rightarrow> 0 \<le> pp_usedOrders p \<and> pp_usedOrders p \<le> m \<and>
        (pp_status p = PolicyExhausted \<longrightarrow> pp_usedOrders p = m) \<and>
        (pp_status p = PolicyActive \<longrightarrow> pp_usedOrders p < m))"

definition db_ok :: "policy_db \<Rightarrow> bool" where
  "db_ok db \<longleftrightarrow> (\<forall>pid p. pd_rows db pid = Some p \<longrightarrow> row_ok p)"

datatype redemption_op = Reserve applied_fee_policy time_ms | Release string

fun redemption_step :: "redemption_op \<Rightarrow> policy_db \<Rightarrow> policy_db" where
  "redemption_step (Reserve a t) db = nvl (reserveFeePolicyRedemption db a t) db"
| "redemption_step (Release pid) db = releaseFeePolicyRedemption db pid"

fun race :: "policy_db \<Rightarrow> applied_fee_policy \<Rightarrow> time_ms list \<Rightarrow> nat" where
  "race db a [] = 0"
| "race db a (t # ts) =
    (case reserveFeePolicyRedemption db a t of
       None \<Rightarrow> race db a ts
     | Some db' \<Rightarrow> Suc (race db' a ts))"

lemma reserve_Some:
  assumes "reserveFeePolicyRedemption db a t = Some db'" "ap_maxOrders a = Some m0"
  obtains p m where "pd_rows db (ap_id a) = Some p" "pp_maxOrders p = Some m" "pp_status p = PolicyActive"
    "pp_usedOrders p < m" "in_window p t"
    "pd_rows db' = (pd_rows db)(ap_id a \<mapsto> p\<lparr>pp_usedOrders := pp_usedOrders p + 1,
       pp_status := if m \<le> pp_usedOrders p + 1 then PolicyExhausted else PolicyActive\<rparr>)"
  using assms by (auto simp: reserveFeePolicyRedemption_def Let_def split: option.splits if_splits)

lemma reserve_db_ok: "db_ok db \<Longrightarrow> reserveFeePolicyRedemption db a t = Some db' \<Longrightarrow> db_ok db'"
proof (cases "ap_maxOrders a")
  case None
  then show "db_ok db \<Longrightarrow> reserveFeePolicyRedemption db a t = Some db' \<Longrightarrow> ?thesis"
    by (auto simp: reserveFeePolicyRedemption_def split: option.splits if_splits)
next
  case (Some m0)
  assume "db_ok db" "reserveFeePolicyRedemption db a t = Some db'"
  from this(2) Some show ?thesis
    by (rule reserve_Some) (use \<open>db_ok db\<close> in \<open>auto simp: db_ok_def row_ok_def split: if_splits option.splits\<close>)
qed

lemma db_okD: "db_ok db \<Longrightarrow> pd_rows db pid = Some p \<Longrightarrow> row_ok p"
  by (auto simp: db_ok_def)

lemma db_ok_upd: "db_ok db \<Longrightarrow> row_ok p \<Longrightarrow> pd_rows db' = (pd_rows db)(pid \<mapsto> p) \<Longrightarrow> db_ok db'"
  by (auto simp: db_ok_def)

lemma row_ok_release:
  assumes "row_ok p" "0 < pp_usedOrders p" "pp_maxOrders p = Some m"
  shows "row_ok (p\<lparr>pp_usedOrders := pp_usedOrders p - 1,
    pp_status := if pp_status p = PolicyExhausted then PolicyActive else pp_status p\<rparr>)"
  using assms by (auto simp: row_ok_def)

lemma release_db_ok: "db_ok db \<Longrightarrow> db_ok (releaseFeePolicyRedemption db pid)"
  by (auto simp: releaseFeePolicyRedemption_def not_le split: option.split
      intro!: db_ok_upd [where db = db] intro: row_ok_release dest: db_okD)

lemma redemption_step_ok: "db_ok db \<Longrightarrow> db_ok (redemption_step op db)"
  by (cases op) (auto simp: release_db_ok split: split_rules intro: reserve_db_ok)

text \<open>
  C38.  In every interleaving of holds and releases the counters stay sound: a limited policy never
  counts fewer than zero or more than its limit, \<^verbatim>\<open>EXHAUSTED\<close> is exactly a full active policy, and an
  unlimited policy is never marked exhausted.
\<close>

theorem redemption_invariant:
  assumes "db_ok db"
  shows "db_ok (fold redemption_step ops db)"
  using assms by (induction ops arbitrary: db) (simp_all add: redemption_step_ok)

theorem redemption_invariant_witness:
  "db_ok (fold redemption_step [Reserve (appliedFeePolicy ex_policy) 200, Reserve (appliedFeePolicy ex_policy) 200,
     Release ''p1''] \<lparr>pd_rows = [''p1'' \<mapsto> ex_policy], pd_events = []\<rparr>)"
  by (rule redemption_invariant) (simp add: db_ok_def row_ok_def ex_policy_def)

text \<open>
  The limit is exact under a race: of any number of holds racing on a live policy inside its
  window, as many succeed as there are orders left, no more and no fewer.
\<close>

lemma race_exact:
  assumes "pd_rows db (ap_id a) = Some p" "row_ok p" "pp_maxOrders p = Some m" "ap_maxOrders a = Some m"
    and "pp_status p \<in> {PolicyActive, PolicyExhausted}" "\<forall>t \<in> set ts. in_window p t"
  shows "int (race db a ts) = min (int (length ts)) (m - pp_usedOrders p)"
  using assms
proof (induction ts arbitrary: db p)
  case Nil
  then show ?case by (auto simp: row_ok_def)
next
  case (Cons t ts)
  show ?case
  proof (cases "pp_status p = PolicyActive")
    case True
    let ?p' = "p\<lparr>pp_usedOrders := pp_usedOrders p + 1,
       pp_status := if m \<le> pp_usedOrders p + 1 then PolicyExhausted else PolicyActive\<rparr>"
    have lt: "pp_usedOrders p < m" "0 \<le> pp_usedOrders p" using True Cons.prems by (auto simp: row_ok_def)
    have "reserveFeePolicyRedemption db a t \<noteq> None"
      using True Cons.prems lt by (simp add: reserveFeePolicyRedemption_def Let_def)
    then obtain db' where db': "reserveFeePolicyRedemption db a t = Some db'" by auto
    then have row: "pd_rows db' (ap_id a) = Some ?p'"
      using Cons.prems by (elim reserve_Some) auto
    have "int (race db' a ts) = min (int (length ts)) (m - pp_usedOrders ?p')"
      by (rule Cons.IH [OF row]) (use Cons.prems lt in \<open>auto simp: row_ok_def in_window_def\<close>)
    then show ?thesis using db' lt by simp
  next
    case False
    then have "reserveFeePolicyRedemption db a t = None" and "pp_usedOrders p = m"
      using Cons.prems by (auto simp: reserveFeePolicyRedemption_def row_ok_def)
    then show ?thesis using Cons.IH [OF Cons.prems(1-5)] Cons.prems(6) by simp
  qed
qed

lemma race_exact_witness:
  "race \<lparr>pd_rows = [''p1'' \<mapsto> ex_policy], pd_events = []\<rparr> (appliedFeePolicy ex_policy) [200, 300, 400] = 1"
proof -
  have "int (race \<lparr>pd_rows = [''p1'' \<mapsto> ex_policy], pd_events = []\<rparr> (appliedFeePolicy ex_policy) [200, 300, 400]) =
      min (int (length [200 :: int, 300, 400])) (2 - pp_usedOrders ex_policy)"
    by (rule race_exact) (auto simp: ex_policy_def appliedFeePolicy_def row_ok_def in_window_def ended_def)
  then show ?thesis by (simp add: ex_policy_def)
qed

text \<open>
  Giving back what was taken restores the policy row, counter and status, as if the unpaid hold
  had never been priced under it.
\<close>

lemma release_undoes_reserve:
  assumes "reserveFeePolicyRedemption db a t = Some db'" "ap_maxOrders a = Some m" "db_ok db"
  shows "pd_rows (releaseFeePolicyRedemption db' (ap_id a)) = pd_rows db"
  using assms(1,2)
proof (rule reserve_Some)
  fix p m'
  assume p: "pd_rows db (ap_id a) = Some p" "pp_maxOrders p = Some m'" "pp_status p = PolicyActive"
    and row: "pd_rows db' = (pd_rows db)(ap_id a \<mapsto> p\<lparr>pp_usedOrders := pp_usedOrders p + 1,
       pp_status := if m' \<le> pp_usedOrders p + 1 then PolicyExhausted else PolicyActive\<rparr>)"
  have "0 \<le> pp_usedOrders p" using db_okD [OF assms(3) p(1)] p(2) by (simp add: row_ok_def)
  moreover have "p\<lparr>pp_usedOrders := pp_usedOrders p, pp_status := PolicyActive\<rparr> = p"
    using p(3) by (cases p) simp
  ultimately show ?thesis
    using p row by (auto simp: releaseFeePolicyRedemption_def fun_upd_idem_iff intro!: ext)
qed

lemma release_undoes_reserve_witness:
  "\<exists>db'. reserveFeePolicyRedemption \<lparr>pd_rows = [''p1'' \<mapsto> ex_policy], pd_events = []\<rparr> (appliedFeePolicy ex_policy) 200 = Some db' \<and>
     pd_rows (releaseFeePolicyRedemption db' ''p1'') = [''p1'' \<mapsto> ex_policy]"
proof -
  let ?db = "\<lparr>pd_rows = [''p1'' \<mapsto> ex_policy], pd_events = []\<rparr>"
  have "reserveFeePolicyRedemption ?db (appliedFeePolicy ex_policy) 200 \<noteq> None"
    by (simp add: reserveFeePolicyRedemption_def ex_policy_def appliedFeePolicy_def in_window_def ended_def Let_def)
  then obtain db' where db': "reserveFeePolicyRedemption ?db (appliedFeePolicy ex_policy) 200 = Some db'" by auto
  have "pd_rows (releaseFeePolicyRedemption db' (ap_id (appliedFeePolicy ex_policy))) = pd_rows ?db"
    by (rule release_undoes_reserve [OF db', of 2]) (simp_all add: ex_policy_def appliedFeePolicy_def db_ok_def row_ok_def)
  with db' show ?thesis by (simp add: appliedFeePolicy_def ex_policy_def)
qed

end
