(* ===== verification/CinemaPolicy.thy ===== *)
theory CinemaPolicy
  imports Regions "HOL-Library.Multiset"
begin

text \<open>
  Cinema pricing regulation: which government order prices a cart and what it does to the money.
  Models \<^verbatim>\<open>apps/api/src/pricing/cinema-policy/cinema-pricing-policy.resolver.ts\<close>,
  \<^verbatim>\<open>apply-policy.ts\<close>, \<^verbatim>\<open>class-ceilings.ts\<close> and the vocabulary of
  \<^verbatim>\<open>packages/shared-types/src/cinema-pricing.ts\<close>.  The sentences a resolution carries for an audit
  screen (\<^verbatim>\<open>explanation\<close>, \<^verbatim>\<open>reason\<close>) are left out: nothing in these files reads them back.
\<close>

section \<open>Data\<close>

datatype local_body = MUNICIPAL_CORPORATION | MUNICIPALITY | NAGAR_PANCHAYAT | GRAM_PANCHAYAT | OTHER_BODY

datatype cinema_format = MULTIPLEX | SINGLE_SCREEN | SPECIAL_THEATRE

datatype climate_type = AC | AIR_COOLED | NON_AC

datatype maintenance_treatment =
  MT_NOT_APPLICABLE | MT_INCLUDED_IN_TICKET_PRICE | MT_ADDED_TO_TICKET_PRICE | MT_UNCONFIRMED

datatype compliance_status =
    NOT_REGULATED | COMPLIANT | POLICY_NOT_FOUND | REQUIRES_APPROVAL | PRICE_EXCEEDS_LIMIT
  | ONLINE_FEE_NOT_ALLOWED | INVALID_CINEMA_CLASSIFICATION | POLICY_CONFIGURATION_ERROR

record policy_row =
  pr_id :: string
  pr_version :: int
  pr_country :: string
  pr_region :: string
  pr_district :: string
  pr_city :: string
  pr_currency :: string
  pr_localBodyType :: "local_body option"
  pr_cinemaFormat :: "cinema_format option"
  pr_climateType :: "climate_type option"
  pr_seatCategory :: "string option"
  pr_maintenanceChargeMinor :: minor
  pr_maintenanceTreatment :: maintenance_treatment
  pr_maintenanceTaxCategory :: "string option"
  pr_onlineFeePolicy :: string
  pr_onlineFeeCapMinor :: "minor option"
  pr_ticketPriceMinMinor :: "minor option"
  pr_ticketPriceMaxMinor :: "minor option"
  pr_effectiveFrom :: time_ms
  pr_effectiveTo :: "time_ms option"
  pr_regulatoryReference :: string

record policy_context =
  px_country :: "string option"
  px_region :: "string option"
  px_district :: "string option"
  px_city :: "string option"
  px_currency :: string
  px_localBodyType :: "local_body option"
  px_cinemaFormat :: "cinema_format option"
  px_climateType :: "climate_type option"
  px_seatCategories :: "string list"
  px_unmappedSeatCategories :: "string list option"
  px_at :: time_ms

record policy_resolution =
  ps_status :: compliance_status
  ps_policy :: "policy_row option"
  ps_specificity :: int

record policy_effect =
  pe_maintenanceMinor :: minor
  pe_maintenanceTreatment :: maintenance_treatment
  pe_maintenanceAddedMinor :: minor
  pe_maintenanceTaxCategory :: "string option"
  pe_maxOnlineFeeMinor :: "minor option"
  pe_complianceStatus :: compliance_status

record class_ceiling =
  cc_regulatoryClass :: string
  cc_regulated :: bool
  cc_sellable :: bool
  cc_maxMinor :: "minor option"
  cc_minMinor :: "minor option"
  cc_regulatoryReference :: "string option"
  cc_status :: compliance_status

section \<open>Resolution\<close>

definition BLOCKING_COMPLIANCE_STATUSES :: "compliance_status list" where
  "BLOCKING_COMPLIANCE_STATUSES =
    [POLICY_NOT_FOUND, PRICE_EXCEEDS_LIMIT, INVALID_CINEMA_CLASSIFICATION, POLICY_CONFIGURATION_ERROR]"

definition blocksBooking :: "compliance_status \<Rightarrow> bool" where
  "blocksBooking status \<longleftrightarrow> status \<in> set BLOCKING_COMPLIANCE_STATUSES"

definition same :: "string option \<Rightarrow> string option \<Rightarrow> bool" where
  "same a b \<longleftrightarrow> \<not> blank a \<and> \<not> blank b \<and> lower (trim (the a)) = lower (trim (the b))"

definition policyScopeMatches :: "string \<Rightarrow> string option \<Rightarrow> bool" where
  "policyScopeMatches rule value \<longleftrightarrow> rule = ''*'' \<or> same (Some rule) value"

definition policySpecificity :: "policy_row \<Rightarrow> int" where
  "policySpecificity rule =
    (if truthy (pr_seatCategory rule) then 128 else 0) +
    (if pr_climateType rule \<noteq> None then 64 else 0) +
    (if pr_cinemaFormat rule \<noteq> None then 32 else 0) +
    (if pr_localBodyType rule \<noteq> None then 16 else 0) +
    (if pr_city rule \<noteq> ''*'' then 8 else 0) +
    (if pr_district rule \<noteq> ''*'' then 4 else 0) +
    (if pr_region rule \<noteq> ''*'' then 2 else 0) +
    (if pr_country rule \<noteq> ''*'' then 1 else 0)"

text \<open>\<^verbatim>\<open>rule.x && rule.x !== ctx.x\<close> for the classification enums, whose values are never empty strings.\<close>

definition class_differs :: "'a option \<Rightarrow> 'a option \<Rightarrow> bool" where
  "class_differs rule value \<longleftrightarrow> rule \<noteq> None \<and> rule \<noteq> value"

definition in_force :: "policy_row \<Rightarrow> time_ms \<Rightarrow> bool" where
  "in_force rule t \<longleftrightarrow> pr_effectiveFrom rule \<le> t \<and> (case pr_effectiveTo rule of None \<Rightarrow> True | Some e \<Rightarrow> t < e)"

definition covers_place :: "policy_row \<Rightarrow> policy_context \<Rightarrow> bool" where
  "covers_place r ctx \<longleftrightarrow>
    policyScopeMatches (pr_country r) (px_country ctx) \<and>
    policyScopeMatches (pr_region r) (px_region ctx) \<and>
    policyScopeMatches (pr_district r) (px_district ctx) \<and>
    policyScopeMatches (pr_city r) (px_city ctx) \<and>
    policyScopeMatches (pr_currency r) (Some (px_currency ctx))"

definition policyApplies :: "policy_row \<Rightarrow> policy_context \<Rightarrow> bool" where
  "policyApplies rule ctx \<longleftrightarrow>
    (if \<not> covers_place rule ctx then False
     else if class_differs (pr_localBodyType rule) (px_localBodyType ctx) then False
     else if class_differs (pr_cinemaFormat rule) (px_cinemaFormat ctx) then False
     else if class_differs (pr_climateType rule) (px_climateType ctx) then False
     else if truthy (pr_seatCategory rule) \<and>
       \<not> (\<exists>c \<in> set (px_seatCategories ctx). same (Some c) (pr_seatCategory rule)) then False
     else in_force rule (px_at ctx))"

definition coversPlace :: "policy_row list \<Rightarrow> policy_context \<Rightarrow> bool" where
  "coversPlace active ctx \<longleftrightarrow> (\<exists>r \<in> set active. covers_place r ctx \<and> in_force r (px_at ctx))"

definition isRegulated :: "policy_row list \<Rightarrow> policy_context \<Rightarrow> bool" where
  "isRegulated active ctx \<longleftrightarrow> (\<exists>r \<in> set active. policyScopeMatches (pr_country r) (px_country ctx))"

definition refusal :: "compliance_status \<Rightarrow> policy_row option \<Rightarrow> int \<Rightarrow> policy_resolution" where
  "refusal status policy spec = \<lparr>ps_status = status, ps_policy = policy, ps_specificity = spec\<rparr>"

definition unmapped_names :: "policy_context \<Rightarrow> string list" where
  "unmapped_names ctx = filter (\<lambda>n. trim n \<noteq> []) (nvl (px_unmappedSeatCategories ctx) [])"

definition classification_wanted :: "policy_row list \<Rightarrow> policy_context \<Rightarrow> bool" where
  "classification_wanted active ctx \<longleftrightarrow> (\<exists>r \<in> set active.
    policyScopeMatches (pr_country r) (px_country ctx) \<and> policyScopeMatches (pr_region r) (px_region ctx) \<and>
    (pr_climateType r \<noteq> None \<and> px_climateType ctx = None \<or>
     pr_cinemaFormat r \<noteq> None \<and> px_cinemaFormat ctx = None \<or>
     pr_localBodyType r \<noteq> None \<and> px_localBodyType ctx = None))"

definition settle_policy :: "policy_row \<Rightarrow> int \<Rightarrow> policy_resolution" where
  "settle_policy policy best =
    (if pr_maintenanceTreatment policy = MT_UNCONFIRMED then refusal POLICY_CONFIGURATION_ERROR (Some policy) best
     else if pr_onlineFeePolicy policy = ''CAPPED'' \<and> pr_onlineFeeCapMinor policy = None
       then refusal POLICY_CONFIGURATION_ERROR (Some policy) best
     else if pr_onlineFeePolicy policy = ''REQUIRES_APPROVAL'' then refusal REQUIRES_APPROVAL (Some policy) best
     else refusal COMPLIANT (Some policy) best)"

definition pick_policy :: "policy_row list \<Rightarrow> policy_resolution" where
  "pick_policy matching =
    (let best = Max (set (map policySpecificity matching));
         winners = filter (\<lambda>r. policySpecificity r = best) matching
     in case winners of
          [policy] \<Rightarrow> settle_policy policy best
        | _ \<Rightarrow> refusal POLICY_CONFIGURATION_ERROR None best)"

definition resolvePolicy :: "policy_row list \<Rightarrow> policy_context \<Rightarrow> policy_resolution" where
  "resolvePolicy active ctx =
    (if \<not> isRegulated active ctx then refusal NOT_REGULATED None (- 1)
     else if unmapped_names ctx \<noteq> [] \<and> coversPlace active ctx then refusal INVALID_CINEMA_CLASSIFICATION None (- 1)
     else
       let matching = filter (\<lambda>r. policyApplies r ctx) active in
       if matching = [] then
         refusal (if classification_wanted active ctx then INVALID_CINEMA_CLASSIFICATION else POLICY_NOT_FOUND) None (- 1)
       else pick_policy matching)"

section \<open>What a resolved policy does to the money\<close>

definition onlineFeeCeiling :: "string \<Rightarrow> minor option \<Rightarrow> minor option" where
  "onlineFeeCeiling policy capMinor =
    (if policy = ''ALLOWED'' then None
     else if policy = ''CAPPED'' then Some (nvl capMinor 0)
     else Some 0)"

definition applyPolicy :: "policy_resolution \<Rightarrow> int \<Rightarrow> policy_effect" where
  "applyPolicy resolution ticketCount =
    (let status = ps_status resolution;
         nothing = \<lparr>pe_maintenanceMinor = 0, pe_maintenanceTreatment = MT_NOT_APPLICABLE, pe_maintenanceAddedMinor = 0,
           pe_maintenanceTaxCategory = None, pe_maxOnlineFeeMinor = None, pe_complianceStatus = status\<rparr>
     in if status = NOT_REGULATED then nothing
        else case ps_policy resolution of
          None \<Rightarrow> nothing\<lparr>pe_maxOnlineFeeMinor := Some 0\<rparr>
        | Some policy \<Rightarrow>
            let perTicket = (if pr_maintenanceTreatment policy = MT_NOT_APPLICABLE then 0
                             else pr_maintenanceChargeMinor policy);
                maintenance = perTicket * max 0 ticketCount
            in \<lparr>pe_maintenanceMinor = maintenance,
                pe_maintenanceTreatment = pr_maintenanceTreatment policy,
                pe_maintenanceAddedMinor =
                  (if pr_maintenanceTreatment policy = MT_ADDED_TO_TICKET_PRICE then maintenance else 0),
                pe_maintenanceTaxCategory = pr_maintenanceTaxCategory policy,
                pe_maxOnlineFeeMinor = onlineFeeCeiling (pr_onlineFeePolicy policy) (pr_onlineFeeCapMinor policy),
                pe_complianceStatus = status\<rparr>)"

definition above :: "minor \<Rightarrow> minor option \<Rightarrow> bool" where
  "above price limit \<longleftrightarrow> (case limit of None \<Rightarrow> False | Some m \<Rightarrow> m < price)"

definition below :: "minor \<Rightarrow> minor option \<Rightarrow> bool" where
  "below price limit \<longleftrightarrow> (case limit of None \<Rightarrow> False | Some m \<Rightarrow> price < m)"

definition checkTicketPrice :: "policy_resolution \<Rightarrow> minor \<Rightarrow> bool \<times> compliance_status" where
  "checkTicketPrice resolution unitPriceMinor =
    (case ps_policy resolution of
       None \<Rightarrow> (True, ps_status resolution)
     | Some policy \<Rightarrow>
         if ps_status resolution = NOT_REGULATED then (True, ps_status resolution)
         else if above unitPriceMinor (pr_ticketPriceMaxMinor policy) then (False, PRICE_EXCEEDS_LIMIT)
         else if below unitPriceMinor (pr_ticketPriceMinMinor policy) then (False, PRICE_EXCEEDS_LIMIT)
         else (True, ps_status resolution))"

definition hasNoCeilingFallback :: "policy_resolution \<Rightarrow> bool" where
  "hasNoCeilingFallback resolution \<longleftrightarrow>
    ps_status resolution \<noteq> NOT_REGULATED \<and>
    (case ps_policy resolution of None \<Rightarrow> False
     | Some p \<Rightarrow> \<not> truthy (pr_seatCategory p) \<and> pr_ticketPriceMaxMinor p = None)"

section \<open>The limit of each seat class\<close>

definition REGULATORY_CLASSES :: "string list" where
  "REGULATORY_CLASSES = [''REGULAR'', ''RECLINER'', ''PREMIUM'', ''NON_PREMIUM'']"

definition ceilingFrom :: "string \<Rightarrow> policy_resolution \<Rightarrow> class_ceiling" where
  "ceilingFrom cls resolution =
    (let regulated = (ps_status resolution \<noteq> NOT_REGULATED);
         policy = ps_policy resolution;
         sellable = (\<not> regulated \<or> policy \<noteq> None \<and> \<not> hasNoCeilingFallback resolution)
     in \<lparr>cc_regulatoryClass = cls, cc_regulated = regulated, cc_sellable = sellable,
         cc_maxMinor = (if sellable \<and> regulated then Option.bind policy pr_ticketPriceMaxMinor else None),
         cc_minMinor = (if sellable \<and> regulated then Option.bind policy pr_ticketPriceMinMinor else None),
         cc_regulatoryReference = map_option pr_regulatoryReference policy,
         cc_status = ps_status resolution\<rparr>)"

definition classCeilings :: "(string \<Rightarrow> policy_resolution) \<Rightarrow> class_ceiling list" where
  "classCeilings resolveClass = map (\<lambda>cls. ceilingFrom cls (resolveClass cls)) REGULATORY_CLASSES"

text \<open>Which of the two sentences \<^verbatim>\<open>priceOutsideBand\<close> answers with, when it answers: the limit it quotes.\<close>

datatype band_refusal = AtMost minor | AtLeast minor

definition priceOutsideBand :: "policy_resolution \<Rightarrow> string \<Rightarrow> minor \<Rightarrow> band_refusal option" where
  "priceOutsideBand resolution cls price =
    (let ceiling = ceilingFrom cls resolution in
     if \<not> cc_regulated ceiling \<or> \<not> cc_sellable ceiling then None
     else if fst (checkTicketPrice resolution price) then None
     else if above price (cc_maxMinor ceiling) then map_option AtMost (cc_maxMinor ceiling)
     else if below price (cc_minMinor ceiling) then map_option AtLeast (cc_minMinor ceiling)
     else None)"

section \<open>Sample values\<close>

definition ex_order_row :: "string \<Rightarrow> string option \<Rightarrow> minor option \<Rightarrow> policy_row" where
  "ex_order_row rid seat hi = \<lparr>pr_id = rid, pr_version = 1, pr_country = ''India'', pr_region = ''Andhra Pradesh'',
     pr_district = ''*'', pr_city = ''*'', pr_currency = ''INR'', pr_localBodyType = None, pr_cinemaFormat = None,
     pr_climateType = None, pr_seatCategory = seat, pr_maintenanceChargeMinor = 500,
     pr_maintenanceTreatment = MT_INCLUDED_IN_TICKET_PRICE, pr_maintenanceTaxCategory = None,
     pr_onlineFeePolicy = ''REQUIRES_APPROVAL'', pr_onlineFeeCapMinor = None, pr_ticketPriceMinMinor = None,
     pr_ticketPriceMaxMinor = hi, pr_effectiveFrom = 0, pr_effectiveTo = None,
     pr_regulatoryReference = ''G.O.Ms.No.13''\<rparr>"

definition ex_ctx :: "string list \<Rightarrow> policy_context" where
  "ex_ctx classes = \<lparr>px_country = Some ''India'', px_region = Some ''andhra pradesh'', px_district = None, px_city = None,
     px_currency = ''INR'', px_localBodyType = None, px_cinemaFormat = None, px_climateType = None,
     px_seatCategories = classes, px_unmappedSeatCategories = None, px_at = 1000\<rparr>"

section \<open>Resolution is deterministic and fails closed\<close>

lemma refusal_simps [simp]:
  "ps_status (refusal s p n) = s" "ps_policy (refusal s p n) = p" "ps_specificity (refusal s p n) = n"
  by (simp_all add: refusal_def)

lemma settle_policy_simps [simp]: "ps_policy (settle_policy p n) = Some p" "ps_status (settle_policy p n) \<noteq> NOT_REGULATED"
  by (simp_all add: settle_policy_def)

lemma pick_policy_some:
  assumes "ps_policy (pick_policy m) = Some p"
  shows "filter (\<lambda>r. policySpecificity r = policySpecificity p) m = [p]"
    and "\<And>q. q \<in> set m \<Longrightarrow> policySpecificity q \<le> policySpecificity p"
    and "pick_policy m = settle_policy p (policySpecificity p)"
proof -
  define best where "best = Max (set (map policySpecificity m))"
  have r: "pick_policy m = (case filter (\<lambda>r. policySpecificity r = best) m of
      [policy] \<Rightarrow> settle_policy policy best | _ \<Rightarrow> refusal POLICY_CONFIGURATION_ERROR None best)"
    by (simp only: pick_policy_def Let_def best_def)
  with assms have w: "filter (\<lambda>r. policySpecificity r = best) m = [p]" by (auto split: list.splits)
  have "p \<in> set (filter (\<lambda>r. policySpecificity r = best) m)" using w by simp
  then have b: "policySpecificity p = best" by auto
  show "filter (\<lambda>r. policySpecificity r = policySpecificity p) m = [p]" using w b by simp
  show "policySpecificity q \<le> policySpecificity p" if "q \<in> set m" for q
    unfolding b best_def using that by (intro Max_ge) auto
  show "pick_policy m = settle_policy p (policySpecificity p)" using r w b by simp
qed

lemma resolvePolicy_cases:
  "resolvePolicy active ctx = refusal NOT_REGULATED None (- 1) \<and> \<not> isRegulated active ctx \<or>
   isRegulated active ctx \<and> (\<exists>s. blocksBooking s \<and> resolvePolicy active ctx = refusal s None (- 1)) \<or>
   isRegulated active ctx \<and> \<not> (unmapped_names ctx \<noteq> [] \<and> coversPlace active ctx) \<and>
     resolvePolicy active ctx = pick_policy (filter (\<lambda>r. policyApplies r ctx) active)"
  by (auto simp: resolvePolicy_def Let_def blocksBooking_def BLOCKING_COMPLIANCE_STATUSES_def)

lemma resolvePolicy_some:
  assumes "ps_policy (resolvePolicy active ctx) = Some p"
  shows "filter (\<lambda>r. policySpecificity r = policySpecificity p) (filter (\<lambda>r. policyApplies r ctx) active) = [p]"
    and "\<And>q. q \<in> set active \<Longrightarrow> policyApplies q ctx \<Longrightarrow> policySpecificity q \<le> policySpecificity p"
    and "resolvePolicy active ctx = settle_policy p (policySpecificity p)"
    and "p \<in> set active" "policyApplies p ctx"
proof -
  let ?m = "filter (\<lambda>r. policyApplies r ctx) active"
  have r: "resolvePolicy active ctx = pick_policy ?m"
    using resolvePolicy_cases [of active ctx] assms by auto
  note p = pick_policy_some [OF assms [unfolded r]]
  show w: "filter (\<lambda>r. policySpecificity r = policySpecificity p) ?m = [p]" by (rule p(1))
  show "policySpecificity q \<le> policySpecificity p" if "q \<in> set active" "policyApplies q ctx" for q
    using p(2) [of q] that by simp
  show "resolvePolicy active ctx = settle_policy p (policySpecificity p)" using r p(3) by simp
  have "p \<in> set (filter (\<lambda>r. policySpecificity r = policySpecificity p) ?m)" by (simp only: w) simp
  then show "p \<in> set active" "policyApplies p ctx" by auto
qed

lemma pick_policy_none: "ps_policy (pick_policy m) = None \<Longrightarrow> ps_status (pick_policy m) = POLICY_CONFIGURATION_ERROR"
  by (auto simp: pick_policy_def Let_def split: list.splits)

text \<open>
  Which order governs a cart is decided by the rules alone, never by the order in which the
  database returns them: a resolution names a rule exactly when that rule applies and is strictly more
  specific than every other applicable rule; in a regulated market every other outcome refuses the
  booking, and ordinary platform pricing is used only where no rule claims the country.
\<close>

lemma resolvePolicy_unique_or_refused:
  "(case ps_policy (resolvePolicy active ctx) of
      Some p \<Rightarrow> policyApplies p ctx \<and> p \<in> set active \<and> isRegulated active ctx \<and>
        (\<forall>q \<in> set active. policyApplies q ctx \<longrightarrow> q = p \<or> policySpecificity q < policySpecificity p) \<and>
        count (mset active) p = 1
    | None \<Rightarrow> if isRegulated active ctx then blocksBooking (ps_status (resolvePolicy active ctx))
              else ps_status (resolvePolicy active ctx) = NOT_REGULATED)"
proof (cases "ps_policy (resolvePolicy active ctx)")
  case None
  then show ?thesis
    using resolvePolicy_cases [of active ctx] pick_policy_none [of "filter (\<lambda>r. policyApplies r ctx) active"]
    by (auto simp: blocksBooking_def BLOCKING_COMPLIANCE_STATUSES_def)
next
  case (Some p)
  note r = resolvePolicy_some [OF Some]
  let ?w = "filter (\<lambda>r. policySpecificity r = policySpecificity p) (filter (\<lambda>r. policyApplies r ctx) active)"
  have "isRegulated active ctx" using resolvePolicy_cases [of active ctx] Some by auto
  moreover have "q = p \<or> policySpecificity q < policySpecificity p" if "q \<in> set active" "policyApplies q ctx" for q
  proof (cases "policySpecificity q = policySpecificity p")
    case True
    with that have "q \<in> set ?w" by simp
    then show ?thesis by (simp only: r(1)) simp
  next
    case False
    then show ?thesis using r(2) [OF that] by simp
  qed
  moreover have "count (mset active) p = count (mset ?w) p" using r(5) by simp
  then have "count (mset active) p = 1" by (simp only: r(1)) simp
  ultimately show ?thesis using Some r(4,5) by auto
qed

lemma resolvePolicy_unique_or_refused_witness:
  "map_option pr_id (ps_policy (resolvePolicy [ex_order_row ''any'' None None, ex_order_row ''reg'' (Some ''REGULAR'') (Some 15000)]
     (ex_ctx [''REGULAR'']))) = Some ''reg'' \<and>
   policyApplies (ex_order_row ''reg'' (Some ''REGULAR'') (Some 15000)) (ex_ctx [''REGULAR''])"
proof -
  let ?rows = "[ex_order_row ''any'' None None, ex_order_row ''reg'' (Some ''REGULAR'') (Some 15000)]"
  have w: "map_option pr_id (ps_policy (resolvePolicy ?rows (ex_ctx [''REGULAR'']))) = Some ''reg''" by code_simp
  then obtain p where p: "ps_policy (resolvePolicy ?rows (ex_ctx [''REGULAR''])) = Some p" "pr_id p = ''reg''" by auto
  have "policyApplies p (ex_ctx [''REGULAR'']) \<and> p \<in> set ?rows"
    using resolvePolicy_unique_or_refused [of ?rows "ex_ctx [''REGULAR'']"] p(1) by simp
  moreover from this have "p = ex_order_row ''reg'' (Some ''REGULAR'') (Some 15000)"
    using p(2) by (auto simp: ex_order_row_def)
  ultimately show ?thesis using w by simp
qed

lemma case_singleton_mset:
  assumes "mset xs = mset ys"
  shows "(case xs of [x] \<Rightarrow> f x | _ \<Rightarrow> d) = (case ys of [x] \<Rightarrow> f x | _ \<Rightarrow> d)"
proof (cases "length xs = 1")
  case True
  then obtain x where x: "xs = [x]" by (auto simp: length_Suc_conv)
  with assms have "ys = [x]" by (metis mset_single_iff_right)
  with x show ?thesis by simp
next
  case False
  with assms have "length ys \<noteq> 1" by (metis size_mset)
  with False show ?thesis by (auto split: list.splits)
qed

lemma pick_policy_mset:
  assumes "mset m = mset m'"
  shows "pick_policy m = pick_policy m'"
proof -
  have s: "set m = set m'" using assms by (metis set_mset_mset)
  show ?thesis
    unfolding pick_policy_def Let_def list.set_map s
    by (rule case_singleton_mset) (simp add: assms)
qed

text \<open>
  Two deployments that read the same rules in a different order price every cart alike.
\<close>

lemma resolvePolicy_row_order:
  assumes "mset active = mset active'"
  shows "resolvePolicy active ctx = resolvePolicy active' ctx"
proof -
  have s: "set active = set active'" using assms by (metis set_mset_mset)
  let ?m = "filter (\<lambda>r. policyApplies r ctx)"
  have m: "mset (?m active) = mset (?m active')" using assms by simp
  have "pick_policy (?m active) = pick_policy (?m active')" by (rule pick_policy_mset [OF m])
  moreover have "?m active = [] \<longleftrightarrow> ?m active' = []" using m by (metis mset_zero_iff)
  moreover have "isRegulated active ctx = isRegulated active' ctx" "coversPlace active ctx = coversPlace active' ctx"
      "classification_wanted active ctx = classification_wanted active' ctx"
    by (simp_all only: isRegulated_def coversPlace_def classification_wanted_def s)
  ultimately show ?thesis by (simp only: resolvePolicy_def Let_def)
qed

section \<open>What it does to the money\<close>

text \<open>
  Absence of a rule is never permission: the platform's booking fee is left uncapped only in an
  unregulated market or under a resolved rule that allows it.  An included maintenance charge is
  disclosed and never added, and an added one is added in full, once per ticket.
\<close>

lemma applyPolicy_fails_closed:
  "(pe_maxOnlineFeeMinor (applyPolicy (resolvePolicy active ctx) n) = None \<longleftrightarrow>
      \<not> isRegulated active ctx \<or>
      (\<exists>p. ps_policy (resolvePolicy active ctx) = Some p \<and> pr_onlineFeePolicy p = ''ALLOWED'')) \<and>
   pe_maintenanceAddedMinor (applyPolicy (resolvePolicy active ctx) n) =
     (case ps_policy (resolvePolicy active ctx) of
        Some p \<Rightarrow> if pr_maintenanceTreatment p = MT_ADDED_TO_TICKET_PRICE
                  then pr_maintenanceChargeMinor p * max 0 n else 0
      | None \<Rightarrow> 0)"
proof (cases "ps_policy (resolvePolicy active ctx)")
  case None
  then have "ps_status (resolvePolicy active ctx) = NOT_REGULATED \<longleftrightarrow> \<not> isRegulated active ctx"
    using resolvePolicy_cases [of active ctx] pick_policy_none [of "filter (\<lambda>r. policyApplies r ctx) active"]
    by (auto simp: blocksBooking_def BLOCKING_COMPLIANCE_STATUSES_def)
  with None show ?thesis by (simp add: applyPolicy_def Let_def)
next
  case (Some p)
  have "isRegulated active ctx" using resolvePolicy_cases [of active ctx] Some by auto
  moreover have "ps_status (resolvePolicy active ctx) \<noteq> NOT_REGULATED" by (simp add: resolvePolicy_some(3) [OF Some])
  ultimately show ?thesis using Some by (simp add: applyPolicy_def Let_def onlineFeeCeiling_def)
qed

lemma applyPolicy_fails_closed_witness:
  "pe_maxOnlineFeeMinor (applyPolicy (resolvePolicy [ex_order_row ''a'' None None] (ex_ctx [])) 2) \<noteq> None \<and>
   pe_maintenanceAddedMinor (applyPolicy (resolvePolicy [ex_order_row ''a'' None None] (ex_ctx [])) 2) = 0"
proof -
  have reg: "isRegulated [ex_order_row ''a'' None None] (ex_ctx [])" by code_simp
  have pol: "ps_policy (resolvePolicy [ex_order_row ''a'' None None] (ex_ctx [])) = Some (ex_order_row ''a'' None None)"
    by code_simp
  show ?thesis
    using applyPolicy_fails_closed [of "[ex_order_row ''a'' None None]" "ex_ctx []" 2] reg pol
    by (simp add: ex_order_row_def)
qed

text \<open>
  The organizer's price check agrees with checkout: for a sellable regulated class a price is
  answered with a limit exactly when checkout's own band test fails, and the limit quoted is one the
  price really breaks.
\<close>

lemma priceOutsideBand_agrees:
  assumes "cc_regulated (ceilingFrom cls r)" "cc_sellable (ceilingFrom cls r)"
  shows "(priceOutsideBand r cls price = None \<longleftrightarrow> fst (checkTicketPrice r price)) \<and>
    (\<forall>m. priceOutsideBand r cls price = Some (AtMost m) \<longrightarrow> m < price) \<and>
    (\<forall>m. priceOutsideBand r cls price = Some (AtLeast m) \<longrightarrow> price < m)"
  using assms
  by (auto simp: priceOutsideBand_def ceilingFrom_def checkTicketPrice_def Let_def above_def below_def
      split: option.splits if_splits)

lemma priceOutsideBand_agrees_witness:
  "priceOutsideBand (settle_policy (ex_order_row ''reg'' (Some ''REGULAR'') (Some 15000)) 131) ''REGULAR'' 30000 = Some (AtMost 15000)
   \<and> \<not> fst (checkTicketPrice (settle_policy (ex_order_row ''reg'' (Some ''REGULAR'') (Some 15000)) 131) 30000)"
proof -
  let ?r = "settle_policy (ex_order_row ''reg'' (Some ''REGULAR'') (Some 15000)) 131"
  have "cc_regulated (ceilingFrom ''REGULAR'' ?r)" "cc_sellable (ceilingFrom ''REGULAR'' ?r)" by code_simp+
  note p = priceOutsideBand_agrees [OF this, of 30000]
  have "priceOutsideBand ?r ''REGULAR'' 30000 = Some (AtMost 15000)" by code_simp
  with p show ?thesis by auto
qed

end
