(* ===== verification/SaleEligibility.thy ===== *)
theory SaleEligibility
  imports CinemaPolicy
begin

text \<open>
  Whether a cinema cart may be sold online, asked once for checkout, the organizer's readiness page
  and the storefront: \<^verbatim>\<open>apps/api/src/pricing/cinema-policy/sale-eligibility.ts\<close>.  The policy lookup is a
  function from a context to a resolution (checkout passes \<open>resolvePolicy\<close> over the active rows) and
  \<^verbatim>\<open>money\<close>, which formats an amount with the runtime's \<^verbatim>\<open>Intl\<close> tables, is a parameter.
\<close>

section \<open>Data\<close>

record policy_venue =
  pv_country :: "string option"
  pv_region :: "string option"
  pv_city :: "string option"

record policy_cinema =
  pn_id :: "string option"
  pn_country :: "string option"
  pn_region :: "string option"
  pn_district :: "string option"
  pn_city :: "string option"
  pn_localBodyType :: "local_body option"
  pn_cinemaFormat :: "cinema_format option"
  pn_climateType :: "climate_type option"
  pn_venue :: "policy_venue option"

record sale_line =
  sl_unitPriceMinor :: minor
  sl_quantity :: int
  sl_category :: "string option"
  sl_seatCategoryName :: "string option"
  sl_ticketTypeId :: "string option"
  sl_ticketTypeName :: "string option"

record over_ceiling_line =
  ol_seatCategoryName :: "string option"
  ol_priceMinor :: minor
  ol_ticketTypeId :: "string option"
  ol_ticketTypeName :: "string option"
  ol_maxMinor :: "minor option"
  ol_minMinor :: "minor option"

record unrated_line =
  ul_regulatoryClass :: "string option"
  ul_seatCategoryName :: "string option"
  ul_ticketTypeId :: "string option"
  ul_ticketTypeName :: "string option"

record policy_outcome =
  oc_resolution :: policy_resolution
  oc_effect :: policy_effect
  oc_context :: policy_context
  oc_overCeiling :: "over_ceiling_line list"
  oc_unrated :: "unrated_line list option"
  oc_jurisdiction :: "policy_resolution option"

datatype blocker_code =
  NO_PRICING_POLICY | PRICING_POLICY_CONFLICT | CINEMA_NOT_CLASSIFIED | SEAT_CLASS_UNMAPPED | PRICE_OVER_CEILING
  | REGULATORY_PRICING_UNRESOLVED

datatype blocker_owner = ORGANIZER | PLATFORM

record sale_blocker =
  sb_code :: blocker_code
  sb_owner :: blocker_owner
  sb_organizerMessage :: string
  sb_fixPath :: "string option"
  sb_buyerMessage :: string
  sb_subject :: "string option"
  sb_ticketTypeIds :: "string list"

record eligibility_ticket_type =
  et_id :: string
  et_name :: string
  et_priceMinor :: minor
  et_currency :: "string option"
  et_seatCategory :: "(string \<times> string option) option"

record session_eligibility =
  se_sellable :: bool
  se_blockers :: "sale_blocker list"
  se_sellableTicketTypeIds :: "string list"

type_synonym resolve_policy = "policy_context \<Rightarrow> policy_resolution"

definition BUYER_SALE_NOT_OPEN :: string where
  "BUYER_SALE_NOT_OPEN = ''Online booking is not open for this show yet. Please check back later or contact the venue.''"

section \<open>The regulatory lookup of one cart\<close>

definition PLACE_CLASSES :: "string list" where
  "PLACE_CLASSES = [''REGULAR'', ''RECLINER'', ''PREMIUM'', ''NON_PREMIUM'']"

definition placePosition :: "(string list \<Rightarrow> policy_resolution) \<Rightarrow> policy_resolution" where
  "placePosition ask =
    (let whole = ask [] in
     if ps_status whole \<noteq> POLICY_NOT_FOUND then whole
     else case find (\<lambda>r. ps_status r \<noteq> POLICY_NOT_FOUND) (map (\<lambda>cls. ask [cls]) PLACE_CLASSES) of
            Some one \<Rightarrow> one | None \<Rightarrow> whole)"

definition cart_classes :: "sale_line list \<Rightarrow> string list" where
  "cart_classes lines = unique (map the (filter truthy (map sl_category lines)))"

definition cart_unmapped :: "sale_line list \<Rightarrow> string list" where
  "cart_unmapped lines =
    unique (map (the \<circ> sl_seatCategoryName)
      (filter (\<lambda>l. \<not> truthy (sl_category l) \<and> truthy (sl_seatCategoryName l)) lines))"

definition or_else :: "'a option \<Rightarrow> 'a option \<Rightarrow> 'a option" where
  "or_else a b = (case a of Some x \<Rightarrow> Some x | None \<Rightarrow> b)"

definition cart_context :: "policy_cinema option \<Rightarrow> string \<Rightarrow> sale_line list \<Rightarrow> time_ms \<Rightarrow> policy_context" where
  "cart_context cinema currency lines t =
    (let venue = Option.bind cinema pn_venue; classes = cart_classes lines
     in \<lparr>px_country = or_else (Option.bind cinema pn_country) (Option.bind venue pv_country),
         px_region = or_else (Option.bind cinema pn_region) (Option.bind venue pv_region),
         px_district = Option.bind cinema pn_district,
         px_city = or_else (Option.bind cinema pn_city) (Option.bind venue pv_city),
         px_currency = currency,
         px_localBodyType = Option.bind cinema pn_localBodyType,
         px_cinemaFormat = Option.bind cinema pn_cinemaFormat,
         px_climateType = Option.bind cinema pn_climateType,
         px_seatCategories = (if length classes = 1 then classes else []),
         px_unmappedSeatCategories = Some (cart_unmapped lines),
         px_at = t\<rparr>)"

definition over_line :: "policy_resolution \<Rightarrow> string option \<Rightarrow> sale_line \<Rightarrow> over_ceiling_line" where
  "over_line r name line = \<lparr>ol_seatCategoryName = name, ol_priceMinor = sl_unitPriceMinor line,
     ol_ticketTypeId = sl_ticketTypeId line, ol_ticketTypeName = sl_ticketTypeName line,
     ol_maxMinor = Option.bind (ps_policy r) pr_ticketPriceMaxMinor,
     ol_minMinor = Option.bind (ps_policy r) pr_ticketPriceMinMinor\<rparr>"

definition unrated_of :: "string option \<Rightarrow> string option \<Rightarrow> sale_line \<Rightarrow> unrated_line" where
  "unrated_of cls name line = \<lparr>ul_regulatoryClass = cls, ul_seatCategoryName = name,
     ul_ticketTypeId = sl_ticketTypeId line, ul_ticketTypeName = sl_ticketTypeName line\<rparr>"

definition class_findings ::
  "resolve_policy \<Rightarrow> policy_context \<Rightarrow> sale_line list \<Rightarrow> string \<Rightarrow> over_ceiling_line list \<times> unrated_line list" where
  "class_findings resolve ctx lines cls =
    (let perClass = resolve (ctx\<lparr>px_seatCategories := [cls]\<rparr>);
         mine = filter (\<lambda>l. sl_category l = Some cls) lines
     in if hasNoCeilingFallback perClass
        then ([], map (\<lambda>l. unrated_of (Some cls) (sl_seatCategoryName l) l) mine)
        else (map (\<lambda>l. over_line perClass (Some (nvl (sl_seatCategoryName l) cls)) l)
                (filter (\<lambda>l. \<not> fst (checkTicketPrice perClass (sl_unitPriceMinor l))) mine), []))"

definition classless_findings ::
  "resolve_policy \<Rightarrow> policy_context \<Rightarrow> sale_line list \<Rightarrow> over_ceiling_line list \<times> unrated_line list" where
  "classless_findings resolve ctx lines =
    (let noClass = resolve (ctx\<lparr>px_seatCategories := [], px_unmappedSeatCategories := Some []\<rparr>);
         classless = filter (\<lambda>l. \<not> truthy (sl_category l) \<and> \<not> truthy (sl_seatCategoryName l)) lines
     in if hasNoCeilingFallback noClass then ([], map (unrated_of None None) classless)
        else (map (over_line noClass None)
                (filter (\<lambda>l. \<not> fst (checkTicketPrice noClass (sl_unitPriceMinor l))) classless), []))"

definition unconfigured :: policy_resolution where
  "unconfigured = \<lparr>ps_status = NOT_REGULATED, ps_policy = None, ps_specificity = - 1\<rparr>"

definition resolveCinemaPolicy ::
  "resolve_policy option \<Rightarrow> policy_cinema option \<Rightarrow> string \<Rightarrow> sale_line list \<Rightarrow> time_ms \<Rightarrow> policy_outcome" where
  "resolveCinemaPolicy resolver cinema currency lines t =
    (let context = cart_context cinema currency lines t;
         resolution = (case resolver of Some resolve \<Rightarrow> resolve context | None \<Rightarrow> unconfigured);
         jurisdiction = (case resolver of None \<Rightarrow> None
           | Some resolve \<Rightarrow>
               if ps_status resolution = INVALID_CINEMA_CLASSIFICATION \<and> cart_unmapped lines \<noteq> []
               then Some (placePosition (\<lambda>classes.
                      resolve (context\<lparr>px_seatCategories := classes, px_unmappedSeatCategories := Some []\<rparr>)))
               else None);
         ticketCount = sum_list (map (\<lambda>l. max 0 (sl_quantity l)) lines);
         findings = (case resolver of None \<Rightarrow> []
           | Some resolve \<Rightarrow>
               if ps_status resolution \<noteq> NOT_REGULATED
               then map (class_findings resolve context lines) (cart_classes lines) @
                    [classless_findings resolve context lines]
               else [])
     in \<lparr>oc_resolution = resolution, oc_effect = applyPolicy resolution ticketCount, oc_context = context,
         oc_overCeiling = concat (map fst findings), oc_unrated = Some (concat (map snd findings)),
         oc_jurisdiction = jurisdiction\<rparr>)"

section \<open>The refusals of one cart\<close>

definition seatClassesPath :: "string option \<Rightarrow> string" where
  "seatClassesPath cinemaId =
    (if truthy cinemaId then ''/organizer/cinemas/'' @ the cinemaId @ ''/readiness#seat-classes''
     else ''/organizer/cinemas'')"

definition schedulePath :: "string option \<Rightarrow> string" where
  "schedulePath cinemaId =
    (if truthy cinemaId then ''/organizer/cinemas/'' @ the cinemaId @ ''/schedule'' else ''/organizer/cinemas'')"

definition placeName :: "policy_context \<Rightarrow> string" where
  "placeName ctx =
    (if \<not> blank (px_region ctx) then trim (the (px_region ctx))
     else if \<not> blank (px_city ctx) then trim (the (px_city ctx))
     else ''this area'')"

definition listOf :: "string list \<Rightarrow> string" where
  "listOf names =
    (case names of [] \<Rightarrow> [] | [x] \<Rightarrow> x
     | _ \<Rightarrow> join '', '' (butlast names) @ '' and '' @ last names)"

definition unmappedSeatClassMessage :: "string list \<Rightarrow> string \<Rightarrow> compliance_status option \<Rightarrow> string" where
  "unmappedSeatClassMessage names place placeStatus =
    (let one = (length names = 1);
         subject = ''Seat '' @ (if one then ''category'' else ''categories'') @ '' '' @ listOf names @ '' '' @
           (if one then ''has'' else ''have'') @ '' no seat class yet''
     in case placeStatus of
          Some status \<Rightarrow>
            if blocksBooking status then
              (let why = (if status = POLICY_NOT_FOUND
                          then ''online sales in '' @ place @ '' stay closed until ETicketsGo adds the state's price rules''
                          else if status = INVALID_CINEMA_CLASSIFICATION
                          then ''online sales also need this cinema's legal type, which only ETicketsGo can set''
                          else ''online sales in '' @ place @ '' also wait on ETicketsGo to correct its price rules'')
               in subject @ ''. Choose '' @ (if one then ''it'' else ''them'') @
                  '' under Seat classes. That alone will not open sales: '' @ why @ ''.'')
            else subject @ '', so '' @ (if one then ''its'' else ''their'') @ '' tickets cannot be sold online. '' @ place @
              '' sets the highest price for each seat class. Choose the class under Seat classes.''
        | None \<Rightarrow> subject @ '', so '' @ (if one then ''its'' else ''their'') @ '' tickets cannot be sold online. '' @ place @
              '' sets the highest price for each seat class. Choose the class under Seat classes.'')"

definition blocker ::
  "blocker_code \<Rightarrow> blocker_owner \<Rightarrow> string \<Rightarrow> string option \<Rightarrow> string option \<Rightarrow> string list \<Rightarrow> sale_blocker" where
  "blocker code owner msg fix subj ids = \<lparr>sb_code = code, sb_owner = owner, sb_organizerMessage = msg, sb_fixPath = fix,
     sb_buyerMessage = BUYER_SALE_NOT_OPEN, sb_subject = subj, sb_ticketTypeIds = ids\<rparr>"

definition own_ids :: "string option \<Rightarrow> string list \<Rightarrow> string list" where
  "own_ids lineId ids = (if truthy lineId then [the lineId] else ids)"

definition unrated_blocker :: "string \<Rightarrow> string option \<Rightarrow> string list \<Rightarrow> unrated_line \<Rightarrow> sale_blocker" where
  "unrated_blocker place cinemaId ids line =
    (case ul_regulatoryClass line of
       None \<Rightarrow>
         (let tname = nvl (ul_ticketTypeName line) ''A ticket'' in
          blocker SEAT_CLASS_UNMAPPED ORGANIZER
            (tname @ '' has no seat category, and '' @ place @ '' sets a price limit for each seat class, '' @
             ''so it cannot be sold online. Attach it to a seat category that has a seat class under '' @
             ''Seat classes, or contact support.'')
            (Some (seatClassesPath cinemaId)) (Some tname) (own_ids (ul_ticketTypeId line) ids))
     | Some _ \<Rightarrow>
         (let name = nvl (ul_seatCategoryName line) (nvl (ul_ticketTypeName line) ''A seat category'') in
          blocker SEAT_CLASS_UNMAPPED ORGANIZER
            (''Seat category '' @ name @ '' is set to a seat class that has no price limit on record for '' @ place @
             '', so its tickets cannot be sold online. Set it to a class '' @ place @ '' has a '' @
             ''limit for under Seat classes, or contact support.'')
            (Some (seatClassesPath cinemaId)) (Some name) (own_ids (ul_ticketTypeId line) ids)))"

definition over_blocker ::
  "(minor \<Rightarrow> string \<Rightarrow> string) \<Rightarrow> policy_context \<Rightarrow> string \<Rightarrow> string option \<Rightarrow> string list \<Rightarrow> over_ceiling_line \<Rightarrow> sale_blocker" where
  "over_blocker money ctx place cinemaId ids line =
    (let name = nvl (ol_ticketTypeName line) (nvl (ol_seatCategoryName line) ''A ticket'');
         price = money (ol_priceMinor line) (px_currency ctx);
         limit = (if above (ol_priceMinor line) (ol_maxMinor line)
                  then ''above the most '' @ place @ '' allows for its seat class ('' @
                    money (the (ol_maxMinor line)) (px_currency ctx) @ '')''
                  else if below (ol_priceMinor line) (ol_minMinor line)
                  then ''below the least '' @ place @ '' allows for its seat class ('' @
                    money (the (ol_minMinor line)) (px_currency ctx) @ '')''
                  else ''outside what '' @ place @ '' allows for its seat class'')
     in blocker PRICE_OVER_CEILING ORGANIZER
          (name @ '' is priced at '' @ price @ '', '' @ limit @ ''. Change the price on the schedule, '' @
           ''or check its seat class under Seat classes.'')
          (Some (schedulePath cinemaId)) (Some name) (own_ids (ol_ticketTypeId line) ids))"

function saleBlockersFromPolicy ::
  "(minor \<Rightarrow> string \<Rightarrow> string) \<Rightarrow> policy_outcome \<Rightarrow> string option \<Rightarrow> string list \<Rightarrow> sale_blocker list" where
  "saleBlockersFromPolicy money outcome cinemaId ids =
    (let status = ps_status (oc_resolution outcome);
         context = oc_context outcome;
         place = placeName context;
         unrated = map (unrated_blocker place cinemaId ids) (nvl (oc_unrated outcome) []);
         unmapped = unmapped_names context
     in if blocksBooking status then
          if unrated \<noteq> [] \<and> unmapped = [] then unrated
          else if status = INVALID_CINEMA_CLASSIFICATION \<and> unmapped \<noteq> [] then
            blocker SEAT_CLASS_UNMAPPED ORGANIZER
              (unmappedSeatClassMessage unmapped place (map_option ps_status (oc_jurisdiction outcome)))
              (Some (seatClassesPath cinemaId)) (Some (join '', '' unmapped)) ids #
            (case oc_jurisdiction outcome of
               None \<Rightarrow> []
             | Some j \<Rightarrow>
                 if blocksBooking (ps_status j)
                 then saleBlockersFromPolicy money
                        (outcome\<lparr>oc_resolution := j, oc_context := context\<lparr>px_unmappedSeatCategories := Some []\<rparr>,
                           oc_overCeiling := [], oc_unrated := Some [], oc_jurisdiction := None\<rparr>) cinemaId ids
                 else [])
          else if status = INVALID_CINEMA_CLASSIFICATION then
            [blocker CINEMA_NOT_CLASSIFIED PLATFORM
              (''Ticket sales are paused for this cinema: '' @ place @ '' sets ticket prices by the '' @
               ''cinema's legal type (local body, format and cooling), and this cinema has none on '' @
               ''record yet. Only ETicketsGo can set it: use \"Ask ETicketsGo to change this\" under '' @
               ''Regulatory pricing.'') None None ids]
          else if status = POLICY_NOT_FOUND then
            [blocker NO_PRICING_POLICY PLATFORM
              (''Ticket sales are paused for cinemas in '' @ place @ '': no state price rules are '' @
               ''configured yet. Contact support.'') None None ids]
          else if status = POLICY_CONFIGURATION_ERROR then
            [blocker PRICING_POLICY_CONFLICT PLATFORM
              (''Ticket sales are paused for cinemas in '' @ place @ '': the platform's price rules for '' @
               ''this area need correcting. Contact support.'') None None ids]
          else
            [blocker REGULATORY_PRICING_UNRESOLVED PLATFORM
              (''Ticket sales are paused for cinemas in '' @ place @ '': the state price rules cannot be '' @
               ''applied yet. Contact support.'') None None ids]
        else unrated @ map (over_blocker money context place cinemaId ids) (oc_overCeiling outcome))"
  by pat_completeness auto
termination
  by (relation "measure (\<lambda>(_, outcome, _, _). case oc_jurisdiction outcome of None \<Rightarrow> 0 | Some _ \<Rightarrow> 1)") auto

declare saleBlockersFromPolicy.simps [simp del]

definition cartSaleEligibility ::
  "(minor \<Rightarrow> string \<Rightarrow> string) \<Rightarrow> resolve_policy option \<Rightarrow> policy_cinema option \<Rightarrow> string \<Rightarrow> sale_line list \<Rightarrow> time_ms \<Rightarrow>
    bool \<times> sale_blocker list \<times> policy_outcome" where
  "cartSaleEligibility money resolver cinema currency lines t =
    (let policy = resolveCinemaPolicy resolver cinema currency lines t;
         blockers = saleBlockersFromPolicy money policy (Option.bind cinema pn_id)
           (map the (filter truthy (map sl_ticketTypeId lines)))
     in (blockers = [], blockers, policy))"

section \<open>Every cart of one show\<close>

definition lineOf :: "eligibility_ticket_type \<Rightarrow> sale_line" where
  "lineOf t = \<lparr>sl_unitPriceMinor = et_priceMinor t, sl_quantity = 1, sl_category = Option.bind (et_seatCategory t) snd,
     sl_seatCategoryName = map_option fst (et_seatCategory t), sl_ticketTypeId = Some (et_id t),
     sl_ticketTypeName = Some (et_name t)\<rparr>"

text \<open>\<^verbatim>\<open>||\<close> on strings falls through an empty string as well as null.\<close>

definition currency_of :: "string option \<Rightarrow> eligibility_ticket_type \<Rightarrow> string option" where
  "currency_of venueCountry t =
    (if \<not> blank (et_currency t) then Some (upper (trim (the (et_currency t))))
     else if truthy (currencyForCountry venueCountry) then currencyForCountry venueCountry else None)"

definition same_fault :: "sale_blocker \<Rightarrow> sale_blocker \<Rightarrow> bool" where
  "same_fault a b \<longleftrightarrow> sb_code a = sb_code b \<and> nvl (sb_subject a) [] = nvl (sb_subject b) [] \<and>
    sb_organizerMessage a = sb_organizerMessage b"

fun fold_in :: "sale_blocker \<Rightarrow> sale_blocker list \<Rightarrow> sale_blocker list" where
  "fold_in b [] = [b]"
| "fold_in b (s # ss) =
    (if same_fault s b then s\<lparr>sb_ticketTypeIds := unique (sb_ticketTypeIds s @ sb_ticketTypeIds b)\<rparr> # ss
     else s # fold_in b ss)"

definition fold_blockers :: "sale_blocker list \<Rightarrow> sale_blocker list" where
  "fold_blockers found = fold fold_in found []"

definition session_found ::
  "(minor \<Rightarrow> string \<Rightarrow> string) \<Rightarrow> resolve_policy \<Rightarrow> policy_cinema \<Rightarrow> eligibility_ticket_type list \<Rightarrow> string option \<Rightarrow>
    time_ms \<Rightarrow> sale_blocker list" where
  "session_found money resolve cinema types venueCountry t =
    (let cart = (\<lambda>currency ls. fst (snd (cartSaleEligibility money (Some resolve) (Some cinema) currency ls t)));
         single = concat (map (\<lambda>ty. case currency_of venueCountry ty of
                     None \<Rightarrow> [] | Some c \<Rightarrow> cart c [lineOf ty]) types);
         currencies = unique (map (currency_of venueCountry) types)
     in if 1 < length types then
          (case currencies of
             [Some c] \<Rightarrow> single @ filter (\<lambda>b. sb_code b \<notin> set (map sb_code single)) (cart c (map lineOf types))
           | _ \<Rightarrow> single)
        else single)"

definition sessionSaleEligibility ::
  "(minor \<Rightarrow> string \<Rightarrow> string) \<Rightarrow> resolve_policy option \<Rightarrow> policy_cinema option \<Rightarrow> eligibility_ticket_type list \<Rightarrow>
    string option \<Rightarrow> time_ms \<Rightarrow> session_eligibility" where
  "sessionSaleEligibility money resolver cinema types venueCountry t =
    (let allIds = map et_id types in
     case (cinema, resolver) of
       (Some cin, Some resolve) \<Rightarrow>
         if types = [] then \<lparr>se_sellable = True, se_blockers = [], se_sellableTicketTypeIds = allIds\<rparr>
         else
           let blockers = fold_blockers (session_found money resolve cin types venueCountry t);
               stopped = concat (map sb_ticketTypeIds blockers)
           in \<lparr>se_sellable = (blockers = []), se_blockers = blockers,
               se_sellableTicketTypeIds = filter (\<lambda>i. i \<notin> set stopped) allIds\<rparr>
     | _ \<Rightarrow> \<lparr>se_sellable = True, se_blockers = [], se_sellableTicketTypeIds = allIds\<rparr>)"

text \<open>
  \<^verbatim>\<open>memoizedResolver\<close>: one remembered answer per distinct question.  The JSON key is the whole
  context, so it is modelled by the context itself.
\<close>

definition memoized :: "resolve_policy \<Rightarrow> (policy_context \<times> policy_resolution) list \<Rightarrow> policy_context \<Rightarrow>
    policy_resolution \<times> (policy_context \<times> policy_resolution) list" where
  "memoized resolve seen ctx =
    (case map_of seen ctx of Some hit \<Rightarrow> (hit, seen) | None \<Rightarrow> let hit = resolve ctx in (hit, (ctx, hit) # seen))"

section \<open>Reference notions\<close>

definition price_fine :: "policy_resolution \<Rightarrow> sale_line \<Rightarrow> bool" where
  "price_fine r l \<longleftrightarrow> \<not> hasNoCeilingFallback r \<and> fst (checkTicketPrice r (sl_unitPriceMinor l))"

text \<open>The position a line is judged by: its own class's, the class-agnostic one, or none for a named but unmapped seat.\<close>

definition line_position :: "resolve_policy \<Rightarrow> policy_context \<Rightarrow> sale_line \<Rightarrow> policy_resolution option" where
  "line_position resolve ctx l =
    (if truthy (sl_category l) then Some (resolve (ctx\<lparr>px_seatCategories := [the (sl_category l)]\<rparr>))
     else if truthy (sl_seatCategoryName l) then None
     else Some (resolve (ctx\<lparr>px_seatCategories := [], px_unmappedSeatCategories := Some []\<rparr>)))"

definition line_fine :: "resolve_policy \<Rightarrow> policy_context \<Rightarrow> sale_line \<Rightarrow> bool" where
  "line_fine resolve ctx l \<longleftrightarrow> (case line_position resolve ctx l of None \<Rightarrow> True | Some r \<Rightarrow> price_fine r l)"

section \<open>Sample values\<close>

definition ex_cinema :: policy_cinema where
  "ex_cinema = \<lparr>pn_id = Some ''c1'', pn_country = Some ''India'', pn_region = Some ''Andhra Pradesh'', pn_district = None,
     pn_city = None, pn_localBodyType = None, pn_cinemaFormat = None, pn_climateType = None, pn_venue = None\<rparr>"

definition ex_type :: "string \<Rightarrow> string option \<Rightarrow> minor \<Rightarrow> eligibility_ticket_type" where
  "ex_type tid cls price = \<lparr>et_id = tid, et_name = tid, et_priceMinor = price, et_currency = Some ''INR'',
     et_seatCategory = Some (tid, cls)\<rparr>"

definition ex_rates :: "policy_row list" where
  "ex_rates = [ex_order_row ''any'' None None, ex_order_row ''reg'' (Some ''REGULAR'') (Some 15000),
     ex_order_row ''rec'' (Some ''RECLINER'') (Some 25000)]"

section \<open>When checkout refuses\<close>

lemma blockers_nil_iff:
  "saleBlockersFromPolicy money out cinemaId ids = [] \<longleftrightarrow>
    \<not> blocksBooking (ps_status (oc_resolution out)) \<and> nvl (oc_unrated out) [] = [] \<and> oc_overCeiling out = []"
  by (subst saleBlockersFromPolicy.simps) (simp add: Let_def)

lemma class_findings_nil:
  "class_findings resolve ctx lines cls = ([], []) \<longleftrightarrow>
    (\<forall>l \<in> set lines. sl_category l = Some cls \<longrightarrow> price_fine (resolve (ctx\<lparr>px_seatCategories := [cls]\<rparr>)) l)"
  by (auto simp: class_findings_def price_fine_def Let_def filter_empty_conv)

lemma classless_findings_nil:
  "classless_findings resolve ctx lines = ([], []) \<longleftrightarrow>
    (\<forall>l \<in> set lines. \<not> truthy (sl_category l) \<longrightarrow> \<not> truthy (sl_seatCategoryName l) \<longrightarrow>
       price_fine (resolve (ctx\<lparr>px_seatCategories := [], px_unmappedSeatCategories := Some []\<rparr>)) l)"
  by (auto simp: classless_findings_def price_fine_def Let_def filter_empty_conv)

lemma findings_nil:
  "concat (map snd fs) = [] \<and> concat (map fst fs) = [] \<longleftrightarrow> (\<forall>f \<in> set fs. f = ([], []))"
  by (induction fs) auto

lemma cart_classes_iff: "cls \<in> set (cart_classes lines) \<longleftrightarrow> cls \<noteq> [] \<and> (\<exists>l \<in> set lines. sl_category l = Some cls)"
  by (force simp: cart_classes_def set_unique truthy_def image_iff split: option.splits)

lemma lines_fine_iff:
  "list_all (line_fine resolve ctx) lines \<longleftrightarrow>
    (\<forall>cls \<in> set (cart_classes lines). class_findings resolve ctx lines cls = ([], [])) \<and>
    classless_findings resolve ctx lines = ([], [])"
proof -
  let ?A = "\<lambda>l. \<forall>cls. cls \<noteq> [] \<longrightarrow> sl_category l = Some cls \<longrightarrow> price_fine (resolve (ctx\<lparr>px_seatCategories := [cls]\<rparr>)) l"
  let ?B = "\<lambda>l. \<not> truthy (sl_category l) \<longrightarrow> \<not> truthy (sl_seatCategoryName l) \<longrightarrow>
        price_fine (resolve (ctx\<lparr>px_seatCategories := [], px_unmappedSeatCategories := Some []\<rparr>)) l"
  have l: "line_fine resolve ctx l \<longleftrightarrow> ?A l \<and> ?B l" for l
    by (auto simp: line_fine_def line_position_def truthy_def split: option.splits)
  have "(\<forall>cls \<in> set (cart_classes lines). class_findings resolve ctx lines cls = ([], [])) \<longleftrightarrow> (\<forall>l \<in> set lines. ?A l)"
    unfolding class_findings_nil by (auto simp: cart_classes_iff)
  then show ?thesis unfolding list_all_iff l classless_findings_nil ball_conj_distrib by simp
qed

lemma sold_iff_lines:
  "fst (cartSaleEligibility money (Some resolve) cinema currency lines t) \<longleftrightarrow>
    (let ctx = cart_context cinema currency lines t in
     \<not> blocksBooking (ps_status (resolve ctx)) \<and>
     (ps_status (resolve ctx) = NOT_REGULATED \<or> list_all (line_fine resolve ctx) lines))"
proof -
  let ?ctx = "cart_context cinema currency lines t"
  let ?fs = "map (class_findings resolve ?ctx lines) (cart_classes lines) @ [classless_findings resolve ?ctx lines]"
  have "list_all (line_fine resolve ?ctx) lines \<longleftrightarrow> concat (map snd ?fs) = [] \<and> concat (map fst ?fs) = []"
    unfolding findings_nil lines_fine_iff by auto
  then show ?thesis
    by (cases "ps_status (resolve ?ctx) = NOT_REGULATED")
       (simp_all add: cartSaleEligibility_def blockers_nil_iff resolveCinemaPolicy_def Let_def)
qed


lemma cart_sold_class:
  assumes "fst (cartSaleEligibility money (Some resolve) cinema currency lines t)"
    and "ps_status (resolve (cart_context cinema currency lines t)) \<noteq> NOT_REGULATED"
    and "cls \<in> set (cart_classes lines)" "l \<in> set lines" "sl_category l = Some cls"
  shows "\<not> hasNoCeilingFallback (resolve ((cart_context cinema currency lines t)\<lparr>px_seatCategories := [cls]\<rparr>))"
    and "fst (checkTicketPrice (resolve ((cart_context cinema currency lines t)\<lparr>px_seatCategories := [cls]\<rparr>)) (sl_unitPriceMinor l))"
    and "\<not> blocksBooking (ps_status (resolve (cart_context cinema currency lines t)))"
  using assms by (auto simp: sold_iff_lines Let_def list_all_iff line_fine_def line_position_def price_fine_def cart_classes_iff truthy_def)

lemma cart_context_single:
  "cart_classes lines = [cls] \<Longrightarrow>
    (cart_context cinema currency lines t)\<lparr>px_seatCategories := [cls]\<rparr> = cart_context cinema currency lines t"
  by (simp add: cart_context_def Let_def)

lemma resolved_regulated:
  "isRegulated active ctx \<Longrightarrow> ps_status (resolvePolicy active ctx) \<noteq> NOT_REGULATED"
  using resolvePolicy_cases [of active ctx] resolvePolicy_some(3) [of active ctx] pick_policy_none
  by (cases "ps_policy (resolvePolicy active ctx)") (auto simp: blocksBooking_def BLOCKING_COMPLIANCE_STATUSES_def)

lemma unblocked_resolved:
  "isRegulated active ctx \<Longrightarrow> \<not> blocksBooking (ps_status (resolvePolicy active ctx)) \<Longrightarrow>
    \<exists>p. ps_policy (resolvePolicy active ctx) = Some p"
  using resolvePolicy_cases [of active ctx] pick_policy_none
  by (cases "ps_policy (resolvePolicy active ctx)") (auto simp: blocksBooking_def BLOCKING_COMPLIANCE_STATUSES_def)

text \<open>
  In a regulated market a cart of one seat class is sold only under a rule that applies to it,
  that is a real rate (it names the class or states a maximum), and only at a price inside that rule's
  band: no ticket of such a cart is ever sold above its ceiling.
\<close>

lemma cart_sold_within_band:
  assumes "fst (cartSaleEligibility money (Some (resolvePolicy active)) cinema currency lines t)"
    and "cart_classes lines = [cls]" "isRegulated active (cart_context cinema currency lines t)"
    and "l \<in> set lines" "sl_category l = Some cls"
  shows "\<exists>p \<in> set active. policyApplies p (cart_context cinema currency lines t) \<and>
    (truthy (pr_seatCategory p) \<or> pr_ticketPriceMaxMinor p \<noteq> None) \<and>
    \<not> above (sl_unitPriceMinor l) (pr_ticketPriceMaxMinor p) \<and> \<not> below (sl_unitPriceMinor l) (pr_ticketPriceMinMinor p)"
proof -
  let ?ctx = "cart_context cinema currency lines t"
  have cls: "cls \<in> set (cart_classes lines)" using assms(2) by simp
  note reg = resolved_regulated [OF assms(3)]
  note c = cart_sold_class [OF assms(1) reg cls assms(4,5), unfolded cart_context_single [OF assms(2)]]
  obtain p where p: "ps_policy (resolvePolicy active ?ctx) = Some p"
    using unblocked_resolved [OF assms(3) c(3)] by blast
  have "truthy (pr_seatCategory p) \<or> pr_ticketPriceMaxMinor p \<noteq> None"
    using c(1) reg p by (auto simp: hasNoCeilingFallback_def)
  moreover have "\<not> above (sl_unitPriceMinor l) (pr_ticketPriceMaxMinor p)" "\<not> below (sl_unitPriceMinor l) (pr_ticketPriceMinMinor p)"
    using c(2) reg p by (auto simp: checkTicketPrice_def split: if_splits)
  ultimately show ?thesis using resolvePolicy_some(4,5) [OF p] by blast
qed

lemma cart_sold_within_band_witness:
  "\<exists>p \<in> set ex_rates. \<not> above 14000 (pr_ticketPriceMaxMinor p) \<and>
    policyApplies p (cart_context (Some ex_cinema) ''INR'' [lineOf (ex_type ''gold'' (Some ''REGULAR'') 14000)] 1000)"
proof -
  let ?l = "lineOf (ex_type ''gold'' (Some ''REGULAR'') 14000)"
  have a: "fst (cartSaleEligibility (\<lambda>_ _. []) (Some (resolvePolicy ex_rates)) (Some ex_cinema) ''INR'' [?l] 1000)"
    by code_simp
  have b: "cart_classes [?l] = [''REGULAR'']" by code_simp
  have c: "isRegulated ex_rates (cart_context (Some ex_cinema) ''INR'' [?l] 1000)" by code_simp
  show ?thesis
    using cart_sold_within_band [OF a b c, of ?l] by (auto simp: lineOf_def ex_type_def)
qed

text \<open>
  The same is not true of a cart that mixes classes: where two rate rows of one class conflict, a
  cart of that class alone is refused, but the class is sold at any price beside a seat of another
  class, because a conflicting class resolves to no rule and a missing rule passes the band test.
\<close>

lemma mixed_cart_sells_conflicting_class:
  "let rules = ex_order_row ''rec2'' (Some ''RECLINER'') (Some 20000) # ex_rates;
       reg = lineOf (ex_type ''gold'' (Some ''REGULAR'') 14000); rec = lineOf (ex_type ''sofa'' (Some ''RECLINER'') 900000);
       sold = (\<lambda>ls. fst (cartSaleEligibility (\<lambda>_ _. []) (Some (resolvePolicy rules)) (Some ex_cinema) ''INR'' ls 1000))
   in \<not> sold [rec] \<and> sold [reg] \<and> sold [reg, rec]"
  by code_simp

text \<open>
  The session check can miss a refusal: with rates written per class only and one seat category
  unmapped, the show lists both mapped ticket types as sellable and reports no missing price rules,
  while the cart of those two ticket types is refused for having none.
\<close>

lemma session_misses_refused_cart:
  "let rules = tl ex_rates; a = ex_type ''gold'' (Some ''REGULAR'') 14000; b = ex_type ''sofa'' (Some ''RECLINER'') 20000;
       c = ex_type ''std'' None 9000;
       s = sessionSaleEligibility (\<lambda>_ _. []) (Some (resolvePolicy rules)) (Some ex_cinema) [a, b, c] None 1000;
       cart = fst (snd (cartSaleEligibility (\<lambda>_ _. []) (Some (resolvePolicy rules)) (Some ex_cinema) ''INR''
         [lineOf a, lineOf b] 1000))
   in se_sellableTicketTypeIds s = [''gold'', ''sofa''] \<and> map sb_code (se_blockers s) = [SEAT_CLASS_UNMAPPED] \<and>
      map sb_code cart = [NO_PRICING_POLICY]"
  by code_simp

section \<open>The session check\<close>

lemma fold_in_ids:
  "set (concat (map sb_ticketTypeIds (fold_in b ss))) = set (sb_ticketTypeIds b) \<union> set (concat (map sb_ticketTypeIds ss))"
  by (induction ss) auto

lemma fold_blockers_ids:
  "set (concat (map sb_ticketTypeIds (fold_blockers found))) = set (concat (map sb_ticketTypeIds found))"
proof -
  have "set (concat (map sb_ticketTypeIds (fold fold_in found ss))) =
      set (concat (map sb_ticketTypeIds found)) \<union> set (concat (map sb_ticketTypeIds ss))" for ss
    by (induction found arbitrary: ss) (auto simp: fold_in_ids simp del: set_concat)
  then show ?thesis by (simp add: fold_blockers_def)
qed

lemma blocker_ids [simp]: "sb_ticketTypeIds (blocker c ow m f s ids) = ids"
  by (simp add: blocker_def)

lemma blockers_own_ids:
  assumes "i \<noteq> []"
    and "\<forall>u \<in> set (nvl (oc_unrated out) []). ul_ticketTypeId u = Some i"
    and "\<forall>v \<in> set (oc_overCeiling out). ol_ticketTypeId v = Some i"
    and "b \<in> set (saleBlockersFromPolicy money out cinemaId [i])"
  shows "sb_ticketTypeIds b = [i]"
  using assms(2-4)
proof (induction money out cinemaId "[i]" rule: saleBlockersFromPolicy.induct)
  case (1 money out cinemaId)
  have own: "own_ids (Some i) [i] = [i]" using assms(1) by (simp add: own_ids_def truthy_def)
  have un: "sb_ticketTypeIds (unrated_blocker pl cinemaId [i] u) = [i]" if "u \<in> set (nvl (oc_unrated out) [])" for u pl
    using that 1(2) own by (auto simp: unrated_blocker_def Let_def split: option.splits)
  have ov: "sb_ticketTypeIds (over_blocker money ctx pl cinemaId [i] v) = [i]" if "v \<in> set (oc_overCeiling out)" for v pl ctx
    using that 1(3) own by (auto simp: over_blocker_def Let_def)
  show ?case
    using 1(4) un ov 1(1)
    by (cases "oc_jurisdiction out"; subst (asm) saleBlockersFromPolicy.simps)
      (auto simp: Let_def split: if_splits)
qed

lemma single_cart_ids:
  assumes "et_id ty \<noteq> []"
    and "b \<in> set (fst (snd (cartSaleEligibility money (Some resolve) cinema c [lineOf ty] t)))"
  shows "sb_ticketTypeIds b = [et_id ty]"
proof -
  let ?o = "resolveCinemaPolicy (Some resolve) cinema c [lineOf ty] t"
  have ids: "map the (filter truthy (map sl_ticketTypeId [lineOf ty])) = [et_id ty]"
    using assms(1) by (simp add: lineOf_def truthy_def)
  have tid: "sl_ticketTypeId (lineOf ty) = Some (et_id ty)" by (simp add: lineOf_def)
  have u: "\<forall>u \<in> set (nvl (oc_unrated ?o) []). ul_ticketTypeId u = Some (et_id ty)"
    by (auto simp: resolveCinemaPolicy_def Let_def class_findings_def classless_findings_def unrated_of_def tid
        split: if_splits)
  have v: "\<forall>v \<in> set (oc_overCeiling ?o). ol_ticketTypeId v = Some (et_id ty)"
    by (auto simp: resolveCinemaPolicy_def Let_def class_findings_def classless_findings_def over_line_def tid
        split: if_splits)
  show ?thesis
    using assms(2) by (intro blockers_own_ids [OF assms(1) u v]) (simp add: cartSaleEligibility_def Let_def ids [simplified])
qed

lemma session_found_single:
  assumes "ty \<in> set types" "currency_of vc ty = Some c"
  shows "set (fst (snd (cartSaleEligibility money (Some resolve) (Some cinema) c [lineOf ty] t)))
    \<subseteq> set (session_found money resolve cinema types vc t)"
proof -
  let ?cart = "\<lambda>c ls. fst (snd (cartSaleEligibility money (Some resolve) (Some cinema) c ls t))"
  let ?single = "concat (map (\<lambda>ty. case currency_of vc ty of None \<Rightarrow> [] | Some c \<Rightarrow> ?cart c [lineOf ty]) types)"
  have "set (?cart c [lineOf ty]) \<subseteq> set ?single" using assms by force
  moreover have "set ?single \<subseteq> set (session_found money resolve cinema types vc t)"
    unfolding session_found_def Let_def by (auto split: list.split option.split)
  ultimately show ?thesis by blast
qed

text \<open>
  Whatever the session check lists as sellable can really be bought on its own: for every listed
  ticket type whose currency is known, checkout accepts the cart of one such ticket.
\<close>

lemma session_sellable_sound:
  assumes "ty \<in> set types" "et_id ty \<noteq> []" "currency_of vc ty = Some c"
    and "et_id ty \<in> set (se_sellableTicketTypeIds (sessionSaleEligibility money (Some resolve) (Some cinema) types vc t))"
  shows "fst (cartSaleEligibility money (Some resolve) (Some cinema) c [lineOf ty] t)"
proof (rule ccontr)
  let ?bs = "fst (snd (cartSaleEligibility money (Some resolve) (Some cinema) c [lineOf ty] t))"
  assume "\<not> ?thesis"
  then have "?bs \<noteq> []" by (simp add: cartSaleEligibility_def Let_def)
  then obtain b where b: "b \<in> set ?bs" by (meson list.set_sel(1))
  then have "sb_ticketTypeIds b = [et_id ty]" by (rule single_cart_ids [OF assms(2)])
  moreover have "b \<in> set (session_found money resolve cinema types vc t)"
    using session_found_single [OF assms(1,3)] b by blast
  ultimately have "et_id ty \<in> set (concat (map sb_ticketTypeIds (session_found money resolve cinema types vc t)))" by force
  then have "et_id ty \<in> set (concat (map sb_ticketTypeIds (fold_blockers (session_found money resolve cinema types vc t))))"
    by (simp only: fold_blockers_ids)
  then show False using assms(1,4) by (auto simp: sessionSaleEligibility_def Let_def split: if_splits)
qed

lemma session_sellable_sound_witness:
  "fst (cartSaleEligibility (\<lambda>_ _. []) (Some (resolvePolicy ex_rates)) (Some ex_cinema) ''INR''
     [lineOf (ex_type ''gold'' (Some ''REGULAR'') 14000)] 1000)"
proof -
  let ?ty = "ex_type ''gold'' (Some ''REGULAR'') 14000"
  let ?types = "[?ty, ex_type ''std'' None 9000]"
  have "et_id ?ty \<in> set (se_sellableTicketTypeIds
      (sessionSaleEligibility (\<lambda>_ _. []) (Some (resolvePolicy ex_rates)) (Some ex_cinema) ?types None 1000))"
    by code_simp
  moreover have "et_id ?ty \<noteq> []" "currency_of None ?ty = Some ''INR''" by code_simp+
  moreover have "?ty \<in> set ?types" by simp
  ultimately show ?thesis by (intro session_sellable_sound [where types = ?types and vc = None])
qed

section \<open>Remembered answers\<close>

definition memo_ok :: "resolve_policy \<Rightarrow> (policy_context \<times> policy_resolution) list \<Rightarrow> bool" where
  "memo_ok resolve seen \<longleftrightarrow> (\<forall>(ctx, r) \<in> set seen. r = resolve ctx)"

fun ask_all :: "resolve_policy \<Rightarrow> (policy_context \<times> policy_resolution) list \<Rightarrow> policy_context list \<Rightarrow> policy_resolution list" where
  "ask_all resolve seen [] = []"
| "ask_all resolve seen (q # qs) = (let (r, seen') = memoized resolve seen q in r # ask_all resolve seen' qs)"

lemma memoized_step: "memo_ok resolve seen \<Longrightarrow> memoized resolve seen q = (r, seen') \<Longrightarrow> r = resolve q \<and> memo_ok resolve seen'"
  by (auto simp: memoized_def memo_ok_def Let_def dest: map_of_SomeD split: option.splits)

lemma ask_all_transparent: "memo_ok resolve seen \<Longrightarrow> ask_all resolve seen qs = map resolve qs"
  by (induction qs arbitrary: seen) (auto split: prod.split dest: memoized_step)

end
