(* ===== verification/PricingService.thy ===== *)
theory PricingService
  imports FeePolicy CinemaPolicy
begin

text \<open>
  The price a customer is quoted: \<^verbatim>\<open>apps/api/src/pricing/pricing.service.ts\<close> over the fee schedule, the fee
  policies, the tax provider (\<^verbatim>\<open>tax/providers/manual-tax.provider.ts\<close>) and a cinema order's effect; the
  fee tax read back from a booking (\<^verbatim>\<open>fee-tax.ts\<close>), the coupon arithmetic (\<^verbatim>\<open>coupon-pricing.ts\<close>) and the
  schedule fingerprint (\<^verbatim>\<open>fee-schedule-fingerprint.ts\<close>, with the hash a parameter).
\<close>

section \<open>Data\<close>

record stored_fee_rule = fee_rule +
  sr_id :: string
  sr_currency :: string
  sr_active :: bool

record pricing_env =
  en_feeRules :: "stored_fee_rule list"
  en_taxRules :: "tax_rule list"
  en_policies :: "fee_policy_row list option"
  en_platformRegion :: "string option"

datatype fee_policy_selection = ResolveFor fee_policy_context | Pinned "fee_policy_row option"

datatype coupon_type = COUPON_PERCENT | COUPON_FIXED

record fee_tax_summary =
  fs_customerFeeInclusiveMinor :: minor
  fs_feeTaxMinor :: minor
  fs_feeTaxRateBasisPoints :: bps

record fee_tax_line =
  fl_basis :: "tax_base option"
  fl_inclusive :: "bool option"
  fl_amountMinor :: minor
  fl_rateBasisPoints :: bps

record priced_fees = fee_calc_result +
  pf_appliedFeePolicy :: "applied_fee_policy option"
  pf_baseBookingFeeMinor :: "minor option"
  pf_feeWaivedMinor :: "minor option"
  pf_customerFeeInclusiveMinor :: minor
  pf_feeTaxRateBasisPoints :: bps
  pf_feeTaxMinor :: minor
  pf_maintenanceMinor :: minor
  pf_maintenanceTreatment :: maintenance_treatment
  pf_feeScheduleVersion :: string

record buyer_fees = fee_calc_result +
  bf_feePolicyKind :: "string option"
  bf_feeWaivedMinor :: "minor option"
  bf_customerFeeInclusiveMinor :: minor
  bf_feeTaxRateBasisPoints :: bps
  bf_feeTaxMinor :: minor
  bf_maintenanceMinor :: minor
  bf_maintenanceTreatment :: maintenance_treatment

datatype quote_error =
    SaleNotOpen gap_code "string option list"
  | QuoteTaxError tax_error
  | QuotePricingError pricing_error

section \<open>Arithmetic read elsewhere\<close>

definition computeCouponDiscountMinor :: "coupon_type \<Rightarrow> int \<Rightarrow> minor \<Rightarrow> minor" where
  "computeCouponDiscountMinor type value subtotal =
    (let raw = (if type = COUPON_PERCENT then round_div (subtotal * value) 100 else value) in min subtotal raw)"

definition feeTaxSummary :: "fee_tax_line list option \<Rightarrow> minor \<Rightarrow> fee_tax_summary" where
  "feeTaxSummary taxLines customerFee =
    (let onFees = filter (\<lambda>l. fl_basis l = Some FEES) (nvl taxLines []);
         added = sum_list (map fl_amountMinor (filter (\<lambda>l. fl_inclusive l \<noteq> Some True) onFees))
     in \<lparr>fs_customerFeeInclusiveMinor = customerFee + added,
         fs_feeTaxMinor = sum_list (map fl_amountMinor onFees),
         fs_feeTaxRateBasisPoints = sum_list (map fl_rateBasisPoints onFees)\<rparr>)"

text \<open>A tax line as a booking stores it.\<close>

definition stored_line :: "tax_line \<Rightarrow> fee_tax_line" where
  "stored_line l = \<lparr>fl_basis = Some (tl_basis l), fl_inclusive = Some (tl_inclusive l),
     fl_amountMinor = tl_amountMinor l, fl_rateBasisPoints = tl_rateBasisPoints l\<rparr>"

definition paidTicketCount :: "admission_line list option \<Rightarrow> int" where
  "paidTicketCount lines =
    (case lines of None \<Rightarrow> 1
     | Some ls \<Rightarrow> sum_list (map (\<lambda>l. if 0 < al_unitPriceMinor l then max 0 (al_quantity l) else 0) ls))"

type_synonym fingerprint_row =
  "string \<times> minor \<times> minor option \<times> minor \<times> string \<times> bps option \<times> minor option \<times> minor option \<times> string \<times> string \<times> bool"

definition fingerprint_row :: "stored_fee_rule \<Rightarrow> fingerprint_row" where
  "fingerprint_row b = (sr_id b, fr_minMinor b, fr_maxMinor b, fr_feeMinor b, nvl (fr_feeType b) ''FLAT'', fr_feePercentBps b,
     fr_minFeeMinor b, fr_maxFeeMinor b, fr_country b, fr_region b, sr_active b)"

text \<open>The order of two ids as the code compares them, a parameter like the hash.\<close>

definition scheduleFingerprint ::
  "stored_fee_rule cmp \<Rightarrow> (fingerprint_row list \<Rightarrow> string) \<Rightarrow> stored_fee_rule list \<Rightarrow> string" where
  "scheduleFingerprint by_id hash bands = hash (map fingerprint_row (sort_cmp by_id bands))"

section \<open>The schedule and the policy\<close>

definition by_min :: "stored_fee_rule cmp" where
  "by_min = cmp_key fr_minMinor"

definition loadTiers ::
  "stored_fee_rule cmp \<Rightarrow> (fingerprint_row list \<Rightarrow> string) \<Rightarrow> pricing_env \<Rightarrow> string \<Rightarrow> fee_place \<Rightarrow> fee_tier list \<times> string" where
  "loadTiers by_id hash env currency place =
    (let rules = sort_cmp by_min (filter (\<lambda>r. sr_active r \<and> sr_currency r = currency) (en_feeRules env));
         version = scheduleFingerprint by_id hash rules
     in if rules = [] then (DEFAULT_FEE_TIERS, version)
        else (scheduleTiers (map fee_rule.truncate rules) place, version))"

definition resolveFeeTiers ::
  "stored_fee_rule cmp \<Rightarrow> (fingerprint_row list \<Rightarrow> string) \<Rightarrow> pricing_env \<Rightarrow> string \<Rightarrow> fee_place \<Rightarrow> fee_policy_selection option \<Rightarrow>
    fee_tier list \<times> fee_policy_row option \<times> string" where
  "resolveFeeTiers by_id hash env currency place feePolicy =
    (let (tiers, version) = loadTiers by_id hash env currency place
     in case (feePolicy, en_policies env) of
          (Some sel, Some rows) \<Rightarrow>
            (case sel of
               Pinned p \<Rightarrow> (tiers, p, version)
             | ResolveFor ctx \<Rightarrow> (tiers, resolve rows currency ctx, version))
        | _ \<Rightarrow> (tiers, None, version))"

section \<open>Tax\<close>

text \<open>\<^verbatim>\<open>ManualTaxProvider.quote\<close>: the active rules of the currency or of any, by priority.\<close>

definition manual_tax_quote ::
  "string cmp \<Rightarrow> time_ms \<Rightarrow> tax_rule list \<Rightarrow> tax_calc_input \<Rightarrow> tax_error + tax_calc_result" where
  "manual_tax_quote lc now rows request =
    computeTax lc now (request\<lparr>ti_rules := sort_cmp (cmp_key (\<lambda>r. nvl (tr_priority r) 0))
      (filter (\<lambda>r. tr_active r = Some True \<and>
         (tr_currency r = tp_currency (ti_place request) \<or> tr_currency r = Some ''*'')) rows)\<rparr>)"

definition quoteTax :: "(tax_calc_input \<Rightarrow> tax_error + tax_calc_result) \<Rightarrow> tax_calc_input \<Rightarrow> quote_error + tax_calc_result" where
  "quoteTax provider request =
    (case provider request of
       Inr r \<Rightarrow> Inr r
     | Inl (TaxClassificationError gaps) \<Rightarrow>
         Inl (SaleNotOpen (error_code gaps) (unique (map gap_category gaps)))
     | Inl err \<Rightarrow> Inl (QuoteTaxError err))"

section \<open>The quote\<close>

definition fee_input :: "minor \<Rightarrow> fee_mode \<Rightarrow> minor \<Rightarrow> string \<Rightarrow> admission_line list option \<Rightarrow> fee_calc_input" where
  "fee_input subtotal mode discount currency lines =
    \<lparr>fi_subtotalMinor = subtotal, fi_feeMode = mode, fi_discountMinor = Some discount, fi_tiers = None,
     fi_paymentFeeBps = None, fi_ticketCount = Some (paidTicketCount lines), fi_currency = Some currency,
     fi_taxRules = None, fi_taxPlace = None\<rparr>"

definition cap_fees :: "minor option \<Rightarrow> fee_calc_result \<Rightarrow> fee_calc_result" where
  "cap_fees limit uncapped =
    (case limit of None \<Rightarrow> uncapped
     | Some cap \<Rightarrow>
         if fc_customerFeeMinor uncapped \<le> cap then uncapped
         else uncapped\<lparr>fc_platformFeeBreakdown := None, fc_customerFeeMinor := cap,
                fc_bookingFeeMinor := min (fc_bookingFeeMinor uncapped) cap,
                fc_paymentFeeMinor := max 0 (cap - min (fc_bookingFeeMinor uncapped) cap)\<rparr>)"

text \<open>
  The platform's own region is stamped first and the caller's place spread over it, so a caller that
  names one wins; \<open>None\<close> in the place is a caller that does not set the field.
\<close>

definition tax_request ::
  "pricing_env \<Rightarrow> minor \<Rightarrow> string \<Rightarrow> tax_place \<Rightarrow> admission_line list option \<Rightarrow> minor \<Rightarrow> fee_calc_result \<Rightarrow> tax_calc_input" where
  "tax_request env subtotal currency place lines maintenance fees =
    \<lparr>ti_netSubtotalMinor = fc_netSubtotalMinor fees, ti_grossSubtotalMinor = Some subtotal, ti_admissionLines = lines,
     ti_customerFeeMinor = fc_customerFeeMinor fees, ti_maintenanceMinor = Some maintenance, ti_rules = [],
     ti_place = place\<lparr>tp_platformRegion := (case tp_platformRegion place of Some r \<Rightarrow> Some r | None \<Rightarrow> en_platformRegion env),
                      tp_currency := Some currency\<rparr>\<rparr>"

definition price_result ::
  "fee_policy_outcome \<Rightarrow> fee_calc_result \<Rightarrow> policy_effect option \<Rightarrow> string \<Rightarrow> tax_calc_result \<Rightarrow> priced_fees" where
  "price_result override fees policy version tax =
    (let maintenance = (case policy of None \<Rightarrow> 0 | Some e \<Rightarrow> pe_maintenanceMinor e);
         added = (case policy of None \<Rightarrow> 0 | Some e \<Rightarrow> pe_maintenanceAddedMinor e);
         feeTaxLines = filter (\<lambda>l. tl_basis l = FEES) (tc_taxLines tax);
         feeTax = sum_list (map tl_amountMinor feeTaxLines);
         feeTaxRate = sum_list (map tl_rateBasisPoints feeTaxLines);
         addedFeeTax = sum_list (map tl_amountMinor (filter (\<lambda>l. \<not> tl_inclusive l) feeTaxLines))
     in fee_calc_result.extend
          (fees\<lparr>fc_taxLines := tc_taxLines tax, fc_taxMinor := tc_taxMinor tax,
             fc_totalMinor := fc_netSubtotalMinor fees + fc_customerFeeMinor fees + added + tc_taxAddedMinor tax\<rparr>)
          \<lparr>pf_appliedFeePolicy = fo_policy override,
           pf_baseBookingFeeMinor = (if fo_policy override = None then None else fo_baseBookingFeeMinor override),
           pf_feeWaivedMinor = (if fo_policy override = None then None else fo_feeWaivedMinor override),
           pf_customerFeeInclusiveMinor = fc_customerFeeMinor fees + addedFeeTax,
           pf_feeTaxRateBasisPoints = feeTaxRate, pf_feeTaxMinor = feeTax, pf_maintenanceMinor = maintenance,
           pf_maintenanceTreatment = (case policy of None \<Rightarrow> MT_NOT_APPLICABLE | Some e \<Rightarrow> pe_maintenanceTreatment e),
           pf_feeScheduleVersion = version\<rparr>)"

definition quote ::
  "string cmp \<Rightarrow> time_ms \<Rightarrow> stored_fee_rule cmp \<Rightarrow> (fingerprint_row list \<Rightarrow> string) \<Rightarrow>
   (tax_calc_input \<Rightarrow> tax_error + tax_calc_result) \<Rightarrow> pricing_env \<Rightarrow> minor \<Rightarrow> fee_mode \<Rightarrow> minor \<Rightarrow> string \<Rightarrow> tax_place \<Rightarrow>
   admission_line list option \<Rightarrow> policy_effect option \<Rightarrow> fee_policy_selection option \<Rightarrow> quote_error + priced_fees" where
  "quote lc now by_id hash provider env subtotal mode discount currency place lines policy feePolicy =
    (let (tiers, row, version) = resolveFeeTiers by_id hash env currency
           \<lparr>fp_country = tp_country place, fp_region = tp_region place\<rparr> feePolicy
     in rbind (map_sum QuotePricingError id (calculateFeesWithPolicy lc now (fee_input subtotal mode discount currency lines)
                 tiers (map_option (\<lambda>p. (p, appliedFeePolicy p)) row))) (\<lambda>override.
        let fees = cap_fees (Option.bind policy pe_maxOnlineFeeMinor) (fo_fees override);
            maintenance = (case policy of None \<Rightarrow> 0 | Some e \<Rightarrow> pe_maintenanceMinor e)
        in rbind (quoteTax provider (tax_request env subtotal currency place lines maintenance fees)) (\<lambda>tax.
           Inr (price_result override fees policy version tax))))"

definition buyerFees :: "priced_fees \<Rightarrow> buyer_fees" where
  "buyerFees fees = fee_calc_result.extend (fee_calc_result.truncate fees)
     \<lparr>bf_feePolicyKind = map_option ap_kind (pf_appliedFeePolicy fees), bf_feeWaivedMinor = pf_feeWaivedMinor fees,
      bf_customerFeeInclusiveMinor = pf_customerFeeInclusiveMinor fees,
      bf_feeTaxRateBasisPoints = pf_feeTaxRateBasisPoints fees, bf_feeTaxMinor = pf_feeTaxMinor fees,
      bf_maintenanceMinor = pf_maintenanceMinor fees, bf_maintenanceTreatment = pf_maintenanceTreatment fees\<rparr>"

section \<open>Sample values\<close>

definition ex_env :: pricing_env where
  "ex_env = \<lparr>en_feeRules = [], en_taxRules = [ex_fee_rule\<lparr>tr_active := Some True, tr_currency := Some ''INR''\<rparr>],
     en_policies = Some [ex_policy], en_platformRegion = Some ''Telangana''\<rparr>"

definition ex_effect :: policy_effect where
  "ex_effect = \<lparr>pe_maintenanceMinor = 1000, pe_maintenanceTreatment = MT_ADDED_TO_TICKET_PRICE, pe_maintenanceAddedMinor = 1000,
     pe_maintenanceTaxCategory = None, pe_maxOnlineFeeMinor = Some 400, pe_complianceStatus = COMPLIANT\<rparr>"

section \<open>The tax provider interface\<close>



section \<open>What a quote says\<close>


abbreviation ex_quote :: "policy_effect option \<Rightarrow> quote_error + priced_fees" where
  "ex_quote policy \<equiv> quote (\<lambda>_ _. 0) 0 (\<lambda>_ _. 0) (\<lambda>_. ''v1'') (manual_tax_quote (\<lambda>_ _. 0) 0 (en_taxRules ex_env)) ex_env
     50000 CUSTOMER_PAYS 5000 ''INR'' no_place None policy (Some (ResolveFor ex_policy_ctx))"

lemma ex_quote_Inr: "\<exists>q. ex_quote (Some ex_effect) = Inr q" "\<exists>q. ex_quote (Some (ex_effect\<lparr>pe_maxOnlineFeeMinor := None\<rparr>)) = Inr q"
proof -
  have "isl (ex_quote (Some ex_effect)) = False" by code_simp
  then show "\<exists>q. ex_quote (Some ex_effect) = Inr q" by (cases "ex_quote (Some ex_effect)") auto
  have "isl (ex_quote (Some (ex_effect\<lparr>pe_maxOnlineFeeMinor := None\<rparr>))) = False" by code_simp
  then show "\<exists>q. ex_quote (Some (ex_effect\<lparr>pe_maxOnlineFeeMinor := None\<rparr>)) = Inr q"
    by (cases "ex_quote (Some (ex_effect\<lparr>pe_maxOnlineFeeMinor := None\<rparr>))") auto
qed


lemma cap_fees_simps:
  "fc_customerFeeMinor (cap_fees (Some cap) f) = min cap (fc_customerFeeMinor f)"
  "fc_netSubtotalMinor (cap_fees c f) = fc_netSubtotalMinor f" "fc_organizerFeeMinor (cap_fees c f) = fc_organizerFeeMinor f"
  "cap_fees None f = f"
  by (auto simp: cap_fees_def split: option.split)

lemma price_result_fees:
  "fc_customerFeeMinor (price_result ov fees policy v tax) = fc_customerFeeMinor fees"
  "fc_organizerFeeMinor (price_result ov fees policy v tax) = fc_organizerFeeMinor fees"
  "fc_netSubtotalMinor (price_result ov fees policy v tax) = fc_netSubtotalMinor fees"
  "fc_bookingFeeMinor (price_result ov fees policy v tax) = fc_bookingFeeMinor fees"
  "fc_paymentFeeMinor (price_result ov fees policy v tax) = fc_paymentFeeMinor fees"
  by (simp_all add: price_result_def Let_def fee_calc_result.defs)

text \<open>
  A jurisdiction's ceiling binds: the customer is charged the lower of the ceiling and what they
  would be charged without it, the organizer absorbs nothing in its place, and where the ceiling bites
  the itemised booking and payment fees add up to it.
\<close>

lemma quote_fee_capped:
  assumes capped: "quote lc now by_id hash provider env subtotal mode discount currency place lines
      (Some (e\<lparr>pe_maxOnlineFeeMinor := Some cap\<rparr>)) feePolicy = Inr q"
    and free: "quote lc now by_id hash provider env subtotal mode discount currency place lines
      (Some (e\<lparr>pe_maxOnlineFeeMinor := None\<rparr>)) feePolicy = Inr q0"
    and "0 \<le> cap"
  shows "fc_customerFeeMinor q = min cap (fc_customerFeeMinor q0) \<and> fc_organizerFeeMinor q = fc_organizerFeeMinor q0 \<and>
    fc_netSubtotalMinor q = fc_netSubtotalMinor q0 \<and>
    (cap < fc_customerFeeMinor q0 \<longrightarrow> fc_bookingFeeMinor q + fc_paymentFeeMinor q = cap)"
proof -
  obtain tiers row version where t: "resolveFeeTiers by_id hash env currency
      \<lparr>fp_country = tp_country place, fp_region = tp_region place\<rparr> feePolicy = (tiers, row, version)"
    by (metis prod_cases3)
  let ?c = "calculateFeesWithPolicy lc now (fee_input subtotal mode discount currency lines) tiers
       (map_option (\<lambda>p. (p, appliedFeePolicy p)) row)"
  from capped obtain ov tax where ov: "?c = Inr ov"
      and q: "q = price_result ov (cap_fees (Some cap) (fo_fees ov)) (Some (e\<lparr>pe_maxOnlineFeeMinor := Some cap\<rparr>)) version tax"
    by (cases ?c) (auto simp: quote_def t Let_def rbind_Inr_iff)
  from free ov obtain tax0 where
      q0: "q0 = price_result ov (fo_fees ov) (Some (e\<lparr>pe_maxOnlineFeeMinor := None\<rparr>)) version tax0"
    by (auto simp: quote_def t Let_def rbind_Inr_iff cap_fees_simps)
  show ?thesis
    using assms(3) by (auto simp: q q0 price_result_fees cap_fees_simps cap_fees_def)
qed

lemma quote_fee_capped_witness:
  "\<exists>q q0. ex_quote (Some ex_effect) = Inr q \<and> ex_quote (Some (ex_effect\<lparr>pe_maxOnlineFeeMinor := None\<rparr>)) = Inr q0 \<and>
     fc_customerFeeMinor q = min 400 (fc_customerFeeMinor q0)"
proof -
  obtain q where q: "ex_quote (Some ex_effect) = Inr q" using ex_quote_Inr(1) by blast
  obtain q0 where q0: "ex_quote (Some (ex_effect\<lparr>pe_maxOnlineFeeMinor := None\<rparr>)) = Inr q0" using ex_quote_Inr(2) by blast
  have "ex_effect\<lparr>pe_maxOnlineFeeMinor := Some 400\<rparr> = ex_effect" by (simp add: ex_effect_def)
  with q have "ex_quote (Some (ex_effect\<lparr>pe_maxOnlineFeeMinor := Some 400\<rparr>)) = Inr q" by simp
  from quote_fee_capped [OF this q0] q q0 show ?thesis by simp
qed

lemma filter_stored_line:
  "filter P (map stored_line ls) = map stored_line (filter (P \<circ> stored_line) ls)"
  by (simp add: filter_map)

text \<open>
  A booking read back says the same as its quote: the fee tax recomputed from the stored tax lines
  is the all-in fee, the fee tax and the combined rate that the quote showed.
\<close>

lemma fee_tax_read_back:
  assumes "quote lc now by_id hash provider env subtotal mode discount currency place lines policy feePolicy = Inr q"
  shows "feeTaxSummary (Some (map stored_line (fc_taxLines q))) (fc_customerFeeMinor q) =
    \<lparr>fs_customerFeeInclusiveMinor = pf_customerFeeInclusiveMinor q, fs_feeTaxMinor = pf_feeTaxMinor q,
     fs_feeTaxRateBasisPoints = pf_feeTaxRateBasisPoints q\<rparr>"
proof -
  from assms obtain ov fees v tax where q: "q = price_result ov fees policy v tax"
    by (auto simp: quote_def Let_def rbind_Inr_iff split: prod.splits)
  show ?thesis
    by (simp add: q price_result_def feeTaxSummary_def Let_def fee_calc_result.defs stored_line_def filter_map o_def)
qed

lemma fee_tax_read_back_witness:
  "\<exists>q. ex_quote (Some ex_effect) = Inr q \<and>
     fs_feeTaxMinor (feeTaxSummary (Some (map stored_line (fc_taxLines q))) (fc_customerFeeMinor q)) = 72"
proof -
  obtain q where q: "ex_quote (Some ex_effect) = Inr q" using ex_quote_Inr(1) by blast
  have "map_sum (\<lambda>_. ()) pf_feeTaxMinor (ex_quote (Some ex_effect)) = Inr 72" by code_simp
  with q fee_tax_read_back [OF q] show ?thesis by simp
qed

section \<open>Coupons and the schedule version\<close>

lemma coupon_bounds:
  assumes "0 \<le> value" "0 \<le> subtotal"
  shows "0 \<le> computeCouponDiscountMinor ty value subtotal \<and> computeCouponDiscountMinor ty value subtotal \<le> subtotal"
  using assms by (auto simp: computeCouponDiscountMinor_def Let_def intro!: round_div_nonneg)

lemma quoted_version:
  "snd (loadTiers by_id hash env currency place) = snd (loadTiers by_id hash env currency place')"
  by (simp add: loadTiers_def Let_def)

end
