(* ===== verification/RedisLock.thy ===== *)
theory RedisLock
  imports Prelude "HOL-Library.AList"
begin

text \<open>
  The distributed inventory lock in Redis: the key families (\<^verbatim>\<open>inventory-lock.keys.ts\<close>), the six atomic Lua
  scripts (\<^verbatim>\<open>inventory-lock.scripts.ts\<close>) and the adapter that marshals them (\<^verbatim>\<open>redis-lock.store.ts\<close>), all
  under \<^verbatim>\<open>apps/api/src/inventory/locking/\<close>.

  A script is one atomic function on the key space.  The families never share a key
  (\<open>key_families_disjoint\<close> below), so the key space is a record with one map per family, each value
  with the instant at which it lapses; a key answers while the Redis clock has not passed that
  instant.  The two clocks of the program are separate arguments: \<open>rt\<close> is the Redis clock, which
  decides expiry, and \<open>now\<close> is the application's \<^verbatim>\<open>Date.now()\<close>, which the scripts are passed.  A lock
  stored as JSON is the lock record itself.
\<close>

section \<open>Data\<close>

datatype inventory_type = SEAT | QUANTITY

datatype lock_status = ACTIVE | RELEASED | EXPIRED | CONFIRMED

record raw_lock =
  rl_lockId :: string
  rl_holdId :: string
  rl_bookingId :: "string option"
  rl_inventoryType :: inventory_type
  rl_inventoryKey :: string
  rl_inventoryUnitIds :: "string list option"
  rl_quantity :: "int option"
  rl_ownerId :: "string option"
  rl_anonymousSessionId :: "string option"
  rl_providerCode :: "string option"
  rl_status :: lock_status
  rl_fencingToken :: int
  rl_ttlSeconds :: int
  rl_acquiredAtMs :: time_ms
  rl_expiresAtMs :: time_ms
  rl_lastRenewedAtMs :: "time_ms option"
  rl_fingerprint :: string
  rl_correlationId :: "string option"

type_synonym 'v keyspace = "string \<rightharpoonup> 'v \<times> time_ms option"

record redis =
  r_lock :: "raw_lock keyspace"
  r_seat :: "string keyspace"
  r_idem :: "raw_lock keyspace"
  r_fence :: "int keyspace"
  r_zset :: "(string \<times> time_ms) list keyspace"
  r_hash :: "(string \<times> int) list keyspace"
  r_owner :: "(string \<times> time_ms) list keyspace"

record acquire_params =
  aq_lockId :: string
  aq_holdId :: string
  aq_inventoryKey :: string
  aq_seatIds :: "string list"
  aq_quantity :: int
  aq_capacity :: int
  aq_ownerId :: "string option"
  aq_anonymousSessionId :: "string option"
  aq_fingerprint :: string
  aq_idempotencyKey :: string
  aq_bookingId :: "string option"
  aq_providerCode :: "string option"
  aq_correlationId :: "string option"

datatype script_result =
    Acquired raw_lock | Replay raw_lock | Conflict string | Capacity int | IdempotencyConflict
  | Renewed raw_lock | NotFound | NotActive lock_status | TokenStale int

section \<open>Keys\<close>

definition key_base :: "string \<Rightarrow> string" where
  "key_base appEnv = ''etg:'' @ lower appEnv @ '':invlock''"

definition key_lock :: "string \<Rightarrow> string \<Rightarrow> string" where
  "key_lock appEnv lockId = key_base appEnv @ '':lock:'' @ lockId"

definition key_seat :: "string \<Rightarrow> string \<Rightarrow> string \<Rightarrow> string" where
  "key_seat appEnv inventoryKey seatId = key_base appEnv @ '':seat:'' @ inventoryKey @ '':'' @ seatId"

definition key_quantityZset :: "string \<Rightarrow> string \<Rightarrow> string" where
  "key_quantityZset appEnv inventoryKey = key_base appEnv @ '':qty:'' @ inventoryKey"

definition key_quantityHash :: "string \<Rightarrow> string \<Rightarrow> string" where
  "key_quantityHash appEnv inventoryKey = key_base appEnv @ '':qtyh:'' @ inventoryKey"

definition key_idempotency :: "string \<Rightarrow> string \<Rightarrow> string" where
  "key_idempotency appEnv idempotencyKey = key_base appEnv @ '':idem:'' @ idempotencyKey"

definition key_fence :: "string \<Rightarrow> string \<Rightarrow> string" where
  "key_fence appEnv inventoryKey = key_base appEnv @ '':fence:'' @ inventoryKey"

definition key_owner :: "string \<Rightarrow> string \<Rightarrow> string" where
  "key_owner appEnv ownerRef = key_base appEnv @ '':owner:'' @ ownerRef"

text \<open>Within the model a family's map is indexed by what follows the family's prefix.\<close>

definition seat_key :: "string \<Rightarrow> string \<Rightarrow> string" where
  "seat_key inventoryKey seatId = inventoryKey @ '':'' @ seatId"

section \<open>Redis commands\<close>

definition rget :: "time_ms \<Rightarrow> 'v keyspace \<Rightarrow> string \<Rightarrow> 'v option" where
  "rget rt m k = (case m k of None \<Rightarrow> None
     | Some (v, e) \<Rightarrow> (case e of None \<Rightarrow> Some v | Some x \<Rightarrow> if rt \<le> x then Some v else None))"

definition set_ex :: "time_ms \<Rightarrow> 'v keyspace \<Rightarrow> string \<Rightarrow> 'v \<Rightarrow> int \<Rightarrow> 'v keyspace" where
  "set_ex rt m k v ttl = m(k \<mapsto> (v, Some (rt + ttl * 1000)))"

definition expire :: "time_ms \<Rightarrow> 'v keyspace \<Rightarrow> string \<Rightarrow> int \<Rightarrow> 'v keyspace" where
  "expire rt m k ttl = (case rget rt m k of None \<Rightarrow> m | Some v \<Rightarrow> m(k \<mapsto> (v, Some (rt + ttl * 1000))))"

text \<open>A container that becomes empty is removed with its time to live; one that is changed keeps it.\<close>

definition elems :: "time_ms \<Rightarrow> ('a list) keyspace \<Rightarrow> string \<Rightarrow> 'a list" where
  "elems rt m k = nvl (rget rt m k) []"

definition put_elems :: "time_ms \<Rightarrow> ('a list) keyspace \<Rightarrow> string \<Rightarrow> 'a list \<Rightarrow> ('a list) keyspace" where
  "put_elems rt m k xs =
    (if xs = [] then m(k := None)
     else m(k \<mapsto> (xs, if rget rt m k = None then None else snd (the (m k)))))"

definition csv_split :: "string \<Rightarrow> string list" where
  "csv_split s = filter (\<lambda>x. x \<noteq> [])
    (let (ws, w) = foldr (\<lambda>c (ws, w). if c = CHR '','' then (w # ws, []) else (ws, c # w)) s ([], []) in w # ws)"

definition opt_arg :: "string option \<Rightarrow> string option" where
  "opt_arg s = (if truthy s then s else None)"

section \<open>The scripts\<close>

definition base_lock :: "acquire_params \<Rightarrow> inventory_type \<Rightarrow> int \<Rightarrow> int \<Rightarrow> time_ms \<Rightarrow> raw_lock" where
  "base_lock p ty token ttl now =
    \<lparr>rl_lockId = aq_lockId p, rl_holdId = aq_holdId p, rl_bookingId = opt_arg (aq_bookingId p), rl_inventoryType = ty,
     rl_inventoryKey = aq_inventoryKey p, rl_inventoryUnitIds = None, rl_quantity = None,
     rl_ownerId = opt_arg (aq_ownerId p), rl_anonymousSessionId = opt_arg (aq_anonymousSessionId p),
     rl_providerCode = opt_arg (aq_providerCode p), rl_status = ACTIVE, rl_fencingToken = token, rl_ttlSeconds = ttl,
     rl_acquiredAtMs = now, rl_expiresAtMs = now + ttl * 1000, rl_lastRenewedAtMs = None,
     rl_fingerprint = aq_fingerprint p, rl_correlationId = opt_arg (aq_correlationId p)\<rparr>"

text \<open>\<^verbatim>\<open>INCR\<close> then \<^verbatim>\<open>EXPIRE\<close>.\<close>

definition next_token :: "time_ms \<Rightarrow> int keyspace \<Rightarrow> string \<Rightarrow> int" where
  "next_token rt m k = nvl (rget rt m k) 0 + 1"

definition bump_fence :: "time_ms \<Rightarrow> int \<Rightarrow> int keyspace \<Rightarrow> string \<Rightarrow> int keyspace" where
  "bump_fence rt fenceTtl m k = set_ex rt m k (next_token rt m k) fenceTtl"

fun conflicting :: "time_ms \<Rightarrow> string keyspace \<Rightarrow> string \<Rightarrow> string list \<Rightarrow> string option" where
  "conflicting rt m lockId [] = None"
| "conflicting rt m lockId (k # ks) =
    (case rget rt m k of
       Some owner \<Rightarrow> if owner \<noteq> lockId then Some k else conflicting rt m lockId ks
     | None \<Rightarrow> conflicting rt m lockId ks)"

definition SEAT_ACQUIRE ::
  "time_ms \<Rightarrow> time_ms \<Rightarrow> int \<Rightarrow> int \<Rightarrow> acquire_params \<Rightarrow> string list \<Rightarrow> string \<Rightarrow> redis \<Rightarrow> script_result \<times> redis" where
  "SEAT_ACQUIRE rt now ttl fenceTtl p seatKeys seatIdsCsv st =
    (case rget rt (r_idem st) (aq_idempotencyKey p) of
       Some existing \<Rightarrow>
         (if rl_fingerprint existing = aq_fingerprint p then Replay existing else IdempotencyConflict, st)
     | None \<Rightarrow>
         (case conflicting rt (r_seat st) (aq_lockId p) seatKeys of
            Some k \<Rightarrow> (Conflict k, st)
          | None \<Rightarrow>
              let token = next_token rt (r_fence st) (aq_inventoryKey p);
                  lock = (base_lock p SEAT token ttl now)\<lparr>rl_inventoryUnitIds := Some (csv_split seatIdsCsv)\<rparr>
              in (Acquired lock,
                  st\<lparr>r_fence := bump_fence rt fenceTtl (r_fence st) (aq_inventoryKey p),
                     r_seat := fold (\<lambda>k m. set_ex rt m k (aq_lockId p) ttl) seatKeys (r_seat st),
                     r_lock := set_ex rt (r_lock st) (aq_lockId p) lock ttl,
                     r_idem := set_ex rt (r_idem st) (aq_idempotencyKey p) lock ttl\<rparr>)))"

definition QUANTITY_ACQUIRE ::
  "time_ms \<Rightarrow> time_ms \<Rightarrow> int \<Rightarrow> int \<Rightarrow> acquire_params \<Rightarrow> redis \<Rightarrow> script_result \<times> redis" where
  "QUANTITY_ACQUIRE rt now ttl fenceTtl p st =
    (case rget rt (r_idem st) (aq_idempotencyKey p) of
       Some existing \<Rightarrow>
         (if rl_fingerprint existing = aq_fingerprint p then Replay existing else IdempotencyConflict, st)
     | None \<Rightarrow>
         let k = aq_inventoryKey p;
             zs = elems rt (r_zset st) k;
             expired = map fst (filter (\<lambda>(_, score). score < now) zs);
             zs1 = filter (\<lambda>(_, score). \<not> score < now) zs;
             hs1 = filter (\<lambda>(m, _). m \<notin> set expired) (elems rt (r_hash st) k);
             zset1 = (if expired = [] then r_zset st else put_elems rt (r_zset st) k zs1);
             hash1 = (if expired = [] then r_hash st else put_elems rt (r_hash st) k hs1);
             st1 = st\<lparr>r_zset := zset1, r_hash := hash1\<rparr>;
             held = sum_list (map snd hs1)
         in if aq_capacity p < held + aq_quantity p then (Capacity held, st1)
            else
              let token = next_token rt (r_fence st) k;
                  lock = (base_lock p QUANTITY token ttl now)\<lparr>rl_quantity := Some (aq_quantity p)\<rparr>;
                  zset2 = put_elems rt zset1 k (AList.update (aq_lockId p) (now + ttl * 1000) zs1);
                  hash2 = put_elems rt hash1 k (AList.update (aq_lockId p) (aq_quantity p) hs1)
              in (Acquired lock,
                  st\<lparr>r_fence := bump_fence rt fenceTtl (r_fence st) k,
                     r_zset := expire rt zset2 k fenceTtl, r_hash := expire rt hash2 k fenceTtl,
                     r_lock := set_ex rt (r_lock st) (aq_lockId p) lock ttl,
                     r_idem := set_ex rt (r_idem st) (aq_idempotencyKey p) lock ttl\<rparr>))"

definition renew_guard :: "time_ms \<Rightarrow> redis \<Rightarrow> string \<Rightarrow> int \<Rightarrow> script_result + raw_lock" where
  "renew_guard rt st lockId token =
    (case rget rt (r_lock st) lockId of
       None \<Rightarrow> Inl NotFound
     | Some lock \<Rightarrow>
         if rl_status lock \<noteq> ACTIVE then Inl (NotActive (rl_status lock))
         else if rl_fencingToken lock \<noteq> token then Inl (TokenStale (rl_fencingToken lock))
         else Inr lock)"

definition SEAT_RENEW ::
  "time_ms \<Rightarrow> time_ms \<Rightarrow> int \<Rightarrow> string \<Rightarrow> int \<Rightarrow> string list \<Rightarrow> redis \<Rightarrow> script_result \<times> redis" where
  "SEAT_RENEW rt now ttl lockId token seatKeys st =
    (case renew_guard rt st lockId token of
       Inl e \<Rightarrow> (e, st)
     | Inr lock \<Rightarrow>
         let lock' = lock\<lparr>rl_expiresAtMs := now + ttl * 1000, rl_lastRenewedAtMs := Some now\<rparr>
         in (Renewed lock',
             st\<lparr>r_seat := fold (\<lambda>k m. expire rt m k ttl) seatKeys (r_seat st),
                r_lock := set_ex rt (r_lock st) lockId lock' ttl\<rparr>))"

definition QUANTITY_RENEW ::
  "time_ms \<Rightarrow> time_ms \<Rightarrow> int \<Rightarrow> string \<Rightarrow> int \<Rightarrow> string \<Rightarrow> redis \<Rightarrow> script_result \<times> redis" where
  "QUANTITY_RENEW rt now ttl lockId token zsetKey st =
    (case renew_guard rt st lockId token of
       Inl e \<Rightarrow> (e, st)
     | Inr lock \<Rightarrow>
         let lock' = lock\<lparr>rl_expiresAtMs := now + ttl * 1000, rl_lastRenewedAtMs := Some now\<rparr>
         in (Renewed lock',
             st\<lparr>r_zset := put_elems rt (r_zset st) zsetKey
                  (AList.update lockId (now + ttl * 1000) (elems rt (r_zset st) zsetKey)),
                r_lock := set_ex rt (r_lock st) lockId lock' ttl\<rparr>))"

definition tombstone :: "time_ms \<Rightarrow> string \<Rightarrow> lock_status \<Rightarrow> int \<Rightarrow> raw_lock keyspace \<Rightarrow> raw_lock keyspace" where
  "tombstone rt lockId final ttl m =
    (case rget rt m lockId of None \<Rightarrow> m | Some lock \<Rightarrow> set_ex rt m lockId (lock\<lparr>rl_status := final\<rparr>) ttl)"

definition SEAT_RELEASE :: "time_ms \<Rightarrow> string \<Rightarrow> lock_status \<Rightarrow> int \<Rightarrow> string list \<Rightarrow> redis \<Rightarrow> redis" where
  "SEAT_RELEASE rt lockId final tombstoneTtl seatKeys st =
    st\<lparr>r_seat := fold (\<lambda>k m. if rget rt m k = Some lockId then m(k := None) else m) seatKeys (r_seat st),
       r_lock := tombstone rt lockId final tombstoneTtl (r_lock st)\<rparr>"

definition QUANTITY_RELEASE :: "time_ms \<Rightarrow> string \<Rightarrow> lock_status \<Rightarrow> int \<Rightarrow> string \<Rightarrow> redis \<Rightarrow> redis" where
  "QUANTITY_RELEASE rt lockId final tombstoneTtl k st =
    st\<lparr>r_zset := put_elems rt (r_zset st) k (AList.delete lockId (elems rt (r_zset st) k)),
       r_hash := put_elems rt (r_hash st) k (AList.delete lockId (elems rt (r_hash st) k)),
       r_lock := tombstone rt lockId final tombstoneTtl (r_lock st)\<rparr>"

section \<open>The store\<close>

definition acquireSeat :: "time_ms \<Rightarrow> time_ms \<Rightarrow> int \<Rightarrow> acquire_params \<Rightarrow> int \<Rightarrow> redis \<Rightarrow> script_result \<times> redis" where
  "acquireSeat rt now fenceTtl p ttl st =
    SEAT_ACQUIRE rt now ttl fenceTtl p (map (seat_key (aq_inventoryKey p)) (aq_seatIds p)) (join '','' (aq_seatIds p)) st"

definition acquireQuantity :: "time_ms \<Rightarrow> time_ms \<Rightarrow> int \<Rightarrow> acquire_params \<Rightarrow> int \<Rightarrow> redis \<Rightarrow> script_result \<times> redis" where
  "acquireQuantity rt now fenceTtl p ttl st = QUANTITY_ACQUIRE rt now ttl fenceTtl p st"

definition lock_seat_keys :: "raw_lock \<Rightarrow> string list" where
  "lock_seat_keys lock = map (seat_key (rl_inventoryKey lock)) (nvl (rl_inventoryUnitIds lock) [])"

definition store_renew :: "time_ms \<Rightarrow> time_ms \<Rightarrow> raw_lock \<Rightarrow> int \<Rightarrow> redis \<Rightarrow> script_result \<times> redis" where
  "store_renew rt now lock ttl st =
    (if rl_inventoryType lock = SEAT
     then SEAT_RENEW rt now ttl (rl_lockId lock) (rl_fencingToken lock) (lock_seat_keys lock) st
     else QUANTITY_RENEW rt now ttl (rl_lockId lock) (rl_fencingToken lock) (rl_inventoryKey lock) st)"

definition store_release :: "time_ms \<Rightarrow> raw_lock \<Rightarrow> lock_status \<Rightarrow> int \<Rightarrow> redis \<Rightarrow> redis" where
  "store_release rt lock final tombstoneTtl st =
    (if rl_inventoryType lock = SEAT
     then SEAT_RELEASE rt (rl_lockId lock) final tombstoneTtl (lock_seat_keys lock) st
     else QUANTITY_RELEASE rt (rl_lockId lock) final tombstoneTtl (rl_inventoryKey lock) st)"

definition getRaw :: "time_ms \<Rightarrow> redis \<Rightarrow> string \<Rightarrow> raw_lock option" where
  "getRaw rt st lockId = rget rt (r_lock st) lockId"

definition ownerActiveCount :: "time_ms \<Rightarrow> time_ms \<Rightarrow> string \<Rightarrow> redis \<Rightarrow> nat \<times> redis" where
  "ownerActiveCount rt now ownerRef st =
    (let xs = filter (\<lambda>(_, score). \<not> score < now) (elems rt (r_owner st) ownerRef)
     in (length xs, st\<lparr>r_owner := put_elems rt (r_owner st) ownerRef xs\<rparr>))"

definition ownerTrack :: "time_ms \<Rightarrow> int \<Rightarrow> string \<Rightarrow> string \<Rightarrow> time_ms \<Rightarrow> redis \<Rightarrow> redis" where
  "ownerTrack rt fenceTtl ownerRef lockId expiresAtMs st =
    st\<lparr>r_owner := expire rt (put_elems rt (r_owner st) ownerRef
        (AList.update lockId expiresAtMs (elems rt (r_owner st) ownerRef))) ownerRef fenceTtl\<rparr>"

definition ownerUntrack :: "time_ms \<Rightarrow> string \<Rightarrow> string \<Rightarrow> redis \<Rightarrow> redis" where
  "ownerUntrack rt ownerRef lockId st =
    st\<lparr>r_owner := put_elems rt (r_owner st) ownerRef (AList.delete lockId (elems rt (r_owner st) ownerRef))\<rparr>"

text \<open>One call of the store, at a Redis instant and an application instant.\<close>

datatype store_call =
    AcquireSeat acquire_params int
  | AcquireQuantity acquire_params int
  | RenewLock raw_lock int
  | ReleaseLock raw_lock lock_status int

fun store_step :: "int \<Rightarrow> time_ms \<Rightarrow> time_ms \<Rightarrow> store_call \<Rightarrow> redis \<Rightarrow> script_result option \<times> redis" where
  "store_step fenceTtl rt now (AcquireSeat p ttl) st =
    (let (r, st') = acquireSeat rt now fenceTtl p ttl st in (Some r, st'))"
| "store_step fenceTtl rt now (AcquireQuantity p ttl) st =
    (let (r, st') = acquireQuantity rt now fenceTtl p ttl st in (Some r, st'))"
| "store_step fenceTtl rt now (RenewLock lock ttl) st =
    (let (r, st') = store_renew rt now lock ttl st in (Some r, st'))"
| "store_step fenceTtl rt now (ReleaseLock lock final ttl) st = (None, store_release rt lock final ttl st)"

fun call_lock :: "store_call \<Rightarrow> string" where
  "call_lock (AcquireSeat p ttl) = aq_lockId p"
| "call_lock (AcquireQuantity p ttl) = aq_lockId p"
| "call_lock (RenewLock lock ttl) = rl_lockId lock"
| "call_lock (ReleaseLock lock final ttl) = rl_lockId lock"

text \<open>The fencing tokens that a sequence of calls issues in one scope.\<close>

fun issued :: "int \<Rightarrow> string \<Rightarrow> (time_ms \<times> time_ms \<times> store_call) list \<Rightarrow> redis \<Rightarrow> int list" where
  "issued fenceTtl scope [] st = []"
| "issued fenceTtl scope ((rt, now, c) # cs) st =
    (let (r, st') = store_step fenceTtl rt now c st
     in (case r of
           Some (Acquired lock) \<Rightarrow> if rl_inventoryKey lock = scope then [rl_fencingToken lock] else []
         | _ \<Rightarrow> []) @ issued fenceTtl scope cs st')"

section \<open>Sample values\<close>

definition empty_redis :: redis where
  "empty_redis = \<lparr>r_lock = Map.empty, r_seat = Map.empty, r_idem = Map.empty, r_fence = Map.empty, r_zset = Map.empty,
     r_hash = Map.empty, r_owner = Map.empty\<rparr>"

definition ex_acquire :: "string \<Rightarrow> string list \<Rightarrow> int \<Rightarrow> acquire_params" where
  "ex_acquire lid seats qty = \<lparr>aq_lockId = lid, aq_holdId = ''h'' @ lid, aq_inventoryKey = ''session:s1'', aq_seatIds = seats,
     aq_quantity = qty, aq_capacity = 10, aq_ownerId = Some (''u'' @ lid), aq_anonymousSessionId = None,
     aq_fingerprint = ''f'' @ lid, aq_idempotencyKey = ''i'' @ lid, aq_bookingId = None, aq_providerCode = None,
     aq_correlationId = None\<rparr>"

section \<open>Keys and commands\<close>

lemma key_families_disjoint:
  "key_lock e a \<noteq> key_seat e b c" "key_lock e a \<noteq> key_idempotency e b" "key_lock e a \<noteq> key_fence e b"
  "key_lock e a \<noteq> key_quantityZset e b" "key_lock e a \<noteq> key_quantityHash e b" "key_lock e a \<noteq> key_owner e b"
  "key_seat e a d \<noteq> key_idempotency e b" "key_seat e a d \<noteq> key_fence e b" "key_seat e a d \<noteq> key_quantityZset e b"
  "key_seat e a d \<noteq> key_quantityHash e b" "key_seat e a d \<noteq> key_owner e b" "key_quantityZset e a \<noteq> key_quantityHash e b"
  "key_quantityZset e a \<noteq> key_idempotency e b" "key_quantityZset e a \<noteq> key_fence e b" "key_quantityZset e a \<noteq> key_owner e b"
  "key_quantityHash e a \<noteq> key_idempotency e b" "key_quantityHash e a \<noteq> key_fence e b" "key_quantityHash e a \<noteq> key_owner e b"
  "key_idempotency e a \<noteq> key_fence e b" "key_idempotency e a \<noteq> key_owner e b" "key_fence e a \<noteq> key_owner e b"
  by (simp_all add: key_lock_def key_seat_def key_idempotency_def key_fence_def key_quantityZset_def
      key_quantityHash_def key_owner_def)

lemma keys_injective:
  "key_lock e a = key_lock e b \<longleftrightarrow> a = b" "key_fence e a = key_fence e b \<longleftrightarrow> a = b"
  "key_idempotency e a = key_idempotency e b \<longleftrightarrow> a = b"
  "key_seat e a c = key_seat e b d \<longleftrightarrow> seat_key a c = seat_key b d"
  by (simp_all add: key_lock_def key_fence_def key_idempotency_def key_seat_def seat_key_def)

lemma rget_set_ex [lock_simps]:
  "rget rt' (set_ex rt m k v ttl) j = (if j = k then if rt' \<le> rt + ttl * 1000 then Some v else None else rget rt' m j)"
  by (simp add: rget_def set_ex_def)

lemma rget_expire_same [lock_simps]: "0 \<le> ttl \<Longrightarrow> rget rt (expire rt m k ttl) j = rget rt m j"
  by (auto simp: expire_def rget_def split: option.splits)

lemma rget_del [lock_simps]: "rget rt (m(k := None)) j = (if j = k then None else rget rt m j)"
  by (simp add: rget_def)

lemma conflicting_None_iff:
  "conflicting rt m L ks = None \<longleftrightarrow> (\<forall>k \<in> set ks. rget rt m k = None \<or> rget rt m k = Some L)"
  by (induction ks) (auto split: option.splits)

lemma conflicting_Some: "conflicting rt m L ks = Some k \<Longrightarrow> k \<in> set ks \<and> (\<exists>o'. o' \<noteq> L \<and> rget rt m k = Some o')"
  by (induction ks) (auto split: option.splits if_splits)

lemma rget_fold_set [lock_simps]:
  "rget rt' (fold (\<lambda>k m. set_ex rt m k v ttl) ks m) j =
    (if j \<in> set ks then if rt' \<le> rt + ttl * 1000 then Some v else None else rget rt' m j)"
  by (induction ks arbitrary: m) (auto simp: rget_set_ex)

lemma rget_fold_expire [lock_simps]:
  "0 \<le> ttl \<Longrightarrow> rget rt (fold (\<lambda>k m. expire rt m k ttl) ks m) j = rget rt m j"
  by (induction ks arbitrary: m) (auto simp: rget_expire_same)

lemma rget_fold_release [lock_simps]:
  "rget rt (fold (\<lambda>k m. if rget rt m k = Some L then m(k := None) else m) ks m) j =
    (if j \<in> set ks \<and> rget rt m j = Some L then None else rget rt m j)"
  by (induction ks arbitrary: m) (auto simp: rget_del)

lemma elems_put [lock_simps]: "elems rt (put_elems rt m k xs) j = (if j = k then xs else elems rt m j)"
  by (auto simp: elems_def put_elems_def rget_def split: option.splits if_splits)

lemma elems_expire [lock_simps]: "0 \<le> ttl \<Longrightarrow> elems rt (expire rt m k ttl) j = elems rt m j"
  by (simp add: elems_def rget_expire_same)

section \<open>Seat locks\<close>

text \<open>
  Taking seats is all or nothing: a successful acquisition found every requested seat free (or
  already its own), leaves every one of them, and no other seat, owned by the new lock until the lock
  lapses, and stores the lock it returns; every other answer leaves Redis exactly as it was, and a
  conflict names a requested seat that another live lock owns.
\<close>

lemma seat_acquire_all_or_nothing:
  "case acquireSeat rt now fenceTtl p ttl st of
     (Acquired lock, st') \<Rightarrow>
       (\<forall>s \<in> set (aq_seatIds p). rget rt (r_seat st) (seat_key (aq_inventoryKey p) s) \<in> {None, Some (aq_lockId p)}) \<and>
       (\<forall>rt' k. rget rt' (r_seat st') k =
          (if k \<in> seat_key (aq_inventoryKey p) ` set (aq_seatIds p)
           then if rt' \<le> rt + ttl * 1000 then Some (aq_lockId p) else None
           else rget rt' (r_seat st) k)) \<and>
       (\<forall>rt'. rt' \<le> rt + ttl * 1000 \<longrightarrow> getRaw rt' st' (aq_lockId p) = Some lock) \<and> rl_status lock = ACTIVE
   | (Conflict k, st') \<Rightarrow>
       st' = st \<and> (\<exists>s \<in> set (aq_seatIds p). k = seat_key (aq_inventoryKey p) s \<and>
         (\<exists>other. other \<noteq> aq_lockId p \<and> rget rt (r_seat st) k = Some other))
   | (_, st') \<Rightarrow> st' = st"
proof -
  let ?ks = "map (seat_key (aq_inventoryKey p)) (aq_seatIds p)"
  show ?thesis
  proof (cases "rget rt (r_idem st) (aq_idempotencyKey p)")
    case (Some l)
    then show ?thesis by (simp add: acquireSeat_def SEAT_ACQUIRE_def)
  next
    case idem: None
    show ?thesis
    proof (cases "conflicting rt (r_seat st) (aq_lockId p) ?ks")
      case (Some k)
      with conflicting_Some [OF Some] idem show ?thesis by (auto simp: acquireSeat_def SEAT_ACQUIRE_def)
    next
      case None
      then have "\<forall>s \<in> set (aq_seatIds p). rget rt (r_seat st) (seat_key (aq_inventoryKey p) s) \<in> {None, Some (aq_lockId p)}"
        by (auto simp: conflicting_None_iff)
      with None idem show ?thesis
        by (simp add: acquireSeat_def SEAT_ACQUIRE_def Let_def getRaw_def rget_fold_set rget_set_ex base_lock_def)
    qed
  qed
qed

lemma seat_acquire_all_or_nothing_witness:
  "\<exists>lock st'. acquireSeat 0 0 3600 (ex_acquire ''L1'' [''A1'', ''A2''] 0) 300 empty_redis = (Acquired lock, st') \<and>
     rget 1000 (r_seat st') ''session:s1:A2'' = Some ''L1''"
proof -
  let ?p = "ex_acquire ''L1'' [''A1'', ''A2''] 0"
  have "\<exists>lock st'. acquireSeat 0 0 3600 ?p 300 empty_redis = (Acquired lock, st')"
    by (simp add: acquireSeat_def SEAT_ACQUIRE_def ex_acquire_def empty_redis_def rget_def Let_def)
  then obtain lock st' where a: "acquireSeat 0 0 3600 ?p 300 empty_redis = (Acquired lock, st')" by blast
  have "rget 1000 (r_seat st') ''session:s1:A2'' = Some ''L1''"
    using seat_acquire_all_or_nothing [where rt = 0 and now = 0 and fenceTtl = 3600 and p = ?p and ttl = 300 and st = empty_redis] a
    by (simp add: ex_acquire_def seat_key_def)
  with a show ?thesis by blast
qed

lemma renew_guard_Inr: "renew_guard rt st L tok = Inr lock \<Longrightarrow> rget rt (r_lock st) L = Some lock \<and> rl_status lock = ACTIVE \<and> rl_fencingToken lock = tok"
  by (auto simp: renew_guard_def split: option.splits if_splits)

fun call_ttl :: "store_call \<Rightarrow> int" where
  "call_ttl (AcquireSeat p ttl) = ttl"
| "call_ttl (AcquireQuantity p ttl) = ttl"
| "call_ttl (RenewLock lock ttl) = ttl"
| "call_ttl (ReleaseLock lock final ttl) = ttl"

text \<open>
  C29.  A held seat is never stolen: whatever any other lock does (acquire, renew, release, confirm, at
  any clock readings), a seat owned by a live lock stays owned by it.
\<close>

theorem seat_never_stolen:
  assumes "rget rt (r_seat st) k = Some L" "call_lock c \<noteq> L" "0 \<le> call_ttl c"
  shows "rget rt (r_seat (snd (store_step fenceTtl rt now c st))) k = Some L"
proof (cases c)
  case (AcquireSeat p ttl)
  have "k \<notin> set (map (seat_key (aq_inventoryKey p)) (aq_seatIds p))"
    if "conflicting rt (r_seat st) (aq_lockId p) (map (seat_key (aq_inventoryKey p)) (aq_seatIds p)) = None"
    using that assms AcquireSeat by (auto simp: conflicting_None_iff)
  with assms(1) AcquireSeat show ?thesis
    by (auto simp: acquireSeat_def SEAT_ACQUIRE_def Let_def rget_fold_set split: option.splits)
next
  case (AcquireQuantity p ttl)
  with assms(1) show ?thesis
    by (auto simp: acquireQuantity_def QUANTITY_ACQUIRE_def Let_def split: option.splits)
next
  case (RenewLock lock ttl)
  with assms show ?thesis
    by (auto simp: store_renew_def SEAT_RENEW_def QUANTITY_RENEW_def Let_def rget_fold_expire split: sum.splits)
next
  case (ReleaseLock lock final ttl)
  with assms show ?thesis
    by (auto simp: store_release_def SEAT_RELEASE_def QUANTITY_RELEASE_def rget_fold_release)
qed

theorem seat_never_stolen_witness:
  "rget 1000 (r_seat (snd (store_step 3600 1000 1000 (AcquireSeat (ex_acquire ''L2'' [''A1'', ''A3''] 0) 300)
     (snd (acquireSeat 0 0 3600 (ex_acquire ''L1'' [''A1'', ''A2''] 0) 300 empty_redis))))) ''session:s1:A1'' = Some ''L1''"
proof -
  let ?st = "snd (acquireSeat 0 0 3600 (ex_acquire ''L1'' [''A1'', ''A2''] 0) 300 empty_redis)"
  have "rget 1000 (r_seat ?st) ''session:s1:A1'' = Some ''L1''" by code_simp
  then show ?thesis by (rule seat_never_stolen) (simp_all add: ex_acquire_def)
qed

section \<open>Fencing tokens\<close>

lemma step_fence:
  assumes "store_step fenceTtl rt now c st = (r, st')" "r_fence st scope = Some (f, Some fe)" "rt \<le> fe"
  shows "(\<exists>lock. r = Some (Acquired lock) \<and> rl_inventoryKey lock = scope \<and> rl_fencingToken lock = f + 1 \<and>
           r_fence st' scope = Some (f + 1, Some (rt + fenceTtl * 1000))) \<or>
         (\<forall>lock. r = Some (Acquired lock) \<longrightarrow> rl_inventoryKey lock \<noteq> scope) \<and> r_fence st' scope = Some (f, Some fe)"
proof -
  have tok: "next_token rt (r_fence st) scope = f + 1" using assms(2,3) by (simp add: next_token_def rget_def)
  note defs = acquireSeat_def SEAT_ACQUIRE_def acquireQuantity_def QUANTITY_ACQUIRE_def store_renew_def SEAT_RENEW_def
    QUANTITY_RENEW_def store_release_def SEAT_RELEASE_def QUANTITY_RELEASE_def
  show ?thesis
    using assms(1,2) tok
    by (cases c) (auto simp: defs Let_def bump_fence_def set_ex_def base_lock_def renew_guard_def
        split: option.splits if_splits sum.splits)
qed

lemma issued_above:
  assumes "r_fence st scope = Some (f, Some fe)" "t0 + fenceTtl * 1000 \<le> fe"
    and "\<forall>(rt, _, _) \<in> set cs. t0 \<le> rt \<and> rt \<le> t0 + fenceTtl * 1000"
  shows "sorted_wrt (<) (issued fenceTtl scope cs st) \<and> (\<forall>tok \<in> set (issued fenceTtl scope cs st). f < tok)"
  using assms
proof (induction cs arbitrary: st f fe)
  case (Cons x cs)
  obtain rt now c where x: "x = (rt, now, c)" by (cases x)
  obtain r st' where s: "store_step fenceTtl rt now c st = (r, st')" by fastforce
  have rt: "t0 \<le> rt" "rt \<le> fe" using Cons.prems x by auto
  have cs: "\<forall>(rt, _, _) \<in> set cs. t0 \<le> rt \<and> rt \<le> t0 + fenceTtl * 1000" using Cons.prems by simp
  from step_fence [OF s Cons.prems(1) rt(2)] show ?case
  proof (elim disjE exE conjE)
    fix lock
    assume l: "r = Some (Acquired lock)" "rl_inventoryKey lock = scope" "rl_fencingToken lock = f + 1"
      and f: "r_fence st' scope = Some (f + 1, Some (rt + fenceTtl * 1000))"
    have "sorted_wrt (<) (issued fenceTtl scope cs st') \<and> (\<forall>tok \<in> set (issued fenceTtl scope cs st'). f + 1 < tok)"
      by (rule Cons.IH [OF f _ cs]) (use rt in simp)
    then show ?thesis using l by (fastforce simp: x s)
  next
    assume n: "\<forall>lock. r = Some (Acquired lock) \<longrightarrow> rl_inventoryKey lock \<noteq> scope"
      and f: "r_fence st' scope = Some (f, Some fe)"
    have "sorted_wrt (<) (issued fenceTtl scope cs st') \<and> (\<forall>tok \<in> set (issued fenceTtl scope cs st'). f < tok)"
      by (rule Cons.IH [OF f Cons.prems(2) cs])
    then show ?thesis using n by (auto simp: x s split: option.splits script_result.splits)
  qed
qed simp

text \<open>
  Fencing tokens only move forward: after a lock is acquired in a scope, every lock acquired there
  within the fence's lifetime, through any interleaving of calls by any clients, gets a larger token
  than it and than every lock acquired in between.
\<close>

lemma fencing_tokens_increase:
  assumes "store_step fenceTtl t0 now c st = (Some (Acquired lock), st')"
    and "\<forall>(rt, _, _) \<in> set cs. t0 \<le> rt \<and> rt \<le> t0 + fenceTtl * 1000"
  shows "sorted_wrt (<) (rl_fencingToken lock # issued fenceTtl (rl_inventoryKey lock) cs st')"
proof -
  have f: "r_fence st' (rl_inventoryKey lock) = Some (rl_fencingToken lock, Some (t0 + fenceTtl * 1000))"
    using assms(1)
    by (cases c) (auto simp: acquireSeat_def SEAT_ACQUIRE_def acquireQuantity_def QUANTITY_ACQUIRE_def store_renew_def
        SEAT_RENEW_def QUANTITY_RENEW_def renew_guard_def Let_def bump_fence_def set_ex_def base_lock_def
        split: option.splits if_splits sum.splits)
  show ?thesis using issued_above [OF f _ assms(2)] by simp
qed

lemma fencing_tokens_increase_witness:
  "\<exists>lock st'. store_step 3600 0 0 (AcquireSeat (ex_acquire ''L1'' [''A1''] 0) 300) empty_redis = (Some (Acquired lock), st') \<and>
     sorted_wrt (<) (rl_fencingToken lock # issued 3600 (rl_inventoryKey lock)
       [(5, 5, AcquireSeat (ex_acquire ''L2'' [''A2''] 0) 300), (9, 9, AcquireQuantity (ex_acquire ''L3'' [] 2) 300)] st')"
proof -
  let ?c = "AcquireSeat (ex_acquire ''L1'' [''A1''] 0) 300"
  have "\<exists>lock st'. store_step 3600 0 0 ?c empty_redis = (Some (Acquired lock), st')"
    by (simp add: acquireSeat_def SEAT_ACQUIRE_def ex_acquire_def empty_redis_def rget_def Let_def)
  then obtain lock st' where a: "store_step 3600 0 0 ?c empty_redis = (Some (Acquired lock), st')" by blast
  show ?thesis by (intro exI conjI, rule a, rule fencing_tokens_increase [OF a]) simp
qed

section \<open>Quantity locks\<close>

definition counted :: "time_ms \<Rightarrow> redis \<Rightarrow> string \<Rightarrow> int" where
  "counted rt st k = sum_list (map snd (elems rt (r_hash st) k))"

definition slots_ok :: "int \<Rightarrow> (string \<times> int) list \<Rightarrow> bool" where
  "slots_ok limit xs \<longleftrightarrow> distinct (map fst xs) \<and> (\<forall>(_, q) \<in> set xs. 0 \<le> q) \<and> sum_list (map snd xs) \<le> limit"

definition hash_ok :: "int \<Rightarrow> string \<Rightarrow> redis \<Rightarrow> bool" where
  "hash_ok limit k st \<longleftrightarrow> 0 \<le> limit \<and> (case r_hash st k of None \<Rightarrow> True | Some (xs, _) \<Rightarrow> slots_ok limit xs)"

text \<open>The calls of one scope ask for a non-negative quantity against at most the limit.\<close>

fun call_within :: "int \<Rightarrow> string \<Rightarrow> store_call \<Rightarrow> bool" where
  "call_within limit k (AcquireQuantity p ttl) = (aq_inventoryKey p = k \<longrightarrow> 0 \<le> aq_quantity p \<and> aq_capacity p \<le> limit)"
| "call_within limit k _ = True"

fun run_calls :: "int \<Rightarrow> (time_ms \<times> time_ms \<times> store_call) list \<Rightarrow> redis \<Rightarrow> redis" where
  "run_calls fenceTtl [] st = st"
| "run_calls fenceTtl ((rt, now, c) # cs) st = run_calls fenceTtl cs (snd (store_step fenceTtl rt now c st))"

lemma sum_snd_nonneg: "\<forall>(_, q) \<in> set xs. 0 \<le> q \<Longrightarrow> 0 \<le> sum_list (map snd xs)" for xs :: "(string \<times> int) list"
  by (rule sum_list_nonneg_int) auto

lemma slots_filter: "slots_ok limit xs \<Longrightarrow> slots_ok limit (filter P xs)"
  unfolding slots_ok_def
  by (auto simp: distinct_map_filter intro!: order_trans [OF sum_list_filter_le])

lemma slots_delete: "slots_ok limit xs \<Longrightarrow> slots_ok limit (AList.delete k xs)"
  by (simp add: AList.delete_eq slots_filter)

lemma slots_Nil: "0 \<le> limit \<Longrightarrow> slots_ok limit []"
  by (simp add: slots_ok_def)

lemma update_sum_le:
  "\<forall>(_, q) \<in> set xs. 0 \<le> q \<Longrightarrow> sum_list (map snd (AList.update k v xs)) \<le> sum_list (map snd xs) + v"
  for xs :: "(string \<times> int) list" and v :: int
  by (induction xs) auto

lemma set_update_sub: "set (AList.update k v xs) \<subseteq> insert (k, v) (set xs)"
  by (induction xs) auto

lemma slots_update:
  assumes "slots_ok limit' xs" "0 \<le> v" "sum_list (map snd xs) + v \<le> limit"
  shows "slots_ok limit (AList.update k v xs)"
proof -
  have "\<forall>(_, q) \<in> set (AList.update k v xs). 0 \<le> q"
    using assms(1,2) set_update_sub [of k v xs] by (auto simp: slots_ok_def)
  moreover have "sum_list (map snd (AList.update k v xs)) \<le> limit"
    using assms update_sum_le [of xs k v] by (simp add: slots_ok_def)
  ultimately show ?thesis using assms(1) by (simp add: slots_ok_def distinct_update)
qed

lemma hash_ok_elems: "hash_ok limit k st \<Longrightarrow> slots_ok limit (elems rt (r_hash st) k)"
  by (auto simp: hash_ok_def elems_def rget_def slots_Nil split: option.splits)

lemma hash_ok_put:
  "hash_ok limit k st \<Longrightarrow> slots_ok limit xs \<Longrightarrow> hash_ok limit k (st\<lparr>r_hash := put_elems rt (r_hash st) j xs\<rparr>)"
  by (auto simp: hash_ok_def put_elems_def)

lemma hash_ok_expire: "hash_ok limit k st \<Longrightarrow> hash_ok limit k (st\<lparr>r_hash := expire rt (r_hash st) j ttl\<rparr>)"
  by (auto simp: hash_ok_def expire_def rget_def split: option.splits if_splits)

lemma hash_ok_cong: "r_hash st' k = r_hash st k \<Longrightarrow> hash_ok limit k st' = hash_ok limit k st"
  by (simp add: hash_ok_def)

lemma put_elems_other: "j \<noteq> k \<Longrightarrow> put_elems rt m k xs j = m j"
  by (simp add: put_elems_def)

lemma expire_other: "j \<noteq> k \<Longrightarrow> expire rt m k ttl j = m j"
  by (simp add: expire_def split: option.split)

lemma hash_ok_slots:
  assumes "0 \<le> limit" "slots_ok limit xs" "r_hash st k = None \<or> (\<exists>e. r_hash st k = Some (xs, e))"
  shows "hash_ok limit k st"
  using assms by (auto simp: hash_ok_def)

lemma acquire_hash_ok:
  assumes ok: "hash_ok limit k st" and w: "call_within limit k (AcquireQuantity p ttl)"
  shows "hash_ok limit k (snd (acquireQuantity rt now fenceTtl p ttl st))"
proof (cases "rget rt (r_idem st) (aq_idempotencyKey p)")
  case (Some l)
  then show ?thesis using ok by (simp add: acquireQuantity_def QUANTITY_ACQUIRE_def)
next
  case None
  let ?j = "aq_inventoryKey p"
  define expired where "expired = map fst (filter (\<lambda>(_, score). score < now) (elems rt (r_zset st) ?j))"
  define hs1 where "hs1 = filter (\<lambda>(m, _). m \<notin> set expired) (elems rt (r_hash st) ?j)"
  define hash1 where "hash1 = (if expired = [] then r_hash st else put_elems rt (r_hash st) ?j hs1)"
  let ?hash2 = "expire rt (put_elems rt hash1 ?j (AList.update (aq_lockId p) (aq_quantity p) hs1)) ?j fenceTtl"
  have out: "r_hash (snd (acquireQuantity rt now fenceTtl p ttl st)) =
      (if aq_capacity p < sum_list (map snd hs1) + aq_quantity p then hash1 else ?hash2)"
    using None by (simp add: acquireQuantity_def QUANTITY_ACQUIRE_def Let_def expired_def hs1_def hash1_def)
  show ?thesis
  proof (cases "k = ?j")
    case False
    then have "r_hash (snd (acquireQuantity rt now fenceTtl p ttl st)) k = r_hash st k"
      unfolding out hash1_def by (simp add: put_elems_other expire_other)
    then show ?thesis using ok by (simp add: hash_ok_def)
  next
    case k: True
    have lim: "0 \<le> limit" using ok by (simp add: hash_ok_def)
    have h: "slots_ok limit hs1" unfolding hs1_def k [symmetric] by (rule slots_filter [OF hash_ok_elems [OF ok]])
    have h1: "hash_ok limit k (st\<lparr>r_hash := hash1\<rparr>)"
      using ok hash_ok_put [OF ok h] by (simp add: hash1_def)
    show ?thesis
    proof (cases "aq_capacity p < sum_list (map snd hs1) + aq_quantity p")
      case True
      then show ?thesis using h1 out by (simp add: hash_ok_def)
    next
      case False
      have "slots_ok limit (AList.update (aq_lockId p) (aq_quantity p) hs1)"
        by (rule slots_update [OF h]) (use w k False in auto)
      from hash_ok_expire [OF hash_ok_put [OF h1 this]] False out show ?thesis by (simp add: hash_ok_def)
    qed
  qed
qed

lemma step_hash_ok:
  assumes "hash_ok limit k st" "call_within limit k c"
  shows "hash_ok limit k (snd (store_step fenceTtl rt now c st))"
proof (cases c)
  case (AcquireQuantity p ttl)
  then show ?thesis using acquire_hash_ok [OF assms(1), of p ttl] assms(2) by (simp add: case_prod_beta)
next
  case (AcquireSeat p ttl)
  then show ?thesis using assms(1)
    by (auto simp: acquireSeat_def SEAT_ACQUIRE_def Let_def hash_ok_def split: option.splits)
next
  case (RenewLock lock ttl)
  then show ?thesis using assms(1)
    by (auto simp: store_renew_def SEAT_RENEW_def QUANTITY_RENEW_def Let_def hash_ok_def split: sum.splits)
next
  case (ReleaseLock lock final ttl)
  show ?thesis
  proof (cases "rl_inventoryType lock = QUANTITY \<and> k = rl_inventoryKey lock")
    case True
    have "slots_ok limit (AList.delete (rl_lockId lock) (elems rt (r_hash st) k))"
      by (rule slots_delete [OF hash_ok_elems [OF assms(1)]])
    from hash_ok_put [OF assms(1) this] True ReleaseLock show ?thesis
      by (simp add: store_release_def QUANTITY_RELEASE_def hash_ok_def)
  next
    case False
    then show ?thesis using assms(1) ReleaseLock
      by (cases "rl_inventoryType lock")
        (auto simp: store_release_def SEAT_RELEASE_def QUANTITY_RELEASE_def hash_ok_def put_elems_other)
  qed
qed

lemma run_hash_ok:
  "hash_ok limit k st \<Longrightarrow> \<forall>(_, _, c) \<in> set cs. call_within limit k c \<Longrightarrow> hash_ok limit k (run_calls fenceTtl cs st)"
  by (induction fenceTtl cs st rule: run_calls.induct) (auto intro: step_hash_ok)

text \<open>
  C37.  The counted quantity of a scope never exceeds its capacity and never goes negative, whatever
  calls are made in whatever order and at whatever clock readings, as long as every acquisition states
  at most that capacity.
\<close>

theorem counted_within_capacity:
  assumes "hash_ok limit k st" "\<forall>(_, _, c) \<in> set cs. call_within limit k c"
  shows "0 \<le> counted rt (run_calls fenceTtl cs st) k \<and> counted rt (run_calls fenceTtl cs st) k \<le> limit"
  using hash_ok_elems [OF run_hash_ok [OF assms, of fenceTtl], of rt] sum_snd_nonneg
  by (auto simp: counted_def slots_ok_def)

theorem counted_within_capacity_witness:
  "counted 20 (run_calls 3600 [(0, 0, AcquireQuantity (ex_acquire ''L1'' [] 6) 300),
     (10, 10, AcquireQuantity (ex_acquire ''L2'' [] 6) 300), (15, 15, AcquireQuantity (ex_acquire ''L3'' [] 4) 300)]
     empty_redis) ''session:s1'' \<le> 10"
  by (rule counted_within_capacity [THEN conjunct2])
    (simp_all add: hash_ok_def empty_redis_def ex_acquire_def)

text \<open>
  What is counted is not always what is held: when another node's clock runs ahead, its
  acquisition purges a lock whose Redis key is still alive; renewing that lock puts back its place in
  the sorted set but not its quantity, so that afterwards two active locks hold more than the capacity.
\<close>

lemma renewed_lock_not_counted:
  "let k = ''session:s1'';
       st1 = snd (acquireQuantity 0 0 3600 (ex_acquire ''L1'' [] 6) 300 empty_redis);
       st2 = snd (acquireQuantity 299000 300001 3600 (ex_acquire ''L2'' [] 6) 300 st1);
       l1 = the (getRaw 299500 st2 ''L1'');
       st3 = snd (store_renew 299500 299500 l1 300 st2);
       held = (\<lambda>l. case getRaw 400000 st3 l of Some r \<Rightarrow> (rl_status r, rl_quantity r) | None \<Rightarrow> (EXPIRED, None))
   in held ''L1'' = (ACTIVE, Some 6) \<and> held ''L2'' = (ACTIVE, Some 6) \<and> counted 400000 st3 k = 6 \<and>
      map_of (elems 400000 (r_zset st3) k) ''L1'' = Some 599500"
  by code_simp

section \<open>The list of units in a lock\<close>

definition csv_step :: "char \<Rightarrow> string list \<times> string \<Rightarrow> string list \<times> string" where
  "csv_step c acc = (case acc of (ws, w) \<Rightarrow> if c = CHR '','' then (w # ws, []) else (ws, c # w))"

lemma csv_step_comma: "csv_step (CHR '','') (ws, w) = (w # ws, [])"
  by (simp add: csv_step_def)

lemma csv_step_word: "CHR '','' \<notin> set x \<Longrightarrow> foldr csv_step x (ws, w) = (ws, x @ w)"
  by (induction x) (auto simp: csv_step_def)

lemma csv_step_join:
  "\<forall>x \<in> set (x0 # xs). CHR '','' \<notin> set x \<Longrightarrow> foldr csv_step (join '','' (x0 # xs)) ([], []) = (xs, x0)"
  by (induction xs arbitrary: x0) (auto simp: csv_step_word csv_step_comma)

lemma csv_roundtrip:
  assumes "\<forall>x \<in> set xs. x \<noteq> [] \<and> CHR '','' \<notin> set x"
  shows "csv_split (join '','' xs) = xs"
proof -
  have eq: "csv_split s = filter (\<lambda>x. x \<noteq> []) (let (ws, w) = foldr csv_step s ([], []) in w # ws)" for s
    by (simp add: csv_split_def csv_step_def [abs_def])
  show ?thesis
  proof (cases xs)
    case Nil
    then show ?thesis by (simp add: csv_split_def)
  next
    case (Cons x0 ys)
    with assms have "foldr csv_step (join '','' xs) ([], []) = (ys, x0)" by (simp only: Cons) (rule csv_step_join, auto)
    then show ?thesis using assms Cons by (simp add: eq filter_id_conv)
  qed
qed

end
