(* ===== verification/LockService.thy ===== *)
theory LockService
  imports RedisLock JsSort
begin

text \<open>
  The policy layer over the Redis lock: \<^verbatim>\<open>inventory-lock.service.ts\<close> (ownership, fencing, renewal window,
  maximum lifetime, abuse caps, typed errors) and the confirmation seam
  \<^verbatim>\<open>inventory-lock-confirmation.service.ts\<close>, with the errors of \<^verbatim>\<open>inventory-lock.errors.ts\<close>.

  Every operation of the service is a sequence of separate Redis calls.  Each call has its own
  \<open>world\<close>: the readings of the two clocks, what the other clients did to Redis since the previous call,
  and whether the reply came back.  A call whose reply is lost may still have run.  Metrics and logs
  are left out; so is the conversion of timestamps to ISO strings on the way out.
\<close>

section \<open>Data\<close>

datatype lock_error =
    LockConflict | LockCapacityExceeded | LockExpired | LockIdempotencyConflict | LockOwnershipMismatch
  | LockRedisUnavailable | LockRenewalRejected string | LockTokenStale | LockValidation string
  | LockConfirmationFailed string

record lock_owner =
  lo_ownerId :: "string option"
  lo_anonymousSessionId :: "string option"
  lo_internal :: bool

record acquire_request =
  ar_holdId :: string
  ar_inventoryType :: inventory_type
  ar_inventoryKey :: string
  ar_seatIds :: "string list option"
  ar_quantity :: "int option"
  ar_capacity :: "int option"
  ar_owner :: lock_owner
  ar_idempotencyKey :: string
  ar_bookingId :: "string option"
  ar_providerCode :: "string option"
  ar_correlationId :: "string option"

record lock_config =
  lc_ttlSeconds :: int
  lc_maxLifetimeSeconds :: int
  lc_renewalWindowSeconds :: int
  lc_maxActivePerOwner :: nat
  lc_maxSeats :: nat
  lc_maxQuantity :: int

datatype reply = Answered | LostReply | Down

record world =
  w_rt :: time_ms
  w_now :: time_ms
  w_reply :: reply
  w_others :: "redis \<Rightarrow> redis"

record lock_validation =
  lv_valid :: bool
  lv_reason :: "string option"

record 'w confirm_result =
  cf_work :: 'w
  cf_lock :: "raw_lock option"
  cf_reconciliationRequired :: bool

definition fence_ttl :: "lock_config \<Rightarrow> int" where
  "fence_ttl cfg = lc_maxLifetimeSeconds cfg * 4"

section \<open>Helpers\<close>

definition guarded :: "world \<Rightarrow> (redis \<Rightarrow> 'a \<times> redis) \<Rightarrow> redis \<Rightarrow> (lock_error + 'a) \<times> redis" where
  "guarded w f st =
    (let st0 = w_others w st in
     case w_reply w of
       Answered \<Rightarrow> (let (a, st1) = f st0 in (Inr a, st1))
     | LostReply \<Rightarrow> (Inl LockRedisUnavailable, snd (f st0))
     | Down \<Rightarrow> (Inl LockRedisUnavailable, st0))"

definition ownerRef :: "string option \<Rightarrow> string option \<Rightarrow> string option" where
  "ownerRef ownerId anon =
    (if truthy ownerId then Some (''u:'' @ the ownerId) else if truthy anon then Some (''a:'' @ the anon) else None)"

definition owner_ref :: "lock_owner \<Rightarrow> string option" where
  "owner_ref owner = ownerRef (lo_ownerId owner) (lo_anonymousSessionId owner)"

definition ownerRefOf :: "raw_lock \<Rightarrow> string option" where
  "ownerRefOf raw = ownerRef (rl_ownerId raw) (rl_anonymousSessionId raw)"

definition ownerMatches :: "raw_lock \<Rightarrow> lock_owner \<Rightarrow> bool" where
  "ownerMatches raw owner \<longleftrightarrow>
    (if lo_internal owner then True
     else if truthy (rl_ownerId raw) \<and> truthy (lo_ownerId owner) then rl_ownerId raw = lo_ownerId owner
     else if truthy (rl_anonymousSessionId raw) \<and> truthy (lo_anonymousSessionId owner)
       then rl_anonymousSessionId raw = lo_anonymousSessionId owner
     else False)"

definition scope_char :: "char \<Rightarrow> bool" where
  "scope_char c \<longleftrightarrow> (let n = of_char c :: nat in
    97 \<le> n \<and> n \<le> 122 \<or> 65 \<le> n \<and> n \<le> 90 \<or> 48 \<le> n \<and> n \<le> 57 \<or> n \<in> {58, 95, 45})"

definition validateRequest :: "lock_config \<Rightarrow> acquire_request \<Rightarrow> lock_error option" where
  "validateRequest cfg r =
    (if ar_inventoryKey r = [] \<or> \<not> list_all scope_char (ar_inventoryKey r)
       then Some (LockValidation ''Invalid inventory scope.'')
     else if ar_idempotencyKey r = [] then Some (LockValidation ''idempotencyKey is required.'')
     else case ar_inventoryType r of
       SEAT \<Rightarrow>
         (let n = length (nvl (ar_seatIds r) []) in
          if n < 1 then Some (LockValidation ''At least one seat is required.'')
          else if lc_maxSeats cfg < n then Some (LockValidation (''At most '' @ decimal (lc_maxSeats cfg) @ '' seats per hold.''))
          else None)
     | QUANTITY \<Rightarrow>
         (let q = nvl (ar_quantity r) 0 in
          if q < 1 then Some (LockValidation ''Quantity must be at least 1.'')
          else if lc_maxQuantity cfg < q then Some (LockValidation (''At most '' @ show_int (lc_maxQuantity cfg) @ '' units per hold.''))
          else if nvl (ar_capacity r) 0 < 0 then Some (LockValidation ''Invalid capacity snapshot.'')
          else None))"

text \<open>The hash (SHA-256, the first 24 hex digits) is a parameter.\<close>

definition fingerprint :: "(string \<Rightarrow> string) \<Rightarrow> acquire_request \<Rightarrow> string" where
  "fingerprint sha r =
    sha (join ''|'' [
      (case ar_inventoryType r of SEAT \<Rightarrow> ''SEAT'' | QUANTITY \<Rightarrow> ''QUANTITY''),
      ar_inventoryKey r,
      join '','' (sort_cmp code_cmp (nvl (ar_seatIds r) [])),
      (case ar_quantity r of None \<Rightarrow> [] | Some q \<Rightarrow> show_int q),
      nvl (lo_ownerId (ar_owner r)) [],
      nvl (lo_anonymousSessionId (ar_owner r)) [],
      nvl (ar_bookingId r) []])"

section \<open>Operations\<close>

definition params_of :: "(string \<Rightarrow> string) \<Rightarrow> string \<Rightarrow> acquire_request \<Rightarrow> acquire_params" where
  "params_of sha lockId r =
    \<lparr>aq_lockId = lockId, aq_holdId = ar_holdId r, aq_inventoryKey = ar_inventoryKey r, aq_seatIds = nvl (ar_seatIds r) [],
     aq_quantity = nvl (ar_quantity r) 0, aq_capacity = nvl (ar_capacity r) 0, aq_ownerId = lo_ownerId (ar_owner r),
     aq_anonymousSessionId = lo_anonymousSessionId (ar_owner r), aq_fingerprint = fingerprint sha r,
     aq_idempotencyKey = ar_idempotencyKey r, aq_bookingId = ar_bookingId r, aq_providerCode = ar_providerCode r,
     aq_correlationId = ar_correlationId r\<rparr>"

definition acquire_script ::
  "lock_config \<Rightarrow> world \<Rightarrow> acquire_params \<Rightarrow> inventory_type \<Rightarrow> redis \<Rightarrow> script_result \<times> redis" where
  "acquire_script cfg w p ty st =
    (case ty of
       SEAT \<Rightarrow> acquireSeat (w_rt w) (w_now w) (fence_ttl cfg) p (lc_ttlSeconds cfg) st
     | QUANTITY \<Rightarrow> acquireQuantity (w_rt w) (w_now w) (fence_ttl cfg) p (lc_ttlSeconds cfg) st)"

definition owner_limit ::
  "lock_config \<Rightarrow> world \<Rightarrow> lock_owner \<Rightarrow> redis \<Rightarrow> lock_error option \<times> redis" where
  "owner_limit cfg w owner st =
    (case owner_ref owner of
       Some ref \<Rightarrow>
         if lo_internal owner then (None, st)
         else (case guarded w (ownerActiveCount (w_rt w) (w_now w) ref) st of
                 (Inl e, st1) \<Rightarrow> (Some e, st1)
               | (Inr active, st1) \<Rightarrow>
                   (if lc_maxActivePerOwner cfg \<le> active
                    then Some (LockValidation ''Too many active holds for this session.'') else None, st1))
     | None \<Rightarrow> (None, st))"

definition acquire ::
  "lock_config \<Rightarrow> (string \<Rightarrow> string) \<Rightarrow> (nat \<Rightarrow> world) \<Rightarrow> string \<Rightarrow> acquire_request \<Rightarrow> redis \<Rightarrow>
    (lock_error + raw_lock \<times> bool) \<times> redis" where
  "acquire cfg sha ws lockId r st =
    (case validateRequest cfg r of
       Some e \<Rightarrow> (Inl e, st)
     | None \<Rightarrow>
         (case owner_limit cfg (ws 0) (ar_owner r) st of
            (Some e, st1) \<Rightarrow> (Inl e, st1)
          | (None, st1) \<Rightarrow>
              (case guarded (ws 1) (acquire_script cfg (ws 1) (params_of sha lockId r) (ar_inventoryType r)) st1 of
                 (Inl e, st2) \<Rightarrow> (Inl e, st2)
               | (Inr result, st2) \<Rightarrow>
                   (case result of
                      Acquired lock \<Rightarrow>
                        (Inr (lock, False),
                         case owner_ref (ar_owner r) of
                           None \<Rightarrow> st2
                         | Some ref \<Rightarrow> snd (guarded (ws 2) (\<lambda>s. ((), ownerTrack (w_rt (ws 2)) (fence_ttl cfg) ref
                                          (rl_lockId lock) (rl_expiresAtMs lock) s)) st2))
                    | Replay lock \<Rightarrow> (Inr (lock, True), st2)
                    | Conflict _ \<Rightarrow> (Inl LockConflict, st2)
                    | Capacity _ \<Rightarrow> (Inl LockCapacityExceeded, st2)
                    | IdempotencyConflict \<Rightarrow> (Inl LockIdempotencyConflict, st2)
                    | _ \<Rightarrow> (Inl (LockValidation ''Unexpected lock acquisition result.''), st2)))))"

definition status_word :: "lock_status \<Rightarrow> string" where
  "status_word s = (case s of ACTIVE \<Rightarrow> ''active'' | RELEASED \<Rightarrow> ''released'' | EXPIRED \<Rightarrow> ''expired'' | CONFIRMED \<Rightarrow> ''confirmed'')"

definition granted_ttl :: "lock_config \<Rightarrow> time_ms \<Rightarrow> int" where
  "granted_ttl cfg elapsed =
    max 1 (min (lc_ttlSeconds cfg) ((lc_maxLifetimeSeconds cfg * 1000 - elapsed) div 1000))"

definition renew_check :: "lock_config \<Rightarrow> time_ms \<Rightarrow> raw_lock \<Rightarrow> int \<Rightarrow> lock_owner \<Rightarrow> lock_error option" where
  "renew_check cfg now raw token owner =
    (if rl_fencingToken raw \<noteq> token then Some LockTokenStale
     else if \<not> ownerMatches raw owner then Some LockOwnershipMismatch
     else if rl_status raw \<noteq> ACTIVE then Some (LockRenewalRejected (status_word (rl_status raw)))
     else if lc_maxLifetimeSeconds cfg * 1000 \<le> now - rl_acquiredAtMs raw
       then Some (LockRenewalRejected ''max_lifetime'')
     else if lc_renewalWindowSeconds cfg * 1000 < rl_expiresAtMs raw - now
       then Some (LockRenewalRejected ''renewal_window'')
     else None)"

definition renew ::
  "lock_config \<Rightarrow> (nat \<Rightarrow> world) \<Rightarrow> string \<Rightarrow> int \<Rightarrow> lock_owner \<Rightarrow> redis \<Rightarrow> (lock_error + raw_lock) \<times> redis" where
  "renew cfg ws lockId token owner st =
    (case guarded (ws 0) (\<lambda>s. (getRaw (w_rt (ws 0)) s lockId, s)) st of
       (Inl e, st1) \<Rightarrow> (Inl e, st1)
     | (Inr None, st1) \<Rightarrow> (Inl LockExpired, st1)
     | (Inr (Some raw), st1) \<Rightarrow>
         (case renew_check cfg (w_now (ws 0)) raw token owner of
            Some e \<Rightarrow> (Inl e, st1)
          | None \<Rightarrow>
              let ttl = granted_ttl cfg (w_now (ws 0) - rl_acquiredAtMs raw) in
              (case guarded (ws 1) (store_renew (w_rt (ws 1)) (w_now (ws 1)) raw ttl) st1 of
                 (Inl e, st2) \<Rightarrow> (Inl e, st2)
               | (Inr (Renewed lock), st2) \<Rightarrow>
                   (Inr lock,
                    case owner_ref owner of
                      None \<Rightarrow> st2
                    | Some ref \<Rightarrow> snd (guarded (ws 2) (\<lambda>s. ((), ownerTrack (w_rt (ws 2)) (fence_ttl cfg) ref
                                     (rl_lockId lock) (rl_expiresAtMs lock) s)) st2))
               | (Inr (TokenStale _), st2) \<Rightarrow> (Inl LockTokenStale, st2)
               | (Inr (NotActive s), st2) \<Rightarrow> (Inl (LockRenewalRejected ''not_active''), st2)
               | (Inr _, st2) \<Rightarrow> (Inl (LockRenewalRejected ''not_found''), st2))))"

definition release_lock ::
  "(nat \<Rightarrow> world) \<Rightarrow> string \<Rightarrow> lock_owner \<Rightarrow> int option \<Rightarrow> redis \<Rightarrow> (lock_error + unit) \<times> redis" where
  "release_lock ws lockId owner token st =
    (case guarded (ws 0) (\<lambda>s. (getRaw (w_rt (ws 0)) s lockId, s)) st of
       (Inl e, st1) \<Rightarrow> (Inl e, st1)
     | (Inr None, st1) \<Rightarrow> (Inr (), st1)
     | (Inr (Some raw), st1) \<Rightarrow>
         if \<not> lo_internal owner \<and> \<not> ownerMatches raw owner then (Inl LockOwnershipMismatch, st1)
         else if \<not> lo_internal owner \<and> token \<noteq> None \<and> token \<noteq> Some (rl_fencingToken raw) then (Inl LockTokenStale, st1)
         else
           (case guarded (ws 1) (\<lambda>s. ((), store_release (w_rt (ws 1)) raw RELEASED 60 s)) st1 of
              (Inl e, st2) \<Rightarrow> (Inl e, st2)
            | (Inr _, st2) \<Rightarrow>
                (Inr (),
                 case (case owner_ref owner of Some ref \<Rightarrow> Some ref | None \<Rightarrow> ownerRefOf raw) of
                   None \<Rightarrow> st2
                 | Some ref \<Rightarrow> snd (guarded (ws 2) (\<lambda>s. ((), ownerUntrack (w_rt (ws 2)) ref (rl_lockId raw) s)) st2))))"

definition validate_raw :: "time_ms \<Rightarrow> raw_lock option \<Rightarrow> int \<Rightarrow> lock_owner option \<Rightarrow> lock_validation" where
  "validate_raw now raw token owner =
    (case raw of
       None \<Rightarrow> \<lparr>lv_valid = False, lv_reason = Some ''expired''\<rparr>
     | Some l \<Rightarrow>
         if rl_status l \<noteq> ACTIVE then \<lparr>lv_valid = False, lv_reason = Some (status_word (rl_status l))\<rparr>
         else if rl_expiresAtMs l \<le> now then \<lparr>lv_valid = False, lv_reason = Some ''expired''\<rparr>
         else if rl_fencingToken l \<noteq> token then \<lparr>lv_valid = False, lv_reason = Some ''token_stale''\<rparr>
         else if (case owner of None \<Rightarrow> False | Some ow \<Rightarrow> \<not> ownerMatches l ow)
           then \<lparr>lv_valid = False, lv_reason = Some ''owner_mismatch''\<rparr>
         else \<lparr>lv_valid = True, lv_reason = None\<rparr>)"

definition validate ::
  "world \<Rightarrow> string \<Rightarrow> int \<Rightarrow> lock_owner option \<Rightarrow> redis \<Rightarrow> (lock_error + lock_validation) \<times> redis" where
  "validate w lockId token owner st =
    (case guarded w (\<lambda>s. (getRaw (w_rt w) s lockId, s)) st of
       (Inl e, st1) \<Rightarrow> (Inl e, st1)
     | (Inr raw, st1) \<Rightarrow> (Inr (validate_raw (w_now w) raw token owner), st1))"

definition markInternal :: "(nat \<Rightarrow> world) \<Rightarrow> nat \<Rightarrow> raw_lock \<Rightarrow> lock_status \<Rightarrow> redis \<Rightarrow> (lock_error + unit) \<times> redis" where
  "markInternal ws i raw final st =
    (case guarded (ws i) (\<lambda>s. ((), store_release (w_rt (ws i)) raw final 60 s)) st of
       (Inl e, st1) \<Rightarrow> (Inl e, st1)
     | (Inr _, st1) \<Rightarrow>
         (Inr (), case ownerRefOf raw of None \<Rightarrow> st1
            | Some ref \<Rightarrow> snd (guarded (ws (i + 1)) (\<lambda>s. ((), ownerUntrack (w_rt (ws (i + 1))) ref (rl_lockId raw) s)) st1)))"

section \<open>Confirmation\<close>

text \<open>
  \<^verbatim>\<open>work\<close> is the caller's database transaction: \<open>None\<close> is a rollback.  The result says whether it was
  run, for the ordering property.
\<close>

definition confirm ::
  "(nat \<Rightarrow> world) \<Rightarrow> string \<Rightarrow> int \<Rightarrow> lock_owner \<Rightarrow> 'w option \<Rightarrow> redis \<Rightarrow>
    (lock_error + 'w confirm_result) \<times> bool \<times> redis" where
  "confirm ws lockId token owner work st =
    (case guarded (ws 0) (\<lambda>s. (getRaw (w_rt (ws 0)) s lockId, s)) st of
       (Inl e, st1) \<Rightarrow> (Inl e, False, st1)
     | (Inr None, st1) \<Rightarrow> (Inl (LockConfirmationFailed ''lock_expired''), False, st1)
     | (Inr (Some raw), st1) \<Rightarrow>
         (case validate (ws 1) lockId token (Some owner) st1 of
            (Inl e, st2) \<Rightarrow> (Inl e, False, st2)
          | (Inr v, st2) \<Rightarrow>
              if \<not> lv_valid v then (Inl (LockConfirmationFailed (nvl (lv_reason v) ''undefined'')), False, st2)
              else
                (case work of
                   None \<Rightarrow> (Inl (LockConfirmationFailed ''db_transaction_failed''), True, st2)
                 | Some res \<Rightarrow>
                     let (marked, st3) = markInternal ws 2 raw CONFIRMED st2 in
                     (case guarded (ws 4) (\<lambda>s. (getRaw (w_rt (ws 4)) s lockId, s)) st3 of
                        (Inl e, st4) \<Rightarrow> (Inl e, True, st4)
                      | (Inr lock, st4) \<Rightarrow>
                          (Inr \<lparr>cf_work = res, cf_lock = lock, cf_reconciliationRequired = isl marked\<rparr>, True, st4)))))"

section \<open>Sample values\<close>

definition ex_cfg :: lock_config where
  "ex_cfg = \<lparr>lc_ttlSeconds = 300, lc_maxLifetimeSeconds = 900, lc_renewalWindowSeconds = 120, lc_maxActivePerOwner = 20,
     lc_maxSeats = 10, lc_maxQuantity = 20\<rparr>"

definition ex_user :: "string \<Rightarrow> lock_owner" where
  "ex_user u = \<lparr>lo_ownerId = Some u, lo_anonymousSessionId = None, lo_internal = False\<rparr>"

definition ex_request :: "string \<Rightarrow> acquire_request" where
  "ex_request u = \<lparr>ar_holdId = ''h1'', ar_inventoryType = SEAT, ar_inventoryKey = ''session:s1'', ar_seatIds = Some [''A1''],
     ar_quantity = None, ar_capacity = None, ar_owner = ex_user u, ar_idempotencyKey = ''idem-'' @ u, ar_bookingId = None,
     ar_providerCode = None, ar_correlationId = None\<rparr>"

definition ex_world :: "time_ms \<Rightarrow> reply \<Rightarrow> world" where
  "ex_world t r = \<lparr>w_rt = t, w_now = t, w_reply = r, w_others = id\<rparr>"

definition ex_acquired :: "raw_lock \<times> redis" where
  "ex_acquired = (case acquire ex_cfg id (\<lambda>_. ex_world 0 Answered) ''L1'' (ex_request ''ann'') empty_redis of
     (Inr (lock, _), st) \<Rightarrow> (lock, st) | (_, st) \<Rightarrow> (base_lock (ex_acquire [] [] 0) SEAT 0 0 0, st))"

section \<open>Retrying an acquisition\<close>

lemma acquire_script_remembers:
  assumes "acquire_script cfg w p ty st = (Acquired lock, st1)"
  shows "r_idem st1 = set_ex (w_rt w) (r_idem st) (aq_idempotencyKey p) lock (lc_ttlSeconds cfg)"
    and "rl_fingerprint lock = aq_fingerprint p"
  using assms
  by (auto simp: acquire_script_def acquireSeat_def SEAT_ACQUIRE_def acquireQuantity_def QUANTITY_ACQUIRE_def Let_def
      base_lock_def split: inventory_type.splits option.splits if_splits)

text \<open>
  An acquisition whose reply was lost can be retried: within the lock's lifetime the same request
  under the same idempotency key gets back the very lock it had already taken, and the retry changes
  nothing in Redis, so nothing is held twice.
\<close>

lemma retry_replays:
  assumes "acquire_script cfg w (params_of sha lockId r) ty st = (Acquired lock, st1)"
    and "w_rt w' \<le> w_rt w + lc_ttlSeconds cfg * 1000"
  shows "acquire_script cfg w' (params_of sha lockId' r) ty st1 = (Replay lock, st1)"
proof -
  have "rget (w_rt w') (r_idem st1) (ar_idempotencyKey r) = Some lock" "rl_fingerprint lock = fingerprint sha r"
    using acquire_script_remembers [OF assms(1)] assms(2) by (simp_all add: params_of_def rget_set_ex)
  then show ?thesis
    by (cases ty) (simp_all add: acquire_script_def acquireSeat_def SEAT_ACQUIRE_def acquireQuantity_def
        QUANTITY_ACQUIRE_def params_of_def)
qed

lemma retry_replays_witness:
  "\<exists>lock st1. acquire_script ex_cfg (ex_world 0 LostReply) (params_of id ''L1'' (ex_request ''ann'')) SEAT empty_redis = (Acquired lock, st1) \<and>
     acquire_script ex_cfg (ex_world 250000 Answered) (params_of id ''L2'' (ex_request ''ann'')) SEAT st1 = (Replay lock, st1)"
proof -
  have "\<exists>lock st1. acquire_script ex_cfg (ex_world 0 LostReply) (params_of id ''L1'' (ex_request ''ann'')) SEAT empty_redis = (Acquired lock, st1)"
    by (simp add: acquire_script_def acquireSeat_def SEAT_ACQUIRE_def params_of_def ex_request_def empty_redis_def rget_def Let_def)
  then obtain lock st1 where a: "acquire_script ex_cfg (ex_world 0 LostReply) (params_of id ''L1'' (ex_request ''ann'')) SEAT empty_redis = (Acquired lock, st1)"
    by blast
  show ?thesis using a retry_replays [OF a, of "ex_world 250000 Answered" "''L2''"]
    by (auto simp: ex_world_def ex_cfg_def)
qed

text \<open>
  A released lock is replayed as if it were held: releasing frees the seat but leaves the
  idempotency record, so the same request made again is answered with the old lock, still marked
  active, while the seat is free and goes to the next buyer.
\<close>

lemma released_lock_replayed_active:
  "let w = (\<lambda>t _. ex_world t Answered);
       st1 = snd (acquire ex_cfg id (w 0) ''L1'' (ex_request ''ann'') empty_redis);
       st2 = snd (release_lock (w 1000) ''L1'' (ex_user ''ann'') None st1);
       (again, st3) = acquire ex_cfg id (w 2000) ''L2'' (ex_request ''ann'') st2;
       (other, st4) = acquire ex_cfg id (w 3000) ''L3'' (ex_request ''bob'') st3
   in map_sum (\<lambda>_. ()) (\<lambda>(l, replayed). (rl_lockId l, rl_status l, replayed)) again = Inr (''L1'', ACTIVE, True) \<and>
      rget 2000 (r_seat st3) ''session:s1:A1'' = None \<and>
      map_sum (\<lambda>_. ()) (\<lambda>(l, replayed). (rl_lockId l, rl_status l, replayed)) other = Inr (''L3'', ACTIVE, False)"
  by code_simp

section \<open>Renewal, validation and confirmation\<close>

lemma renew_check_None:
  assumes "renew_check cfg now raw token owner = None"
  shows "rl_fencingToken raw = token" "ownerMatches raw owner" "rl_status raw = ACTIVE"
    "now - rl_acquiredAtMs raw < lc_maxLifetimeSeconds cfg * 1000"
    "rl_expiresAtMs raw - now \<le> lc_renewalWindowSeconds cfg * 1000"
  using assms by (auto simp: renew_check_def split: if_splits)

lemma renew_guard_Inl: "renew_guard rt st L tok \<noteq> Inl (Renewed lock)"
  by (auto simp: renew_guard_def split: option.splits)

lemma store_renew_Renewed:
  assumes "store_renew rt now raw ttl st = (Renewed lock, st')"
  shows "rl_expiresAtMs lock = now + ttl * 1000"
    and "\<exists>l. getRaw rt st (rl_lockId raw) = Some l \<and> rl_acquiredAtMs lock = rl_acquiredAtMs l"
  using assms
  by (auto simp: store_renew_def SEAT_RENEW_def QUANTITY_RENEW_def Let_def getRaw_def renew_guard_Inl dest!: renew_guard_Inr
      split: if_splits sum.splits)

lemma granted_ttl_bound:
  assumes "elapsed < lc_maxLifetimeSeconds cfg * 1000"
  shows "granted_ttl cfg elapsed * 1000 < lc_maxLifetimeSeconds cfg * 1000 - elapsed + 1000"
proof -
  let ?r = "lc_maxLifetimeSeconds cfg * 1000 - elapsed"
  have "?r div 1000 * 1000 \<le> ?r" by simp
  then show ?thesis using assms by (auto simp: granted_ttl_def max_def min_def)
qed

lemma guarded_Inr:
  "guarded w f st = (Inr a, st') \<longleftrightarrow> w_reply w = Answered \<and> f (w_others w st) = (a, st')"
  by (auto simp: guarded_def Let_def split: reply.splits prod.splits)

lemma renew_Inr:
  assumes "renew cfg ws lockId token owner st = (Inr lock, st')"
  obtains raw st1 st2 where "guarded (ws 0) (\<lambda>s. (getRaw (w_rt (ws 0)) s lockId, s)) st = (Inr (Some raw), st1)"
    "renew_check cfg (w_now (ws 0)) raw token owner = None"
    "guarded (ws 1) (store_renew (w_rt (ws 1)) (w_now (ws 1)) raw (granted_ttl cfg (w_now (ws 0) - rl_acquiredAtMs raw))) st1 =
      (Inr (Renewed lock), st2)"
  using assms
  by (auto simp: renew_def Let_def split: prod.splits sum.splits option.splits script_result.splits)

text \<open>
  A hold cannot be kept alive for ever: a renewal is granted only on an active lock, to its owner,
  with its current token, inside the renewal window and before the maximum lifetime, and the renewed
  lock ends less than one second after the maximum lifetime counted from its acquisition (plus the
  time the renewal itself took), provided the lock record is not replaced in between.
\<close>

lemma renew_bounded:
  assumes "renew cfg ws lockId token owner st = (Inr lock, st')"
    and "getRaw (w_rt (ws 0)) (w_others (ws 0) st) lockId = Some raw" "rl_lockId raw = lockId"
    and "\<forall>l. getRaw (w_rt (ws 1)) (w_others (ws 1) (w_others (ws 0) st)) lockId = Some l \<longrightarrow> rl_acquiredAtMs l = rl_acquiredAtMs raw"
  shows "ownerMatches raw owner \<and> rl_fencingToken raw = token \<and> rl_status raw = ACTIVE \<and>
    rl_acquiredAtMs lock = rl_acquiredAtMs raw \<and>
    rl_expiresAtMs lock < rl_acquiredAtMs raw + lc_maxLifetimeSeconds cfg * 1000 + 1000 + (w_now (ws 1) - w_now (ws 0))"
proof -
  from assms(1) obtain raw' st1 st2 where
      g0: "guarded (ws 0) (\<lambda>s. (getRaw (w_rt (ws 0)) s lockId, s)) st = (Inr (Some raw'), st1)"
    and c: "renew_check cfg (w_now (ws 0)) raw' token owner = None"
    and g1: "guarded (ws 1) (store_renew (w_rt (ws 1)) (w_now (ws 1)) raw' (granted_ttl cfg (w_now (ws 0) - rl_acquiredAtMs raw'))) st1
      = (Inr (Renewed lock), st2)"
    by (rule renew_Inr)
  have raw: "raw' = raw" and st1: "st1 = w_others (ws 0) st" using g0 assms(2) by (auto simp: guarded_Inr)
  note c' = renew_check_None [OF c, unfolded raw]
  have "store_renew (w_rt (ws 1)) (w_now (ws 1)) raw (granted_ttl cfg (w_now (ws 0) - rl_acquiredAtMs raw)) (w_others (ws 1) st1)
      = (Renewed lock, st2)"
    using g1 by (simp add: guarded_Inr raw)
  note r = store_renew_Renewed [OF this]
  have "rl_acquiredAtMs lock = rl_acquiredAtMs raw" using r(2) assms(3,4) by (auto simp: st1)
  then show ?thesis using c' r(1) granted_ttl_bound [OF c'(4)] by simp
qed

lemma renew_bounded_witness:
  "\<exists>lock st'. renew ex_cfg (\<lambda>_. ex_world 200000 Answered) ''L1'' 1 (ex_user ''ann'') (snd ex_acquired) = (Inr lock, st') \<and>
     rl_expiresAtMs lock < 901000"
proof -
  let ?ws = "\<lambda>_. ex_world 200000 Answered"
  have "map_sum (\<lambda>_. ()) (\<lambda>_. ()) (fst (renew ex_cfg ?ws ''L1'' 1 (ex_user ''ann'') (snd ex_acquired))) = Inr ()" by code_simp
  then obtain lock st' where r: "renew ex_cfg ?ws ''L1'' 1 (ex_user ''ann'') (snd ex_acquired) = (Inr lock, st')"
    by (cases "renew ex_cfg ?ws ''L1'' 1 (ex_user ''ann'') (snd ex_acquired)"; cases "fst (renew ex_cfg ?ws ''L1'' 1 (ex_user ''ann'') (snd ex_acquired))") auto
  have "map_option (\<lambda>l. (rl_lockId l, rl_acquiredAtMs l)) (getRaw 200000 (snd ex_acquired) ''L1'') = Some (''L1'', 0)" by code_simp
  then obtain raw where raw: "getRaw 200000 (snd ex_acquired) ''L1'' = Some raw" "rl_lockId raw = ''L1''" "rl_acquiredAtMs raw = 0" by auto
  have "rl_expiresAtMs lock < rl_acquiredAtMs raw + lc_maxLifetimeSeconds ex_cfg * 1000 + 1000 + (w_now (?ws 1) - w_now (?ws 0))"
    using renew_bounded [OF r _ raw(2)] raw by (simp add: ex_world_def)
  with raw r show ?thesis by (simp add: ex_world_def ex_cfg_def)
qed

text \<open>
  Confirmation runs the database transaction only under a lock that was, when last read, active,
  unexpired, held by the caller and carrying the caller's token; a rolled back transaction leaves
  Redis untouched, so the hold stands for a retry; and success is reported only after a commit.
\<close>

lemma confirm_order:
  assumes "confirm ws lockId token owner work st = (res, wrun, st')"
  shows "(wrun \<longrightarrow> (\<exists>l. getRaw (w_rt (ws 1)) (w_others (ws 1) (w_others (ws 0) st)) lockId = Some l \<and>
             rl_status l = ACTIVE \<and> w_now (ws 1) < rl_expiresAtMs l \<and> rl_fencingToken l = token \<and> ownerMatches l owner)) \<and>
    (wrun \<and> work = None \<longrightarrow> st' = w_others (ws 1) (w_others (ws 0) st) \<and> isl res) \<and>
    (\<forall>r. res = Inr r \<longrightarrow> wrun \<and> work = Some (cf_work r))"
proof (cases "guarded (ws 0) (\<lambda>s. (getRaw (w_rt (ws 0)) s lockId, s)) st")
  case (Pair g st1)
  show ?thesis
  proof (cases "\<exists>raw. g = Inr (Some raw)")
    case False
    then show ?thesis using assms Pair by (auto simp: confirm_def split: sum.splits option.splits)
  next
    case True
    then obtain raw where g: "g = Inr (Some raw)" by blast
    then have st1: "st1 = w_others (ws 0) st" using Pair by (auto simp: guarded_Inr)
    show ?thesis
    proof (cases "validate (ws 1) lockId token (Some owner) st1")
      case v: (Pair v st2)
      show ?thesis
      proof (cases "\<exists>x. v = Inr x \<and> lv_valid x")
        case False
        then show ?thesis using assms Pair g v by (auto simp: confirm_def split: sum.splits if_splits)
      next
        case True
        then obtain x where x: "v = Inr x" "lv_valid x" by blast
        have "\<exists>l. getRaw (w_rt (ws 1)) (w_others (ws 1) st1) lockId = Some l \<and> rl_status l = ACTIVE \<and>
             w_now (ws 1) < rl_expiresAtMs l \<and> rl_fencingToken l = token \<and> ownerMatches l owner"
          and "st2 = w_others (ws 1) st1"
          using v x by (auto simp: validate_def validate_raw_def guarded_Inr split: prod.splits sum.splits option.splits if_splits)
        then show ?thesis using assms Pair g v x st1
          by (auto simp: confirm_def split: option.splits prod.splits sum.splits)
      qed
    qed
  qed
qed

lemma confirm_order_witness:
  "case confirm (\<lambda>_. ex_world 1000 Answered) ''L1'' 1 (ex_user ''ann'') (Some (7::nat)) (snd ex_acquired) of (res, wrun, st') \<Rightarrow>
     wrun \<and> (\<exists>l. getRaw 1000 (snd ex_acquired) ''L1'' = Some l \<and> rl_status l = ACTIVE)"
proof -
  let ?c = "confirm (\<lambda>_. ex_world 1000 Answered) ''L1'' 1 (ex_user ''ann'') (Some (7::nat)) (snd ex_acquired)"
  obtain res wrun st' where c: "?c = (res, wrun, st')" by (cases ?c)
  have "fst (snd ?c)" by code_simp
  with c have wrun: wrun by simp
  show ?thesis using confirm_order [OF c] c wrun by (auto simp: ex_world_def)
qed

text \<open>
  During a Redis outage confirmation fails after the database has committed: the cleanup failure
  is caught, but the read of the lock that follows it is not, so the caller gets an error and never
  sees the reconciliation flag.
\<close>

lemma confirm_fails_after_commit:
  "let ws = (\<lambda>i. ex_world 1000 (if i < 2 then Answered else Down));
       (res, wrun, _) = confirm ws ''L1'' 1 (ex_user ''ann'') (Some (7::nat)) (snd ex_acquired)
   in wrun \<and> map_sum id (\<lambda>_. ()) res = Inl LockRedisUnavailable"
  by code_simp

end
