(* ===== verification/Inventory.thy ===== *)
theory Inventory
  imports FeePolicy
begin

text \<open>
  Stock: the general admission counters (\<^verbatim>\<open>general-admission.strategy.ts\<close>), reserved seats and standing zones
  (\<^verbatim>\<open>seat-based.strategy.ts\<close>), add-ons (\<^verbatim>\<open>commerce/addon-inventory.service.ts\<close>), and the three
  transactions that move a booking's stock: the hold (\<^verbatim>\<open>bookings.service.ts\<close>), the confirmation
  (\<^verbatim>\<open>payments.service.ts\<close>) and the claim-first release of an unpaid booking
  (\<^verbatim>\<open>expire-pending-booking.ts\<close>).

  A table is a map from its key to its row, a conditional \<^verbatim>\<open>UPDATE\<close> an atomic function of the table, and
  a transaction that throws leaves the database as it found it.  Row versions and \<^verbatim>\<open>updatedAt\<close> are left
  out: nothing here reads them.
\<close>

section \<open>Data\<close>

datatype inventory_error = INVENTORY_UNAVAILABLE | VALIDATION_FAILED | FEE_POLICY_GONE

record stock =
  sk_total :: "int option"
  sk_sold :: int
  sk_held :: int

record inventory_line =
  il_ticketTypeId :: string
  il_quantity :: int
  il_seatIds :: "string list option"

record reserve_context =
  rc_eventSessionId :: string
  rc_bookingId :: string
  rc_holdExpiresAt :: time_ms
  rc_lines :: "inventory_line list"

record ticket_spec =
  ts_ticketTypeId :: string
  ts_seatId :: "string option"
  ts_seatLabel :: "string option"

record refund_context =
  rx_eventSessionId :: string
  rx_tickets :: "(string \<times> string option) list"

datatype seat_status = AVAILABLE | HELD | SOLD | BLOCKED

record show_seat =
  ss_eventSessionId :: string
  ss_seatId :: string
  ss_status :: seat_status
  ss_holdBookingId :: "string option"
  ss_holdExpiresAt :: "time_ms option"
  ss_seatCategoryId :: string
  ss_label :: string

record ticket_type =
  tt_id :: string
  tt_eventSessionId :: string
  tt_seatCategoryId :: "string option"
  tt_seatZoneId :: "string option"

datatype payment_status = REQUIRES_PAYMENT | SUCCEEDED | FAILED

record booking_item =
  bi_ticketTypeId :: "string option"
  bi_addOnId :: "string option"
  bi_quantity :: int

record booking_row =
  bk_eventSessionId :: string
  bk_holdExpiresAt :: time_ms
  bk_seatBased :: bool
  bk_items :: "booking_item list"
  bk_feePolicyId :: "string option"
  bk_status :: booking_status
  bk_payment :: "payment_status option"

record inventory_db =
  iv_stock :: "string \<rightharpoonup> stock"
  iv_addons :: "string \<rightharpoonup> stock"
  iv_seats :: "show_seat list"
  iv_zones :: "string \<times> string \<rightharpoonup> stock"
  iv_types :: "ticket_type list"
  iv_bookings :: "string \<rightharpoonup> booking_row"
  iv_policies :: policy_db
  iv_tickets :: "(string \<times> ticket_spec) list"

section \<open>Counters\<close>

text \<open>
  The four statements on a counter row.  A missing total is unlimited stock (add-ons only); \<open>None\<close> as
  a result is a statement that matched no row.
\<close>

definition hold_units :: "int \<Rightarrow> stock \<Rightarrow> stock option" where
  "hold_units q s =
    (if (case sk_total s of None \<Rightarrow> True | Some t \<Rightarrow> q \<le> t - sk_sold s - sk_held s)
     then Some (s\<lparr>sk_held := sk_held s + q\<rparr>) else None)"

definition sell_units :: "int \<Rightarrow> stock \<Rightarrow> stock" where
  "sell_units q s = s\<lparr>sk_held := max 0 (sk_held s - q), sk_sold := sk_sold s + q\<rparr>"

definition free_units :: "int \<Rightarrow> stock \<Rightarrow> stock" where
  "free_units q s = s\<lparr>sk_held := max 0 (sk_held s - q)\<rparr>"

definition return_units :: "int \<Rightarrow> stock \<Rightarrow> stock" where
  "return_units q s = s\<lparr>sk_sold := max 0 (sk_sold s - q)\<rparr>"

definition update_row :: "(stock \<Rightarrow> stock) \<Rightarrow> 'k \<Rightarrow> ('k \<rightharpoonup> stock) \<Rightarrow> ('k \<rightharpoonup> stock)" where
  "update_row f k m = (case m k of None \<Rightarrow> m | Some s \<Rightarrow> m(k \<mapsto> f s))"

definition hold_row :: "int \<Rightarrow> 'k \<Rightarrow> ('k \<rightharpoonup> stock) \<Rightarrow> inventory_error + ('k \<rightharpoonup> stock)" where
  "hold_row q k m =
    (case Option.bind (m k) (hold_units q) of None \<Rightarrow> Inl INVENTORY_UNAVAILABLE | Some s \<Rightarrow> Inr (m(k \<mapsto> s)))"

definition availableUnits :: "int \<Rightarrow> int \<Rightarrow> int \<Rightarrow> int" where
  "availableUnits total' sold held = max 0 (total' - sold - held)"

section \<open>General admission and add-ons\<close>

definition ga_reserve :: "reserve_context \<Rightarrow> (string \<rightharpoonup> stock) \<Rightarrow> inventory_error + (string \<rightharpoonup> stock)" where
  "ga_reserve ctx m = rfold (\<lambda>l. hold_row (il_quantity l) (il_ticketTypeId l)) (rc_lines ctx) m"

definition unit_specs :: "inventory_line \<Rightarrow> ticket_spec list" where
  "unit_specs l = replicate (nat (il_quantity l))
     \<lparr>ts_ticketTypeId = il_ticketTypeId l, ts_seatId = None, ts_seatLabel = None\<rparr>"

definition ga_confirm :: "reserve_context \<Rightarrow> (string \<rightharpoonup> stock) \<Rightarrow> ticket_spec list \<times> (string \<rightharpoonup> stock)" where
  "ga_confirm ctx m =
    (concat (map unit_specs (rc_lines ctx)),
     fold (\<lambda>l. update_row (sell_units (il_quantity l)) (il_ticketTypeId l)) (rc_lines ctx) m)"

definition ga_release :: "reserve_context \<Rightarrow> (string \<rightharpoonup> stock) \<Rightarrow> (string \<rightharpoonup> stock)" where
  "ga_release ctx m = fold (\<lambda>l. update_row (free_units (il_quantity l)) (il_ticketTypeId l)) (rc_lines ctx) m"

definition count_by_type :: "string list \<Rightarrow> (string \<times> int) list" where
  "count_by_type ids = map (\<lambda>t. (t, int (count_list ids t))) (unique ids)"

definition return_types :: "(string \<times> int) list \<Rightarrow> (string \<rightharpoonup> stock) \<Rightarrow> (string \<rightharpoonup> stock)" where
  "return_types counts m = fold (\<lambda>(t, n). update_row (return_units n) t) counts m"

definition ga_refund :: "refund_context \<Rightarrow> (string \<rightharpoonup> stock) \<Rightarrow> (string \<rightharpoonup> stock)" where
  "ga_refund ctx m = return_types (count_by_type (map fst (rx_tickets ctx))) m"

definition ga_availability :: "(string \<rightharpoonup> stock) \<Rightarrow> string list \<Rightarrow> (string \<times> int) list" where
  "ga_availability m ids = map (\<lambda>t. (t, case m t of None \<Rightarrow> 0
     | Some s \<Rightarrow> availableUnits (nvl (sk_total s) 0) (sk_sold s) (sk_held s))) (unique ids)"

definition addon_reserve :: "(string \<times> int) list \<Rightarrow> (string \<rightharpoonup> stock) \<Rightarrow> inventory_error + (string \<rightharpoonup> stock)" where
  "addon_reserve lines m = rfold (\<lambda>(a, q). hold_row q a) lines m"

definition addon_confirm :: "(string \<times> int) list \<Rightarrow> (string \<rightharpoonup> stock) \<Rightarrow> (string \<rightharpoonup> stock)" where
  "addon_confirm lines m = fold (\<lambda>(a, q). update_row (sell_units q) a) lines m"

definition addon_release :: "(string \<times> int) list \<Rightarrow> (string \<rightharpoonup> stock) \<Rightarrow> (string \<rightharpoonup> stock)" where
  "addon_release lines m = fold (\<lambda>(a, q). update_row (free_units q) a) lines m"

definition addon_refund :: "(string \<times> int) list \<Rightarrow> (string \<rightharpoonup> stock) \<Rightarrow> (string \<rightharpoonup> stock)" where
  "addon_refund lines m = fold (\<lambda>(a, q). update_row (return_units q) a) lines m"

section \<open>Seats and zones\<close>

definition no_seats :: "inventory_line \<Rightarrow> bool" where
  "no_seats l \<longleftrightarrow> nvl (il_seatIds l) [] = []"

definition zone_of :: "ticket_type list \<Rightarrow> string list \<Rightarrow> string \<Rightarrow> string option" where
  "zone_of types ids t =
    Option.bind (find (\<lambda>ty. tt_id ty = t \<and> t \<in> set ids) types) tt_seatZoneId"

definition hold_seat :: "reserve_context \<Rightarrow> string list \<Rightarrow> show_seat \<Rightarrow> show_seat" where
  "hold_seat ctx ids s =
    (if ss_eventSessionId s = rc_eventSessionId ctx \<and> ss_seatId s \<in> set ids \<and> ss_status s = AVAILABLE
     then s\<lparr>ss_status := HELD, ss_holdBookingId := Some (rc_bookingId ctx), ss_holdExpiresAt := Some (rc_holdExpiresAt ctx)\<rparr>
     else s)"

definition holdable :: "reserve_context \<Rightarrow> string list \<Rightarrow> show_seat \<Rightarrow> bool" where
  "holdable ctx ids s \<longleftrightarrow>
    ss_eventSessionId s = rc_eventSessionId ctx \<and> ss_seatId s \<in> set ids \<and> ss_status s = AVAILABLE"

definition seatIdsOf :: "reserve_context \<Rightarrow> string list" where
  "seatIdsOf ctx = concat (map (\<lambda>l. nvl (il_seatIds l) []) (rc_lines ctx))"

definition seat_reserve :: "reserve_context \<Rightarrow> inventory_db \<Rightarrow> inventory_error + inventory_db" where
  "seat_reserve ctx db =
    (let seatIds = seatIdsOf ctx;
         possibleZoneIds = map il_ticketTypeId (filter no_seats (rc_lines ctx));
         zone = zone_of (iv_types db) possibleZoneIds;
         seatLines = filter (\<lambda>l. \<not> truthy (zone (il_ticketTypeId l))) (rc_lines ctx);
         zoneLines = filter (\<lambda>l. truthy (zone (il_ticketTypeId l))) (rc_lines ctx)
     in if sum_list (map il_quantity (rc_lines ctx)) \<le> 0 then Inl VALIDATION_FAILED
        else if seatIds = [] \<and> possibleZoneIds = [] then Inl VALIDATION_FAILED
        else if seatIds = [] \<and> zoneLines = [] then Inl VALIDATION_FAILED
        else if seatIds \<noteq> [] \<and> length (filter (holdable ctx seatIds) (iv_seats db)) \<noteq> length seatIds
          then Inl INVENTORY_UNAVAILABLE
        else
          rbind (rfold (\<lambda>l. hold_row (il_quantity l) (rc_eventSessionId ctx, the (zone (il_ticketTypeId l)))) zoneLines (iv_zones db))
            (\<lambda>zones. Inr (db\<lparr>
               iv_seats := (if seatIds = [] then iv_seats db else map (hold_seat ctx seatIds) (iv_seats db)),
               iv_zones := zones,
               iv_stock := fold (\<lambda>l. update_row (\<lambda>s. s\<lparr>sk_held := sk_held s + il_quantity l\<rparr>) (il_ticketTypeId l))
                 (seatLines @ zoneLines) (iv_stock db)\<rparr>)))"

definition held_by :: "string \<Rightarrow> show_seat \<Rightarrow> bool" where
  "held_by b s \<longleftrightarrow> ss_holdBookingId s = Some b \<and> ss_status s = HELD"

text \<open>\<^verbatim>\<open>UPDATE "ShowZone" ... AND "held" >= quantity\<close>.\<close>

definition sell_zone :: "int \<Rightarrow> string \<times> string \<Rightarrow> (string \<times> string \<rightharpoonup> stock) \<Rightarrow> inventory_error + (string \<times> string \<rightharpoonup> stock)" where
  "sell_zone q k m =
    (case m k of
       Some s \<Rightarrow> if q \<le> sk_held s then Inr (m(k \<mapsto> s\<lparr>sk_held := sk_held s - q, sk_sold := sk_sold s + q\<rparr>))
                 else Inl INVENTORY_UNAVAILABLE
     | None \<Rightarrow> Inl INVENTORY_UNAVAILABLE)"

definition seat_confirm :: "reserve_context \<Rightarrow> inventory_db \<Rightarrow> inventory_error + ticket_spec list \<times> inventory_db" where
  "seat_confirm ctx db =
    (let b = rc_bookingId ctx;
         held = filter (held_by b) (iv_seats db);
         types = filter (\<lambda>t. tt_eventSessionId t = rc_eventSessionId ctx \<and> tt_seatCategoryId t \<noteq> None) (iv_types db);
         byCategory = map_of (rev (map (\<lambda>t. (the (tt_seatCategoryId t), tt_id t)) types));
         seatSpecs = concat (map (\<lambda>s. case byCategory (ss_seatCategoryId s) of
            Some t \<Rightarrow> if t = [] then [] else
              [\<lparr>ts_ticketTypeId = t, ts_seatId = Some (ss_seatId s), ts_seatLabel = Some (ss_label s)\<rparr>]
          | None \<Rightarrow> []) held);
         missing = filter (\<lambda>i. i \<notin> set (map tt_id types)) (map il_ticketTypeId (rc_lines ctx));
         zoneTypes = (if missing \<noteq> [] then filter (\<lambda>t. tt_id t \<in> set missing \<and> tt_seatZoneId t \<noteq> None) (iv_types db)
                      else filter (\<lambda>t. truthy (tt_seatZoneId t)) types);
         zone = (\<lambda>i. map_of (rev (map (\<lambda>t. (tt_id t, the (tt_seatZoneId t))) zoneTypes)) i);
         zoneLines = filter (\<lambda>l. truthy (zone (il_ticketTypeId l))) (rc_lines ctx);
         specs = seatSpecs @ concat (map unit_specs zoneLines);
         counts = map (\<lambda>t. (t, int (count_list (map ts_ticketTypeId seatSpecs) t) +
                    sum_list (map il_quantity (filter (\<lambda>l. il_ticketTypeId l = t) zoneLines))))
                  (unique (map ts_ticketTypeId seatSpecs @ map il_ticketTypeId zoneLines))
     in rbind (rfold (\<lambda>l. sell_zone (il_quantity l) (rc_eventSessionId ctx, the (zone (il_ticketTypeId l)))) zoneLines (iv_zones db))
          (\<lambda>zones. Inr (specs, db\<lparr>
             iv_seats := map (\<lambda>s. if held_by b s then s\<lparr>ss_status := SOLD\<rparr> else s) (iv_seats db),
             iv_zones := zones,
             iv_stock := fold (\<lambda>(t, n). update_row (sell_units n) t) counts (iv_stock db)\<rparr>)))"

definition clear_seat :: "show_seat \<Rightarrow> show_seat" where
  "clear_seat s = s\<lparr>ss_status := AVAILABLE, ss_holdBookingId := None, ss_holdExpiresAt := None\<rparr>"

definition zone_map :: "ticket_type list \<Rightarrow> string list \<Rightarrow> string \<Rightarrow> string option" where
  "zone_map types ids i =
    map_of (rev (map (\<lambda>t. (tt_id t, the (tt_seatZoneId t))) (filter (\<lambda>t. tt_id t \<in> set ids \<and> tt_seatZoneId t \<noteq> None) types))) i"

definition seat_release :: "reserve_context \<Rightarrow> inventory_db \<Rightarrow> inventory_db" where
  "seat_release ctx db =
    (let zone = zone_map (iv_types db) (map il_ticketTypeId (rc_lines ctx));
         zoneLines = filter (\<lambda>l. truthy (zone (il_ticketTypeId l))) (rc_lines ctx)
     in db\<lparr>iv_seats := map (\<lambda>s. if held_by (rc_bookingId ctx) s then clear_seat s else s) (iv_seats db),
           iv_zones := fold (\<lambda>l. update_row (free_units (il_quantity l)) (rc_eventSessionId ctx, the (zone (il_ticketTypeId l))))
             zoneLines (iv_zones db),
           iv_stock := fold (\<lambda>l. update_row (free_units (il_quantity l)) (il_ticketTypeId l)) (rc_lines ctx) (iv_stock db)\<rparr>)"

definition seat_refund :: "refund_context \<Rightarrow> inventory_db \<Rightarrow> inventory_db" where
  "seat_refund ctx db =
    (let seatIds = map the (filter truthy (map snd (rx_tickets ctx)));
         counts = count_by_type (map fst (rx_tickets ctx));
         zoneTypes = filter (\<lambda>t. tt_id t \<in> set (map fst counts) \<and> tt_seatZoneId t \<noteq> None) (iv_types db)
     in db\<lparr>iv_seats := map (\<lambda>s. if ss_eventSessionId s = rx_eventSessionId ctx \<and> ss_seatId s \<in> set seatIds \<and> ss_status s = SOLD
                                then clear_seat s else s) (iv_seats db),
           iv_zones := fold (\<lambda>t. update_row (return_units (nvl (map_of counts (tt_id t)) 0))
                               (rx_eventSessionId ctx, the (tt_seatZoneId t))) zoneTypes (iv_zones db),
           iv_stock := return_types counts (iv_stock db)\<rparr>)"

section \<open>The transactions of a booking\<close>

definition strategy_reserve :: "bool \<Rightarrow> reserve_context \<Rightarrow> inventory_db \<Rightarrow> inventory_error + inventory_db" where
  "strategy_reserve seatBased ctx db =
    (if seatBased then seat_reserve ctx db
     else rbind (ga_reserve ctx (iv_stock db)) (\<lambda>m. Inr (db\<lparr>iv_stock := m\<rparr>)))"

definition strategy_confirm :: "bool \<Rightarrow> reserve_context \<Rightarrow> inventory_db \<Rightarrow> inventory_error + ticket_spec list \<times> inventory_db" where
  "strategy_confirm seatBased ctx db =
    (if seatBased then seat_confirm ctx db
     else let (specs, m) = ga_confirm ctx (iv_stock db) in Inr (specs, db\<lparr>iv_stock := m\<rparr>))"

definition strategy_release :: "bool \<Rightarrow> reserve_context \<Rightarrow> inventory_db \<Rightarrow> inventory_db" where
  "strategy_release seatBased ctx db =
    (if seatBased then seat_release ctx db else db\<lparr>iv_stock := ga_release ctx (iv_stock db)\<rparr>)"

definition ticket_lines :: "booking_item list \<Rightarrow> inventory_line list" where
  "ticket_lines items =
    map (\<lambda>i. \<lparr>il_ticketTypeId = the (bi_ticketTypeId i), il_quantity = bi_quantity i, il_seatIds = None\<rparr>)
      (filter (\<lambda>i. truthy (bi_ticketTypeId i)) items)"

definition addon_lines :: "booking_item list \<Rightarrow> (string \<times> int) list" where
  "addon_lines items = map (\<lambda>i. (the (bi_addOnId i), bi_quantity i)) (filter (\<lambda>i. truthy (bi_addOnId i)) items)"

definition booking_ctx :: "string \<Rightarrow> booking_row \<Rightarrow> reserve_context" where
  "booking_ctx bid b = \<lparr>rc_eventSessionId = bk_eventSessionId b, rc_bookingId = bid, rc_holdExpiresAt = bk_holdExpiresAt b,
     rc_lines = ticket_lines (bk_items b)\<rparr>"

text \<open>
  The hold: the fee policy's order, the booking row, the ticket stock and the add-on stock, in one
  transaction.  \<open>lines\<close> are the ticket lines with the seats the buyer chose, which the booking's items do
  not carry.
\<close>

definition hold_booking ::
  "string \<Rightarrow> booking_row \<Rightarrow> inventory_line list \<Rightarrow> applied_fee_policy option \<Rightarrow> time_ms \<Rightarrow> inventory_db \<Rightarrow>
    inventory_error + inventory_db" where
  "hold_booking bid b lines policy now db =
    rbind (case policy of
             None \<Rightarrow> Inr db
           | Some a \<Rightarrow> (case reserveFeePolicyRedemption (iv_policies db) a now of
               None \<Rightarrow> Inl FEE_POLICY_GONE | Some pd \<Rightarrow> Inr (db\<lparr>iv_policies := pd\<rparr>))) (\<lambda>db1.
    rbind (Inr (db1\<lparr>iv_bookings := (iv_bookings db1)(bid \<mapsto> b\<lparr>bk_status := PENDING_PAYMENT, bk_feePolicyId := map_option ap_id policy\<rparr>)\<rparr>)) (\<lambda>db2.
    rbind (strategy_reserve (bk_seatBased b) ((booking_ctx bid b)\<lparr>rc_lines := lines\<rparr>) db2) (\<lambda>db3.
    rbind (addon_reserve (addon_lines (bk_items b)) (iv_addons db3)) (\<lambda>m. Inr (db3\<lparr>iv_addons := m\<rparr>)))))"

text \<open>The settlement of a paid booking: \<open>None\<close> is the delivery that did not win the claim.\<close>

definition confirm_booking :: "string \<Rightarrow> inventory_db \<Rightarrow> inventory_error + inventory_db option" where
  "confirm_booking bid db =
    (case iv_bookings db bid of
       None \<Rightarrow> Inr None
     | Some b \<Rightarrow>
         if bk_status b \<noteq> PENDING_PAYMENT then Inr None
         else
           let db1 = db\<lparr>iv_bookings := (iv_bookings db)(bid \<mapsto> b\<lparr>bk_status := BK_CONFIRMED,
                         bk_payment := map_option (\<lambda>_. SUCCEEDED) (bk_payment b)\<rparr>)\<rparr>
           in rbind (strategy_confirm (bk_seatBased b) (booking_ctx bid b) db1) (\<lambda>(specs, db2).
                if int (length specs) \<noteq> sum_list (map il_quantity (ticket_lines (bk_items b)))
                then Inl INVENTORY_UNAVAILABLE
                else Inr (Some (db2\<lparr>iv_tickets := iv_tickets db2 @ map (\<lambda>s. (bid, s)) specs,
                       iv_addons := addon_confirm (addon_lines (bk_items b)) (iv_addons db2)\<rparr>))))"

definition releasePendingBooking :: "string \<Rightarrow> booking_status \<Rightarrow> time_ms option \<Rightarrow> inventory_db \<Rightarrow> bool \<times> inventory_db" where
  "releasePendingBooking bid outcome lapsedBefore db =
    (case iv_bookings db bid of
       None \<Rightarrow> (False, db)
     | Some b \<Rightarrow>
         if bk_status b \<noteq> PENDING_PAYMENT \<or> (case lapsedBefore of None \<Rightarrow> False | Some t \<Rightarrow> \<not> bk_holdExpiresAt b < t)
         then (False, db)
         else
           let db1 = db\<lparr>iv_bookings := (iv_bookings db)(bid \<mapsto> b\<lparr>bk_status := outcome,
                         bk_payment := (if bk_payment b = Some REQUIRES_PAYMENT then Some FAILED else bk_payment b)\<rparr>)\<rparr>;
               db2 = (if ticket_lines (bk_items b) = [] then db1
                      else strategy_release (bk_seatBased b) (booking_ctx bid b) db1);
               db3 = db2\<lparr>iv_addons := addon_release (addon_lines (bk_items b)) (iv_addons db2)\<rparr>
           in (True, if truthy (bk_feePolicyId b)
                     then db3\<lparr>iv_policies := releaseFeePolicyRedemption (iv_policies db3) (the (bk_feePolicyId b))\<rparr>
                     else db3))"

definition expirePendingBooking :: "string \<Rightarrow> time_ms option \<Rightarrow> inventory_db \<Rightarrow> bool \<times> inventory_db" where
  "expirePendingBooking bid lapsedBefore db = releasePendingBooking bid BK_EXPIRED lapsedBefore db"

definition cancelPendingBooking :: "string \<Rightarrow> inventory_db \<Rightarrow> bool \<times> inventory_db" where
  "cancelPendingBooking bid db = releasePendingBooking bid BK_CANCELLED None db"

section \<open>Counter tables\<close>

definition demand_of :: "('k \<times> int) list \<Rightarrow> 'k \<Rightarrow> int" where
  "demand_of ps k = sum_list (map snd (filter (\<lambda>p. fst p = k) ps))"

definition line_pair :: "inventory_line \<Rightarrow> string \<times> int" where
  "line_pair l = (il_ticketTypeId l, il_quantity l)"

definition ticket_pairs :: "booking_row \<Rightarrow> (string \<times> int) list" where
  "ticket_pairs b = map line_pair (ticket_lines (bk_items b))"

definition addon_pairs :: "booking_row \<Rightarrow> (string \<times> int) list" where
  "addon_pairs b = addon_lines (bk_items b)"

definition items_ok :: "booking_row \<Rightarrow> bool" where
  "items_ok b \<longleftrightarrow> (\<forall>i \<in> set (bk_items b). 0 \<le> bi_quantity i)"

definition pending_ids :: "(string \<rightharpoonup> booking_row) \<Rightarrow> string set" where
  "pending_ids books = {i. \<exists>b. books i = Some b \<and> bk_status b = PENDING_PAYMENT}"

lemma demand_of_simps [simp]:
  "demand_of [] k = 0" "demand_of ((j, q) # ps) k = (if j = k then q else 0) + demand_of ps k"
  by (simp_all add: demand_of_def)

lemma demand_of_nonneg: "\<forall>p \<in> set ps. 0 \<le> snd p \<Longrightarrow> 0 \<le> demand_of ps k"
  by (induction ps) (auto split: if_splits)

lemma rfold_map: "rfold f (map g xs) st = rfold (\<lambda>x. f (g x)) xs st"
  by (induction xs arbitrary: st) (auto simp: rbind_Inr_iff intro: arg_cong [where f = "rbind _"])

lemma hold_row_Inr:
  assumes "hold_row q j m = Inr m'"
  shows "\<exists>s. m j = Some s \<and> m' = m(j \<mapsto> s\<lparr>sk_held := sk_held s + q\<rparr>) \<and>
    (\<forall>t. sk_total s = Some t \<longrightarrow> sk_sold s + sk_held s + q \<le> t)"
  using assms by (auto simp: hold_row_def hold_units_def split: option.splits if_splits bind_splits)

lemma reserve_pairs:
  assumes "rfold (\<lambda>(k, q). hold_row q k) ps m = Inr m'" "\<forall>p \<in> set ps. 0 \<le> snd p"
  shows "m k = None \<longrightarrow> m' k = None"
    and "m k = Some s \<longrightarrow> m' k = Some (s\<lparr>sk_held := sk_held s + demand_of ps k\<rparr>) \<and>
      (\<forall>t. sk_total s = Some t \<longrightarrow> sk_sold s + sk_held s \<le> t \<longrightarrow> sk_sold s + sk_held s + demand_of ps k \<le> t)"
  using assms
proof (induction ps arbitrary: m s)
  case (Cons p ps)
  obtain j q where p: "p = (j, q)" by (cases p)
  { case 1
    then obtain m1 where m1: "hold_row q j m = Inr m1" "rfold (\<lambda>(k, q). hold_row q k) ps m1 = Inr m'"
      by (auto simp: p rbind_Inr_iff)
    have "m k = None \<Longrightarrow> m1 k = None" using hold_row_Inr [OF m1(1)] by auto
    with m1 Cons.IH(1) [of m1] 1 show ?case by simp
  next
    case 2
    then obtain m1 where m1: "hold_row q j m = Inr m1" "rfold (\<lambda>(k, q). hold_row q k) ps m1 = Inr m'"
      by (auto simp: p rbind_Inr_iff)
    from hold_row_Inr [OF m1(1)] obtain sj where sj: "m j = Some sj" "m1 = m(j \<mapsto> sj\<lparr>sk_held := sk_held sj + q\<rparr>)"
      "\<forall>t. sk_total sj = Some t \<longrightarrow> sk_sold sj + sk_held sj + q \<le> t" by blast
    show ?case
    proof (cases "j = k")
      case True
      have "m1 k = Some (sj\<lparr>sk_held := sk_held sj + q\<rparr>)" using True sj by simp
      then have "m' k = Some (sj\<lparr>sk_held := sk_held sj + q + demand_of ps k\<rparr>) \<and>
          (\<forall>t. sk_total sj = Some t \<longrightarrow> sk_sold sj + (sk_held sj + q) \<le> t \<longrightarrow> sk_sold sj + (sk_held sj + q) + demand_of ps k \<le> t)"
        using Cons.IH(2) [of m1 "sj\<lparr>sk_held := sk_held sj + q\<rparr>"] m1(2) 2 by simp
      then show ?thesis using sj True p by (auto simp: add.assoc)
    next
      case False
      then have "m1 k = m k" using sj by simp
      then show ?thesis using Cons.IH(2) [of m1 s] m1(2) 2 p False by simp
    qed }
qed simp_all

lemma update_row_apply: "update_row f j m k = (if k = j then map_option f (m k) else m k)"
  by (auto simp: update_row_def split: option.splits)

lemma fold_free:
  assumes "\<forall>p \<in> set ps. 0 \<le> snd p"
  shows "m k = Some s \<Longrightarrow> demand_of ps k \<le> sk_held s \<Longrightarrow>
    fold (\<lambda>(k, q). update_row (free_units q) k) ps m k = Some (s\<lparr>sk_held := sk_held s - demand_of ps k\<rparr>)"
  using assms
proof (induction ps arbitrary: m s)
  case (Cons p ps)
  obtain j q where p: "p = (j, q)" by (cases p)
  have nn: "0 \<le> demand_of ps k" "0 \<le> q" using Cons.prems p by (auto intro: demand_of_nonneg)
  show ?case
  proof (cases "j = k")
    case True
    have "update_row (free_units q) j m k = Some (s\<lparr>sk_held := sk_held s - q\<rparr>)"
      using Cons.prems(1,2) nn True p by (simp add: update_row_apply free_units_def)
    from Cons.IH [of "update_row (free_units q) j m", OF this] Cons.prems p True show ?thesis by (simp add: algebra_simps)
  next
    case False
    then have "update_row (free_units q) j m k = Some s" using Cons.prems by (simp add: update_row_apply)
    from Cons.IH [of "update_row (free_units q) j m", OF this] Cons.prems p False show ?thesis by simp
  qed
qed simp

lemma fold_sell:
  assumes "\<forall>p \<in> set ps. 0 \<le> snd p"
  shows "m k = Some s \<Longrightarrow> demand_of ps k \<le> sk_held s \<Longrightarrow>
    fold (\<lambda>(k, q). update_row (sell_units q) k) ps m k =
      Some (s\<lparr>sk_held := sk_held s - demand_of ps k, sk_sold := sk_sold s + demand_of ps k\<rparr>)"
  using assms
proof (induction ps arbitrary: m s)
  case (Cons p ps)
  obtain j q where p: "p = (j, q)" by (cases p)
  have nn: "0 \<le> demand_of ps k" "0 \<le> q" using Cons.prems p by (auto intro: demand_of_nonneg)
  show ?case
  proof (cases "j = k")
    case True
    have "update_row (sell_units q) j m k = Some (s\<lparr>sk_held := sk_held s - q, sk_sold := sk_sold s + q\<rparr>)"
      using Cons.prems(1,2) nn True p by (simp add: update_row_apply sell_units_def)
    from Cons.IH [of "update_row (sell_units q) j m", OF this] Cons.prems p True show ?thesis by (simp add: algebra_simps)
  next
    case False
    then have "update_row (sell_units q) j m k = Some s" using Cons.prems by (simp add: update_row_apply)
    from Cons.IH [of "update_row (sell_units q) j m", OF this] Cons.prems p False show ?thesis by simp
  qed
qed simp

lemma fold_update_None: "m k = None \<Longrightarrow> fold (\<lambda>(k, q). update_row (f q) k) ps m k = None"
proof (induction ps arbitrary: m)
  case (Cons p ps)
  have "(case p of (j, q) \<Rightarrow> update_row (f q) j) m k = None"
    using Cons.prems by (cases p) (auto simp: update_row_apply)
  with Cons.IH show ?case by simp
qed simp

lemma fold_return:
  assumes "\<forall>p \<in> set ps. 0 \<le> snd p"
  shows "m k = Some s \<Longrightarrow> 0 \<le> sk_sold s \<Longrightarrow>
    \<exists>v. 0 \<le> v \<and> v \<le> sk_sold s \<and> fold (\<lambda>(k, q). update_row (return_units q) k) ps m k = Some (s\<lparr>sk_sold := v\<rparr>)"
  using assms
proof (induction ps arbitrary: m s)
  case Nil
  then show ?case by (intro exI [of _ "sk_sold s"]) simp
next
  case (Cons p ps)
  obtain j q where p: "p = (j, q)" by (cases p)
  let ?m = "update_row (return_units q) j m"
  let ?v = "if k = j then max 0 (sk_sold s - q) else sk_sold s"
  have "?m k = Some (s\<lparr>sk_sold := ?v\<rparr>)"
    using Cons.prems(1) by (auto simp: update_row_apply return_units_def)
  moreover have "0 \<le> ?v" using Cons.prems(2) by simp
  ultimately have "\<exists>v. 0 \<le> v \<and> v \<le> ?v \<and> fold (\<lambda>(k, q). update_row (return_units q) k) ps ?m k = Some (s\<lparr>sk_sold := v\<rparr>)"
    using Cons.IH [of ?m "s\<lparr>sk_sold := ?v\<rparr>"] Cons.prems(3) by simp
  then obtain v where
      "0 \<le> v" "v \<le> ?v" "fold (\<lambda>(k, q). update_row (return_units q) k) ps ?m k = Some (s\<lparr>sk_sold := v\<rparr>)" by blast
  moreover have "?v \<le> sk_sold s" using Cons.prems(2,3) p by simp
  ultimately show ?case using p by (intro exI [of _ v]) simp
qed

section \<open>The stock interface\<close>

text \<open>
  What the booking transactions rely on from a counter table, whichever it is: a hold adds the
  booking's demand to what is held and keeps a limited row within its total; settling or freeing a
  booking whose demand is held moves exactly that demand.
\<close>

locale stock_ledger =
  fixes demand :: "booking_row \<Rightarrow> string \<Rightarrow> int"
    and reserve :: "booking_row \<Rightarrow> (string \<rightharpoonup> stock) \<Rightarrow> inventory_error + (string \<rightharpoonup> stock)"
    and settle :: "booking_row \<Rightarrow> (string \<rightharpoonup> stock) \<Rightarrow> (string \<rightharpoonup> stock)"
    and free :: "booking_row \<Rightarrow> (string \<rightharpoonup> stock) \<Rightarrow> (string \<rightharpoonup> stock)"
  assumes demand_nonneg: "items_ok b \<Longrightarrow> 0 \<le> demand b k"
    and demand_status: "bk_items b' = bk_items b \<Longrightarrow> demand b' k = demand b k"
    and reserve_None: "items_ok b \<Longrightarrow> reserve b m = Inr m' \<Longrightarrow> m k = None \<Longrightarrow> m' k = None"
    and reserve_Some: "items_ok b \<Longrightarrow> reserve b m = Inr m' \<Longrightarrow> m k = Some s \<Longrightarrow>
      m' k = Some (s\<lparr>sk_held := sk_held s + demand b k\<rparr>) \<and>
      (\<forall>t. sk_total s = Some t \<longrightarrow> sk_sold s + sk_held s \<le> t \<longrightarrow> sk_sold s + sk_held s + demand b k \<le> t)"
    and settle_None: "m k = None \<Longrightarrow> settle b m k = None"
    and settle_Some: "items_ok b \<Longrightarrow> m k = Some s \<Longrightarrow> demand b k \<le> sk_held s \<Longrightarrow>
      settle b m k = Some (s\<lparr>sk_held := sk_held s - demand b k, sk_sold := sk_sold s + demand b k\<rparr>)"
    and free_None: "m k = None \<Longrightarrow> free b m k = None"
    and free_Some: "items_ok b \<Longrightarrow> m k = Some s \<Longrightarrow> demand b k \<le> sk_held s \<Longrightarrow>
      free b m k = Some (s\<lparr>sk_held := sk_held s - demand b k\<rparr>)"
begin

definition promised :: "(string \<rightharpoonup> booking_row) \<Rightarrow> string \<Rightarrow> int" where
  "promised books k = (\<Sum>i \<in> pending_ids books. demand (the (books i)) k)"

definition ledger_ok :: "(string \<rightharpoonup> stock) \<Rightarrow> (string \<rightharpoonup> booking_row) \<Rightarrow> bool" where
  "ledger_ok m books \<longleftrightarrow> finite (dom books) \<and> (\<forall>i b. books i = Some b \<longrightarrow> items_ok b) \<and>
    (\<forall>k s. m k = Some s \<longrightarrow> sk_held s = promised books k \<and> 0 \<le> sk_sold s \<and>
       (\<forall>t. sk_total s = Some t \<longrightarrow> sk_sold s + sk_held s \<le> t))"

lemma ledger_row:
  assumes "ledger_ok m books" "m k = Some s"
  shows "sk_held s = promised books k" "0 \<le> sk_sold s" "sk_total s = Some t \<Longrightarrow> sk_sold s + sk_held s \<le> t"
  using assms unfolding ledger_ok_def by blast+

lemma finite_pending: "finite (dom books) \<Longrightarrow> finite (pending_ids books)"
  by (rule finite_subset [of _ "dom books"]) (auto simp: pending_ids_def)

lemma promised_new:
  assumes "finite (dom books)" "books i = None" "bk_status b = PENDING_PAYMENT"
  shows "promised (books(i \<mapsto> b)) k = promised books k + demand b k"
proof -
  have "pending_ids (books(i \<mapsto> b)) = insert i (pending_ids books)" "i \<notin> pending_ids books"
    using assms by (auto simp: pending_ids_def)
  moreover have "(\<Sum>j \<in> pending_ids books. demand (the ((books(i \<mapsto> b)) j)) k) = promised books k"
    unfolding promised_def using \<open>i \<notin> pending_ids books\<close> by (intro sum.cong) auto
  ultimately show ?thesis using finite_pending [OF assms(1)] by (simp add: promised_def add.commute)
qed

lemma promised_closed:
  assumes "finite (dom books)" "books i = Some b" "bk_status b = PENDING_PAYMENT" "bk_status b' \<noteq> PENDING_PAYMENT"
  shows "promised (books(i \<mapsto> b')) k = promised books k - demand b k"
proof -
  have p: "pending_ids (books(i \<mapsto> b')) = pending_ids books - {i}" "i \<in> pending_ids books"
    using assms by (auto simp: pending_ids_def)
  have "(\<Sum>j \<in> pending_ids books - {i}. demand (the ((books(i \<mapsto> b')) j)) k) = (\<Sum>j \<in> pending_ids books - {i}. demand (the (books j)) k)"
    by (intro sum.cong) auto
  then show ?thesis
    using sum_diff1 [OF finite_pending [OF assms(1)], of "\<lambda>j. demand (the (books j)) k" i] p assms(2)
    by (simp add: promised_def)
qed

lemma demand_promised:
  assumes "ledger_ok m books" "books i = Some b" "bk_status b = PENDING_PAYMENT"
  shows "demand b k \<le> promised books k"
proof -
  have "i \<in> pending_ids books" using assms by (auto simp: pending_ids_def)
  moreover have "0 \<le> demand (the (books j)) k" if "j \<in> pending_ids books" for j
    using that assms(1) by (auto simp: pending_ids_def ledger_ok_def intro: demand_nonneg)
  ultimately have "demand (the (books i)) k \<le> promised books k"
    unfolding promised_def using assms(1) by (intro member_le_sum finite_pending) (auto simp: ledger_ok_def)
  then show ?thesis using assms(2) by simp
qed

lemma hold_ledger:
  assumes ok: "ledger_ok m books" and new: "books i = None" "items_ok b" "bk_status b = PENDING_PAYMENT"
    and r: "reserve b m = Inr m'"
  shows "ledger_ok m' (books(i \<mapsto> b))"
  unfolding ledger_ok_def
proof (intro conjI allI impI)
  show "finite (dom (books(i \<mapsto> b)))" using ok by (simp add: ledger_ok_def)
  show "items_ok c" if "(books(i \<mapsto> b)) j = Some c" for j c
    using that ok new(2) by (auto simp: ledger_ok_def split: if_splits)
  fix k s' assume s': "m' k = Some s'"
  then obtain s where s: "m k = Some s" using reserve_None [OF new(2) r] by (cases "m k") auto
  have fin: "finite (dom books)" using ok by (simp add: ledger_ok_def)
  have eq: "s' = s\<lparr>sk_held := sk_held s + demand b k\<rparr>" using reserve_Some [of b m m' k s, OF new(2) r s] s' by simp
  show "sk_held s' = promised (books(i \<mapsto> b)) k"
    using ok s by (simp add: eq promised_new [OF fin new(1,3)] ledger_ok_def)
  show "0 \<le> sk_sold s'" using ok s by (simp add: eq ledger_ok_def)
  show "sk_sold s' + sk_held s' \<le> t" if "sk_total s' = Some t" for t
  proof -
    have t: "sk_total s = Some t" using that by (simp add: eq)
    note ledger_row(3) [OF ok s t]
    with t show ?thesis using reserve_Some [of b m m' k s, OF new(2) r s] by (simp add: eq)
  qed
qed

lemma close_ledger:
  assumes ok: "ledger_ok m books" and b: "books i = Some b" "bk_status b = PENDING_PAYMENT"
    and b': "bk_items b' = bk_items b" "bk_status b' \<noteq> PENDING_PAYMENT"
  shows "ledger_ok (settle b m) (books(i \<mapsto> b'))" and "ledger_ok (free b m) (books(i \<mapsto> b'))"
proof -
  have fin: "finite (dom books)" and ib: "items_ok b" using ok b by (auto simp: ledger_ok_def)
  have fine: "\<forall>j c. (books(i \<mapsto> b')) j = Some c \<longrightarrow> items_ok c"
    using ok ib b' by (auto simp: ledger_ok_def items_ok_def)
  have row: "demand b k \<le> sk_held s \<and> sk_held s - demand b k = promised (books(i \<mapsto> b')) k" if "m k = Some s" for k s
    using demand_promised [OF ok b] ok that
    by (simp add: promised_closed [OF fin b b'(2)] ledger_ok_def)
  note nn = demand_nonneg [OF ib]
  have dom': "finite (dom (books(i \<mapsto> b')))" using fin by simp
  show "ledger_ok (settle b m) (books(i \<mapsto> b'))"
    unfolding ledger_ok_def
  proof (intro conjI allI impI dom')
    fix k s' assume s': "settle b m k = Some s'"
    then obtain s where s: "m k = Some s" using settle_None by (cases "m k") auto
    have eq: "s' = s\<lparr>sk_held := sk_held s - demand b k, sk_sold := sk_sold s + demand b k\<rparr>"
      using settle_Some [of b m k s, OF ib s] row [OF s] s' by simp
    show "sk_held s' = promised (books(i \<mapsto> b')) k" using row [OF s] by (simp add: eq)
    show "0 \<le> sk_sold s'" using ok s nn [of k] by (simp add: eq ledger_ok_def)
    show "sk_sold s' + sk_held s' \<le> t" if "sk_total s' = Some t" for t
      using ledger_row(3) [OF ok s, of t] that by (simp add: eq)
  qed (use fine in auto)
  show "ledger_ok (free b m) (books(i \<mapsto> b'))"
    unfolding ledger_ok_def
  proof (intro conjI allI impI dom')
    fix k s' assume s': "free b m k = Some s'"
    then obtain s where s: "m k = Some s" using free_None by (cases "m k") auto
    have eq: "s' = s\<lparr>sk_held := sk_held s - demand b k\<rparr>" using free_Some [of b m k s, OF ib s] row [OF s] s' by simp
    show "sk_held s' = promised (books(i \<mapsto> b')) k" using row [OF s] by (simp add: eq)
    show "0 \<le> sk_sold s'" using ok s by (simp add: eq ledger_ok_def)
    show "sk_sold s' + sk_held s' \<le> t" if "sk_total s' = Some t" for t
    proof -
      have "sk_sold s + sk_held s \<le> t" using ledger_row(3) [OF ok s] that by (simp add: eq)
      then show ?thesis using nn [of k] by (simp add: eq)
    qed
  qed (use fine in auto)
qed

end

context stock_ledger
begin

lemma return_ledger:
  assumes ok: "ledger_ok m books" and ps: "\<forall>p \<in> set ps. 0 \<le> snd p"
  shows "ledger_ok (fold (\<lambda>(k, q). update_row (return_units q) k) ps m) books"
  unfolding ledger_ok_def
proof (intro conjI allI impI)
  fix k s' assume s': "fold (\<lambda>(k, q). update_row (return_units q) k) ps m k = Some s'"
  then obtain s where s: "m k = Some s" using fold_update_None [of m k return_units ps] by (cases "m k") auto
  obtain v where v: "0 \<le> v" "v \<le> sk_sold s" "s' = s\<lparr>sk_sold := v\<rparr>"
    using fold_return [of ps m k s, OF ps s] ledger_row(2) [OF ok s] s' by auto
  show "sk_held s' = promised books k" "0 \<le> sk_sold s'" using ledger_row(1) [OF ok s] v by simp_all
  show "sk_sold s' + sk_held s' \<le> t" if "sk_total s' = Some t" for t
    using ledger_row(3) [OF ok s, of t] that v by simp
qed (use ok in \<open>auto simp: ledger_ok_def\<close>)

lemma ledger_nonneg: "ledger_ok m books \<Longrightarrow> 0 \<le> promised books k"
  unfolding promised_def
  by (rule sum_nonneg) (auto simp: pending_ids_def ledger_ok_def intro: demand_nonneg)

end

section \<open>The two counter tables provide it\<close>

lemma ga_as_pairs:
  "ga_reserve (booking_ctx bid b) m = rfold (\<lambda>(k, q). hold_row q k) (ticket_pairs b) m"
  "snd (ga_confirm (booking_ctx bid b) m) = fold (\<lambda>(k, q). update_row (sell_units q) k) (ticket_pairs b) m"
  "ga_release (booking_ctx bid b) m = fold (\<lambda>(k, q). update_row (free_units q) k) (ticket_pairs b) m"
  by (simp_all add: ga_reserve_def ga_confirm_def ga_release_def ticket_pairs_def booking_ctx_def rfold_map fold_map
      line_pair_def comp_def)

lemma pairs_nonneg: "items_ok b \<Longrightarrow> \<forall>p \<in> set (ticket_pairs b). 0 \<le> snd p" "items_ok b \<Longrightarrow> \<forall>p \<in> set (addon_pairs b). 0 \<le> snd p"
  by (auto simp: items_ok_def ticket_pairs_def addon_pairs_def ticket_lines_def addon_lines_def line_pair_def)

interpretation tickets: stock_ledger "\<lambda>b. demand_of (ticket_pairs b)" "\<lambda>b. ga_reserve (booking_ctx [] b)"
  "\<lambda>b m. snd (ga_confirm (booking_ctx [] b) m)" "\<lambda>b. ga_release (booking_ctx [] b)"
proof (unfold_locales, goal_cases)
  case (1 b k) then show ?case by (intro demand_of_nonneg pairs_nonneg)
next
  case (2 b' b k) then show ?case by (simp add: ticket_pairs_def)
next
  case (3 b m m' k) then show ?case using reserve_pairs(1) [of "ticket_pairs b" m m' k] pairs_nonneg(1) [of b] by (simp add: ga_as_pairs)
next
  case (4 b m m' k s) then show ?case using reserve_pairs(2) [of "ticket_pairs b" m m' k s] pairs_nonneg(1) [of b] by (simp add: ga_as_pairs)
next
  case (5 m k b) then show ?case by (simp add: ga_as_pairs fold_update_None)
next
  case (6 b m k s) then show ?case by (simp add: ga_as_pairs fold_sell pairs_nonneg)
next
  case (7 m k b) then show ?case by (simp add: ga_as_pairs fold_update_None)
next
  case (8 b m k s) then show ?case by (simp add: ga_as_pairs fold_free pairs_nonneg)
qed

interpretation addons: stock_ledger "\<lambda>b. demand_of (addon_pairs b)" "\<lambda>b. addon_reserve (addon_lines (bk_items b))"
  "\<lambda>b. addon_confirm (addon_lines (bk_items b))" "\<lambda>b. addon_release (addon_lines (bk_items b))"
proof (unfold_locales, goal_cases)
  case (1 b k) then show ?case by (intro demand_of_nonneg pairs_nonneg)
next
  case (2 b' b k) then show ?case by (simp add: addon_pairs_def)
next
  case (3 b m m' k) then show ?case
    using reserve_pairs(1) [of "addon_pairs b" m m' k] pairs_nonneg(2) [of b] by (simp add: addon_reserve_def addon_pairs_def)
next
  case (4 b m m' k s) then show ?case
    using reserve_pairs(2) [of "addon_pairs b" m m' k s] pairs_nonneg(2) [of b] by (simp add: addon_reserve_def addon_pairs_def)
next
  case (5 m k b) then show ?case by (simp add: addon_confirm_def fold_update_None)
next
  case (6 b m k s) then show ?case using fold_sell [OF pairs_nonneg(2)] by (simp add: addon_confirm_def addon_pairs_def)
next
  case (7 m k b) then show ?case by (simp add: addon_release_def fold_update_None)
next
  case (8 b m k s) then show ?case using fold_free [OF pairs_nonneg(2)] by (simp add: addon_release_def addon_pairs_def)
qed

section \<open>No oversell\<close>

text \<open>
  The transactions on general admission stock in any order: a hold of a new booking, the settlement
  of a booking, the release of an unpaid one (sweep, buyer or cancelled show), a refund.
\<close>

inductive booking_step :: "inventory_db \<Rightarrow> inventory_db \<Rightarrow> bool" where
  step_hold: "iv_bookings db bid = None \<Longrightarrow> items_ok b \<Longrightarrow> \<not> bk_seatBased b \<Longrightarrow>
    hold_booking bid b (ticket_lines (bk_items b)) policy now db = Inr db' \<Longrightarrow> booking_step db db'"
| step_confirm: "confirm_booking bid db = Inr (Some db') \<Longrightarrow> booking_step db db'"
| step_release: "outcome \<noteq> PENDING_PAYMENT \<Longrightarrow> releasePendingBooking bid outcome lapsedBefore db = (True, db') \<Longrightarrow>
    booking_step db db'"
| step_refund: "\<forall>(_, q) \<in> set lines. 0 \<le> q \<Longrightarrow>
    booking_step db (db\<lparr>iv_stock := ga_refund ctx (iv_stock db), iv_addons := addon_refund lines (iv_addons db)\<rparr>)"

definition stock_ok :: "inventory_db \<Rightarrow> bool" where
  "stock_ok db \<longleftrightarrow> tickets.ledger_ok (iv_stock db) (iv_bookings db) \<and> addons.ledger_ok (iv_addons db) (iv_bookings db) \<and>
    (\<forall>i b. iv_bookings db i = Some b \<longrightarrow> \<not> bk_seatBased b)"

lemma hold_booking_Inr:
  assumes "hold_booking bid b (ticket_lines (bk_items b)) policy now db = Inr db'" "\<not> bk_seatBased b"
  shows "\<exists>b1. bk_items b1 = bk_items b \<and> bk_status b1 = PENDING_PAYMENT \<and> \<not> bk_seatBased b1 \<and>
    iv_bookings db' = (iv_bookings db)(bid \<mapsto> b1) \<and>
    ga_reserve (booking_ctx [] b1) (iv_stock db) = Inr (iv_stock db') \<and>
    addon_reserve (addon_lines (bk_items b1)) (iv_addons db) = Inr (iv_addons db')"
proof -
  let ?b1 = "b\<lparr>bk_status := PENDING_PAYMENT, bk_feePolicyId := map_option ap_id policy\<rparr>"
  have ctx: "(booking_ctx bid b)\<lparr>rc_lines := ticket_lines (bk_items b)\<rparr> = booking_ctx bid b"
    by (simp add: booking_ctx_def)
  have r: "ga_reserve (booking_ctx bid b) m = ga_reserve (booking_ctx [] ?b1) m" for m
    by (simp add: ga_as_pairs ticket_pairs_def)
  have "iv_bookings db' = (iv_bookings db)(bid \<mapsto> ?b1) \<and> ga_reserve (booking_ctx [] ?b1) (iv_stock db) = Inr (iv_stock db') \<and>
      addon_reserve (addon_lines (bk_items b)) (iv_addons db) = Inr (iv_addons db')"
    using assms
    by (auto simp: hold_booking_def rbind_Inr_iff strategy_reserve_def ctx r split: option.splits)
  then show ?thesis using assms(2) by (intro exI [of _ ?b1]) simp
qed

lemma confirm_booking_Some:
  assumes "confirm_booking bid db = Inr (Some db')"
  shows "\<exists>b b'. iv_bookings db bid = Some b \<and> bk_status b = PENDING_PAYMENT \<and> bk_items b' = bk_items b \<and>
    bk_status b' = BK_CONFIRMED \<and> bk_seatBased b' = bk_seatBased b \<and>
    (\<not> bk_seatBased b \<longrightarrow> iv_bookings db' = (iv_bookings db)(bid \<mapsto> b') \<and>
      iv_stock db' = snd (ga_confirm (booking_ctx [] b) (iv_stock db)) \<and>
      iv_addons db' = addon_confirm (addon_lines (bk_items b)) (iv_addons db))"
proof -
  obtain b where b: "iv_bookings db bid = Some b" "bk_status b = PENDING_PAYMENT"
    using assms by (auto simp: confirm_booking_def split: option.splits if_splits)
  let ?b' = "b\<lparr>bk_status := BK_CONFIRMED, bk_payment := map_option (\<lambda>_. SUCCEEDED) (bk_payment b)\<rparr>"
  obtain specs m' where c: "ga_confirm (booking_ctx bid b) (iv_stock db) = (specs, m')" by fastforce
  have m': "m' = snd (ga_confirm (booking_ctx [] b) (iv_stock db))"
    using ga_as_pairs(2) [of bid b "iv_stock db"] ga_as_pairs(2) [of "[]" b "iv_stock db"] c by simp
  have "\<not> bk_seatBased b \<longrightarrow> iv_bookings db' = (iv_bookings db)(bid \<mapsto> ?b') \<and> iv_stock db' = m' \<and>
      iv_addons db' = addon_confirm (addon_lines (bk_items b)) (iv_addons db)"
    using assms b c by (auto simp: confirm_booking_def Let_def strategy_confirm_def split: if_splits)
  then have "\<not> bk_seatBased b \<longrightarrow> iv_bookings db' = (iv_bookings db)(bid \<mapsto> ?b') \<and>
      iv_stock db' = snd (ga_confirm (booking_ctx [] b) (iv_stock db)) \<and>
      iv_addons db' = addon_confirm (addon_lines (bk_items b)) (iv_addons db)"
    by (simp only: m')
  then show ?thesis using b by (intro exI [of _ b] exI [of _ ?b']) simp
qed

lemma release_booking_True:
  assumes "releasePendingBooking bid outcome lb db = (True, db')"
  shows "\<exists>b b'. iv_bookings db bid = Some b \<and> bk_status b = PENDING_PAYMENT \<and> bk_items b' = bk_items b \<and>
    bk_status b' = outcome \<and> bk_seatBased b' = bk_seatBased b \<and>
    (\<not> bk_seatBased b \<longrightarrow> iv_bookings db' = (iv_bookings db)(bid \<mapsto> b') \<and>
      iv_stock db' = ga_release (booking_ctx [] b) (iv_stock db) \<and>
      iv_addons db' = addon_release (addon_lines (bk_items b)) (iv_addons db))"
proof -
  obtain b where b: "iv_bookings db bid = Some b" "bk_status b = PENDING_PAYMENT"
    using assms by (auto simp: releasePendingBooking_def split: option.splits if_splits)
  let ?b' = "b\<lparr>bk_status := outcome, bk_payment := (if bk_payment b = Some REQUIRES_PAYMENT then Some FAILED else bk_payment b)\<rparr>"
  have c: "ga_release (booking_ctx bid b) m = ga_release (booking_ctx [] b) m" for m
    by (simp add: ga_as_pairs)
  have n: "ticket_lines (bk_items b) = [] \<Longrightarrow> ga_release (booking_ctx [] b) m = m" for m
    by (simp add: ga_release_def booking_ctx_def)
  have "\<not> bk_seatBased b \<longrightarrow> iv_bookings db' = (iv_bookings db)(bid \<mapsto> ?b') \<and>
      iv_stock db' = ga_release (booking_ctx [] b) (iv_stock db) \<and>
      iv_addons db' = addon_release (addon_lines (bk_items b)) (iv_addons db)"
    using assms b
    by (auto simp: releasePendingBooking_def Let_def strategy_release_def c n split: if_splits)
  then show ?thesis using b by (intro exI [of _ b] exI [of _ ?b']) simp
qed

lemma booking_step_ok: "booking_step db db' \<Longrightarrow> stock_ok db \<Longrightarrow> stock_ok db'"
proof (induction rule: booking_step.induct)
  case (step_hold db bid b policy now db')
  from hold_booking_Inr [OF step_hold(4,3)] obtain b1 where b1: "bk_items b1 = bk_items b" "bk_status b1 = PENDING_PAYMENT"
      "\<not> bk_seatBased b1" "iv_bookings db' = (iv_bookings db)(bid \<mapsto> b1)"
      "ga_reserve (booking_ctx [] b1) (iv_stock db) = Inr (iv_stock db')"
      "addon_reserve (addon_lines (bk_items b1)) (iv_addons db) = Inr (iv_addons db')" by blast
  have "items_ok b1" using step_hold(2) b1(1) by (simp add: items_ok_def)
  then show ?case
    using tickets.hold_ledger [of "iv_stock db" "iv_bookings db" bid b1 "iv_stock db'"]
      addons.hold_ledger [of "iv_addons db" "iv_bookings db" bid b1 "iv_addons db'"] step_hold(1,5) b1
    by (auto simp: stock_ok_def)
next
  case (step_confirm bid db db')
  from confirm_booking_Some [OF step_confirm(1)] step_confirm(2) obtain b b' where
      b: "iv_bookings db bid = Some b" "bk_status b = PENDING_PAYMENT" and b': "bk_items b' = bk_items b" "bk_status b' = BK_CONFIRMED"
      "\<not> bk_seatBased b'" and db': "iv_bookings db' = (iv_bookings db)(bid \<mapsto> b')"
      "iv_stock db' = snd (ga_confirm (booking_ctx [] b) (iv_stock db))"
      "iv_addons db' = addon_confirm (addon_lines (bk_items b)) (iv_addons db)"
    by (auto simp: stock_ok_def)
  then show ?case
    using tickets.close_ledger(1) [of "iv_stock db" "iv_bookings db" bid b b'] addons.close_ledger(1) [of "iv_addons db" "iv_bookings db" bid b b'] step_confirm(2) b'(2,3)
    by (auto simp: stock_ok_def)
next
  case (step_release outcome bid lb db db')
  from release_booking_True [OF step_release(2)] step_release(3) obtain b b' where
      b: "iv_bookings db bid = Some b" "bk_status b = PENDING_PAYMENT" and b': "bk_items b' = bk_items b" "bk_status b' = outcome"
      "\<not> bk_seatBased b'" and db': "iv_bookings db' = (iv_bookings db)(bid \<mapsto> b')"
      "iv_stock db' = ga_release (booking_ctx [] b) (iv_stock db)"
      "iv_addons db' = addon_release (addon_lines (bk_items b)) (iv_addons db)"
    by (auto simp: stock_ok_def)
  then show ?case
    using tickets.close_ledger(2) [of "iv_stock db" "iv_bookings db" bid b b'] addons.close_ledger(2) [of "iv_addons db" "iv_bookings db" bid b b'] step_release(1,3) b'(2,3)
    by (auto simp: stock_ok_def)
next
  case (step_refund lines db ctx)
  have "\<forall>p \<in> set (count_by_type (map fst (rx_tickets ctx))). 0 \<le> snd p" by (auto simp: count_by_type_def)
  moreover have "\<forall>p \<in> set lines. 0 \<le> snd p" using step_refund(1) by auto
  ultimately show ?case using step_refund(2) tickets.return_ledger addons.return_ledger
    by (simp add: stock_ok_def ga_refund_def return_types_def addon_refund_def)
qed

lemma reachable_ok: "booking_step\<^sup>*\<^sup>* db db' \<Longrightarrow> stock_ok db \<Longrightarrow> stock_ok db'"
  by (induction rule: rtranclp_induct) (auto intro: booking_step_ok)

text \<open>
  C1.  General admission is never oversold.  From a database whose counters agree with its bookings,
  after any sequence of holds, settlements, releases and refunds: what a ticket type counts as held is
  exactly what its unpaid bookings ask for, nothing is negative, and sold plus held never exceeds the
  total.
\<close>

theorem no_oversell:
  assumes "booking_step\<^sup>*\<^sup>* db db'" "stock_ok db" "iv_stock db' k = Some s" "sk_total s = Some t"
  shows "sk_held s = (\<Sum>i \<in> pending_ids (iv_bookings db'). demand_of (ticket_pairs (the (iv_bookings db' i))) k) \<and>
    0 \<le> sk_held s \<and> 0 \<le> sk_sold s \<and> sk_sold s + sk_held s \<le> t"
proof -
  have ok: "tickets.ledger_ok (iv_stock db') (iv_bookings db')"
    using reachable_ok [OF assms(1,2)] by (simp add: stock_ok_def)
  show ?thesis
    using tickets.ledger_row [OF ok assms(3)] tickets.ledger_nonneg [OF ok, of k] assms(4)
    by (simp add: tickets.promised_def)
qed

definition ex_item :: booking_item where
  "ex_item = \<lparr>bi_ticketTypeId = Some ''vip'', bi_addOnId = None, bi_quantity = 3\<rparr>"

definition ex_booking :: booking_row where
  "ex_booking = \<lparr>bk_eventSessionId = ''s1'', bk_holdExpiresAt = 900, bk_seatBased = False, bk_items = [ex_item],
     bk_feePolicyId = None, bk_status = PENDING_PAYMENT, bk_payment = Some REQUIRES_PAYMENT\<rparr>"

definition ex_db :: inventory_db where
  "ex_db = \<lparr>iv_stock = [''vip'' \<mapsto> \<lparr>sk_total = Some 4, sk_sold = 0, sk_held = 0\<rparr>], iv_addons = Map.empty, iv_seats = [],
     iv_zones = Map.empty, iv_types = [], iv_bookings = Map.empty,
     iv_policies = \<lparr>pd_rows = Map.empty, pd_events = []\<rparr>, iv_tickets = []\<rparr>"

definition ex_db1 :: inventory_db where
  "ex_db1 = ex_db\<lparr>iv_stock := [''vip'' \<mapsto> \<lparr>sk_total = Some 4, sk_sold = 0, sk_held = 3\<rparr>],
     iv_bookings := [''b1'' \<mapsto> ex_booking]\<rparr>"

lemma ex_hold: "hold_booking ''b1'' ex_booking (ticket_lines (bk_items ex_booking)) None 0 ex_db = Inr ex_db1"
  by (simp add: hold_booking_def strategy_reserve_def ga_reserve_def addon_reserve_def addon_lines_def ticket_lines_def
      ex_db_def ex_db1_def ex_booking_def ex_item_def booking_ctx_def truthy_def hold_row_def hold_units_def)

lemma ex_db_ok: "stock_ok ex_db"
  by (auto simp: stock_ok_def tickets.ledger_ok_def addons.ledger_ok_def tickets.promised_def ex_db_def pending_ids_def
      split: if_splits)

theorem no_oversell_witness:
  "booking_step\<^sup>*\<^sup>* ex_db ex_db1 \<and>
   (\<exists>s. iv_stock ex_db1 ''vip'' = Some s \<and> sk_held s = 3 \<and> sk_sold s + sk_held s \<le> 4)"
proof -
  have step: "booking_step ex_db ex_db1"
    by (rule step_hold [OF _ _ _ ex_hold]) (simp_all add: ex_db_def ex_booking_def items_ok_def ex_item_def)
  then have r: "booking_step\<^sup>*\<^sup>* ex_db ex_db1" by simp
  have row: "iv_stock ex_db1 ''vip'' = Some \<lparr>sk_total = Some 4, sk_sold = 0, sk_held = 3\<rparr>" by (simp add: ex_db1_def)
  show ?thesis using no_oversell [OF r ex_db_ok row] r row by simp
qed

section \<open>A hold ends exactly once\<close>

lemma release_claims: "fst (releasePendingBooking bid outcome lb db) \<Longrightarrow>
  \<exists>b. iv_bookings (snd (releasePendingBooking bid outcome lb db)) bid = Some b \<and> bk_status b = outcome"
proof -
  have s: "iv_bookings (strategy_release sb ctx db) = iv_bookings db" for sb ctx db
    by (simp add: strategy_release_def seat_release_def Let_def)
  show "fst (releasePendingBooking bid outcome lb db) \<Longrightarrow> ?thesis"
    by (auto simp: releasePendingBooking_def Let_def s split: option.splits if_splits)
qed

lemma confirm_claims:
  assumes "confirm_booking bid db = Inr (Some db')"
  shows "\<exists>b. iv_bookings db' bid = Some b \<and> bk_status b = BK_CONFIRMED"
proof -
  have s: "iv_bookings db2 = iv_bookings db1" if "strategy_confirm sb ctx db1 = Inr (specs, db2)" for sb ctx db1 specs db2
    using that by (auto simp: strategy_confirm_def seat_confirm_def Let_def rbind_Inr_iff split: if_splits prod.splits)
  show ?thesis
    using assms
    by (auto simp: confirm_booking_def Let_def rbind_Inr_iff split: option.splits if_splits dest!: s)
qed

lemma not_pending_noop:
  assumes "iv_bookings db bid = Some b" "bk_status b \<noteq> PENDING_PAYMENT"
  shows "confirm_booking bid db = Inr None" "releasePendingBooking bid outcome lb db = (False, db)"
  using assms by (simp_all add: confirm_booking_def releasePendingBooking_def)

text \<open>
  C15.  An unpaid hold ends exactly once.  Whichever of a sweep, a buyer's cancellation, a cancelled show
  or a payment claims the booking first, every later one of them is a no-op that changes nothing: stock
  is not given back twice, and a paid booking is never expired nor an expired one settled.
\<close>

theorem hold_ends_once:
  assumes "outcome \<noteq> PENDING_PAYMENT"
  shows "(fst (releasePendingBooking bid outcome lb db) \<longrightarrow>
      (let db' = snd (releasePendingBooking bid outcome lb db) in
       confirm_booking bid db' = Inr None \<and> releasePendingBooking bid outcome' lb' db' = (False, db'))) \<and>
    (\<forall>db'. confirm_booking bid db = Inr (Some db') \<longrightarrow>
       confirm_booking bid db' = Inr None \<and> releasePendingBooking bid outcome' lb' db' = (False, db'))"
  using release_claims [of bid outcome lb db] confirm_claims [of bid db] assms not_pending_noop
  by (fastforce simp: Let_def)

theorem hold_ends_once_witness:
  "fst (releasePendingBooking ''b1'' BK_EXPIRED (Some 1000) ex_db1) \<and>
   confirm_booking ''b1'' (snd (releasePendingBooking ''b1'' BK_EXPIRED (Some 1000) ex_db1)) = Inr None"
proof -
  have "fst (releasePendingBooking ''b1'' BK_EXPIRED (Some 1000) ex_db1)"
    by (simp add: releasePendingBooking_def ex_db1_def ex_booking_def Let_def)
  then show ?thesis using hold_ends_once [of BK_EXPIRED "''b1''" "Some 1000" ex_db1] by (simp add: Let_def)
qed

section \<open>Seats\<close>

lemma seat_reserve_seats:
  assumes "seat_reserve ctx db = Inr db'"
  shows "iv_seats db' = map (hold_seat ctx (seatIdsOf ctx)) (iv_seats db)"
    and "seatIdsOf ctx \<noteq> [] \<longrightarrow> length (filter (holdable ctx (seatIdsOf ctx)) (iv_seats db)) = length (seatIdsOf ctx)"
proof -
  have "hold_seat ctx [] = id" by (auto simp: hold_seat_def)
  then show "iv_seats db' = map (hold_seat ctx (seatIdsOf ctx)) (iv_seats db)"
    using assms by (auto simp: seat_reserve_def Let_def rbind_Inr_iff split: if_splits)
  show "seatIdsOf ctx \<noteq> [] \<longrightarrow> length (filter (holdable ctx (seatIdsOf ctx)) (iv_seats db)) = length (seatIdsOf ctx)"
    using assms by (auto simp: seat_reserve_def Let_def rbind_Inr_iff split: if_splits)
qed

text \<open>
  C16.  Seats are never double booked: a successful reservation found every requested seat available,
  and now holds each of them for this booking; every seat that was held or sold, and every seat that
  was not asked for, is left as it was.
\<close>

theorem seat_reserve_exclusive:
  assumes "seat_reserve ctx db = Inr db'"
    and "distinct (map (\<lambda>s. (ss_eventSessionId s, ss_seatId s)) (iv_seats db))"
  shows "(\<forall>i \<in> set (seatIdsOf ctx). \<exists>s \<in> set (iv_seats db). ss_eventSessionId s = rc_eventSessionId ctx \<and>
       ss_seatId s = i \<and> ss_status s = AVAILABLE \<and> hold_seat ctx (seatIdsOf ctx) s \<in> set (iv_seats db') \<and>
       held_by (rc_bookingId ctx) (hold_seat ctx (seatIdsOf ctx) s)) \<and>
    list_all2 (\<lambda>s s'. ss_status s \<noteq> AVAILABLE \<or> ss_seatId s \<notin> set (seatIdsOf ctx) \<longrightarrow> s' = s) (iv_seats db) (iv_seats db')"
proof -
  let ?ids = "seatIdsOf ctx"
  let ?f = "filter (holdable ctx ?ids) (iv_seats db)"
  note r = seat_reserve_seats [OF assms(1)]
  have inj: "inj_on ss_seatId (set ?f)" and dist: "distinct ?f"
  proof -
    have "inj_on (\<lambda>s. (ss_eventSessionId s, ss_seatId s)) (set (iv_seats db))" "distinct (iv_seats db)"
      using assms(2) by (simp_all add: distinct_map)
    then show "inj_on ss_seatId (set ?f)" "distinct ?f"
      by (auto simp: inj_on_def holdable_def)
  qed
  have sub: "ss_seatId ` set ?f \<subseteq> set ?ids" by (auto simp: holdable_def)
  have all: "ss_seatId ` set ?f = set ?ids"
  proof (cases "?ids = []")
    case False
    have "card (set ?ids) \<le> length ?ids" by (rule card_length)
    also have "\<dots> = card (set ?f)" using r(2) False distinct_card [OF dist] by simp
    also have "\<dots> = card (ss_seatId ` set ?f)" using card_image [OF inj] by simp
    finally show ?thesis using sub by (intro card_seteq) auto
  qed (use sub in auto)
  have "\<exists>s \<in> set (iv_seats db). ss_eventSessionId s = rc_eventSessionId ctx \<and> ss_seatId s = i \<and> ss_status s = AVAILABLE \<and>
      hold_seat ctx ?ids s \<in> set (iv_seats db') \<and> held_by (rc_bookingId ctx) (hold_seat ctx ?ids s)" if "i \<in> set ?ids" for i
  proof -
    have "i \<in> ss_seatId ` set ?f" using that unfolding all .
    then obtain s where "s \<in> set ?f" "ss_seatId s = i" by (elim imageE) simp
    then show ?thesis using that by (intro bexI [of _ s]) (auto simp: holdable_def r(1) hold_seat_def held_by_def)
  qed
  moreover have "list_all2 (\<lambda>s s'. ss_status s \<noteq> AVAILABLE \<or> ss_seatId s \<notin> set ?ids \<longrightarrow> s' = s) (iv_seats db) (iv_seats db')"
    unfolding r(1) list_all2_map2 by (rule list_all2_refl) (simp add: hold_seat_def)
  ultimately show ?thesis by blast
qed

definition ex_seat :: "string \<Rightarrow> seat_status \<Rightarrow> show_seat" where
  "ex_seat i st = \<lparr>ss_eventSessionId = ''s1'', ss_seatId = i, ss_status = st, ss_holdBookingId = None, ss_holdExpiresAt = None,
     ss_seatCategoryId = ''gold'', ss_label = i\<rparr>"

definition ex_seat_ctx :: "string list \<Rightarrow> reserve_context" where
  "ex_seat_ctx ids = \<lparr>rc_eventSessionId = ''s1'', rc_bookingId = ''b9'', rc_holdExpiresAt = 900,
     rc_lines = [\<lparr>il_ticketTypeId = ''tt'', il_quantity = int (length ids), il_seatIds = Some ids\<rparr>]\<rparr>"

definition ex_seat_db :: inventory_db where
  "ex_seat_db = ex_db\<lparr>iv_seats := [ex_seat ''A1'' AVAILABLE, ex_seat ''A2'' SOLD, ex_seat ''A3'' AVAILABLE]\<rparr>"

theorem seat_reserve_exclusive_witness:
  "\<exists>db'. seat_reserve (ex_seat_ctx [''A1'', ''A3'']) ex_seat_db = Inr db' \<and>
     hold_seat (ex_seat_ctx [''A1'', ''A3'']) [''A1'', ''A3''] (ex_seat ''A1'' AVAILABLE) \<in> set (iv_seats db') \<and>
     isl (seat_reserve (ex_seat_ctx [''A1'', ''A2'']) ex_seat_db)"
proof -
  have "\<exists>db'. seat_reserve (ex_seat_ctx [''A1'', ''A3'']) ex_seat_db = Inr db'"
    by (simp add: seat_reserve_def seatIdsOf_def ex_seat_ctx_def ex_seat_db_def ex_seat_def ex_db_def holdable_def Let_def no_seats_def
        zone_of_def truthy_def)
  then obtain db' where db': "seat_reserve (ex_seat_ctx [''A1'', ''A3'']) ex_seat_db = Inr db'" by blast
  have "distinct (map (\<lambda>s. (ss_eventSessionId s, ss_seatId s)) (iv_seats ex_seat_db))"
    by (simp add: ex_seat_db_def ex_seat_def)
  moreover have "isl (seat_reserve (ex_seat_ctx [''A1'', ''A2'']) ex_seat_db)"
    by (simp add: seat_reserve_def seatIdsOf_def ex_seat_ctx_def ex_seat_db_def ex_seat_def ex_db_def holdable_def Let_def no_seats_def
        zone_of_def truthy_def)
  ultimately have r: "\<forall>i \<in> set [''A1'', ''A3'']. \<exists>s \<in> set (iv_seats ex_seat_db). ss_seatId s = i \<and>
      hold_seat (ex_seat_ctx [''A1'', ''A3'']) [''A1'', ''A3''] s \<in> set (iv_seats db')"
    and i: "isl (seat_reserve (ex_seat_ctx [''A1'', ''A2'']) ex_seat_db)"
    using seat_reserve_exclusive [OF db'] by (auto simp: seatIdsOf_def ex_seat_ctx_def)
  from r have "hold_seat (ex_seat_ctx [''A1'', ''A3'']) [''A1'', ''A3''] (ex_seat ''A1'' AVAILABLE) \<in> set (iv_seats db')"
    by (simp add: ex_seat_db_def) (auto simp: ex_seat_def)
  with db' i show ?thesis by blast
qed

lemma seat_confirm_seats:
  "seat_confirm ctx db = Inr (specs, db') \<Longrightarrow>
    iv_seats db' = map (\<lambda>s. if held_by (rc_bookingId ctx) s then s\<lparr>ss_status := SOLD\<rparr> else s) (iv_seats db)"
  by (auto simp: seat_confirm_def Let_def rbind_Inr_iff)

text \<open>
  A booking's settlement and release touch only its own seats: a seat held by another booking, or
  sold, is the same row afterwards; and what a release frees is available to the next buyer.
\<close>

lemma seats_follow_owner:
  assumes "s \<in> set (iv_seats db)" "ss_status s = HELD" "ss_holdBookingId s = Some owner"
  shows "(owner \<noteq> rc_bookingId ctx \<longrightarrow> s \<in> set (iv_seats (seat_release ctx db)) \<and>
      (\<forall>specs db'. seat_confirm ctx db = Inr (specs, db') \<longrightarrow> s \<in> set (iv_seats db'))) \<and>
    (owner = rc_bookingId ctx \<longrightarrow> clear_seat s \<in> set (iv_seats (seat_release ctx db)) \<and>
      (\<forall>specs db'. seat_confirm ctx db = Inr (specs, db') \<longrightarrow> s\<lparr>ss_status := SOLD\<rparr> \<in> set (iv_seats db')))"
proof -
  have rel: "iv_seats (seat_release ctx db) = map (\<lambda>s. if held_by (rc_bookingId ctx) s then clear_seat s else s) (iv_seats db)"
    by (simp add: seat_release_def Let_def)
  have h: "held_by (rc_bookingId ctx) s \<longleftrightarrow> owner = rc_bookingId ctx" using assms by (auto simp: held_by_def)
  show ?thesis
    using assms(1) h by (auto simp: rel seat_confirm_seats image_iff intro!: bexI [of _ s])
qed

lemma seats_follow_owner_witness:
  "let s = (ex_seat ''A1'' HELD)\<lparr>ss_holdBookingId := Some ''b7''\<rparr>; db = ex_seat_db\<lparr>iv_seats := [s]\<rparr> in
   s \<in> set (iv_seats (seat_release (ex_seat_ctx [''A1'']) db))"
  using seats_follow_owner [of "(ex_seat ''A1'' HELD)\<lparr>ss_holdBookingId := Some ''b7''\<rparr>"
      "ex_seat_db\<lparr>iv_seats := [(ex_seat ''A1'' HELD)\<lparr>ss_holdBookingId := Some ''b7''\<rparr>]\<rparr>" "''b7''" "ex_seat_ctx [''A1'']"]
  by (simp add: ex_seat_def ex_seat_ctx_def)

end
