(* ===== verification/Payouts.thy ===== *)
theory Payouts
  imports JsSort
begin

text \<open>
  What an organizer is paid: \<^verbatim>\<open>payouts/currency-settlement.calculator.ts\<close> (the totals of a payout, per
  currency), \<^verbatim>\<open>payouts/payout-allocation.ts\<close> (the same money attributed to bookings) and
  \<^verbatim>\<open>payouts/payout-membership.ts\<close> (whether an event's money has been claimed already).  A \<^verbatim>\<open>Map\<close> that is
  iterated is an association list in insertion order (\<open>AList.update\<close> is \<^verbatim>\<open>Map.set\<close>).  The library shows
  that the allocations of a payout add up to it, component by component, that no row is lost or counted
  twice, and that money is released only when no settlement, allocation or unexplained payout can cover it.
\<close>

section \<open>Data\<close>

record revenue_row =
  rv_currency :: string
  rv_subtotalMinor :: minor
  rv_discountMinor :: minor
  rv_bookingFeeMinor :: minor
  rv_paymentFeeMinor :: minor
  rv_organizerFeeMinor :: minor

record refund_row =
  rr_currency :: string
  rr_amountMinor :: minor
  rr_taxAddedMinor :: "minor option"
  rr_platformFeeRefundedMinor :: "minor option"

record currency_settlement =
  cs_currency :: string
  cs_gross :: minor
  cs_discount :: minor
  cs_bookingFee :: minor
  cs_paymentFee :: minor
  cs_organizerFee :: minor
  cs_refund :: minor
  cs_net :: minor

record allocation_booking_row = revenue_row +
  ab_id :: string
  ab_eventId :: string

record allocation_refund_row = refund_row +
  ar_bookingId :: string
  ar_refundEventId :: string

record allocation_draft =
  ad_bookingId :: string
  ad_eventId :: string
  ad_currency :: string
  ad_allocatedNetMinor :: minor
  ad_subtotalMinor :: minor
  ad_discountMinor :: minor
  ad_organizerFeeMinor :: minor
  ad_refundShareMinor :: minor
  ad_bookingFeeMinor :: minor
  ad_paymentFeeMinor :: minor

datatype allocation_error = BookingAppearedTwice string

record settlement_claim =
  sc_id :: string
  sc_claimEventId :: string
  sc_status :: string

record payout_row =
  po_id :: string
  po_organizationId :: string
  po_allocatedFrom :: "time_ms option"
  po_periodStart :: "time_ms option"
  po_periodEnd :: "time_ms option"

record membership_query =
  mq_organizationId :: string
  mq_eventId :: string
  mq_revenueFrom :: time_ms
  mq_revenueTo :: time_ms

datatype event_membership =
  CLAIMED_BY_PROVIDER "string list" | CLAIMED_BY_PAYOUT "string list" | UNKNOWN_LEGACY "string list" | NOT_CLAIMED

section \<open>Settlement\<close>

definition organizerShareOfRefund :: "'a refund_row_scheme \<Rightarrow> minor" where
  "organizerShareOfRefund row =
    max 0 (rr_amountMinor row - nvl (rr_taxAddedMinor row) 0 - nvl (rr_platformFeeRefundedMinor row) 0)"

definition refundByCurrency :: "'a refund_row_scheme list \<Rightarrow> (string \<times> minor) list" where
  "refundByCurrency refunds =
    fold (\<lambda>row m. AList.update (upper (rr_currency row))
        (nvl (map_of m (upper (rr_currency row))) 0 + organizerShareOfRefund row) m) refunds []"

definition revenue_sum :: "('a revenue_row_scheme \<Rightarrow> minor) \<Rightarrow> 'a revenue_row_scheme list \<Rightarrow> string \<Rightarrow> minor" where
  "revenue_sum key revenue currency = sum_list (map key (filter (\<lambda>row. upper (rv_currency row) = currency) revenue))"

definition settle_currency :: "'a revenue_row_scheme list \<Rightarrow> (string \<times> minor) list \<Rightarrow> string \<Rightarrow> currency_settlement" where
  "settle_currency revenue refunds currency =
    (let total' = (\<lambda>key. revenue_sum key revenue currency);
         gross = total' rv_subtotalMinor; discount = total' rv_discountMinor;
         organizerFee = total' rv_organizerFeeMinor; refund = nvl (map_of refunds currency) 0
     in \<lparr>cs_currency = currency, cs_gross = gross, cs_discount = discount,
         cs_bookingFee = total' rv_bookingFeeMinor, cs_paymentFee = total' rv_paymentFeeMinor,
         cs_organizerFee = organizerFee, cs_refund = refund, cs_net = gross - discount - organizerFee - refund\<rparr>)"

definition calculateCurrencySettlement ::
  "'a revenue_row_scheme list \<Rightarrow> 'b refund_row_scheme list \<Rightarrow> currency_settlement list" where
  "calculateCurrencySettlement revenue refunds =
    (let byCurrency = refundByCurrency refunds;
         currencies = unique (map (upper \<circ> rv_currency) revenue @ map fst byCurrency)
     in map (settle_currency revenue byCurrency) (sort_cmp code_cmp currencies))"

section \<open>Allocation\<close>

type_synonym drafts_by_currency = "(string \<times> (string \<times> allocation_draft) list) list"

definition slot :: "string \<Rightarrow> drafts_by_currency \<Rightarrow> (string \<times> allocation_draft) list" where
  "slot currency m = nvl (map_of m (upper currency)) []"

definition booking_draft :: "allocation_booking_row \<Rightarrow> allocation_draft" where
  "booking_draft b =
    \<lparr>ad_bookingId = ab_id b, ad_eventId = ab_eventId b, ad_currency = upper (rv_currency b),
     ad_allocatedNetMinor = rv_subtotalMinor b - rv_discountMinor b - rv_organizerFeeMinor b,
     ad_subtotalMinor = rv_subtotalMinor b, ad_discountMinor = rv_discountMinor b,
     ad_organizerFeeMinor = rv_organizerFeeMinor b, ad_refundShareMinor = 0,
     ad_bookingFeeMinor = rv_bookingFeeMinor b, ad_paymentFeeMinor = rv_paymentFeeMinor b\<rparr>"

definition charge :: "minor \<Rightarrow> allocation_draft \<Rightarrow> allocation_draft" where
  "charge share d = d\<lparr>ad_refundShareMinor := ad_refundShareMinor d + share,
     ad_allocatedNetMinor := ad_allocatedNetMinor d - share\<rparr>"

definition clawback :: "allocation_refund_row \<Rightarrow> minor \<Rightarrow> allocation_draft" where
  "clawback r share =
    \<lparr>ad_bookingId = ar_bookingId r, ad_eventId = ar_refundEventId r, ad_currency = upper (rr_currency r),
     ad_allocatedNetMinor = - share, ad_subtotalMinor = 0, ad_discountMinor = 0, ad_organizerFeeMinor = 0,
     ad_refundShareMinor = share, ad_bookingFeeMinor = 0, ad_paymentFeeMinor = 0\<rparr>"

definition allocate_booking :: "allocation_booking_row \<Rightarrow> drafts_by_currency \<Rightarrow> allocation_error + drafts_by_currency" where
  "allocate_booking b m =
    (let drafts = slot (rv_currency b) m in
     case map_of drafts (ab_id b) of
       Some _ \<Rightarrow> Inl (BookingAppearedTwice (ab_id b))
     | None \<Rightarrow> Inr (AList.update (upper (rv_currency b)) (AList.update (ab_id b) (booking_draft b) drafts) m))"

definition allocate_refund :: "allocation_refund_row \<Rightarrow> drafts_by_currency \<Rightarrow> drafts_by_currency" where
  "allocate_refund r m =
    (let drafts = slot (rr_currency r) m; share = organizerShareOfRefund r;
         draft = (case map_of drafts (ar_bookingId r) of Some d \<Rightarrow> charge share d | None \<Rightarrow> clawback r share)
     in AList.update (upper (rr_currency r)) (AList.update (ar_bookingId r) draft drafts) m)"

definition by_booking_id :: "allocation_draft cmp" where
  "by_booking_id a b = (if code_cmp (ad_bookingId a) (ad_bookingId b) < 0 then - 1 else 1)"

definition allocateCurrencySettlement ::
  "allocation_booking_row list \<Rightarrow> allocation_refund_row list \<Rightarrow> allocation_error + (string \<times> allocation_draft list) list" where
  "allocateCurrencySettlement bookings refunds =
    rbind (rfold allocate_booking bookings []) (\<lambda>m.
      Inr (map (\<lambda>(currency, drafts). (currency, sort_cmp by_booking_id (map snd drafts))) (fold allocate_refund refunds m)))"

definition allocatedNet :: "allocation_draft list \<Rightarrow> minor" where
  "allocatedNet drafts = sum_list (map ad_allocatedNetMinor drafts)"

text \<open>The gate of \<^verbatim>\<open>PayoutsService.generate\<close>: the allocations of a currency account for its settlement exactly.\<close>

definition allocation_gate :: "currency_settlement \<Rightarrow> (string \<times> allocation_draft list) list \<Rightarrow> bool" where
  "allocation_gate s allocations \<longleftrightarrow> allocatedNet (nvl (map_of allocations (cs_currency s)) []) = cs_net s"

section \<open>Membership\<close>

definition SETTLEMENT_CLAIMED_STATUSES :: "string list" where
  "SETTLEMENT_CLAIMED_STATUSES = [''TRANSFER_PROCESSING'', ''TRANSFERRED'', ''PARTIALLY_REFUNDED'', ''REVERSED'']"

definition may_overlap :: "membership_query \<Rightarrow> payout_row \<Rightarrow> bool" where
  "may_overlap q p \<longleftrightarrow>
    (case po_periodStart p of None \<Rightarrow> True | Some t \<Rightarrow> t \<le> mq_revenueTo q) \<and>
    (case po_periodEnd p of None \<Rightarrow> True | Some t \<Rightarrow> mq_revenueFrom q \<le> t)"

definition eventMembership ::
  "settlement_claim list \<Rightarrow> (string \<times> string) list \<Rightarrow> payout_row list \<Rightarrow> membership_query \<Rightarrow> event_membership" where
  "eventMembership settlements allocations payouts q =
    (let claimed = filter (\<lambda>s. sc_claimEventId s = mq_eventId q \<and> sc_status s \<in> set SETTLEMENT_CLAIMED_STATUSES) settlements;
         allocated = filter (\<lambda>(eventId, _). eventId = mq_eventId q) allocations;
         legacy = filter (\<lambda>p. po_organizationId p = mq_organizationId q \<and> po_allocatedFrom p = None \<and> may_overlap q p) payouts
     in if claimed \<noteq> [] then CLAIMED_BY_PROVIDER (map sc_id claimed)
        else if allocated \<noteq> [] then CLAIMED_BY_PAYOUT (sort_cmp code_cmp (unique (map snd allocated)))
        else if legacy \<noteq> [] then UNKNOWN_LEGACY (sort_cmp code_cmp (map po_id legacy))
        else NOT_CLAIMED)"

definition mayRelease :: "event_membership \<Rightarrow> bool" where
  "mayRelease m \<longleftrightarrow> m = NOT_CLAIMED"

section \<open>Sample values\<close>

definition ex_sale :: "string \<Rightarrow> string \<Rightarrow> minor \<Rightarrow> allocation_booking_row" where
  "ex_sale i cur gross = \<lparr>rv_currency = cur, rv_subtotalMinor = gross, rv_discountMinor = 1000, rv_bookingFeeMinor = 500,
     rv_paymentFeeMinor = 200, rv_organizerFeeMinor = 300, ab_id = i, ab_eventId = ''e1''\<rparr>"

definition ex_return :: "string \<Rightarrow> minor \<Rightarrow> allocation_refund_row" where
  "ex_return i amount = \<lparr>rr_currency = ''INR'', rr_amountMinor = amount, rr_taxAddedMinor = Some 180,
     rr_platformFeeRefundedMinor = None, ar_bookingId = i, ar_refundEventId = ''e1''\<rparr>"

section \<open>The settlement\<close>

lemma refundByCurrency_value:
  "nvl (map_of (fold (\<lambda>row m. AList.update (upper (rr_currency row))
        (nvl (map_of m (upper (rr_currency row))) 0 + organizerShareOfRefund row) m) refunds m) c) 0 =
    nvl (map_of m c) 0 + sum_list (map organizerShareOfRefund (filter (\<lambda>r. upper (rr_currency r) = c) refunds))"
  by (induction refunds arbitrary: m) (auto simp: map_of_update)

lemma refund_of_currency:
  "nvl (map_of (refundByCurrency refunds) c) 0 =
    sum_list (map organizerShareOfRefund (filter (\<lambda>r. upper (rr_currency r) = c) refunds))"
  using refundByCurrency_value [of refunds "[]" c] by (simp add: refundByCurrency_def)

lemma refund_currencies: "fst ` set (refundByCurrency refunds) = (upper \<circ> rr_currency) ` set refunds"
  by (auto simp: refundByCurrency_def keys_fold_update)

lemma settlement_currencies:
  "set (map cs_currency (calculateCurrencySettlement revenue refunds)) =
    (upper \<circ> rv_currency) ` set revenue \<union> (upper \<circ> rr_currency) ` set refunds"
  "distinct (map cs_currency (calculateCurrencySettlement revenue refunds))"
proof -
  have c: "map cs_currency (map (settle_currency revenue m) cs) = cs" for m cs
    by (induction cs) (auto simp: settle_currency_def Let_def)
  show "set (map cs_currency (calculateCurrencySettlement revenue refunds)) =
    (upper \<circ> rv_currency) ` set revenue \<union> (upper \<circ> rr_currency) ` set refunds"
    unfolding calculateCurrencySettlement_def Let_def c using refund_currencies [of refunds] by auto
  show "distinct (map cs_currency (calculateCurrencySettlement revenue refunds))"
    unfolding calculateCurrencySettlement_def Let_def c
    by simp
qed

lemma settlement_row:
  assumes "s \<in> set (calculateCurrencySettlement revenue refunds)"
  defines "c \<equiv> cs_currency s"
  shows "cs_gross s = revenue_sum rv_subtotalMinor revenue c" "cs_discount s = revenue_sum rv_discountMinor revenue c"
    "cs_bookingFee s = revenue_sum rv_bookingFeeMinor revenue c" "cs_paymentFee s = revenue_sum rv_paymentFeeMinor revenue c"
    "cs_organizerFee s = revenue_sum rv_organizerFeeMinor revenue c"
    "cs_refund s = sum_list (map organizerShareOfRefund (filter (\<lambda>r. upper (rr_currency r) = c) refunds))"
    "cs_net s = cs_gross s - cs_discount s - cs_organizerFee s - cs_refund s"
  using assms(1) by (auto simp: calculateCurrencySettlement_def Let_def settle_currency_def refund_of_currency c_def)

text \<open>Grouping by a key loses nothing: the sums over the groups add up to the sum over the rows.\<close>

lemma sum_by_key:
  fixes f :: "'a \<Rightarrow> int"
  assumes "distinct ks" "key ` set xs \<subseteq> set ks"
  shows "sum_list (map (\<lambda>k. sum_list (map f (filter (\<lambda>x. key x = k) xs))) ks) = sum_list (map f xs)"
  using assms(2)
proof (induction xs)
  case (Cons x xs)
  have "sum_list (map (\<lambda>k. if key x = k then f x + g k else g k) ks) = f x + sum_list (map g ks)" if "key x \<in> set ks" for g
    using that assms(1) by (induction ks) (auto simp: fun_upd_def intro!: arg_cong [where f = sum_list] map_cong)
  then have "sum_list (map (\<lambda>k. sum_list (map f (filter (\<lambda>x. key x = k) (x # xs)))) ks) =
      f x + sum_list (map (\<lambda>k. sum_list (map f (filter (\<lambda>x. key x = k) xs))) ks)"
    using Cons.prems by (simp add: if_distrib cong: if_cong)
  with Cons show ?case by simp
qed simp

text \<open>
  A settlement loses nothing and counts nothing twice.  Every currency that has revenue or refunds,
  however it is spelled, settles exactly once, and the nets of all settlements add up to the tickets
  sold, less the discounts, the organizer's fees and the organizer's share of every refund.
\<close>

lemma settlement_complete:
  "set (map cs_currency (calculateCurrencySettlement revenue refunds)) =
     (upper \<circ> rv_currency) ` set revenue \<union> (upper \<circ> rr_currency) ` set refunds \<and>
   distinct (map cs_currency (calculateCurrencySettlement revenue refunds)) \<and>
   sum_list (map cs_net (calculateCurrencySettlement revenue refunds)) =
     sum_list (map rv_subtotalMinor revenue) - sum_list (map rv_discountMinor revenue) -
     sum_list (map rv_organizerFeeMinor revenue) - sum_list (map organizerShareOfRefund refunds)"
proof -
  let ?ss = "calculateCurrencySettlement revenue refunds"
  let ?cs = "map cs_currency ?ss"
  note d = settlement_currencies(2) [of revenue refunds] and k = settlement_currencies(1) [of revenue refunds]
  have r: "sum_list (map (revenue_sum key revenue) ?cs) = sum_list (map key revenue)" for key :: "_ \<Rightarrow> int"
    unfolding revenue_sum_def by (rule sum_by_key [OF d, unfolded k]) auto
  let ?share = "\<lambda>c. sum_list (map organizerShareOfRefund (filter (\<lambda>r. upper (rr_currency r) = c) refunds))"
  have rf: "sum_list (map ?share ?cs) = sum_list (map organizerShareOfRefund refunds)"
    by (rule sum_by_key [OF d, unfolded k]) auto
  have "map cs_net ?ss = map (\<lambda>c. revenue_sum rv_subtotalMinor revenue c - revenue_sum rv_discountMinor revenue c -
      revenue_sum rv_organizerFeeMinor revenue c - ?share c) ?cs"
    by (simp add: settlement_row)
  then show ?thesis using d k r rf by (simp only: sum_list_subtractf)
qed

section \<open>The allocation\<close>

definition field_total :: "(allocation_draft \<Rightarrow> int) \<Rightarrow> drafts_by_currency \<Rightarrow> string \<Rightarrow> int" where
  "field_total f m c = sum_list (map (f \<circ> snd) (nvl (map_of m c) []))"

text \<open>
  A component of a draft that a refund moves by an amount depending on its share only, whether the
  booking is in the payout or not.
\<close>

locale draft_field =
  fixes f :: "allocation_draft \<Rightarrow> int" and g :: "int \<Rightarrow> int"
  assumes charge_field: "f (charge share d) = f d + g share"
    and clawback_field: "f (clawback r share) = g share"
begin

lemma field_booking:
  "allocate_booking b m = Inr m' \<Longrightarrow>
    field_total f m' c = field_total f m c + (if upper (rv_currency b) = c then f (booking_draft b) else 0)"
  by (auto simp: allocate_booking_def slot_def field_total_def Let_def map_of_update sum_update split: option.splits)

lemma field_refund:
  "field_total f (allocate_refund r m) c =
    field_total f m c + (if upper (rr_currency r) = c then g (organizerShareOfRefund r) else 0)"
  by (auto simp: allocate_refund_def slot_def field_total_def Let_def map_of_update sum_update charge_field clawback_field
      split: option.splits)

lemma field_bookings:
  "rfold allocate_booking bs m = Inr m' \<Longrightarrow> field_total f m' c =
    field_total f m c + sum_list (map (f \<circ> booking_draft) (filter (\<lambda>b. upper (rv_currency b) = c) bs))"
  by (induction bs arbitrary: m) (auto simp: rbind_Inr_iff field_booking)

lemma field_refunds:
  "field_total f (fold allocate_refund rs m) c =
    field_total f m c + sum_list (map (g \<circ> organizerShareOfRefund) (filter (\<lambda>r. upper (rr_currency r) = c) rs))"
  by (induction rs arbitrary: m) (auto simp: field_refund)

lemma allocated_field:
  assumes "allocateCurrencySettlement bs rs = Inr out"
  shows "sum_list (map f (nvl (map_of out c) [])) =
    sum_list (map (f \<circ> booking_draft) (filter (\<lambda>b. upper (rv_currency b) = c) bs)) +
    sum_list (map (g \<circ> organizerShareOfRefund) (filter (\<lambda>r. upper (rr_currency r) = c) rs))"
proof -
  obtain m where m: "rfold allocate_booking bs [] = Inr m"
    and o: "out = map (\<lambda>(currency, drafts). (currency, sort_cmp by_booking_id (map snd drafts))) (fold allocate_refund rs m)"
    using assms by (auto simp: allocateCurrencySettlement_def rbind_Inr_iff)
  have "sum_list (map f (nvl (map_of out c) [])) = field_total f (fold allocate_refund rs m) c"
    unfolding o map_of_map by (cases "map_of (fold allocate_refund rs m) c") (simp_all add: field_total_def)
  moreover have "field_total f [] c = 0" by (simp add: field_total_def)
  ultimately show ?thesis using field_bookings [OF m, of c] by (simp add: field_refunds)
qed

end

lemmas draft_defs = charge_def clawback_def booking_draft_def

interpretation net: draft_field ad_allocatedNetMinor uminus by unfold_locales (simp_all add: draft_defs)

interpretation subtotal: draft_field ad_subtotalMinor "\<lambda>_. 0" by unfold_locales (simp_all add: draft_defs)

interpretation discount: draft_field ad_discountMinor "\<lambda>_. 0" by unfold_locales (simp_all add: draft_defs)

interpretation organizer_fee: draft_field ad_organizerFeeMinor "\<lambda>_. 0" by unfold_locales (simp_all add: draft_defs)

interpretation refund_share: draft_field ad_refundShareMinor "\<lambda>s. s" by unfold_locales (simp_all add: draft_defs)

interpretation booking_fee: draft_field ad_bookingFeeMinor "\<lambda>_. 0" by unfold_locales (simp_all add: draft_defs)

interpretation payment_fee: draft_field ad_paymentFeeMinor "\<lambda>_. 0" by unfold_locales (simp_all add: draft_defs)

lemma allocated_keys:
  assumes "allocateCurrencySettlement bs rs = Inr out"
  shows "fst ` set out = (upper \<circ> rv_currency) ` set bs \<union> (upper \<circ> rr_currency) ` set rs"
proof -
  obtain m where m: "rfold allocate_booking bs [] = Inr m"
    and o: "out = map (\<lambda>(currency, drafts). (currency, sort_cmp by_booking_id (map snd drafts))) (fold allocate_refund rs m)"
    using assms by (auto simp: allocateCurrencySettlement_def rbind_Inr_iff)
  have "rfold allocate_booking bs m0 = Inr m1 \<Longrightarrow> fst ` set m1 = (upper \<circ> rv_currency) ` set bs \<union> fst ` set m0" for m0 m1
    by (induction bs arbitrary: m0)
       (auto simp: rbind_Inr_iff allocate_booking_def Let_def fst_update split: option.splits)
  from this [OF m] have "fst ` set (fold allocate_refund rs m) = (upper \<circ> rv_currency) ` set bs \<union> (upper \<circ> rr_currency) ` set rs"
    unfolding allocate_refund_def Let_def keys_fold_update by auto
  then show ?thesis unfolding o by (simp add: image_image case_prod_unfold)
qed

text \<open>
  C2.  A payout is always explained by its bookings.  The allocations made from the rows a settlement was
  calculated from cover exactly its currencies, and in each currency they add up to it in every
  component: net, tickets, discounts, organizer fees, refunds, booking fees and payment fees.  The gate
  that refuses a payout whose allocations do not add up therefore never fires.
\<close>

theorem allocations_explain_settlement:
  assumes "allocateCurrencySettlement bookings refunds = Inr out"
    and "s \<in> set (calculateCurrencySettlement bookings refunds)"
  shows "allocation_gate s out \<and> fst ` set out = set (map cs_currency (calculateCurrencySettlement bookings refunds)) \<and>
    (\<exists>drafts. map_of out (cs_currency s) = Some drafts \<and>
      sum_list (map ad_subtotalMinor drafts) = cs_gross s \<and> sum_list (map ad_discountMinor drafts) = cs_discount s \<and>
      sum_list (map ad_organizerFeeMinor drafts) = cs_organizerFee s \<and> sum_list (map ad_refundShareMinor drafts) = cs_refund s \<and>
      sum_list (map ad_bookingFeeMinor drafts) = cs_bookingFee s \<and> sum_list (map ad_paymentFeeMinor drafts) = cs_paymentFee s)"
proof -
  let ?c = "cs_currency s"
  note row = settlement_row [OF assms(2)]
  have keys: "fst ` set out = set (map cs_currency (calculateCurrencySettlement bookings refunds))"
    using allocated_keys [OF assms(1)] settlement_currencies(1) [of bookings refunds] by simp
  then have "?c \<in> fst ` set out" using assms(2) by simp
  then obtain drafts where d: "map_of out ?c = Some drafts" by (metis map_of_eq_None_iff not_None_eq)
  note fields = net.allocated_field [OF assms(1), of ?c] subtotal.allocated_field [OF assms(1), of ?c]
    discount.allocated_field [OF assms(1), of ?c] organizer_fee.allocated_field [OF assms(1), of ?c]
    refund_share.allocated_field [OF assms(1), of ?c] booking_fee.allocated_field [OF assms(1), of ?c]
    payment_fee.allocated_field [OF assms(1), of ?c]
  have neg: "sum_list (map (uminus \<circ> organizerShareOfRefund) xs) = - sum_list (map organizerShareOfRefund xs)" for xs :: "allocation_refund_row list"
    by (induction xs) auto
  have "allocatedNet drafts = cs_net s"
    using fields(1) by (simp add: d allocatedNet_def row revenue_sum_def booking_draft_def comp_def sum_list_subtractf
        neg [unfolded comp_def])
  moreover have "sum_list (map ad_subtotalMinor drafts) = cs_gross s" "sum_list (map ad_discountMinor drafts) = cs_discount s"
    "sum_list (map ad_organizerFeeMinor drafts) = cs_organizerFee s" "sum_list (map ad_refundShareMinor drafts) = cs_refund s"
    "sum_list (map ad_bookingFeeMinor drafts) = cs_bookingFee s" "sum_list (map ad_paymentFeeMinor drafts) = cs_paymentFee s"
    using fields(2-) by (simp_all add: d row revenue_sum_def booking_draft_def comp_def)
  ultimately show ?thesis using d keys by (simp add: allocation_gate_def)
qed

theorem allocations_explain_settlement_witness:
  "let bs = [ex_sale ''b2'' ''inr'' 50000, ex_sale ''b1'' ''INR'' 30000]; rs = [ex_return ''b2'' 10180, ex_return ''old'' 5180] in
   \<exists>out s. allocateCurrencySettlement bs rs = Inr out \<and> calculateCurrencySettlement bs rs = [s] \<and> cs_net s = 62400 \<and>
     allocation_gate s out"
proof -
  let ?bs = "[ex_sale ''b2'' ''inr'' 50000, ex_sale ''b1'' ''INR'' 30000]"
  let ?rs = "[ex_return ''b2'' 10180, ex_return ''old'' 5180]"
  have "isl (allocateCurrencySettlement ?bs ?rs) = False" by code_simp
  then obtain out where out: "allocateCurrencySettlement ?bs ?rs = Inr out"
    by (cases "allocateCurrencySettlement ?bs ?rs") auto
  have s: "map cs_net (calculateCurrencySettlement ?bs ?rs) = [62400]" by code_simp
  then obtain s where s: "calculateCurrencySettlement ?bs ?rs = [s]" "cs_net s = 62400" by auto
  show ?thesis using allocations_explain_settlement [OF out, of s] out s by simp
qed

lemma allocate_bookings_ok:
  "(\<exists>m'. rfold allocate_booking bs m = Inr m') \<longleftrightarrow>
    distinct (map (\<lambda>b. (upper (rv_currency b), ab_id b)) bs) \<and>
    (\<forall>b \<in> set bs. map_of (slot (rv_currency b) m) (ab_id b) = None)"
proof (induction bs arbitrary: m)
  case (Cons b bs)
  show ?case
  proof (cases "map_of (slot (rv_currency b) m) (ab_id b)")
    case None
    let ?m = "AList.update (upper (rv_currency b)) (AList.update (ab_id b) (booking_draft b) (slot (rv_currency b) m)) m"
    have "map_of (slot (rv_currency b') ?m) (ab_id b') = None \<longleftrightarrow>
        map_of (slot (rv_currency b') m) (ab_id b') = None \<and> (upper (rv_currency b'), ab_id b') \<noteq> (upper (rv_currency b), ab_id b)" for b'
      by (auto simp: slot_def map_of_update)
    moreover have "rfold allocate_booking (b # bs) m = rfold allocate_booking bs ?m"
      using None by (simp add: allocate_booking_def Let_def)
    ultimately show ?thesis using Cons.IH [of ?m] None by (auto simp: image_iff)
  qed (simp add: allocate_booking_def Let_def)
qed simp

text \<open>
  The allocation is refused exactly when the rows name one booking twice in one currency, however the
  currency is spelled; it never double-counts a booking and never refuses anything else.
\<close>

lemma allocation_refused_iff_duplicate:
  "isl (allocateCurrencySettlement bookings refunds) \<longleftrightarrow>
    \<not> distinct (map (\<lambda>b. (upper (rv_currency b), ab_id b)) bookings)"
  using allocate_bookings_ok [of bookings "[]"]
  by (cases "rfold allocate_booking bookings []") (auto simp: allocateCurrencySettlement_def slot_def)

section \<open>Release\<close>

text \<open>
  Money is released only on proof: an event's revenue may be released only when no provider
  transfer claims it, no payout allocation names it, and every payout of its organization whose period
  contains any instant of the event's revenue window records its allocations: a payout that does not say
  what it covers is never read as covering nothing.
\<close>

lemma released_only_on_proof:
  assumes "mayRelease (eventMembership settlements allocations payouts q)"
    and "mq_revenueFrom q \<le> t" "t \<le> mq_revenueTo q"
  shows "(\<forall>s \<in> set settlements. sc_claimEventId s = mq_eventId q \<longrightarrow> sc_status s \<notin> set SETTLEMENT_CLAIMED_STATUSES) \<and>
    mq_eventId q \<notin> fst ` set allocations \<and>
    (\<forall>p \<in> set payouts. po_organizationId p = mq_organizationId q \<longrightarrow>
      (case po_periodStart p of None \<Rightarrow> True | Some a \<Rightarrow> a \<le> t) \<longrightarrow> (case po_periodEnd p of None \<Rightarrow> True | Some e \<Rightarrow> t \<le> e) \<longrightarrow>
      po_allocatedFrom p \<noteq> None)"
proof -
  have n: "filter (\<lambda>s. sc_claimEventId s = mq_eventId q \<and> sc_status s \<in> set SETTLEMENT_CLAIMED_STATUSES) settlements = []"
    "filter (\<lambda>(eventId, _). eventId = mq_eventId q) allocations = []"
    "filter (\<lambda>p. po_organizationId p = mq_organizationId q \<and> po_allocatedFrom p = None \<and> may_overlap q p) payouts = []"
    using assms(1) by (simp_all add: mayRelease_def eventMembership_def Let_def split: if_splits)
  have "may_overlap q p" if "case po_periodStart p of None \<Rightarrow> True | Some a \<Rightarrow> a \<le> t"
    "case po_periodEnd p of None \<Rightarrow> True | Some e \<Rightarrow> t \<le> e" for p
    using that assms(2,3) by (auto simp: may_overlap_def split: option.splits)
  then show ?thesis using n by (auto simp: filter_empty_conv)
qed

lemma released_only_on_proof_witness:
  "let q = \<lparr>mq_organizationId = ''o1'', mq_eventId = ''e1'', mq_revenueFrom = 100, mq_revenueTo = 200\<rparr>;
       old = \<lparr>po_id = ''p1'', po_organizationId = ''o1'', po_allocatedFrom = None, po_periodStart = None, po_periodEnd = Some 90\<rparr>
   in mayRelease (eventMembership [] [(''e2'', ''p2'')] [old] q) \<and> ''e1'' \<notin> fst ` set [(''e2'', ''p2'')] \<and>
      \<not> mayRelease (eventMembership [] [(''e2'', ''p2'')] [old\<lparr>po_periodEnd := Some 100\<rparr>] q)"
  using released_only_on_proof [of "[]" "[(''e2'', ''p2'')]"
      "[\<lparr>po_id = ''p1'', po_organizationId = ''o1'', po_allocatedFrom = None, po_periodStart = None, po_periodEnd = Some 90\<rparr>]"
      "\<lparr>mq_organizationId = ''o1'', mq_eventId = ''e1'', mq_revenueFrom = 100, mq_revenueTo = 200\<rparr>" 150]
  by (simp add: mayRelease_def eventMembership_def may_overlap_def)

end
