(* ===== verification/RefundTax.thy ===== *)
theory RefundTax
  imports JsNumber JsSort
begin

text \<open>
  What a refund gives back: \<^verbatim>\<open>refunds/refund-eligibility.ts\<close> (whether a booking may be refunded) and
  \<^verbatim>\<open>refunds/refund-tax.ts\<close> (what each ticket cost after the discount, and the tax that goes back with it).
  The tickets of a booking are laid end to end in a fixed order and every amount is dealt out over that line
  by differences of rounded cumulative figures, so the pieces telescope.  \<open>lc\<close> is the string order
  \<^verbatim>\<open>localeCompare\<close>; nothing below depends on which order it is.  A \<^verbatim>\<open>Map\<close> keyed by ticket is an association
  list in insertion order.
\<close>

section \<open>Data\<close>

datatype refund_reason = StatusNotRefundable booking_status | RefundsNotOffered | RefundsClosed int

record refund_eligibility_input =
  re_bookingStatus :: booking_status
  re_sessionStartsAt :: time_ms
  re_now :: time_ms
  re_refundsEnabled :: "bool option"
  re_policyHours :: "int option"
  re_sessionCancelled :: "bool option"

record tax_snapshot =
  tx_label :: string
  tx_rateBasisPoints :: bps
  tx_baseMinor :: minor
  tx_amountMinor :: minor
  tx_basis :: "string option"
  tx_inclusive :: "bool option"

record refund_tax_line =
  rl_label :: string
  rl_rateBasisPoints :: bps
  rl_basis :: "string option"
  rl_inclusive :: bool
  rl_baseMinor :: minor
  rl_amountMinor :: minor

record refund_tax =
  rt_addedMinor :: minor
  rt_includedMinor :: minor
  rt_taxMinor :: minor
  rt_lines :: "refund_tax_line list"

record refund_item =
  ri_id :: "string option"
  ri_ticketTypeId :: "string option"
  ri_unitPriceMinor :: minor
  ri_quantity :: "int option"

record refund_ticket =
  rk_id :: string
  rk_ticketTypeId :: string

type_synonym stretch = "minor \<times> minor"
type_synonym net_by_ticket = "(string \<times> minor) list"

section \<open>Eligibility\<close>

text \<open>\<open>None\<close> is an eligible booking.\<close>

definition checkRefundEligibility :: "refund_eligibility_input \<Rightarrow> refund_reason option" where
  "checkRefundEligibility i =
    (if re_bookingStatus i \<notin> {BK_CONFIRMED, BK_PARTIALLY_REFUNDED} then Some (StatusNotRefundable (re_bookingStatus i))
     else if re_sessionCancelled i = Some True then None
     else if re_refundsEnabled i = Some False then Some RefundsNotOffered
     else let policyHours = nvl (re_policyHours i) 48; cutoff = re_sessionStartsAt i - policyHours * 60 * 60 * 1000
          in if cutoff \<le> re_now i then Some (RefundsClosed policyHours) else None)"

section \<open>The tax that goes back\<close>

definition upTo :: "minor \<Rightarrow> minor \<Rightarrow> minor \<Rightarrow> minor" where
  "upTo amount whole x =
    (let clamped = min (max 0 x) whole in if whole \<le> clamped then amount else round_div (amount * clamped) whole)"

definition dealt :: "stretch list \<Rightarrow> minor \<Rightarrow> minor \<Rightarrow> minor" where
  "dealt stretches amount whole =
    (if whole \<le> 0 then 0
     else fold (\<lambda>(from, to) total'. total' + upTo amount whole to - upTo amount whole from) stretches 0)"

definition refund_line :: "stretch list \<Rightarrow> minor \<Rightarrow> tax_snapshot \<Rightarrow> refund_tax_line" where
  "refund_line stretches bookingTicketsMinor line =
    (if tx_basis line = Some ''FEES''
     then \<lparr>rl_label = tx_label line, rl_rateBasisPoints = tx_rateBasisPoints line, rl_basis = tx_basis line,
           rl_inclusive = (tx_inclusive line = Some True), rl_baseMinor = tx_baseMinor line, rl_amountMinor = tx_amountMinor line\<rparr>
     else if tx_inclusive line = Some True
     then \<lparr>rl_label = tx_label line, rl_rateBasisPoints = tx_rateBasisPoints line, rl_basis = tx_basis line,
           rl_inclusive = True, rl_baseMinor = dealt stretches (tx_baseMinor line) bookingTicketsMinor,
           rl_amountMinor = dealt stretches (tx_amountMinor line) bookingTicketsMinor\<rparr>
     else \<lparr>rl_label = tx_label line, rl_rateBasisPoints = tx_rateBasisPoints line, rl_basis = tx_basis line,
           rl_inclusive = False, rl_baseMinor = dealt stretches (tx_baseMinor line) (tx_baseMinor line),
           rl_amountMinor = dealt stretches (tx_amountMinor line) (tx_baseMinor line)\<rparr>)"

definition refunded_lines :: "bool \<Rightarrow> tax_snapshot list \<Rightarrow> tax_snapshot list" where
  "refunded_lines includeFeeTax lines = filter (\<lambda>l. \<not> (tx_basis l = Some ''FEES'' \<and> \<not> includeFeeTax)) lines"

definition taxOverStretches :: "tax_snapshot list \<Rightarrow> stretch list \<Rightarrow> minor \<Rightarrow> bool \<Rightarrow> refund_tax" where
  "taxOverStretches lines stretches bookingTicketsMinor includeFeeTax =
    (let out = map (refund_line stretches bookingTicketsMinor) (refunded_lines includeFeeTax lines);
         added = sum_list (map rl_amountMinor (filter (\<lambda>l. \<not> rl_inclusive l) out));
         included = sum_list (map rl_amountMinor (filter rl_inclusive out))
     in \<lparr>rt_addedMinor = added, rt_includedMinor = included, rt_taxMinor = added + included, rt_lines = out\<rparr>)"

definition refundTax :: "tax_snapshot list \<Rightarrow> minor \<Rightarrow> minor \<Rightarrow> bool \<Rightarrow> refund_tax" where
  "refundTax lines ticketsMinor bookingTicketsMinor includeFeeTax =
    taxOverStretches lines [(0, max 0 ticketsMinor)] bookingTicketsMinor includeFeeTax"

fun stretches_of :: "net_by_ticket \<Rightarrow> string set \<Rightarrow> string list \<Rightarrow> minor \<Rightarrow> stretch list" where
  "stretches_of net wanted [] position = []"
| "stretches_of net wanted (i # ids) position =
    (let n = nvl (map_of net i) 0; rest = stretches_of net wanted ids (position + n)
     in if i \<in> wanted then (position, position + n) # rest else rest)"

definition refundTaxForTickets ::
  "string cmp \<Rightarrow> tax_snapshot list \<Rightarrow> net_by_ticket \<Rightarrow> string list \<Rightarrow> minor \<Rightarrow> bool \<Rightarrow> refund_tax" where
  "refundTaxForTickets lc lines netByTicket ticketIds bookingTicketsMinor includeFeeTax =
    taxOverStretches lines (stretches_of netByTicket (set ticketIds) (sort_cmp lc (map fst netByTicket)) 0)
      bookingTicketsMinor includeFeeTax"

section \<open>What each ticket cost\<close>

definition item_units :: "refund_item \<Rightarrow> minor list" where
  "item_units i = replicate (nat (nvl (ri_quantity i) 1)) (ri_unitPriceMinor i)"

definition unitsByType :: "refund_item list \<Rightarrow> string \<Rightarrow> minor list" where
  "unitsByType ticketItems t = concat (map item_units (filter (\<lambda>i. ri_ticketTypeId i = Some t) ticketItems))"

definition scale :: "minor option \<Rightarrow> minor option \<Rightarrow> minor \<Rightarrow> minor" where
  "scale subtotalMinor discountMinor gross =
    (let subtotal = nvl subtotalMinor 0; discount = min (max 0 (nvl discountMinor 0)) (max 0 subtotal)
     in if 0 < subtotal \<and> 0 < discount then round_div (gross * (subtotal - discount)) subtotal else gross)"

text \<open>\<^verbatim>\<open>units[Math.min(index, units.length - 1)] ?? 0\<close>.\<close>

definition unit_price :: "minor list \<Rightarrow> nat \<Rightarrow> minor" where
  "unit_price units index = (if units = [] then 0 else units ! min index (length units - 1))"

fun deal_tickets ::
  "(string \<Rightarrow> minor list) \<Rightarrow> (minor \<Rightarrow> minor) \<Rightarrow> refund_ticket list \<Rightarrow> (string \<Rightarrow> nat) \<Rightarrow> minor \<Rightarrow> minor \<Rightarrow> net_by_ticket \<Rightarrow> net_by_ticket" where
  "deal_tickets units sc [] dealt' cumulativeGross cumulativeNet m = m"
| "deal_tickets units sc (t # ts) dealt' cumulativeGross cumulativeNet m =
    (let index = dealt' (rk_ticketTypeId t);
         gross = cumulativeGross + unit_price (units (rk_ticketTypeId t)) index;
         next' = sc gross
     in deal_tickets units sc ts (dealt'(rk_ticketTypeId t := index + 1)) gross next'
          (AList.update (rk_id t) (next' - cumulativeNet) m))"

definition ticketNetPrices ::
  "string cmp \<Rightarrow> refund_item list \<Rightarrow> refund_ticket list \<Rightarrow> minor option \<Rightarrow> minor option \<Rightarrow> net_by_ticket \<times> minor" where
  "ticketNetPrices lc items tickets subtotalMinor discountMinor =
    (let ticketItems = sort_cmp (\<lambda>a b. lc (nvl (ri_id a) []) (nvl (ri_id b) [])) (filter (\<lambda>i. truthy (ri_ticketTypeId i)) items);
         itemsGross = sum_list (map (\<lambda>i. ri_unitPriceMinor i * nvl (ri_quantity i) 1) ticketItems);
         sc = scale subtotalMinor discountMinor
     in (deal_tickets (unitsByType ticketItems) sc (sort_cmp (\<lambda>a b. lc (rk_id a) (rk_id b)) tickets) (\<lambda>_. 0) 0 0 [],
         sc itemsGross))"

section \<open>Sample values\<close>

definition ex_gst :: "bool \<Rightarrow> minor \<Rightarrow> minor \<Rightarrow> tax_snapshot" where
  "ex_gst incl base amount = \<lparr>tx_label = ''GST'', tx_rateBasisPoints = 1800, tx_baseMinor = base, tx_amountMinor = amount,
     tx_basis = Some ''TICKETS'', tx_inclusive = Some incl\<rparr>"

definition ex_refund_items :: "refund_item list" where
  "ex_refund_items = [\<lparr>ri_id = Some ''i1'', ri_ticketTypeId = Some ''std'', ri_unitPriceMinor = 3335, ri_quantity = Some 3\<rparr>]"

definition ex_refund_tickets :: "refund_ticket list" where
  "ex_refund_tickets = map (\<lambda>i. \<lparr>rk_id = i, rk_ticketTypeId = ''std''\<rparr>) [''t1'', ''t2'', ''t3'']"

section \<open>Shares telescope\<close>

text \<open>What a cumulative figure \<open>u\<close> assigns to the stretches of the wanted tickets.\<close>

definition stretch_sum :: "(minor \<Rightarrow> minor) \<Rightarrow> stretch list \<Rightarrow> minor" where
  "stretch_sum u ss = sum_list (map (\<lambda>(from, to). u to - u from) ss)"

lemma dealt_stretch_sum: "dealt ss amount whole = (if whole \<le> 0 then 0 else stretch_sum (upTo amount whole) ss)"
proof -
  have "fold (\<lambda>(from, to) total'. total' + u to - u from) ss a = a + stretch_sum u ss" for u :: "minor \<Rightarrow> minor" and a
    by (induction ss arbitrary: a) (auto simp: stretch_sum_def)
  then show ?thesis by (simp add: dealt_def)
qed

lemma stretch_sum_disjoint:
  "A \<inter> B = {} \<Longrightarrow> stretch_sum u (stretches_of net (A \<union> B) ids p) =
    stretch_sum u (stretches_of net A ids p) + stretch_sum u (stretches_of net B ids p)"
  by (induction ids arbitrary: p) (auto simp: stretch_sum_def Let_def)

lemma stretch_sum_empty: "stretch_sum u (stretches_of net {} ids p) = 0"
  by (induction ids arbitrary: p) (auto simp: stretch_sum_def Let_def)

lemma stretch_sum_parts:
  "distinct (concat parts) \<Longrightarrow> sum_list (map (\<lambda>part. stretch_sum u (stretches_of net (set part) ids p)) parts) =
    stretch_sum u (stretches_of net (set (concat parts)) ids p)"
proof (induction parts)
  case (Cons a parts)
  then have "set a \<inter> set (concat parts) = {}" by auto
  from stretch_sum_disjoint [OF this, of u net ids p] Cons show ?case by simp
qed (simp add: stretch_sum_empty)

lemma stretch_sum_all:
  "set ids \<subseteq> wanted \<Longrightarrow> stretch_sum u (stretches_of net wanted ids p) =
    u (p + sum_list (map (\<lambda>i. nvl (map_of net i) 0) ids)) - u p"
  by (induction ids arbitrary: p) (auto simp: stretch_sum_def Let_def add.assoc)

lemma stretch_sum_bounds:
  assumes "\<And>x y. x \<le> y \<Longrightarrow> u x \<le> u y" "\<And>i. 0 \<le> nvl (map_of net i) 0"
  shows "0 \<le> stretch_sum u (stretches_of net wanted ids p) \<and>
    stretch_sum u (stretches_of net wanted ids p) \<le> u (p + sum_list (map (\<lambda>i. nvl (map_of net i) 0) ids)) - u p"
proof (induction ids arbitrary: p)
  case (Cons i ids)
  have "u p \<le> u (p + nvl (map_of net i) 0)" using assms by simp
  with Cons [of "p + nvl (map_of net i) 0"] show ?case by (auto simp: stretch_sum_def Let_def add.assoc)
qed (simp add: stretch_sum_def)

lemma upTo_ends: "0 < whole \<Longrightarrow> upTo amount whole 0 = 0" "whole \<le> x \<Longrightarrow> upTo amount whole x = amount"
  by (simp_all add: upTo_def)

lemma upTo_bounds: "0 < whole \<Longrightarrow> 0 \<le> amount \<Longrightarrow> upTo amount whole x \<le> amount"
  by (auto simp: upTo_def Let_def min_def max_def round_div_le_self)

lemma upTo_mono:
  assumes "x \<le> y" "0 < whole" "0 \<le> amount"
  shows "upTo amount whole x \<le> upTo amount whole y"
proof (cases "whole \<le> y")
  case True
  then show ?thesis using upTo_bounds [OF assms(2,3)] by (simp add: upTo_ends)
next
  case False
  then have "round_div (amount * max 0 x) whole \<le> round_div (amount * max 0 y) whole"
    using assms by (intro round_div_mono mult_left_mono) auto
  with False assms show ?thesis by (auto simp: upTo_def Let_def min_def max_def split: if_splits)
qed

lemma sum_net_sorted:
  fixes net :: net_by_ticket
  assumes "distinct (map fst net)"
  shows "sum_list (map (\<lambda>i. nvl (map_of net i) 0) (sort_cmp lc (map fst net))) = sum_list (map snd net)"
proof -
  have "sum_list (map (\<lambda>i. nvl (map_of net i) 0) (sort_cmp lc (map fst net))) =
      sum_list (map (\<lambda>i. nvl (map_of net i) 0) (map fst net))"
    by (rule sum_list_sort_cmp)
  also have "map (\<lambda>i. nvl (map_of net i) 0) (map fst net) = map snd net"
    using assms by (auto simp: map_of_is_SomeI)
  finally show ?thesis .
qed

section \<open>All refunds of a booking\<close>

text \<open>The tax lines that follow the tickets, split by whether the tax was added to the price.\<close>

definition ticket_lines_tax :: "bool \<Rightarrow> tax_snapshot list \<Rightarrow> tax_snapshot list" where
  "ticket_lines_tax incl lines = filter (\<lambda>l. tx_basis l \<noteq> Some ''FEES'' \<and> (tx_inclusive l = Some True) = incl) lines"

definition line_whole :: "minor \<Rightarrow> tax_snapshot \<Rightarrow> minor" where
  "line_whole B l = (if tx_inclusive l = Some True then B else tx_baseMinor l)"

lemma refund_sums:
  "rt_addedMinor (taxOverStretches lines ss B False) =
     sum_list (map (\<lambda>l. dealt ss (tx_amountMinor l) (line_whole B l)) (ticket_lines_tax False lines))"
  "rt_includedMinor (taxOverStretches lines ss B False) =
     sum_list (map (\<lambda>l. dealt ss (tx_amountMinor l) (line_whole B l)) (ticket_lines_tax True lines))"
  by (induction lines) (auto simp: taxOverStretches_def Let_def refunded_lines_def refund_line_def ticket_lines_tax_def line_whole_def)

lemma sum_list_swap:
  "sum_list (map (\<lambda>a. sum_list (map (f a) ys)) xs) = sum_list (map (\<lambda>b. sum_list (map (\<lambda>a. f a b) xs)) ys)" for f :: "'a \<Rightarrow> 'b \<Rightarrow> int"
  by (induction xs) (auto simp: sum_list_addf)

lemma parts_dealt:
  fixes lc :: "string cmp" and net :: net_by_ticket and amount whole :: minor
  assumes "distinct (concat parts)" "distinct (map fst net)"
  defines "ids \<equiv> sort_cmp lc (map fst net)"
  shows "set (concat parts) = fst ` set net \<Longrightarrow> 0 < whole \<Longrightarrow> whole \<le> sum_list (map snd net) \<Longrightarrow>
      sum_list (map (\<lambda>part. dealt (stretches_of net (set part) ids 0) amount whole) parts) = amount"
    and "\<forall>v \<in> set (map snd net). 0 \<le> v \<Longrightarrow> 0 \<le> amount \<Longrightarrow>
      sum_list (map (\<lambda>part. dealt (stretches_of net (set part) ids 0) amount whole) parts) \<le> amount"
proof -
  let ?s = "\<lambda>W. stretch_sum (upTo amount whole) (stretches_of net W ids 0)"
  have total': "sum_list (map (\<lambda>i. nvl (map_of net i) 0) ids) = sum_list (map snd net)"
    unfolding ids_def by (rule sum_net_sorted [OF assms(2)])
  have sum: "sum_list (map (\<lambda>part. dealt (stretches_of net (set part) ids 0) amount whole) parts) = ?s (set (concat parts))" if "0 < whole"
    using that stretch_sum_parts [OF assms(1), of "upTo amount whole" net ids 0] by (simp add: dealt_stretch_sum)
  {
    assume c: "set (concat parts) = fst ` set net" "0 < whole" "whole \<le> sum_list (map snd net)"
    have "?s (set (concat parts)) = amount"
      using c stretch_sum_all [of ids "set (concat parts)" "upTo amount whole" net 0] total'
      by (simp add: ids_def upTo_ends)
    then show "sum_list (map (\<lambda>part. dealt (stretches_of net (set part) ids 0) amount whole) parts) = amount"
      using sum c by simp
  }
  {
    assume p: "\<forall>v \<in> set (map snd net). 0 \<le> v" "0 \<le> amount"
    show "sum_list (map (\<lambda>part. dealt (stretches_of net (set part) ids 0) amount whole) parts) \<le> amount"
    proof (cases "0 < whole")
      case True
      have nn: "0 \<le> nvl (map_of net i) 0" for i
        using p(1) by (cases "map_of net i") (auto dest!: map_of_SomeD)
      have "?s (set (concat parts)) \<le> upTo amount whole (0 + sum_list (map (\<lambda>i. nvl (map_of net i) 0) ids)) - upTo amount whole 0"
        using stretch_sum_bounds [of "upTo amount whole" net "set (concat parts)" ids 0] upTo_mono [OF _ True p(2)] nn by blast
      with sum True upTo_bounds [OF True p(2)] show ?thesis by (simp add: upTo_ends) (meson order_trans)
    qed (use p in \<open>simp add: dealt_stretch_sum sum_list_triv\<close>)
  }
qed

text \<open>
  Refunds never give back more tax than was charged.  However a booking's tickets are spread over
  refunds, as long as no ticket is returned twice, the tax the refunds return on top of the ticket price
  is at most the tax that was added to it, and the tax they return inside the price at most the tax that
  was inside it; tax on fees is never returned with tickets.
\<close>

lemma refund_tax_bounded:
  assumes "distinct (concat parts)" "distinct (map fst net)" "\<forall>v \<in> set (map snd net). 0 \<le> v"
    and "\<forall>l \<in> set lines. 0 \<le> tx_amountMinor l"
  shows "sum_list (map (\<lambda>part. rt_addedMinor (refundTaxForTickets lc lines net part B False)) parts) \<le>
      sum_list (map tx_amountMinor (ticket_lines_tax False lines)) \<and>
    sum_list (map (\<lambda>part. rt_includedMinor (refundTaxForTickets lc lines net part B False)) parts) \<le>
      sum_list (map tx_amountMinor (ticket_lines_tax True lines))"
proof -
  have "sum_list (map (\<lambda>l. sum_list (map (\<lambda>part. dealt (stretches_of net (set part) (sort_cmp lc (map fst net)) 0)
      (tx_amountMinor l) (line_whole B l)) parts)) (ticket_lines_tax incl lines)) \<le>
    sum_list (map tx_amountMinor (ticket_lines_tax incl lines))" for incl
    using assms(4) by (intro sum_list_mono parts_dealt(2) [OF assms(1-3)]) (auto simp: ticket_lines_tax_def)
  then show ?thesis unfolding refundTaxForTickets_def refund_sums sum_list_swap [where xs = parts] by blast
qed

lemma refund_tax_bounded_witness:
  "let lines = [ex_gst False 10005 1801]; net = [(''t1'', 3335), (''t2'', 3335), (''t3'', 3335)] in
   sum_list (map (\<lambda>part. rt_addedMinor (refundTaxForTickets (\<lambda>_ _. 0) lines net part 10005 False)) [[''t2''], [''t1'']]) \<le> 1801"
  using refund_tax_bounded [of "[[''t2''], [''t1'']]" "[(''t1'', 3335), (''t2'', 3335), (''t3'', 3335)]"
      "[ex_gst False 10005 1801]" "\<lambda>_ _. 0" 10005]
  by (simp add: ticket_lines_tax_def ex_gst_def)

lemma refund_tax_exact:
  assumes "distinct (concat parts)" "distinct (map fst net)" "set (concat parts) = fst ` set net"
    and "\<forall>l \<in> set (ticket_lines_tax incl lines). 0 < line_whole B l \<and> line_whole B l \<le> sum_list (map snd net)"
  shows "sum_list (map (\<lambda>part. (if incl then rt_includedMinor else rt_addedMinor) (refundTaxForTickets lc lines net part B False)) parts) =
    sum_list (map tx_amountMinor (ticket_lines_tax incl lines))"
proof -
  have "sum_list (map (\<lambda>l. sum_list (map (\<lambda>part. dealt (stretches_of net (set part) (sort_cmp lc (map fst net)) 0)
      (tx_amountMinor l) (line_whole B l)) parts)) (ticket_lines_tax incl lines)) =
    sum_list (map tx_amountMinor (ticket_lines_tax incl lines))"
    using assms(4) by (intro arg_cong [where f = sum_list] map_cong refl parts_dealt(1) [OF assms(1-3)]) auto
  then show ?thesis unfolding refundTaxForTickets_def by (cases incl) (simp_all add: refund_sums sum_list_swap [where xs = parts])
qed

section \<open>What the tickets cost\<close>

fun price_sum :: "(string \<Rightarrow> minor list) \<Rightarrow> refund_ticket list \<Rightarrow> (string \<Rightarrow> nat) \<Rightarrow> minor" where
  "price_sum units [] d = 0"
| "price_sum units (t # ts) d = unit_price (units (rk_ticketTypeId t)) (d (rk_ticketTypeId t)) +
    price_sum units ts (d(rk_ticketTypeId t := d (rk_ticketTypeId t) + 1))"

lemma deal_tickets_sum:
  assumes "distinct (map rk_id ts)" "set (map rk_id ts) \<inter> fst ` set m = {}" "distinct (map fst m)"
  shows "sum_list (map snd (deal_tickets units sc ts d G (sc G) m)) = sum_list (map snd m) + sc (G + price_sum units ts d) - sc G \<and>
    fst ` set (deal_tickets units sc ts d G (sc G) m) = set (map rk_id ts) \<union> fst ` set m \<and>
    distinct (map fst (deal_tickets units sc ts d G (sc G) m))"
  using assms
proof (induction ts arbitrary: d G m)
  case (Cons t ts)
  let ?G = "G + unit_price (units (rk_ticketTypeId t)) (d (rk_ticketTypeId t))"
  let ?m = "AList.update (rk_id t) (sc ?G - sc G) m"
  have new: "map_of m (rk_id t) = None" using Cons.prems(2) by (auto simp: map_of_eq_None_iff)
  have s: "sum_list (map snd ?m) = sum_list (map snd m) + (sc ?G - sc G)"
    using sum_update [of "\<lambda>v. v" "rk_id t" "sc ?G - sc G" m] new by (simp add: comp_def)
  have k: "set (map rk_id ts) \<inter> fst ` set ?m = {}" "distinct (map fst ?m)"
    using Cons.prems by (auto simp: fst_update distinct_update)
  show ?case
    using Cons.IH [OF _ k, of "d(rk_ticketTypeId t := d (rk_ticketTypeId t) + 1)" ?G] Cons.prems s
    by (simp add: Let_def fst_update add.assoc fun_upd_def)
qed simp

lemma price_sum_units:
  assumes "\<And>t. d t + count_list (map rk_ticketTypeId ts) t \<le> length (units t)" "finite T" "rk_ticketTypeId ` set ts \<subseteq> T"
  shows "price_sum units ts d = (\<Sum>t \<in> T. sum_list (take (count_list (map rk_ticketTypeId ts) t) (drop (d t) (units t))))"
  using assms(1,3)
proof (induction ts arbitrary: d)
  case (Cons x xs)
  let ?t = "rk_ticketTypeId x"
  let ?c = "count_list (map rk_ticketTypeId xs)"
  have len: "d ?t < length (units ?t)" using Cons.prems(1) [of ?t] by simp
  have "(d(?t := d ?t + 1)) t + ?c t \<le> length (units t)" for t
    using Cons.prems(1) [of t] by (auto split: if_splits)
  then have IH: "price_sum units xs (d(?t := d ?t + 1)) = (\<Sum>t \<in> T. sum_list (take (?c t) (drop ((d(?t := d ?t + 1)) t) (units t))))"
    using Cons.IH Cons.prems(2) by simp
  have u: "unit_price (units ?t) (d ?t) = units ?t ! d ?t" using len by (auto simp: unit_price_def min_def)
  have step: "sum_list (take (count_list (map rk_ticketTypeId (x # xs)) t) (drop (d t) (units t))) =
      sum_list (take (?c t) (drop ((d(?t := d ?t + 1)) t) (units t))) + (if t = ?t then units ?t ! d ?t else 0)" for t
    using len by (auto simp: Cons_nth_drop_Suc [symmetric])
  have "(\<Sum>t \<in> T. sum_list (take (count_list (map rk_ticketTypeId (x # xs)) t) (drop (d t) (units t)))) =
      price_sum units xs (d(?t := d ?t + 1)) + (\<Sum>t \<in> T. if t = ?t then units ?t ! d ?t else 0)"
    unfolding step sum.distrib IH ..
  then show ?case using Cons.prems(2) assms(2) by (simp add: u)
qed simp

lemma units_total:
  assumes "finite T" "\<And>i. i \<in> set items \<Longrightarrow> \<exists>t \<in> T. ri_ticketTypeId i = Some t" "\<And>i. i \<in> set items \<Longrightarrow> 0 \<le> nvl (ri_quantity i) 1"
  shows "(\<Sum>t \<in> T. sum_list (unitsByType items t)) = sum_list (map (\<lambda>i. ri_unitPriceMinor i * nvl (ri_quantity i) 1) items)"
  using assms(2,3)
proof (induction items)
  case (Cons i items)
  obtain t where t: "t \<in> T" "ri_ticketTypeId i = Some t" using Cons.prems(1) [of i] by auto
  have "sum_list (unitsByType (i # items) t') =
      sum_list (unitsByType items t') + (if t' = t then ri_unitPriceMinor i * nvl (ri_quantity i) 1 else 0)" for t'
    using t Cons.prems(2) [of i] by (auto simp: unitsByType_def item_units_def sum_list_replicate)
  then show ?case using Cons t assms(1) by (simp add: sum.distrib)
qed (simp add: unitsByType_def)

definition ticket_items :: "refund_item list \<Rightarrow> refund_item list" where
  "ticket_items items = filter (\<lambda>i. truthy (ri_ticketTypeId i)) items"

definition sold_units :: "refund_item list \<Rightarrow> string \<Rightarrow> nat" where
  "sold_units items t = sum_list (map (\<lambda>i. nat (nvl (ri_quantity i) 1)) (filter (\<lambda>i. ri_ticketTypeId i = Some t) (ticket_items items)))"

text \<open>The booking's tickets are those its items sold: as many of each type as its lines say.\<close>

definition tickets_match :: "refund_item list \<Rightarrow> refund_ticket list \<Rightarrow> bool" where
  "tickets_match items tickets \<longleftrightarrow> distinct (map rk_id tickets) \<and>
    (\<forall>i \<in> set (ticket_items items). 0 \<le> nvl (ri_quantity i) 1) \<and>
    (\<forall>t. count_list (map rk_ticketTypeId tickets) t = sold_units items t)"

lemma length_units:
  "length (unitsByType (sort_cmp c (ticket_items items)) t) = sold_units items t"
proof -
  have "length (unitsByType xs t) = sum_list (map (\<lambda>i. if ri_ticketTypeId i = Some t then nat (nvl (ri_quantity i) 1) else 0) xs)" for xs
    by (induction xs) (auto simp: unitsByType_def item_units_def)
  then show ?thesis by (simp add: sold_units_def sum_list_map_filter')
qed

lemma count_list_sort_cmp [simp]: "count_list (map f (sort_cmp c xs)) t = count_list (map f xs) t"
  by (metis count_mset mset_map mset_sort_cmp)

lemma net_prices:
  assumes "tickets_match items tickets" "ticketNetPrices lc items tickets sub disc = (net, B)"
  shows "sum_list (map snd net) = B" "fst ` set net = rk_id ` set tickets" "distinct (map fst net)"
proof -
  define c :: "refund_item cmp" where "c = (\<lambda>a b. lc (nvl (ri_id a) []) (nvl (ri_id b) []))"
  define ts where "ts = sort_cmp (\<lambda>a b. lc (rk_id a) (rk_id b)) tickets"
  define its where "its = sort_cmp c (ticket_items items)"
  let ?T = "rk_ticketTypeId ` set ts \<union> (the \<circ> ri_ticketTypeId) ` set its"
  let ?sc = "scale sub disc"
  have net: "net = deal_tickets (unitsByType its) ?sc ts (\<lambda>_. 0) 0 (?sc 0) []"
    and B: "B = ?sc (sum_list (map (\<lambda>i. ri_unitPriceMinor i * nvl (ri_quantity i) 1) its))"
    using assms(2) by (auto simp: ticketNetPrices_def Let_def its_def ts_def c_def ticket_items_def scale_def)
  have ids: "distinct (map rk_id ts)" "set ts = set tickets"
    using assms(1) by (auto simp: tickets_match_def ts_def distinct_map)
  have len: "count_list (map rk_ticketTypeId ts) t = length (unitsByType its t)" for t
    using assms(1) by (simp add: tickets_match_def ts_def its_def length_units)
  have "price_sum (unitsByType its) ts (\<lambda>_. 0) = (\<Sum>t \<in> ?T. sum_list (unitsByType its t))"
    using price_sum_units [of "\<lambda>_. 0" ts "unitsByType its" ?T] by (simp add: len)
  also have "\<dots> = sum_list (map (\<lambda>i. ri_unitPriceMinor i * nvl (ri_quantity i) 1) its)"
  proof (rule units_total)
    fix i
    assume i: "i \<in> set its"
    then obtain t where t: "ri_ticketTypeId i = Some t" by (auto simp: its_def ticket_items_def truthy_def split: option.splits)
    then have "t = (the \<circ> ri_ticketTypeId) i" by simp
    then have "t \<in> ?T" using i by blast
    with t show "\<exists>t \<in> ?T. ri_ticketTypeId i = Some t" by blast
    show "0 \<le> nvl (ri_quantity i) 1" using i assms(1) by (simp add: its_def tickets_match_def)
  qed simp
  finally have "?sc (price_sum (unitsByType its) ts (\<lambda>_. 0)) = B" using B by simp
  moreover have "?sc 0 = 0" by (auto simp: scale_def Let_def)
  ultimately show "sum_list (map snd net) = B" "fst ` set net = rk_id ` set tickets" "distinct (map fst net)"
    using deal_tickets_sum [of ts "[]" "unitsByType its" ?sc "\<lambda>_. 0" 0] ids unfolding net by simp_all
qed

text \<open>
  C31.  Returning a booking returns exactly what was paid for it.  However its tickets are spread over
  refunds, each ticket in exactly one, the refunds together give back the discounted ticket total to the
  minor unit, plus exactly the tax that was added to the tickets, and account for exactly the tax that
  was inside them.  No rounding of a partial refund is ever lost or gained.
\<close>

theorem refunds_return_everything:
  assumes "tickets_match items tickets" "ticketNetPrices lc items tickets sub disc = (net, B)" "0 < B"
    and "distinct (concat parts)" "set (concat parts) = rk_id ` set tickets"
    and "\<forall>l \<in> set (ticket_lines_tax False lines). 0 < tx_baseMinor l \<and> tx_baseMinor l \<le> B"
  shows "sum_list (map (\<lambda>part. sum_list (map (\<lambda>i. nvl (map_of net i) 0) part) +
        rt_addedMinor (refundTaxForTickets lc lines net part B False)) parts) =
      B + sum_list (map tx_amountMinor (ticket_lines_tax False lines)) \<and>
    sum_list (map (\<lambda>part. rt_includedMinor (refundTaxForTickets lc lines net part B False)) parts) =
      sum_list (map tx_amountMinor (ticket_lines_tax True lines))"
proof -
  note n = net_prices [OF assms(1,2)]
  have cover: "set (concat parts) = fst ` set net" using assms(5) n(2) by simp
  have "sum_list (map (\<lambda>i. nvl (map_of net i) 0) (concat parts)) = (\<Sum>i \<in> fst ` set net. nvl (map_of net i) 0)"
    using sum_list_distinct_conv_sum_set [OF assms(4)] cover by metis
  also have "\<dots> = sum_list (map (\<lambda>i. nvl (map_of net i) 0) (map fst net))"
    using sum_list_distinct_conv_sum_set [OF n(3)] by (metis set_map)
  also have "\<dots> = sum_list (map snd net)"
    using sum_net_sorted [OF n(3)] by (metis sum_list_sort_cmp)
  finally have tickets: "sum_list (map (\<lambda>part. sum_list (map (\<lambda>i. nvl (map_of net i) 0) part)) parts) = B"
    by (simp add: sum_list_map_concat n(1))
  have added: "sum_list (map (\<lambda>part. rt_addedMinor (refundTaxForTickets lc lines net part B False)) parts) =
      sum_list (map tx_amountMinor (ticket_lines_tax False lines))"
    using refund_tax_exact [OF assms(4) n(3) cover, of False lines B lc] assms(6)
    by (auto simp: n(1) ticket_lines_tax_def line_whole_def)
  have "sum_list (map (\<lambda>part. rt_includedMinor (refundTaxForTickets lc lines net part B False)) parts) =
      sum_list (map tx_amountMinor (ticket_lines_tax True lines))"
    using refund_tax_exact [OF assms(4) n(3) cover, of True lines B lc] assms(3)
    by (auto simp: n(1) ticket_lines_tax_def line_whole_def)
  then show ?thesis using tickets added by (simp add: sum_list_addf)
qed

theorem refunds_return_everything_witness:
  "let (net, B) = ticketNetPrices (\<lambda>_ _. 0) ex_refund_items ex_refund_tickets (Some 10005) (Some 1000) in
   B = 9005 \<and> sum_list (map (\<lambda>part. sum_list (map (\<lambda>i. nvl (map_of net i) 0) part) +
     rt_addedMinor (refundTaxForTickets (\<lambda>_ _. 0) [ex_gst False 9005 1621] net part B False)) [[''t2''], [''t3'', ''t1'']]) = 10626"
proof -
  obtain net B where r: "ticketNetPrices (\<lambda>_ _. 0) ex_refund_items ex_refund_tickets (Some 10005) (Some 1000) = (net, B)"
    by fastforce
  have "snd (ticketNetPrices (\<lambda>_ _. 0) ex_refund_items ex_refund_tickets (Some 10005) (Some 1000)) = 9005" by code_simp
  then have B: "B = 9005" by (simp add: r)
  have m: "tickets_match ex_refund_items ex_refund_tickets"
    by (simp add: tickets_match_def ex_refund_items_def ex_refund_tickets_def sold_units_def ticket_items_def truthy_def)
  show ?thesis
    using refunds_return_everything [OF m r, of "[[''t2''], [''t3'', ''t1'']]" "[ex_gst False 9005 1621]"] r B
    by (simp add: ex_refund_tickets_def ticket_lines_tax_def ex_gst_def insert_commute)
qed

section \<open>Who may ask\<close>

text \<open>
  A cancelled show is always refundable and never twice: when the session is cancelled the organizer's
  own refund rules are ignored and only the booking's status counts; otherwise a refund is offered exactly
  to a refundable booking of an event that offers refunds, before the organizer's cut-off.
\<close>

lemma refund_eligible_iff:
  "checkRefundEligibility i = None \<longleftrightarrow>
    (re_bookingStatus i = BK_CONFIRMED \<or> re_bookingStatus i = BK_PARTIALLY_REFUNDED) \<and>
    (re_sessionCancelled i = Some True \<or>
     re_refundsEnabled i \<noteq> Some False \<and> re_now i < re_sessionStartsAt i - nvl (re_policyHours i) 48 * 3600000)"
  by (auto simp: checkRefundEligibility_def Let_def)

end
