(* ===== verification/VersionedRows.thy ===== *)
theory VersionedRows
  imports Prelude
begin

text \<open>
  Optimistic concurrency, as the repositories of workflows and compensations use it: a row carries a state and
  a version, a caller works on a copy of it, and a guarded statement (\<^verbatim>\<open>UPDATE ... WHERE id, version, state\<close>)
  writes the row only if the copy is still current and then increments the version.  The locale
  \<open>versioned_rows\<close> is that contract; the repositories' updates are interpretations of it.
\<close>

type_synonym 'r table = "string \<rightharpoonup> 'r"

text \<open>No row disappears and no version goes back.\<close>

definition grows :: "('r \<Rightarrow> int) \<Rightarrow> 'r table \<Rightarrow> 'r table \<Rightarrow> bool" where
  "grows ver db db' \<longleftrightarrow> (\<forall>k r. db k = Some r \<longrightarrow> (\<exists>r'. db' k = Some r' \<and> ver r \<le> ver r'))"

lemma grows_refl [intro, simp]: "grows ver db db"
  by (simp add: grows_def)

lemma grows_trans: "grows ver a b \<Longrightarrow> grows ver b c \<Longrightarrow> grows ver a c"
  unfolding grows_def by (meson order_trans)

lemma grows_update: "db k = Some r \<Longrightarrow> ver r \<le> ver r' \<Longrightarrow> grows ver db (db(k \<mapsto> r'))"
  by (auto simp: grows_def)

locale versioned_rows =
  fixes key :: "'r \<Rightarrow> string" and ver :: "'r \<Rightarrow> int" and st :: "'r \<Rightarrow> 's"
    and upd :: "'r \<Rightarrow> 's \<Rightarrow> ('r \<Rightarrow> 'r) \<Rightarrow> 'r table \<Rightarrow> ('r \<times> 'r table) option"
  assumes upd_Some: "upd w n p db = Some (r', db') \<Longrightarrow>
    \<exists>r. db (key w) = Some r \<and> ver r = ver w \<and> st r = st w \<and> st r' = n \<and> ver r' = ver w + 1 \<and> db' = db(key w \<mapsto> r')"
begin

lemma upd_grows: "upd w n p db = Some (r', db') \<Longrightarrow> grows ver db db'"
  by (drule upd_Some) (auto intro: grows_update)

lemma upd_others: "upd w n p db = Some (r', db') \<Longrightarrow> k \<noteq> key w \<Longrightarrow> db' k = db k"
  by (drule upd_Some) auto

lemma upd_row: "upd w n p db = Some (r', db') \<Longrightarrow> db' (key w) = Some r' \<and> st r' = n \<and> ver r' = ver w + 1"
  by (drule upd_Some) auto

text \<open>A copy of a row can be written at most once, whoever holds it.\<close>

lemma copy_wins_once:
  assumes "upd w n p db = Some (r', db1)" "grows ver db1 db2"
  shows "upd w n' p' db2 = None"
proof (rule ccontr)
  assume "upd w n' p' db2 \<noteq> None"
  then obtain r2 db3 where "upd w n' p' db2 = Some (r2, db3)" by force
  then obtain r where "db2 (key w) = Some r" "ver r = ver w" using upd_Some by blast
  moreover obtain r'' where "db2 (key w) = Some r''" "ver w + 1 \<le> ver r''"
    using upd_row [OF assms(1)] assms(2) unfolding grows_def by metis
  ultimately show False by simp
qed

end

end
