(* ===== verification/BookingWorkflow.thy ===== *)
theory BookingWorkflow
  imports VersionedRows
begin

text \<open>
  The booking workflow: \<^verbatim>\<open>bookings/orchestration/booking-workflow-state.ts\<close> (its states),
  \<^verbatim>\<open>booking-workflow.transitions.ts\<close> (the transition matrix), \<^verbatim>\<open>booking-status.mapping.ts\<close> (what the customer
  sees) and \<^verbatim>\<open>booking-workflow.repository.ts\<close> (idempotent creation and guarded transitions).  The unique
  indexes of the table are maps; a caller's copy of a row, and what it read before it wrote, may be stale.
\<close>

section \<open>States and transitions\<close>

datatype workflow_state =
  DRAFT | INVENTORY_RESOLVED | LOCK_PENDING | LOCKED | PROVIDER_RESERVATION_PENDING | PROVIDER_RESERVED
| PAYMENT_PENDING | PAYMENT_AUTHORIZED | PROVIDER_CONFIRM_PENDING | PROVIDER_CONFIRMED | CONFIRMING | CONFIRMED
| TICKET_PENDING | TICKET_ISSUED | CANCELLATION_PENDING | CANCELLED | REFUND_PENDING | REFUNDED | EXPIRING | EXPIRED
| COMPENSATION_PENDING | COMPENSATED | MANUAL_REVIEW | FAILED

definition TERMINAL_STATES :: "workflow_state list" where
  "TERMINAL_STATES = [CANCELLED, REFUNDED, EXPIRED, COMPENSATED, FAILED]"

definition COMPENSATABLE_STATES :: "workflow_state list" where
  "COMPENSATABLE_STATES = [LOCKED, PROVIDER_RESERVATION_PENDING, PROVIDER_RESERVED, PAYMENT_PENDING, PAYMENT_AUTHORIZED,
     PROVIDER_CONFIRM_PENDING, PROVIDER_CONFIRMED, CONFIRMING]"

definition isTerminal :: "workflow_state \<Rightarrow> bool" where
  "isTerminal s \<longleftrightarrow> s \<in> set TERMINAL_STATES"

fun ALLOWED_TRANSITIONS :: "workflow_state \<Rightarrow> workflow_state list" where
  "ALLOWED_TRANSITIONS DRAFT = [INVENTORY_RESOLVED, FAILED, EXPIRED]"
| "ALLOWED_TRANSITIONS INVENTORY_RESOLVED = [LOCK_PENDING, FAILED, EXPIRED]"
| "ALLOWED_TRANSITIONS LOCK_PENDING = [LOCKED, FAILED, EXPIRED, COMPENSATION_PENDING]"
| "ALLOWED_TRANSITIONS LOCKED =
    [PAYMENT_PENDING, PROVIDER_RESERVATION_PENDING, EXPIRING, CANCELLATION_PENDING, COMPENSATION_PENDING, FAILED]"
| "ALLOWED_TRANSITIONS PROVIDER_RESERVATION_PENDING =
    [PROVIDER_RESERVED, EXPIRING, CANCELLATION_PENDING, COMPENSATION_PENDING, MANUAL_REVIEW, FAILED]"
| "ALLOWED_TRANSITIONS PROVIDER_RESERVED = [PAYMENT_PENDING, EXPIRING, CANCELLATION_PENDING, COMPENSATION_PENDING, FAILED]"
| "ALLOWED_TRANSITIONS PAYMENT_PENDING =
    [PAYMENT_AUTHORIZED, CONFIRMING, EXPIRING, CANCELLATION_PENDING, COMPENSATION_PENDING, FAILED]"
| "ALLOWED_TRANSITIONS PAYMENT_AUTHORIZED =
    [PROVIDER_CONFIRM_PENDING, CONFIRMING, CANCELLATION_PENDING, COMPENSATION_PENDING, FAILED]"
| "ALLOWED_TRANSITIONS PROVIDER_CONFIRM_PENDING = [PROVIDER_CONFIRMED, COMPENSATION_PENDING, MANUAL_REVIEW, FAILED]"
| "ALLOWED_TRANSITIONS PROVIDER_CONFIRMED = [CONFIRMING, COMPENSATION_PENDING, FAILED]"
| "ALLOWED_TRANSITIONS CONFIRMING = [CONFIRMED, COMPENSATION_PENDING, MANUAL_REVIEW, FAILED]"
| "ALLOWED_TRANSITIONS CONFIRMED = [TICKET_PENDING, CANCELLATION_PENDING, REFUND_PENDING]"
| "ALLOWED_TRANSITIONS TICKET_PENDING = [TICKET_ISSUED, MANUAL_REVIEW]"
| "ALLOWED_TRANSITIONS TICKET_ISSUED = [CANCELLATION_PENDING, REFUND_PENDING]"
| "ALLOWED_TRANSITIONS CANCELLATION_PENDING = [CANCELLED, REFUND_PENDING, COMPENSATION_PENDING, MANUAL_REVIEW]"
| "ALLOWED_TRANSITIONS REFUND_PENDING = [REFUNDED, COMPENSATION_PENDING, MANUAL_REVIEW]"
| "ALLOWED_TRANSITIONS EXPIRING = [EXPIRED, COMPENSATION_PENDING, MANUAL_REVIEW]"
| "ALLOWED_TRANSITIONS COMPENSATION_PENDING = [COMPENSATED, MANUAL_REVIEW, FAILED]"
| "ALLOWED_TRANSITIONS MANUAL_REVIEW =
    [COMPENSATION_PENDING, CANCELLATION_PENDING, REFUND_PENDING, CONFIRMING, CANCELLED, FAILED]"
| "ALLOWED_TRANSITIONS CANCELLED = []"
| "ALLOWED_TRANSITIONS REFUNDED = []"
| "ALLOWED_TRANSITIONS EXPIRED = []"
| "ALLOWED_TRANSITIONS COMPENSATED = []"
| "ALLOWED_TRANSITIONS FAILED = []"

definition canTransition :: "workflow_state \<Rightarrow> workflow_state \<Rightarrow> bool" where
  "canTransition from to \<longleftrightarrow> from = to \<or> to \<in> set (ALLOWED_TRANSITIONS from)"

datatype workflow_error =
  InvalidBookingTransition workflow_state workflow_state
| BookingWorkflowConflict string workflow_state workflow_state
| BookingIdempotencyConflict string
| UniqueViolation
| WorkflowNotFound

definition assertTransition :: "workflow_state \<Rightarrow> workflow_state \<Rightarrow> workflow_error + unit" where
  "assertTransition from to =
    (if from = to then Inr ()
     else if isTerminal from \<or> \<not> canTransition from to then Inl (InvalidBookingTransition from to)
     else Inr ())"

datatype public_status =
  PUB_PENDING | PUB_CONFIRMED | PUB_CANCELLED | PUB_EXPIRED | PUB_REFUND_PENDING | PUB_REFUNDED | PUB_ACTION_REQUIRED

fun toPublicBookingStatus :: "workflow_state \<Rightarrow> public_status" where
  "toPublicBookingStatus CONFIRMED = PUB_CONFIRMED"
| "toPublicBookingStatus TICKET_PENDING = PUB_CONFIRMED"
| "toPublicBookingStatus TICKET_ISSUED = PUB_CONFIRMED"
| "toPublicBookingStatus CANCELLATION_PENDING = PUB_CANCELLED"
| "toPublicBookingStatus CANCELLED = PUB_CANCELLED"
| "toPublicBookingStatus EXPIRING = PUB_EXPIRED"
| "toPublicBookingStatus EXPIRED = PUB_EXPIRED"
| "toPublicBookingStatus REFUND_PENDING = PUB_REFUND_PENDING"
| "toPublicBookingStatus REFUNDED = PUB_REFUNDED"
| "toPublicBookingStatus MANUAL_REVIEW = PUB_ACTION_REQUIRED"
| "toPublicBookingStatus COMPENSATION_PENDING = PUB_ACTION_REQUIRED"
| "toPublicBookingStatus COMPENSATED = PUB_ACTION_REQUIRED"
| "toPublicBookingStatus FAILED = PUB_ACTION_REQUIRED"
| "toPublicBookingStatus _ = PUB_PENDING"

section \<open>The repository\<close>

record workflow =
  wf_id :: string
  wf_workflowType :: string
  wf_bookingId :: string
  wf_idempotencyKey :: string
  wf_requestFingerprint :: "string option"
  wf_correlationId :: "string option"
  wf_inventoryOwnershipMode :: string
  wf_selectedProviderCode :: string
  wf_ownerType :: "string option"
  wf_ownerId :: "string option"
  wf_tenantId :: "string option"
  wf_organizerId :: "string option"
  wf_state :: workflow_state
  wf_version :: int
  wf_lockId :: "string option"
  wf_fencingToken :: "int option"
  wf_paymentProvider :: "string option"

record create_workflow_input =
  cw_workflowType :: "string option"
  cw_idempotencyKey :: string
  cw_requestFingerprint :: string
  cw_correlationId :: "string option"
  cw_inventoryOwnershipMode :: string
  cw_selectedProviderCode :: string
  cw_ownerType :: "string option"
  cw_ownerId :: "string option"
  cw_tenantId :: "string option"
  cw_organizerId :: "string option"

record workflow_db =
  wd_rows :: "workflow table"
  wd_byKey :: "string \<times> string \<rightharpoonup> string"
  wd_byBooking :: "string \<rightharpoonup> string"

datatype advance_outcome = ADVANCED | REPLAY

definition findByKey :: "workflow_db \<Rightarrow> string \<times> string \<Rightarrow> workflow option" where
  "findByKey db k = Option.bind (wd_byKey db k) (wd_rows db)"

definition check_fingerprint :: "create_workflow_input \<Rightarrow> workflow \<Rightarrow> workflow_error + workflow" where
  "check_fingerprint input w =
    (if truthy (wf_requestFingerprint w) \<and> wf_requestFingerprint w \<noteq> Some (cw_requestFingerprint input)
     then Inl (BookingIdempotencyConflict (cw_idempotencyKey input)) else Inr w)"

definition new_workflow :: "string \<Rightarrow> create_workflow_input \<Rightarrow> workflow" where
  "new_workflow newId input =
    \<lparr>wf_id = newId, wf_workflowType = nvl (cw_workflowType input) ''BOOKING'',
     wf_bookingId = ''pending-'' @ cw_idempotencyKey input, wf_idempotencyKey = cw_idempotencyKey input,
     wf_requestFingerprint = Some (cw_requestFingerprint input), wf_correlationId = cw_correlationId input,
     wf_inventoryOwnershipMode = cw_inventoryOwnershipMode input, wf_selectedProviderCode = cw_selectedProviderCode input,
     wf_ownerType = cw_ownerType input, wf_ownerId = cw_ownerId input, wf_tenantId = cw_tenantId input,
     wf_organizerId = cw_organizerId input, wf_state = DRAFT,
     wf_version = 0, wf_lockId = None, wf_fencingToken = None, wf_paymentProvider = None\<rparr>"

text \<open>\<open>seen\<close> is the database as the first lookup found it, \<open>db\<close> as the insert finds it.\<close>

definition createOrGet ::
  "string \<Rightarrow> create_workflow_input \<Rightarrow> workflow_db \<Rightarrow> workflow_db \<Rightarrow> workflow_error + (workflow \<times> bool) \<times> workflow_db" where
  "createOrGet newId input seen db =
    (let k = (nvl (cw_workflowType input) ''BOOKING'', cw_idempotencyKey input); w = new_workflow newId input
     in case findByKey seen k of
          Some existing \<Rightarrow> rbind (check_fingerprint input existing) (\<lambda>e. Inr ((e, False), db))
        | None \<Rightarrow>
            if wd_byKey db k = None \<and> wd_byBooking db (wf_bookingId w) = None
            then Inr ((w, True), \<lparr>wd_rows = (wd_rows db)(newId \<mapsto> w), wd_byKey = (wd_byKey db)(k \<mapsto> newId),
                                  wd_byBooking = (wd_byBooking db)(wf_bookingId w \<mapsto> newId)\<rparr>)
            else (case findByKey db k of
                    Some existing \<Rightarrow> rbind (check_fingerprint input existing) (\<lambda>e. Inr ((e, False), db))
                  | None \<Rightarrow> Inl UniqueViolation))"

definition update_workflow ::
  "workflow \<Rightarrow> workflow_state \<Rightarrow> (workflow \<Rightarrow> workflow) \<Rightarrow> workflow table \<Rightarrow> (workflow \<times> workflow table) option" where
  "update_workflow w next' patch db =
    (case db (wf_id w) of
       Some r \<Rightarrow>
         if wf_version r = wf_version w \<and> wf_state r = wf_state w
         then let r' = (patch r)\<lparr>wf_state := next', wf_version := wf_version r + 1\<rparr> in Some (r', db(wf_id w \<mapsto> r'))
         else None
     | None \<Rightarrow> None)"

definition advance ::
  "workflow \<Rightarrow> workflow_state \<Rightarrow> (workflow \<Rightarrow> workflow) \<Rightarrow> workflow table \<Rightarrow>
    workflow_error + (advance_outcome \<times> workflow) \<times> workflow table" where
  "advance w next' patch db =
    (if wf_state w = next' then Inr ((REPLAY, w), db)
     else rbind (assertTransition (wf_state w) next') (\<lambda>_.
       case update_workflow w next' patch db of
         Some (updated, db') \<Rightarrow> Inr ((ADVANCED, updated), db')
       | None \<Rightarrow>
           (case db (wf_id w) of
              Some current \<Rightarrow>
                if wf_state current = next' then Inr ((REPLAY, current), db)
                else Inl (BookingWorkflowConflict (wf_id w) (wf_state w) next')
            | None \<Rightarrow> Inl (BookingWorkflowConflict (wf_id w) (wf_state w) next'))))"

definition attachBooking ::
  "string \<Rightarrow> string \<Rightarrow> string option \<Rightarrow> int option \<Rightarrow> string option \<Rightarrow> workflow_db \<Rightarrow> workflow_error + workflow_db" where
  "attachBooking wid bookingId lockId token provider db =
    (case wd_rows db wid of
       None \<Rightarrow> Inl WorkflowNotFound
     | Some r \<Rightarrow>
         if wd_byBooking db bookingId \<noteq> None \<and> wd_byBooking db bookingId \<noteq> Some wid then Inl UniqueViolation
         else Inr (db\<lparr>wd_rows := (wd_rows db)(wid \<mapsto> r\<lparr>wf_bookingId := bookingId,
                     wf_lockId := (case lockId of None \<Rightarrow> wf_lockId r | Some l \<Rightarrow> Some l),
                     wf_fencingToken := (case token of None \<Rightarrow> wf_fencingToken r | Some t \<Rightarrow> Some t),
                     wf_paymentProvider := (case provider of None \<Rightarrow> wf_paymentProvider r | Some p \<Rightarrow> Some p)\<rparr>),
                   wd_byBooking := (wd_byBooking db)(wf_bookingId r := None, bookingId \<mapsto> wid)\<rparr>))"

section \<open>Sample values\<close>

definition ex_input :: "string \<Rightarrow> create_workflow_input" where
  "ex_input fp = \<lparr>cw_workflowType = None, cw_idempotencyKey = ''k1'', cw_requestFingerprint = fp, cw_correlationId = None, cw_inventoryOwnershipMode = ''LOCAL'',
     cw_selectedProviderCode = ''local'', cw_ownerType = None, cw_ownerId = Some ''u1'', cw_tenantId = None, cw_organizerId = None\<rparr>"

definition empty_workflows :: workflow_db where
  "empty_workflows = \<lparr>wd_rows = Map.empty, wd_byKey = Map.empty, wd_byBooking = Map.empty\<rparr>"

section \<open>The matrix\<close>





lemma assert_iff_can: "assertTransition s t = Inr () \<longleftrightarrow> canTransition s t"
  by (cases s) (auto simp: assertTransition_def canTransition_def isTerminal_def TERMINAL_STATES_def)



lemma step_reach: "t \<in> set (ALLOWED_TRANSITIONS s) \<Longrightarrow> canTransition\<^sup>*\<^sup>* t u \<Longrightarrow> canTransition\<^sup>*\<^sup>* s u"
  by (rule converse_rtranclp_into_rtranclp) (simp_all add: canTransition_def)

text \<open>
  No workflow is ever stuck: from every state some terminal state can still be reached, every state
  that may have touched money, inventory or a provider can be compensated directly, and a terminal state
  has no way out.
\<close>

lemma workflow_never_stuck:
  "(\<exists>t. isTerminal t \<and> canTransition\<^sup>*\<^sup>* s t) \<and>
   list_all (\<lambda>c. canTransition c COMPENSATION_PENDING) COMPENSATABLE_STATES \<and>
   (isTerminal s \<longleftrightarrow> ALLOWED_TRANSITIONS s = [])"
proof -
  have f: "FAILED \<in> set (ALLOWED_TRANSITIONS s) \<Longrightarrow> canTransition\<^sup>*\<^sup>* s FAILED" for s
    by (erule step_reach) (rule rtranclp.rtrancl_refl)
  have c: "canTransition\<^sup>*\<^sup>* MANUAL_REVIEW FAILED" by (rule f) simp
  have r: "MANUAL_REVIEW \<in> set (ALLOWED_TRANSITIONS s) \<Longrightarrow> canTransition\<^sup>*\<^sup>* s FAILED" for s
    by (erule step_reach) (rule c)
  have p: "CANCELLATION_PENDING \<in> set (ALLOWED_TRANSITIONS s) \<Longrightarrow> canTransition\<^sup>*\<^sup>* s FAILED" for s
    by (erule step_reach) (rule r, simp)
  have "\<exists>t. isTerminal t \<and> canTransition\<^sup>*\<^sup>* s t"
  proof (cases "isTerminal s")
    case False
    then have "FAILED \<in> set (ALLOWED_TRANSITIONS s) \<or> MANUAL_REVIEW \<in> set (ALLOWED_TRANSITIONS s) \<or>
        CANCELLATION_PENDING \<in> set (ALLOWED_TRANSITIONS s)"
      by (cases s) (simp_all add: isTerminal_def TERMINAL_STATES_def)
    then show ?thesis using f r p by (auto simp: isTerminal_def TERMINAL_STATES_def intro!: exI [of _ FAILED])
  qed blast
  moreover have "isTerminal s \<longleftrightarrow> ALLOWED_TRANSITIONS s = []"
    by (cases s) (simp_all add: isTerminal_def TERMINAL_STATES_def)
  ultimately show ?thesis by (simp add: COMPENSATABLE_STATES_def canTransition_def)
qed

text \<open>The states a workflow can be in while it has not been confirmed, and while nobody has been asked to pay.\<close>

definition before_confirmation :: "workflow_state \<Rightarrow> bool" where
  "before_confirmation s \<longleftrightarrow> s \<notin> {TICKET_PENDING, TICKET_ISSUED}"

definition before_payment :: "workflow_state \<Rightarrow> bool" where
  "before_payment s \<longleftrightarrow> s \<notin> {PAYMENT_AUTHORIZED, PROVIDER_CONFIRM_PENDING, PROVIDER_CONFIRMED, CONFIRMING, CONFIRMED,
     TICKET_PENDING, TICKET_ISSUED}"

text \<open>
  A customer is shown a confirmed booking only after the confirmation: \<open>CONFIRMED\<close> is entered only from
  \<open>CONFIRMING\<close>, no run that has not been through \<open>CONFIRMED\<close> shows any other confirmed-looking state, and no run
  reaches a confirmation without passing \<open>PAYMENT_PENDING\<close> or an operator.
\<close>

lemma confirmed_only_after_confirmation:
  "(canTransition s CONFIRMED \<longrightarrow> s = CONFIRMING \<or> s = CONFIRMED) \<and>
   ((\<lambda>a b. canTransition a b \<and> a \<noteq> CONFIRMED)\<^sup>*\<^sup>* DRAFT t \<longrightarrow> toPublicBookingStatus t = PUB_CONFIRMED \<longrightarrow> t = CONFIRMED) \<and>
   ((\<lambda>a b. canTransition a b \<and> a \<noteq> PAYMENT_PENDING \<and> a \<noteq> MANUAL_REVIEW)\<^sup>*\<^sup>* DRAFT u \<longrightarrow>
     toPublicBookingStatus u \<noteq> PUB_CONFIRMED \<and> u \<noteq> CONFIRMING)"
proof -
  have conf: "(\<lambda>a b. canTransition a b \<and> a \<noteq> CONFIRMED)\<^sup>*\<^sup>* DRAFT t \<Longrightarrow> before_confirmation t"
  proof (induction rule: rtranclp_induct)
    case (step a b)
    then show ?case by (cases a) (auto simp: before_confirmation_def canTransition_def)
  qed (simp add: before_confirmation_def)
  have pay: "(\<lambda>a b. canTransition a b \<and> a \<noteq> PAYMENT_PENDING \<and> a \<noteq> MANUAL_REVIEW)\<^sup>*\<^sup>* DRAFT u \<Longrightarrow> before_payment u"
  proof (induction rule: rtranclp_induct)
    case (step a b)
    then show ?case by (cases a) (auto simp: before_payment_def canTransition_def)
  qed (simp add: before_payment_def)
  have "canTransition s CONFIRMED \<Longrightarrow> s = CONFIRMING \<or> s = CONFIRMED"
    by (cases s) (simp_all add: canTransition_def)
  moreover have "before_confirmation t \<Longrightarrow> toPublicBookingStatus t = PUB_CONFIRMED \<Longrightarrow> t = CONFIRMED"
    by (cases t) (simp_all add: before_confirmation_def)
  moreover have "before_payment u \<Longrightarrow> toPublicBookingStatus u \<noteq> PUB_CONFIRMED \<and> u \<noteq> CONFIRMING"
    by (cases u) (simp_all add: before_payment_def)
  ultimately show ?thesis using conf pay by blast
qed

lemma confirmed_only_after_confirmation_witness:
  "canTransition CONFIRMING CONFIRMED \<and> (\<lambda>a b. canTransition a b \<and> a \<noteq> PAYMENT_PENDING \<and> a \<noteq> MANUAL_REVIEW)\<^sup>*\<^sup>* DRAFT INVENTORY_RESOLVED \<and>
   toPublicBookingStatus INVENTORY_RESOLVED \<noteq> PUB_CONFIRMED"
proof -
  let ?R = "\<lambda>a b. canTransition a b \<and> a \<noteq> PAYMENT_PENDING \<and> a \<noteq> MANUAL_REVIEW"
  have "?R DRAFT INVENTORY_RESOLVED" by (simp add: canTransition_def)
  then have r: "?R\<^sup>*\<^sup>* DRAFT INVENTORY_RESOLVED" by (rule r_into_rtranclp)
  show ?thesis
    using confirmed_only_after_confirmation [of CONFIRMING DRAFT INVENTORY_RESOLVED] r by (simp add: canTransition_def)
qed

section \<open>Concurrent writers\<close>

interpretation workflows: versioned_rows wf_id wf_version wf_state update_workflow
  by unfold_locales (auto simp: update_workflow_def Let_def split: option.splits if_splits)

text \<open>What one call of \<open>advance\<close> may do to the table.\<close>

lemma advance_cases:
  assumes "advance w n p db = Inr ((oc, r), db')"
  obtains (advanced) "oc = ADVANCED" "update_workflow w n p db = Some (r, db')" "canTransition (wf_state w) n" "\<not> isTerminal (wf_state w)"
  | (replay) "oc = REPLAY" "db' = db" "wf_state r = n"
  using assms by (auto simp: advance_def rbind_Inr_iff assertTransition_def split: if_splits option.splits)

definition advance_step :: "workflow table \<Rightarrow> workflow table \<Rightarrow> bool" where
  "advance_step db db' \<longleftrightarrow> (\<exists>w n p x. advance w n p db = Inr (x, db'))"

lemma advance_step_row:
  assumes "advance_step db db'" "db k = Some r"
  shows "\<exists>r'. db' k = Some r' \<and> wf_version r \<le> wf_version r' \<and> canTransition\<^sup>*\<^sup>* (wf_state r) (wf_state r') \<and>
    (isTerminal (wf_state r) \<longrightarrow> r' = r)"
proof -
  obtain w n p oc x where a: "advance w n p db = Inr ((oc, x), db')" using assms(1) by (auto simp: advance_step_def)
  then show ?thesis
  proof (cases rule: advance_cases)
    case advanced
    obtain r0 where r0: "db (wf_id w) = Some r0" "wf_version r0 = wf_version w" "wf_state r0 = wf_state w" "wf_state x = n"
      "wf_version x = wf_version w + 1" "db' = db(wf_id w \<mapsto> x)"
      using workflows.upd_Some [OF advanced(2)] by blast
    show ?thesis
    proof (cases "k = wf_id w")
      case True
      with r0 assms(2) advanced show ?thesis by auto
    qed (use r0 assms(2) in auto)
  qed (use assms(2) in auto)
qed

lemma advance_run_row:
  assumes "advance_step\<^sup>*\<^sup>* db db'" "db k = Some r"
  shows "\<exists>r'. db' k = Some r' \<and> wf_version r \<le> wf_version r' \<and> canTransition\<^sup>*\<^sup>* (wf_state r) (wf_state r') \<and>
    (isTerminal (wf_state r) \<longrightarrow> r' = r)"
  using assms(1)
proof (induction rule: rtranclp_induct)
  case (step b c)
  then obtain r1 where r1: "b k = Some r1" "wf_version r \<le> wf_version r1" "canTransition\<^sup>*\<^sup>* (wf_state r) (wf_state r1)"
    "isTerminal (wf_state r) \<longrightarrow> r1 = r" by blast
  with advance_step_row [OF step(2) r1(1)] show ?case by (auto intro: rtranclp_trans order_trans)
qed (use assms(2) in auto)

lemma advance_run_grows: "advance_step\<^sup>*\<^sup>* db db' \<Longrightarrow> grows wf_version db db'"
  using advance_run_row unfolding grows_def by blast

text \<open>
  C7.  Any number of workers and callbacks may drive one workflow at once.  Whatever sequence of transitions
  they attempt from copies of any age, every stored workflow only ever moves along the matrix and its
  version never goes back; a terminal workflow is never touched again; and of all the attempts made from one
  copy at most one is applied.
\<close>

theorem concurrent_advances_safe:
  assumes "advance_step\<^sup>*\<^sup>* db db'" "db k = Some r"
  shows "(\<exists>r'. db' k = Some r' \<and> wf_version r \<le> wf_version r' \<and> canTransition\<^sup>*\<^sup>* (wf_state r) (wf_state r') \<and>
      (isTerminal (wf_state r) \<longrightarrow> r' = r)) \<and>
    (\<forall>w n p x db0 n' p' y db''. advance w n p db0 = Inr ((ADVANCED, x), db) \<longrightarrow> advance w n' p' db' \<noteq> Inr ((ADVANCED, y), db''))"
proof -
  have "advance w n' p' db' \<noteq> Inr ((ADVANCED, y), db'')" if a: "advance w n p db0 = Inr ((ADVANCED, x), db)" for w n p x db0 n' p' y db''
  proof
    assume b: "advance w n' p' db' = Inr ((ADVANCED, y), db'')"
    have "update_workflow w n p db0 = Some (x, db)" using a by (cases rule: advance_cases) simp_all
    moreover have "update_workflow w n' p' db' = Some (y, db'')" using b by (cases rule: advance_cases) simp_all
    ultimately show False using workflows.copy_wins_once [OF _ advance_run_grows [OF assms(1)]] by force
  qed
  then show ?thesis using advance_run_row [OF assms] by blast
qed

theorem concurrent_advances_safe_witness:
  "let w = new_workflow ''w1'' (ex_input ''f''); db0 = [''w1'' \<mapsto> w]; w' = w\<lparr>wf_state := INVENTORY_RESOLVED, wf_version := 1\<rparr>;
       db = [''w1'' \<mapsto> w'] in
   advance w INVENTORY_RESOLVED (\<lambda>r. r) db0 = Inr ((ADVANCED, w'), db) \<and>
   (\<forall>y db''. advance w FAILED (\<lambda>r. r) db \<noteq> Inr ((ADVANCED, y), db''))"
proof -
  define w where "w = new_workflow ''w1'' (ex_input ''f'')"
  define w' where "w' = w\<lparr>wf_state := INVENTORY_RESOLVED, wf_version := 1\<rparr>"
  have a: "advance w INVENTORY_RESOLVED (\<lambda>r. r) [''w1'' \<mapsto> w] = Inr ((ADVANCED, w'), [''w1'' \<mapsto> w'])"
    by (simp add: advance_def update_workflow_def assertTransition_def isTerminal_def TERMINAL_STATES_def canTransition_def
        w_def w'_def new_workflow_def ex_input_def Let_def)
  show ?thesis
    using concurrent_advances_safe [OF rtranclp.rtrancl_refl, of "[''w1'' \<mapsto> w']" "''w1''" w'] a
    unfolding Let_def w_def [symmetric] w'_def [symmetric] by (metis fun_upd_same)
qed

section \<open>Idempotent creation\<close>

text \<open>
  One key, one workflow.  Once a request has created the workflow of its idempotency key, every later
  request with that key, whether it looked before or after the creation, is answered with that very
  workflow and creates nothing when its fingerprint is the same, and is refused when it differs.
\<close>

lemma create_idempotent:
  assumes "createOrGet newId input seen db = Inr ((w, True), db')" "cw_requestFingerprint input \<noteq> []"
    and "cw_idempotencyKey input' = cw_idempotencyKey input" "cw_workflowType input' = cw_workflowType input"
    and "seen' = db' \<or> findByKey seen' (nvl (cw_workflowType input) ''BOOKING'', cw_idempotencyKey input) = None"
  shows "createOrGet newId' input' seen' db' =
    (if cw_requestFingerprint input' = cw_requestFingerprint input then Inr ((w, False), db')
     else Inl (BookingIdempotencyConflict (cw_idempotencyKey input)))"
proof -
  let ?k = "(nvl (cw_workflowType input) ''BOOKING'', cw_idempotencyKey input)"
  have w: "w = new_workflow newId input"
    and db': "wd_byKey db' ?k = Some newId" "wd_rows db' newId = Some w"
    using assms(1) by (auto simp: createOrGet_def Let_def rbind_Inr_iff split: option.splits if_splits)
  have find: "findByKey db' ?k = Some w" using db' by (simp add: findByKey_def)
  have fp: "check_fingerprint input' w = (if cw_requestFingerprint input' = cw_requestFingerprint input then Inr w
      else Inl (BookingIdempotencyConflict (cw_idempotencyKey input)))"
    using assms(2,3) by (auto simp: check_fingerprint_def w new_workflow_def truthy_def)
  have "createOrGet newId' input' seen' db' = rbind (check_fingerprint input' w) (\<lambda>e. Inr ((e, False), db'))"
    using assms(3-5) find db'(1) by (auto simp: createOrGet_def Let_def)
  then show ?thesis by (simp add: fp)
qed

lemma create_idempotent_witness:
  "\<exists>w db'. createOrGet ''w1'' (ex_input ''f'') empty_workflows empty_workflows = Inr ((w, True), db') \<and>
     createOrGet ''w2'' (ex_input ''f'') empty_workflows db' = Inr ((w, False), db') \<and>
     createOrGet ''w3'' (ex_input ''g'') db' db' = Inl (BookingIdempotencyConflict ''k1'')"
proof -
  obtain w db' where c: "createOrGet ''w1'' (ex_input ''f'') empty_workflows empty_workflows = Inr ((w, True), db')"
    by (simp add: createOrGet_def Let_def findByKey_def empty_workflows_def)
  show ?thesis
    using create_idempotent [OF c, of "ex_input ''f''" empty_workflows "''w2''"] create_idempotent [OF c, of "ex_input ''g''" db' "''w3''"] c
    by (simp add: ex_input_def findByKey_def empty_workflows_def)
qed

end
