(* ===== verification/Compensation.thy ===== *)
theory Compensation
  imports VersionedRows JsSort
begin

text \<open>
  Booking compensations, the decisions: \<^verbatim>\<open>bookings/compensation/compensation-state.ts\<close> (the states),
  \<^verbatim>\<open>compensation-types.ts\<close>, \<^verbatim>\<open>compensation-planner.ts\<close> with \<^verbatim>\<open>payment-capability.ts\<close> (which recovery actions
  a discrepancy calls for), \<^verbatim>\<open>booking-refund-policy.ts\<close> (whether a captured payment may be refunded without an
  operator) and \<^verbatim>\<open>refund-reconciliation.ts\<close> (comparing our refunds with the provider's).  An optional flag
  that the code only tests for truth is a bool: absent is false.
\<close>

section \<open>States\<close>

datatype compensation_state =
  CS_PLANNED | CS_READY | CS_PROCESSING | CS_RETRYABLE_FAILURE | CS_COMPLETED | CS_DEAD_LETTERED | CS_MANUAL_REVIEW | CS_CANCELLED

definition TERMINAL_COMPENSATION_STATES :: "compensation_state list" where
  "TERMINAL_COMPENSATION_STATES = [CS_COMPLETED, CS_DEAD_LETTERED, CS_CANCELLED]"

fun ALLOWED_COMPENSATION_TRANSITIONS :: "compensation_state \<Rightarrow> compensation_state list" where
  "ALLOWED_COMPENSATION_TRANSITIONS CS_PLANNED = [CS_READY, CS_MANUAL_REVIEW, CS_CANCELLED]"
| "ALLOWED_COMPENSATION_TRANSITIONS CS_READY = [CS_PROCESSING, CS_MANUAL_REVIEW, CS_CANCELLED]"
| "ALLOWED_COMPENSATION_TRANSITIONS CS_PROCESSING =
    [CS_COMPLETED, CS_RETRYABLE_FAILURE, CS_MANUAL_REVIEW, CS_DEAD_LETTERED, CS_CANCELLED]"
| "ALLOWED_COMPENSATION_TRANSITIONS CS_RETRYABLE_FAILURE = [CS_READY, CS_MANUAL_REVIEW, CS_DEAD_LETTERED]"
| "ALLOWED_COMPENSATION_TRANSITIONS CS_MANUAL_REVIEW = [CS_READY, CS_CANCELLED, CS_DEAD_LETTERED]"
| "ALLOWED_COMPENSATION_TRANSITIONS CS_COMPLETED = []"
| "ALLOWED_COMPENSATION_TRANSITIONS CS_DEAD_LETTERED = []"
| "ALLOWED_COMPENSATION_TRANSITIONS CS_CANCELLED = []"

definition isTerminalCompensation :: "compensation_state \<Rightarrow> bool" where
  "isTerminalCompensation s \<longleftrightarrow> s \<in> set TERMINAL_COMPENSATION_STATES"

definition canCompensationTransition :: "compensation_state \<Rightarrow> compensation_state \<Rightarrow> bool" where
  "canCompensationTransition from to \<longleftrightarrow> from = to \<or> to \<in> set (ALLOWED_COMPENSATION_TRANSITIONS from)"

definition transition_ok :: "compensation_state \<Rightarrow> compensation_state \<Rightarrow> bool" where
  "transition_ok from to \<longleftrightarrow> from = to \<or> \<not> (isTerminalCompensation from \<or> \<not> canCompensationTransition from to)"

section \<open>Actions and plans\<close>

datatype compensation_type =
  PAYMENT_VOID | PAYMENT_REFUND | PROVIDER_RESERVATION_CANCEL | PROVIDER_BOOKING_CANCEL | LOCAL_HOLD_RELEASE
| REDIS_LOCK_RELEASE | LOCAL_CONFIRMATION_RETRY | PROVIDER_STATUS_RECOVERY | MANUAL_REVIEW

definition SAFE_NON_FINANCIAL_ACTIONS :: "compensation_type list" where
  "SAFE_NON_FINANCIAL_ACTIONS = [REDIS_LOCK_RELEASE, LOCAL_HOLD_RELEASE, PROVIDER_STATUS_RECOVERY, LOCAL_CONFIRMATION_RETRY]"

definition FINANCIAL_ACTIONS :: "compensation_type list" where
  "FINANCIAL_ACTIONS = [PAYMENT_VOID, PAYMENT_REFUND]"

record compensation_action =
  ca_type :: compensation_type
  ca_reasonCode :: string
  ca_targetReference :: string
  ca_autoExecutable :: bool
  ca_amountMinor :: "minor option"
  ca_currency :: "string option"

record compensation_plan =
  cp_classification :: string
  cp_actions :: "compensation_action list"
  cp_autoExecutable :: bool
  cp_requiresManualReview :: bool
  cp_reasonCode :: string

text \<open>\<open>Some True\<close>: captured; \<open>Some False\<close>: authorized only; \<open>None\<close>: unknown.\<close>

record payment_state =
  ps_captured :: "bool option"

record payment_capability_view =
  pc_supportsAuthorizeCapture :: bool
  pc_supportsRefund :: bool

definition choosePaymentCompensation :: "payment_state \<Rightarrow> payment_capability_view \<Rightarrow> compensation_type" where
  "choosePaymentCompensation payment cap =
    (case ps_captured payment of
       None \<Rightarrow> MANUAL_REVIEW
     | Some False \<Rightarrow> if pc_supportsAuthorizeCapture cap then PAYMENT_VOID else PAYMENT_REFUND
     | Some True \<Rightarrow> if pc_supportsRefund cap then PAYMENT_REFUND else MANUAL_REVIEW)"

datatype provider_outcome = PO_CONFIRMED | PO_REJECTED | PO_SOLD_OUT | PO_AMBIGUOUS | PO_EXPIRED

record provider_capabilities =
  pv_supportsCancel :: bool
  pv_idempotentCancellation :: bool

record compensation_context =
  cx_bookingId :: string
  cx_reasonCode :: string
  cx_redisLockPresent :: bool
  cx_localHoldActive :: bool
  cx_paymentSucceeded :: bool
  cx_payment :: "payment_state option"
  cx_paymentCapabilities :: "payment_capability_view option"
  cx_providerReservationId :: "string option"
  cx_providerBookingId :: "string option"
  cx_providerCapabilities :: "provider_capabilities option"
  cx_providerOutcome :: "provider_outcome option"
  cx_paymentCreatePermanentlyFailed :: bool
  cx_localConfirmationFailed :: bool
  cx_localConfirmationRetriesExhausted :: bool
  cx_redisFinalizeFailed :: bool
  cx_captureFailed :: bool
  cx_ticketIssuanceFailed :: bool
  cx_duplicateCallback :: bool

definition plan_action :: "compensation_type \<Rightarrow> string \<Rightarrow> string \<Rightarrow> compensation_action" where
  "plan_action ty reason target =
    \<lparr>ca_type = ty, ca_reasonCode = reason, ca_targetReference = target,
     ca_autoExecutable = ty \<in> set SAFE_NON_FINANCIAL_ACTIONS, ca_amountMinor = None, ca_currency = None\<rparr>"

definition plan_of :: "string \<Rightarrow> compensation_action list \<Rightarrow> compensation_plan" where
  "plan_of classification actions =
    (let review = (\<exists>a\<in>set actions. ca_type a = MANUAL_REVIEW \<or> ca_type a \<in> set FINANCIAL_ACTIONS) in
     \<lparr>cp_classification = classification, cp_actions = actions,
      cp_autoExecutable = (actions \<noteq> [] \<and> \<not> review \<and> (\<forall>a\<in>set actions. ca_autoExecutable a)),
      cp_requiresManualReview = review,
      cp_reasonCode = (case actions of [] \<Rightarrow> classification | a # _ \<Rightarrow> ca_reasonCode a)\<rparr>)"

definition plan_empty :: "string \<Rightarrow> string \<Rightarrow> compensation_plan" where
  "plan_empty classification reason =
    \<lparr>cp_classification = classification, cp_actions = [], cp_autoExecutable = False, cp_requiresManualReview = False,
     cp_reasonCode = reason\<rparr>"

text \<open>The action with an optional external target: \<^verbatim>\<open>if (ctx.providerReservationId) actions.push(...)\<close>.\<close>

definition if_target :: "string option \<Rightarrow> (string \<Rightarrow> compensation_action) \<Rightarrow> compensation_action list" where
  "if_target t mk = (case t of None \<Rightarrow> [] | Some r \<Rightarrow> if r = [] then [] else [mk r])"

definition rejected_actions :: "compensation_context \<Rightarrow> compensation_action list" where
  "rejected_actions ctx =
    (case (cx_payment ctx, cx_paymentCapabilities ctx) of
       (Some p, Some cap) \<Rightarrow>
         [plan_action (choosePaymentCompensation p cap) ''PAYMENT_SUCCEEDED_PROVIDER_REJECTED'' (cx_bookingId ctx)]
     | _ \<Rightarrow> [plan_action MANUAL_REVIEW ''PAYMENT_STATE_UNKNOWN'' (cx_bookingId ctx)])
    @ if_target (cx_providerReservationId ctx) (plan_action PROVIDER_RESERVATION_CANCEL ''PROVIDER_REJECTED'')
    @ [plan_action LOCAL_HOLD_RELEASE ''PROVIDER_REJECTED'' (cx_bookingId ctx)]
    @ (if cx_redisLockPresent ctx then [plan_action REDIS_LOCK_RELEASE ''PROVIDER_REJECTED'' (cx_bookingId ctx)] else [])"

definition exhausted_actions :: "compensation_context \<Rightarrow> compensation_action list" where
  "exhausted_actions ctx =
    (if (case cx_providerCapabilities ctx of None \<Rightarrow> False | Some c \<Rightarrow> pv_supportsCancel c)
     then if_target (cx_providerBookingId ctx) (plan_action PROVIDER_BOOKING_CANCEL ''LOCAL_CONFIRM_EXHAUSTED'') else [])
    @ [plan_action MANUAL_REVIEW ''LOCAL_CONFIRM_EXHAUSTED'' (cx_bookingId ctx)]"

definition planCompensation :: "compensation_context \<Rightarrow> compensation_plan" where
  "planCompensation ctx =
    (let b = cx_bookingId ctx; oc = cx_providerOutcome ctx in
     if cx_duplicateCallback ctx then plan_empty ''DUPLICATE_CALLBACK'' ''DUPLICATE_CALLBACK_NO_COMPENSATION''
     else if cx_redisFinalizeFailed ctx
     then plan_of ''REDIS_FINALIZE_FAILED'' [plan_action REDIS_LOCK_RELEASE ''REDIS_FINALIZE_FAILED'' b]
     else if cx_ticketIssuanceFailed ctx then plan_empty ''TICKET_ISSUANCE_FAILED'' ''RETRY_TICKET_VIA_OUTBOX''
     else if cx_redisLockPresent ctx \<and> \<not> cx_localHoldActive ctx \<and> \<not> cx_paymentSucceeded ctx
     then plan_of ''LOCK_OK_HOLD_FAILED'' [plan_action REDIS_LOCK_RELEASE ''LOCK_OK_HOLD_FAILED'' b]
     else if cx_paymentCreatePermanentlyFailed ctx
     then plan_of ''HOLD_OK_PAYMENT_CREATE_FAILED''
       (plan_action LOCAL_HOLD_RELEASE ''PAYMENT_CREATE_FAILED'' b
        # if_target (cx_providerReservationId ctx) (plan_action PROVIDER_RESERVATION_CANCEL ''PAYMENT_CREATE_FAILED''))
     else if cx_paymentSucceeded ctx \<and> (oc = Some PO_REJECTED \<or> oc = Some PO_SOLD_OUT)
     then plan_of ''PAYMENT_SUCCEEDED_PROVIDER_REJECTED'' (rejected_actions ctx)
     else if oc = Some PO_CONFIRMED \<and> cx_localConfirmationFailed ctx
     then if \<not> cx_localConfirmationRetriesExhausted ctx
       then plan_of ''LOCAL_CONFIRMATION_FAILED_AFTER_PROVIDER_CONFIRM''
         [plan_action LOCAL_CONFIRMATION_RETRY ''LOCAL_CONFIRM_RETRY'' b]
       else plan_of ''LOCAL_CONFIRMATION_EXHAUSTED_AFTER_PROVIDER_CONFIRM'' (exhausted_actions ctx)
     else if cx_captureFailed ctx
     then plan_of ''PROVIDER_CONFIRMED_CAPTURE_FAILED'' [plan_action MANUAL_REVIEW ''CAPTURE_FAILED'' b]
     else if oc = Some PO_AMBIGUOUS
     then plan_of ''PROVIDER_CONFIRMATION_AMBIGUOUS'' [plan_action PROVIDER_STATUS_RECOVERY ''PROVIDER_AMBIGUOUS'' b]
     else plan_empty ''NO_COMPENSATION'' ''NO_ACTION_REQUIRED'')"

section \<open>The refund policy\<close>

datatype refund_policy_mode = MANUAL_ONLY | FULL_GROSS | TICKET_ONLY | EVENT_CANCELLATION_FULL

record refund_policy_context =
  rp_paymentStatus :: string
  rp_amountPaidMinor :: minor
  rp_currency :: string
  rp_ticketCheckedIn :: bool
  rp_eventCancelled :: bool
  rp_customerCancellation :: bool
  rp_providerCancellationRequired :: bool
  rp_providerCancellationSupported :: bool
  rp_settlementStatus :: "string option"

datatype refund_type = RT_FULL | RT_NONE | RT_MANUAL_REVIEW

record refund_policy_decision =
  rd_eligible :: bool
  rd_refundType :: refund_type
  rd_refundableAmountMinor :: "minor option"
  rd_refundableCurrency :: string
  rd_inventoryResellable :: bool
  rd_providerCancellationRequired :: bool
  rd_settlementReversalRequired :: bool
  rd_requiresManualReview :: bool
  rd_reasonCode :: string
  rd_policyVersion :: string

definition mode_name :: "refund_policy_mode \<Rightarrow> string" where
  "mode_name m = (case m of MANUAL_ONLY \<Rightarrow> ''MANUAL_ONLY'' | FULL_GROSS \<Rightarrow> ''FULL_GROSS'' | TICKET_ONLY \<Rightarrow> ''TICKET_ONLY''
     | EVENT_CANCELLATION_FULL \<Rightarrow> ''EVENT_CANCELLATION_FULL'')"

definition policy_version :: "refund_policy_mode \<Rightarrow> string option \<Rightarrow> string" where
  "policy_version m v = nvl v (mode_name m @ '':v1'')"

definition settled :: "refund_policy_context \<Rightarrow> bool" where
  "settled ctx \<longleftrightarrow> rp_settlementStatus ctx = Some ''COMPLETED'' \<or> rp_settlementStatus ctx = Some ''PAID''"

definition settlementUnknownOrDone :: "refund_policy_context \<Rightarrow> bool" where
  "settlementUnknownOrDone ctx \<longleftrightarrow>
    \<not> truthy (rp_settlementStatus ctx) \<or> rp_settlementStatus ctx = Some ''UNKNOWN'' \<or> settled ctx"

definition manual_decision :: "string \<Rightarrow> refund_policy_context \<Rightarrow> string \<Rightarrow> refund_policy_decision" where
  "manual_decision version ctx reason =
    \<lparr>rd_eligible = False, rd_refundType = RT_MANUAL_REVIEW, rd_refundableAmountMinor = None,
     rd_refundableCurrency = rp_currency ctx, rd_inventoryResellable = False,
     rd_providerCancellationRequired = rp_providerCancellationRequired ctx, rd_settlementReversalRequired = settled ctx,
     rd_requiresManualReview = True, rd_reasonCode = reason, rd_policyVersion = version\<rparr>"

definition evaluateRefundPolicy ::
  "refund_policy_mode \<Rightarrow> string option \<Rightarrow> refund_policy_context \<Rightarrow> refund_policy_decision" where
  "evaluateRefundPolicy mode v ctx =
    (let version = policy_version mode v; manual = manual_decision version ctx in
     if mode = MANUAL_ONLY then manual ''POLICY_MANUAL_ONLY''
     else if mode = TICKET_ONLY then manual ''POLICY_TICKET_ONLY_NOT_APPROVED''
     else if \<not> (rp_paymentStatus ctx = ''SUCCEEDED'' \<or> rp_paymentStatus ctx = ''CAPTURED'')
     then (manual ''PAYMENT_NOT_CAPTURED'')\<lparr>rd_eligible := False, rd_refundType := RT_NONE\<rparr>
     else if rp_ticketCheckedIn ctx then manual ''TICKET_CHECKED_IN''
     else if settlementUnknownOrDone ctx then manual ''SETTLEMENT_UNCERTAIN_OR_DONE''
     else if rp_providerCancellationRequired ctx \<and> \<not> rp_providerCancellationSupported ctx
     then manual ''PROVIDER_CANCELLATION_REQUIRED_UNSUPPORTED''
     else if mode = EVENT_CANCELLATION_FULL \<and> \<not> rp_eventCancelled ctx then manual ''POLICY_REQUIRES_EVENT_CANCELLATION''
     else if mode = FULL_GROSS \<and> \<not> (rp_eventCancelled ctx \<or> rp_customerCancellation ctx)
     then manual ''NO_QUALIFYING_CANCELLATION''
     else \<lparr>rd_eligible = True, rd_refundType = RT_FULL, rd_refundableAmountMinor = Some (rp_amountPaidMinor ctx),
           rd_refundableCurrency = rp_currency ctx, rd_inventoryResellable = False,
           rd_providerCancellationRequired = rp_providerCancellationRequired ctx, rd_settlementReversalRequired = False,
           rd_requiresManualReview = False,
           rd_reasonCode = (if mode = EVENT_CANCELLATION_FULL then ''EVENT_CANCELLATION_FULL'' else ''CANCELLATION_FULL''),
           rd_policyVersion = version\<rparr>)"

section \<open>Refund reconciliation\<close>

datatype refund_status = RS_REQUESTED | RS_APPROVED | RS_REJECTED | RS_PROCESSING | RS_COMPLETED | RS_FAILED

datatype recon_class =
  CONSISTENT_NO_REFUND | CONSISTENT_FULL_REFUND | REFUND_IN_FLIGHT | INTENT_WITHOUT_OUTCOME | LOCAL_REFUNDED_PROVIDER_MISSING
| PROVIDER_REFUNDED_LOCAL_MISSING | AMOUNT_MISMATCH | CURRENCY_MISMATCH | PROVIDER_REFUND_FAILED | SETTLEMENT_UNKNOWN
| DUPLICATE_COMPLETED_REFUND | OVER_REFUND | NEGATIVE_REFUND

datatype recon_action = RA_NONE | RETRY_STATUS_QUERY | RA_MANUAL_REVIEW

record local_refund =
  lr_status :: refund_status
  lr_amountMinor :: minor
  lr_currency :: "string option"

record provider_refund =
  pr_status :: string
  pr_amountMinor :: "minor option"
  pr_currency :: "string option"

record recon_input =
  ri_paymentStatus :: string
  ri_capturedMinor :: minor
  ri_refundedMinor :: minor
  ri_currency :: string
  ri_localRefunds :: "local_refund list"
  ri_providerRefund :: "provider_refund option"
  ri_settlementConfirmed :: "bool option"
  ri_openIntentAgeSeconds :: int
  ri_intentStaleAfterSeconds :: int

record recon_result =
  rr_classification :: recon_class
  rr_action :: recon_action
  rr_consistent :: bool

definition review_result :: "recon_class \<Rightarrow> recon_result" where
  "review_result c = \<lparr>rr_classification = c, rr_action = RA_MANUAL_REVIEW, rr_consistent = False\<rparr>"

definition consistent_result :: "recon_class \<Rightarrow> recon_result" where
  "consistent_result c = \<lparr>rr_classification = c, rr_action = RA_NONE, rr_consistent = True\<rparr>"

definition wrong_currency :: "string \<Rightarrow> string option \<Rightarrow> bool" where
  "wrong_currency cur c \<longleftrightarrow> truthy c \<and> c \<noteq> Some cur"

definition with_status :: "refund_status \<Rightarrow> local_refund list \<Rightarrow> local_refund list" where
  "with_status s rs = filter (\<lambda>r. lr_status r = s) rs"

definition refunded_recon :: "recon_input \<Rightarrow> recon_result" where
  "refunded_recon i =
    (let p = ri_providerRefund i in
     if (case p of None \<Rightarrow> False | Some r \<Rightarrow> pr_status r = ''FAILED'' \<or> pr_status r = ''NOT_FOUND'')
     then review_result LOCAL_REFUNDED_PROVIDER_MISSING
     else if (case p of None \<Rightarrow> False
        | Some r \<Rightarrow> pr_status r = ''COMPLETED'' \<and> pr_amountMinor r \<noteq> None \<and> pr_amountMinor r \<noteq> Some (ri_refundedMinor i))
     then review_result AMOUNT_MISMATCH
     else if ri_settlementConfirmed i = Some False then review_result SETTLEMENT_UNKNOWN
     else if ri_refundedMinor i \<noteq> ri_capturedMinor i then review_result AMOUNT_MISMATCH
     else consistent_result CONSISTENT_FULL_REFUND)"

definition open_recon :: "recon_input \<Rightarrow> recon_result" where
  "open_recon i =
    (let p = ri_providerRefund i; processing = with_status RS_PROCESSING (ri_localRefunds i) in
     if map_option pr_status p = Some ''COMPLETED'' then review_result PROVIDER_REFUNDED_LOCAL_MISSING
     else if map_option pr_status p = Some ''FAILED'' \<and> processing \<noteq> [] then review_result PROVIDER_REFUND_FAILED
     else if processing \<noteq> []
     then if p = None \<and> ri_intentStaleAfterSeconds i \<le> ri_openIntentAgeSeconds i
       then \<lparr>rr_classification = INTENT_WITHOUT_OUTCOME, rr_action = RETRY_STATUS_QUERY, rr_consistent = False\<rparr>
       else consistent_result REFUND_IN_FLIGHT
     else if with_status RS_FAILED (ri_localRefunds i) \<noteq> [] \<and> with_status RS_COMPLETED (ri_localRefunds i) = []
     then review_result PROVIDER_REFUND_FAILED
     else consistent_result CONSISTENT_NO_REFUND)"

definition classifyRefundReconciliation :: "recon_input \<Rightarrow> recon_result" where
  "classifyRefundReconciliation i =
    (let completed = with_status RS_COMPLETED (ri_localRefunds i); processing = with_status RS_PROCESSING (ri_localRefunds i) in
     if ri_refundedMinor i < 0 then review_result NEGATIVE_REFUND
     else if ri_capturedMinor i < ri_refundedMinor i then review_result OVER_REFUND
     else if 1 < length completed then review_result DUPLICATE_COMPLETED_REFUND
     else if \<exists>r\<in>set (completed @ processing). wrong_currency (ri_currency i) (lr_currency r) then review_result CURRENCY_MISMATCH
     else if (case ri_providerRefund i of None \<Rightarrow> False | Some r \<Rightarrow> wrong_currency (ri_currency i) (pr_currency r))
     then review_result CURRENCY_MISMATCH
     else if ri_paymentStatus i = ''REFUNDED'' then refunded_recon i
     else open_recon i)"

section \<open>What the planner may decide\<close>

definition financial :: "compensation_action \<Rightarrow> bool" where
  "financial a \<longleftrightarrow> ca_type a \<in> set FINANCIAL_ACTIONS"

lemmas type_sets = FINANCIAL_ACTIONS_def SAFE_NON_FINANCIAL_ACTIONS_def

lemma plan_action_simps [simp]:
  "ca_type (plan_action ty r t) = ty" "ca_targetReference (plan_action ty r t) = t"
  "ca_autoExecutable (plan_action ty r t) \<longleftrightarrow> ty \<in> set SAFE_NON_FINANCIAL_ACTIONS"
  by (simp_all add: plan_action_def)

lemma plan_of_simps [simp]:
  "cp_actions (plan_of c as) = as"
  "cp_requiresManualReview (plan_of c as) \<longleftrightarrow> (\<exists>a\<in>set as. ca_type a = MANUAL_REVIEW \<or> financial a)"
  "cp_autoExecutable (plan_of c as) \<longleftrightarrow> as \<noteq> [] \<and> (\<forall>a\<in>set as. ca_type a \<noteq> MANUAL_REVIEW \<and> \<not> financial a \<and> ca_autoExecutable a)"
  by (auto simp: plan_of_def Let_def financial_def)

lemma plan_empty_simps [simp]: "cp_actions (plan_empty c r) = []" "\<not> cp_requiresManualReview (plan_empty c r)" "\<not> cp_autoExecutable (plan_empty c r)"
  by (simp_all add: plan_empty_def)

lemma financial_plan_action: "financial (plan_action ty r t) \<longleftrightarrow> ty = PAYMENT_VOID \<or> ty = PAYMENT_REFUND"
  by (simp add: financial_def type_sets)

lemma if_target_not_financial [simp]:
  "ty \<noteq> PAYMENT_VOID \<Longrightarrow> ty \<noteq> PAYMENT_REFUND \<Longrightarrow> filter financial (if_target t (plan_action ty r)) = []"
  by (auto simp: if_target_def financial_plan_action split: option.splits)

lemma rejected_financial:
  "filter financial (rejected_actions ctx) =
    (case (cx_payment ctx, cx_paymentCapabilities ctx) of
       (Some p, Some cap) \<Rightarrow>
         filter financial [plan_action (choosePaymentCompensation p cap) ''PAYMENT_SUCCEEDED_PROVIDER_REJECTED'' (cx_bookingId ctx)]
     | _ \<Rightarrow> [])"
  by (auto simp: rejected_actions_def financial_plan_action split: option.splits)

lemma exhausted_financial: "filter financial (exhausted_actions ctx) = []"
  by (auto simp: exhausted_actions_def financial_plan_action)

definition money_case :: "compensation_context \<Rightarrow> bool" where
  "money_case ctx \<longleftrightarrow> \<not> cx_duplicateCallback ctx \<and> \<not> cx_redisFinalizeFailed ctx \<and> \<not> cx_ticketIssuanceFailed ctx \<and>
     \<not> cx_paymentCreatePermanentlyFailed ctx \<and> cx_paymentSucceeded ctx \<and> cx_providerOutcome ctx \<in> {Some PO_REJECTED, Some PO_SOLD_OUT}"

lemma plan_money_case: "money_case ctx \<Longrightarrow> planCompensation ctx = plan_of ''PAYMENT_SUCCEEDED_PROVIDER_REJECTED'' (rejected_actions ctx)"
  by (auto simp: planCompensation_def Let_def money_case_def)

lemma plan_no_money: "\<not> money_case ctx \<Longrightarrow> filter financial (cp_actions (planCompensation ctx)) = []"
  unfolding planCompensation_def Let_def money_case_def
  by (simp only: if_split [of "\<lambda>p. filter financial (cp_actions p) = []"] plan_of_simps plan_empty_simps exhausted_financial)
    (simp add: financial_plan_action, blast)

definition reviewed :: "compensation_plan \<Rightarrow> bool" where
  "reviewed p \<longleftrightarrow> ((\<exists>a\<in>set (cp_actions p). financial a \<or> ca_type a = MANUAL_REVIEW) \<longrightarrow> cp_requiresManualReview p \<and> \<not> cp_autoExecutable p)"

lemma reviewed_plans: "reviewed (plan_of c as)" "reviewed (plan_empty c r)"
  by (auto simp: reviewed_def)

lemma plan_review: "reviewed (planCompensation ctx)"
  unfolding planCompensation_def Let_def by (simp only: if_split [of reviewed] reviewed_plans) simp

lemma choose_financial:
  assumes "financial (plan_action (choosePaymentCompensation p cap) r t)"
  shows "\<exists>c. ps_captured p = Some c \<and> (choosePaymentCompensation p cap = PAYMENT_VOID \<longleftrightarrow> \<not> c \<and> pc_supportsAuthorizeCapture cap)"
  using assms by (auto simp: financial_plan_action choosePaymentCompensation_def split: option.splits bool.splits if_splits)

text \<open>
  The planner never guesses about money.  A plan contains at most one action that moves money; it does so only
  when the payment succeeded, the provider definitely rejected the booking, and it is known whether the funds
  were captured; a void is planned only for an authorization that was not captured, on a provider that
  tells the two apart; and such a plan always goes to an operator, never to automatic execution.
\<close>

lemma money_planned_only_when_certain:
  assumes "a \<in> set (cp_actions (planCompensation ctx))" "ca_type a \<in> set FINANCIAL_ACTIONS"
  shows "filter (\<lambda>x. ca_type x \<in> set FINANCIAL_ACTIONS) (cp_actions (planCompensation ctx)) = [a] \<and>
    cx_paymentSucceeded ctx \<and> cx_providerOutcome ctx \<in> {Some PO_REJECTED, Some PO_SOLD_OUT} \<and>
    (\<exists>p cap c. cx_payment ctx = Some p \<and> cx_paymentCapabilities ctx = Some cap \<and> ps_captured p = Some c \<and>
       (ca_type a = PAYMENT_VOID \<longleftrightarrow> \<not> c \<and> pc_supportsAuthorizeCapture cap)) \<and>
    \<not> ca_autoExecutable a \<and> cp_requiresManualReview (planCompensation ctx) \<and> \<not> cp_autoExecutable (planCompensation ctx)"
proof -
  let ?fs = "filter financial (cp_actions (planCompensation ctx))"
  have a: "a \<in> set ?fs" using assms by (simp add: financial_def)
  then have cl: "money_case ctx" using plan_no_money [of ctx] by (cases "money_case ctx") (simp_all del: set_filter)
  from a obtain p cap where pc: "cx_payment ctx = Some p" "cx_paymentCapabilities ctx = Some cap"
    and fs: "?fs = filter financial [plan_action (choosePaymentCompensation p cap) ''PAYMENT_SUCCEEDED_PROVIDER_REJECTED'' (cx_bookingId ctx)]"
    unfolding plan_money_case [OF cl] plan_of_simps rejected_financial
    by (cases "cx_payment ctx"; cases "cx_paymentCapabilities ctx") simp_all
  have one: "?fs = [a]" "a = plan_action (choosePaymentCompensation p cap) ''PAYMENT_SUCCEEDED_PROVIDER_REJECTED'' (cx_bookingId ctx)"
    using a fs by (auto split: if_splits)
  have auto: "\<not> ca_autoExecutable a" using assms(2) one(2) by (auto simp: type_sets)
  have fin: "financial a" using assms(2) by (simp add: financial_def)
  show ?thesis
    using one pc cl plan_review [of ctx] assms(1) fin auto choose_financial [of p cap]
    unfolding financial_def money_case_def reviewed_def by auto
qed

definition ex_context :: compensation_context where
  "ex_context = \<lparr>cx_bookingId = ''b1'', cx_reasonCode = ''r'', cx_redisLockPresent = True, cx_localHoldActive = True,
     cx_paymentSucceeded = True, cx_payment = Some \<lparr>ps_captured = Some False\<rparr>,
     cx_paymentCapabilities = Some \<lparr>pc_supportsAuthorizeCapture = True, pc_supportsRefund = True\<rparr>,
     cx_providerReservationId = Some ''res1'', cx_providerBookingId = None, cx_providerCapabilities = None,
     cx_providerOutcome = Some PO_SOLD_OUT, cx_paymentCreatePermanentlyFailed = False, cx_localConfirmationFailed = False,
     cx_localConfirmationRetriesExhausted = False, cx_redisFinalizeFailed = False, cx_captureFailed = False,
     cx_ticketIssuanceFailed = False, cx_duplicateCallback = False\<rparr>"

lemma ex_plan:
  "cp_actions (planCompensation ex_context) =
    [plan_action PAYMENT_VOID ''PAYMENT_SUCCEEDED_PROVIDER_REJECTED'' ''b1'',
     plan_action PROVIDER_RESERVATION_CANCEL ''PROVIDER_REJECTED'' ''res1'',
     plan_action LOCAL_HOLD_RELEASE ''PROVIDER_REJECTED'' ''b1'', plan_action REDIS_LOCK_RELEASE ''PROVIDER_REJECTED'' ''b1'']"
  by (simp add: planCompensation_def ex_context_def Let_def rejected_actions_def choosePaymentCompensation_def if_target_def)

lemma money_planned_only_when_certain_witness:
  "length (cp_actions (planCompensation ex_context)) = 4 \<and> cp_requiresManualReview (planCompensation ex_context) \<and>
   \<not> cp_autoExecutable (planCompensation ex_context)"
  using money_planned_only_when_certain [of "plan_action PAYMENT_VOID ''PAYMENT_SUCCEEDED_PROVIDER_REJECTED'' ''b1''" ex_context]
  by (simp add: ex_plan FINANCIAL_ACTIONS_def)

section \<open>The refund policy fails closed\<close>

text \<open>
  When the policy refunds without an operator.  A decision is either a full refund of exactly what was paid or it names
  no amount and asks for review.  It is a refund precisely when the mode is an automatic one, the payment was
  captured, no ticket was used, the organizer's settlement is known not to have been paid out, no unsupported
  provider cancellation is outstanding, and the cancellation the mode asks for has happened.
\<close>

lemma refund_policy_fails_closed:
  "rd_eligible (evaluateRefundPolicy m v ctx) =
     (m \<in> {FULL_GROSS, EVENT_CANCELLATION_FULL} \<and> rp_paymentStatus ctx \<in> {''SUCCEEDED'', ''CAPTURED''} \<and> \<not> rp_ticketCheckedIn ctx \<and>
      (\<exists>s. rp_settlementStatus ctx = Some s \<and> s \<notin> {[], ''UNKNOWN'', ''COMPLETED'', ''PAID''}) \<and>
      \<not> (rp_providerCancellationRequired ctx \<and> \<not> rp_providerCancellationSupported ctx) \<and>
      (rp_eventCancelled ctx \<or> m = FULL_GROSS \<and> rp_customerCancellation ctx)) \<and>
   rd_refundableAmountMinor (evaluateRefundPolicy m v ctx) =
     (if rd_eligible (evaluateRefundPolicy m v ctx) then Some (rp_amountPaidMinor ctx) else None) \<and>
   rd_requiresManualReview (evaluateRefundPolicy m v ctx) = (\<not> rd_eligible (evaluateRefundPolicy m v ctx)) \<and>
   (rd_refundType (evaluateRefundPolicy m v ctx) = RT_FULL) = rd_eligible (evaluateRefundPolicy m v ctx) \<and>
   \<not> rd_inventoryResellable (evaluateRefundPolicy m v ctx)"
  by (cases m; cases "rp_settlementStatus ctx")
    (simp_all add: evaluateRefundPolicy_def Let_def manual_decision_def settlementUnknownOrDone_def settled_def truthy_def)

section \<open>Reconciliation\<close>

text \<open>
  A verdict of consistency can be trusted on the money invariants: the refunded amount lies between zero and the capture, at
  most one refund is completed, no refund is in another currency, a payment marked refunded is fully
  refunded and the provider does not deny it, and a payment not marked refunded has no refund that the
  provider completed.
\<close>

lemma reconciliation_consistent_sound:
  assumes "rr_consistent (classifyRefundReconciliation i)"
  shows "0 \<le> ri_refundedMinor i \<and> ri_refundedMinor i \<le> ri_capturedMinor i \<and>
    length (with_status RS_COMPLETED (ri_localRefunds i)) \<le> 1 \<and>
    (\<forall>r. r \<in> set (ri_localRefunds i) \<and> lr_status r \<in> {RS_COMPLETED, RS_PROCESSING} \<longrightarrow> \<not> wrong_currency (ri_currency i) (lr_currency r)) \<and>
    (\<forall>r. ri_providerRefund i = Some r \<longrightarrow> \<not> wrong_currency (ri_currency i) (pr_currency r) \<and>
       (if ri_paymentStatus i = ''REFUNDED'' then pr_status r \<notin> {''FAILED'', ''NOT_FOUND''} else pr_status r \<noteq> ''COMPLETED'')) \<and>
    (ri_paymentStatus i = ''REFUNDED'' \<longrightarrow> ri_refundedMinor i = ri_capturedMinor i)"
proof -
  have r: "\<not> rr_consistent (review_result c)" for c by (simp add: review_result_def)
  note unf = classifyRefundReconciliation_def Let_def refunded_recon_def open_recon_def
  have p: "\<not> ri_refundedMinor i < 0" "\<not> ri_capturedMinor i < ri_refundedMinor i" "\<not> 1 < length (with_status RS_COMPLETED (ri_localRefunds i))"
    "\<not> (\<exists>r\<in>set (with_status RS_COMPLETED (ri_localRefunds i) @ with_status RS_PROCESSING (ri_localRefunds i)). wrong_currency (ri_currency i) (lr_currency r))"
    "\<not> (case ri_providerRefund i of None \<Rightarrow> False | Some r \<Rightarrow> wrong_currency (ri_currency i) (pr_currency r))"
    using assms r by (auto simp: classifyRefundReconciliation_def Let_def split: if_splits)
  have q: "ri_paymentStatus i = ''REFUNDED'' \<Longrightarrow> rr_consistent (refunded_recon i)"
    "ri_paymentStatus i \<noteq> ''REFUNDED'' \<Longrightarrow> rr_consistent (open_recon i)"
    using assms r by (auto simp: classifyRefundReconciliation_def Let_def split: if_splits)
  have q1: "rr_consistent (refunded_recon i) \<Longrightarrow> ri_refundedMinor i = ri_capturedMinor i \<and>
      (\<forall>r. ri_providerRefund i = Some r \<longrightarrow> pr_status r \<notin> {''FAILED'', ''NOT_FOUND''})"
    using r by (auto simp: refunded_recon_def Let_def split: if_splits)
  have q2: "rr_consistent (open_recon i) \<Longrightarrow> ri_providerRefund i = Some r \<Longrightarrow> pr_status r \<noteq> ''COMPLETED''" for r
    using r [of PROVIDER_REFUNDED_LOCAL_MISSING] by (auto simp: open_recon_def Let_def)
  show ?thesis using p q q1 q2 by (auto simp: with_status_def split: option.splits if_splits)
qed

definition ex_recon :: "string \<Rightarrow> minor \<Rightarrow> local_refund list \<Rightarrow> provider_refund option \<Rightarrow> recon_input" where
  "ex_recon ps refunded rs p = \<lparr>ri_paymentStatus = ps, ri_capturedMinor = 1000, ri_refundedMinor = refunded, ri_currency = ''INR'',
     ri_localRefunds = rs, ri_providerRefund = p, ri_settlementConfirmed = None, ri_openIntentAgeSeconds = 0, ri_intentStaleAfterSeconds = 900\<rparr>"

lemmas recon_defs = classifyRefundReconciliation_def Let_def refunded_recon_def open_recon_def ex_recon_def with_status_def
  wrong_currency_def consistent_result_def truthy_def

lemma reconciliation_consistent_sound_witness:
  "let i = ex_recon ''REFUNDED'' 1000 [\<lparr>lr_status = RS_COMPLETED, lr_amountMinor = 1000, lr_currency = Some ''INR''\<rparr>] None in
   rr_consistent (classifyRefundReconciliation i) \<and> ri_refundedMinor i = ri_capturedMinor i"
proof -
  let ?i = "ex_recon ''REFUNDED'' 1000 [\<lparr>lr_status = RS_COMPLETED, lr_amountMinor = 1000, lr_currency = Some ''INR''\<rparr>] None"
  have "rr_consistent (classifyRefundReconciliation ?i)" by (simp add: recon_defs)
  with reconciliation_consistent_sound [OF this] show ?thesis unfolding Let_def by (simp add: ex_recon_def)
qed

text \<open>
  What the verdict does not cover: a captured payment that is still marked as succeeded although a refund was completed and
  counted locally is reported as "captured, nothing refunded".
\<close>

lemma completed_refund_called_no_refund:
  "rr_classification (classifyRefundReconciliation
     (ex_recon ''SUCCEEDED'' 400 [\<lparr>lr_status = RS_COMPLETED, lr_amountMinor = 1000, lr_currency = None\<rparr>] None)) = CONSISTENT_NO_REFUND"
  by (simp add: recon_defs)

end
