(* ===== verification/CompensationQueue.thy ===== *)
theory CompensationQueue
  imports Compensation
begin

text \<open>
  Booking compensations, the durable queue: \<^verbatim>\<open>bookings/compensation/compensation.repository.ts\<close> (idempotent
  creation, guarded transitions, claiming with a lease, recovery of stale leases, retry or dead-letter) and
  the planning half of \<^verbatim>\<open>compensation.service.ts\<close>.  The table is a map with its unique indexes and the order in
  which its rows were inserted; two rows due at the same instant are taken in that order.  A worker's copy of
  a row may be stale, and other workers may act between any two statements.
\<close>

record compensation =
  cm_id :: string
  cm_bookingId :: string
  cm_workflowId :: "string option"
  cm_tenantId :: "string option"
  cm_type :: compensation_type
  cm_state :: compensation_state
  cm_version :: int
  cm_reasonCode :: string
  cm_targetReference :: string
  cm_generation :: int
  cm_paymentProvider :: "string option"
  cm_paymentReference :: "string option"
  cm_externalProviderCode :: "string option"
  cm_providerReservationId :: "string option"
  cm_providerBookingId :: "string option"
  cm_correlationId :: "string option"
  cm_amountMinor :: "minor option"
  cm_currency :: "string option"
  cm_idempotencyKey :: string
  cm_autoExecutable :: bool
  cm_attemptCount :: int
  cm_maxAttempts :: int
  cm_availableAt :: time_ms
  cm_lockedBy :: "string option"
  cm_lockedAt :: "time_ms option"
  cm_lockExpiresAt :: "time_ms option"
  cm_lastAttemptAt :: "time_ms option"
  cm_lastErrorCode :: "string option"
  cm_manualReviewReason :: "string option"
  cm_completedAt :: "time_ms option"
  cm_failedAt :: "time_ms option"

record plan_input =
  pi_bookingId :: string
  pi_workflowId :: "string option"
  pi_tenantId :: "string option"
  pi_generation :: "int option"
  pi_paymentProvider :: "string option"
  pi_paymentReference :: "string option"
  pi_externalProviderCode :: "string option"
  pi_providerReservationId :: "string option"
  pi_providerBookingId :: "string option"
  pi_correlationId :: "string option"
  pi_maxAttempts :: "int option"

text \<open>The two unique indexes of the table, by identity and by key.\<close>

type_synonym identity = "string \<times> compensation_type \<times> string \<times> int"

record comp_db =
  cd_rows :: "compensation table"
  cd_ids :: "string list"
  cd_byKey :: "string \<rightharpoonup> string"
  cd_byIdentity :: "identity \<rightharpoonup> string"

datatype comp_error =
  CompensationInvalidTransition compensation_state compensation_state
| CompUniqueViolation

definition assertCompensationTransition :: "compensation_state \<Rightarrow> compensation_state \<Rightarrow> comp_error + unit" where
  "assertCompensationTransition from to =
    (if from = to then Inr ()
     else if isTerminalCompensation from \<or> \<not> canCompensationTransition from to then Inl (CompensationInvalidTransition from to)
     else Inr ())"

fun type_name :: "compensation_type \<Rightarrow> string" where
  "type_name PAYMENT_VOID = ''PAYMENT_VOID''"
| "type_name PAYMENT_REFUND = ''PAYMENT_REFUND''"
| "type_name PROVIDER_RESERVATION_CANCEL = ''PROVIDER_RESERVATION_CANCEL''"
| "type_name PROVIDER_BOOKING_CANCEL = ''PROVIDER_BOOKING_CANCEL''"
| "type_name LOCAL_HOLD_RELEASE = ''LOCAL_HOLD_RELEASE''"
| "type_name REDIS_LOCK_RELEASE = ''REDIS_LOCK_RELEASE''"
| "type_name LOCAL_CONFIRMATION_RETRY = ''LOCAL_CONFIRMATION_RETRY''"
| "type_name PROVIDER_STATUS_RECOVERY = ''PROVIDER_STATUS_RECOVERY''"
| "type_name MANUAL_REVIEW = ''MANUAL_REVIEW''"

text \<open>SHA-256 in hexadecimal is a parameter.\<close>

definition idempotencyKey :: "(string \<Rightarrow> string) \<Rightarrow> identity \<Rightarrow> string" where
  "idempotencyKey sha i = (case i of (b, ty, target, g) \<Rightarrow> take 40 (sha (join ''|'' [b, type_name ty, target, show_int g])))"

definition action_identity :: "compensation_action \<Rightarrow> plan_input \<Rightarrow> identity" where
  "action_identity a inp = (pi_bookingId inp, ca_type a, ca_targetReference a, nvl (pi_generation inp) 1)"

definition new_compensation :: "(string \<Rightarrow> string) \<Rightarrow> time_ms \<Rightarrow> string \<Rightarrow> compensation_action \<Rightarrow> plan_input \<Rightarrow> compensation" where
  "new_compensation sha now newId a inp =
    \<lparr>cm_id = newId, cm_bookingId = pi_bookingId inp, cm_workflowId = pi_workflowId inp, cm_tenantId = pi_tenantId inp,
     cm_type = ca_type a, cm_state = CS_PLANNED, cm_version = 0, cm_reasonCode = ca_reasonCode a,
     cm_targetReference = ca_targetReference a, cm_generation = nvl (pi_generation inp) 1,
     cm_paymentProvider = pi_paymentProvider inp, cm_paymentReference = pi_paymentReference inp,
     cm_externalProviderCode = pi_externalProviderCode inp, cm_providerReservationId = pi_providerReservationId inp,
     cm_providerBookingId = pi_providerBookingId inp, cm_correlationId = pi_correlationId inp,
     cm_amountMinor = ca_amountMinor a, cm_currency = ca_currency a,
     cm_idempotencyKey = idempotencyKey sha (action_identity a inp), cm_autoExecutable = ca_autoExecutable a, cm_attemptCount = 0,
     cm_maxAttempts = nvl (pi_maxAttempts inp) 5, cm_availableAt = now, cm_lockedBy = None, cm_lockedAt = None, cm_lockExpiresAt = None,
     cm_lastAttemptAt = None, cm_lastErrorCode = None, cm_manualReviewReason = None, cm_completedAt = None, cm_failedAt = None\<rparr>"

text \<open>An insert that would break the primary key or a unique index fails; the row is then looked up by its key.\<close>

definition createOrGetCompensation ::
  "(string \<Rightarrow> string) \<Rightarrow> time_ms \<Rightarrow> string \<Rightarrow> compensation_action \<Rightarrow> plan_input \<Rightarrow> comp_db \<Rightarrow> comp_error + (compensation \<times> bool) \<times> comp_db" where
  "createOrGetCompensation sha now newId a inp db =
    (let i = action_identity a inp; k = idempotencyKey sha i; row = new_compensation sha now newId a inp in
     if cd_rows db newId = None \<and> cd_byKey db k = None \<and> cd_byIdentity db i = None
     then Inr ((row, True),
       \<lparr>cd_rows = (cd_rows db)(newId \<mapsto> row), cd_ids = cd_ids db @ [newId], cd_byKey = (cd_byKey db)(k \<mapsto> newId),
        cd_byIdentity = (cd_byIdentity db)(i \<mapsto> newId)\<rparr>)
     else (case Option.bind (cd_byKey db k) (cd_rows db) of
             Some existing \<Rightarrow> Inr ((existing, False), db)
           | None \<Rightarrow> Inl CompUniqueViolation))"

text \<open>\<^verbatim>\<open>updateMany where id, version, state\<close>: the patch, then the new state and the next version.\<close>

definition update_compensation ::
  "compensation \<Rightarrow> compensation_state \<Rightarrow> (compensation \<Rightarrow> compensation) \<Rightarrow> compensation table \<Rightarrow> (compensation \<times> compensation table) option" where
  "update_compensation c n p t =
    (case t (cm_id c) of
       Some r \<Rightarrow>
         if cm_version r = cm_version c \<and> cm_state r = cm_state c
         then let r' = (p r)\<lparr>cm_state := n, cm_version := cm_version r + 1\<rparr> in Some (r', t(cm_id c \<mapsto> r'))
         else None
     | None \<Rightarrow> None)"

definition advanceCompensation ::
  "compensation \<Rightarrow> compensation_state \<Rightarrow> (compensation \<Rightarrow> compensation) \<Rightarrow> comp_db \<Rightarrow> comp_error + compensation option \<times> comp_db" where
  "advanceCompensation c n p db =
    rbind (assertCompensationTransition (cm_state c) n) (\<lambda>_.
      case update_compensation c n p (cd_rows db) of
        None \<Rightarrow> Inr (None, db)
      | Some (r, t) \<Rightarrow> Inr (Some r, db\<lparr>cd_rows := t\<rparr>))"

text \<open>\<^verbatim>\<open>advance(...).catch(() => undefined)\<close>\<close>

definition advance_quietly :: "compensation \<Rightarrow> compensation_state \<Rightarrow> (compensation \<Rightarrow> compensation) \<Rightarrow> comp_db \<Rightarrow> comp_db" where
  "advance_quietly c n p db = (case advanceCompensation c n p db of Inl _ \<Rightarrow> db | Inr (_, db') \<Rightarrow> db')"

definition due_rows :: "time_ms \<Rightarrow> nat \<Rightarrow> comp_db \<Rightarrow> compensation list" where
  "due_rows now limit db =
    take limit (sort_cmp (cmp_key cm_availableAt)
      (filter (\<lambda>r. cm_state r = CS_READY \<and> cm_availableAt r \<le> now) (List.map_filter (cd_rows db) (cd_ids db))))"

definition claim_patch :: "string \<Rightarrow> int \<Rightarrow> time_ms \<Rightarrow> compensation \<Rightarrow> compensation" where
  "claim_patch workerId leaseSeconds now r =
    r\<lparr>cm_lockedBy := Some workerId, cm_lockedAt := Some now, cm_lockExpiresAt := Some (now + leaseSeconds * 1000),
      cm_lastAttemptAt := Some now, cm_attemptCount := cm_attemptCount r + 1\<rparr>"

fun claim_rows :: "string \<Rightarrow> int \<Rightarrow> time_ms \<Rightarrow> compensation list \<Rightarrow> comp_db \<Rightarrow> comp_error + compensation list \<times> comp_db" where
  "claim_rows workerId lease now [] db = Inr ([], db)"
| "claim_rows workerId lease now (r # rs) db =
    rbind (advanceCompensation r CS_PROCESSING (claim_patch workerId lease now) db) (\<lambda>(updated, db1).
      rbind (claim_rows workerId lease now rs db1) (\<lambda>(cs, db2).
        Inr (case updated of None \<Rightarrow> cs | Some r' \<Rightarrow> r' # cs, db2)))"

text \<open>\<open>seen\<close> is the table as the worker's query found it, \<open>db\<close> the table its updates meet.\<close>

definition claimReady :: "string \<Rightarrow> int \<Rightarrow> nat \<Rightarrow> time_ms \<Rightarrow> comp_db \<Rightarrow> comp_db \<Rightarrow> comp_error + compensation list \<times> comp_db" where
  "claimReady workerId leaseSeconds limit now seen db = claim_rows workerId leaseSeconds now (due_rows now limit seen) db"

definition stale :: "time_ms \<Rightarrow> compensation \<Rightarrow> bool" where
  "stale now r \<longleftrightarrow> cm_state r = CS_PROCESSING \<and> (case cm_lockExpiresAt r of None \<Rightarrow> False | Some e \<Rightarrow> e < now)"

definition recoverStaleLeases :: "time_ms \<Rightarrow> comp_db \<Rightarrow> comp_db" where
  "recoverStaleLeases now db =
    db\<lparr>cd_rows := (\<lambda>k. map_option (\<lambda>r. if stale now r
        then r\<lparr>cm_state := CS_READY, cm_lockedBy := None, cm_lockedAt := None, cm_lockExpiresAt := None\<rparr> else r) (cd_rows db k))\<rparr>"

definition scheduleRetryOrDeadLetter ::
  "compensation \<Rightarrow> int \<Rightarrow> string \<Rightarrow> time_ms \<Rightarrow> comp_db \<Rightarrow> comp_error + compensation option \<times> comp_db" where
  "scheduleRetryOrDeadLetter c backoffSeconds errorCode now db =
    (if cm_maxAttempts c \<le> cm_attemptCount c
     then advanceCompensation c CS_DEAD_LETTERED (\<lambda>r. r\<lparr>cm_failedAt := Some now, cm_lastErrorCode := Some errorCode\<rparr>) db
     else rbind (advanceCompensation c CS_RETRYABLE_FAILURE (\<lambda>r. r\<lparr>cm_lastErrorCode := Some errorCode\<rparr>) db) (\<lambda>(failed, db1).
       case failed of
         None \<Rightarrow> Inr (None, db1)
       | Some f \<Rightarrow> advanceCompensation f CS_READY
           (\<lambda>r. r\<lparr>cm_availableAt := now + backoffSeconds * 1000, cm_lockedBy := None, cm_lockedAt := None, cm_lockExpiresAt := None\<rparr>) db1))"

section \<open>Planning\<close>

record compensation_flags =
  cf_enabled :: bool
  cf_planning :: bool
  cf_execution :: bool
  cf_autoProviderCancel :: bool
  cf_autoVoid :: bool
  cf_autoRefund :: bool
  cf_refundPolicyMode :: "refund_policy_mode option"

definition planningEnabled :: "compensation_flags \<Rightarrow> bool" where
  "planningEnabled f \<longleftrightarrow> cf_enabled f \<and> cf_planning f"

definition executionEnabled :: "compensation_flags \<Rightarrow> bool" where
  "executionEnabled f \<longleftrightarrow> planningEnabled f \<and> cf_execution f"

definition record_action ::
  "(string \<Rightarrow> string) \<Rightarrow> time_ms \<Rightarrow> (comp_db \<Rightarrow> string) \<Rightarrow> plan_input \<Rightarrow> compensation_action \<Rightarrow> comp_db \<Rightarrow> comp_error + compensation \<times> comp_db" where
  "record_action sha now newId inp a db =
    rbind (createOrGetCompensation sha now (newId db) a inp db) (\<lambda>((c, created), db1).
      Inr (c,
        if \<not> created then db1
        else if ca_autoExecutable a \<and> ca_type a \<in> set SAFE_NON_FINANCIAL_ACTIONS \<and> ca_type a \<notin> set FINANCIAL_ACTIONS
        then advance_quietly c CS_READY (\<lambda>r. r) db1
        else advance_quietly c CS_MANUAL_REVIEW (\<lambda>r. r\<lparr>cm_manualReviewReason := Some (ca_reasonCode a)\<rparr>) db1))"

fun record_actions ::
  "(string \<Rightarrow> string) \<Rightarrow> time_ms \<Rightarrow> (comp_db \<Rightarrow> string) \<Rightarrow> plan_input \<Rightarrow> compensation_action list \<Rightarrow> comp_db \<Rightarrow> comp_error + compensation list \<times> comp_db" where
  "record_actions sha now newId inp [] db = Inr ([], db)"
| "record_actions sha now newId inp (a # as) db =
    rbind (record_action sha now newId inp a db) (\<lambda>(c, db1).
      rbind (record_actions sha now newId inp as db1) (\<lambda>(cs, db2). Inr (c # cs, db2)))"

definition planService ::
  "compensation_flags \<Rightarrow> (string \<Rightarrow> string) \<Rightarrow> time_ms \<Rightarrow> (comp_db \<Rightarrow> string) \<Rightarrow> compensation_context \<Rightarrow> plan_input \<Rightarrow> comp_db \<Rightarrow>
   comp_error + compensation list \<times> comp_db" where
  "planService f sha now newId ctx inp db =
    (let p = planCompensation ctx in
     if \<not> planningEnabled f \<or> cp_actions p = [] then Inr ([], db) else record_actions sha now newId inp (cp_actions p) db)"

section \<open>The table only moves forward\<close>

interpretation comps: versioned_rows cm_id cm_version cm_state update_compensation
  by unfold_locales (auto simp: update_compensation_def Let_def split: option.splits if_splits)

lemma advanceCompensation_cases:
  assumes "advanceCompensation c n p db = Inr (x, db')"
  obtains (written) r t where "x = Some r" "update_compensation c n p (cd_rows db) = Some (r, t)" "db' = db\<lparr>cd_rows := t\<rparr>"
    "transition_ok (cm_state c) n"
  | (lost) "x = None" "db' = db"
  using assms by (auto simp: advanceCompensation_def rbind_Inr_iff assertCompensationTransition_def transition_ok_def
      split: option.splits if_splits)

text \<open>The admin service's \<^verbatim>\<open>forceState\<close>: the same guarded update, without the matrix.\<close>

definition forceState :: "compensation \<Rightarrow> compensation_state \<Rightarrow> comp_db \<Rightarrow> compensation option \<times> comp_db" where
  "forceState c to db =
    (case update_compensation c to (\<lambda>r. r) (cd_rows db) of None \<Rightarrow> (None, db) | Some (r, t) \<Rightarrow> (Some r, db\<lparr>cd_rows := t\<rparr>))"

text \<open>
  Every statement that any worker, planner or operator can issue against the table.  An operator forces only
  dead-lettered work, back to review.
\<close>

inductive queue_step :: "comp_db \<Rightarrow> comp_db \<Rightarrow> bool" where
  adv: "advanceCompensation c n p db = Inr (x, db') \<Longrightarrow> queue_step db db'"
| recover: "queue_step db (recoverStaleLeases now db)"
| create: "createOrGetCompensation sha now newId a inp db = Inr (x, db') \<Longrightarrow> queue_step db db'"
| force: "cm_state c = CS_DEAD_LETTERED \<Longrightarrow> queue_step db (snd (forceState c CS_MANUAL_REVIEW db))"

lemma create_keeps:
  assumes "createOrGetCompensation sha now newId a inp db = Inr (x, db')" "cd_rows db k = Some r"
  shows "cd_rows db' k = Some r"
  using assms by (auto simp: createOrGetCompensation_def Let_def split: if_splits option.splits)

lemma update_row_cases:
  assumes "update_compensation c n p t = Some (x, t')" "t k = Some r"
  obtains (same) "t' k = Some r" | (written) "k = cm_id c" "t' k = Some x" "cm_state x = n" "cm_version x = cm_version r + 1"
      "cm_state r = cm_state c" "cm_version r = cm_version c"
  using comps.upd_Some [OF assms(1)] assms(2) by (cases "k = cm_id c") auto

text \<open>What one statement may do to one row.\<close>

lemma queue_step_row:
  assumes "queue_step db db'" "cd_rows db k = Some r"
  obtains (same) "cd_rows db' k = Some r"
  | (moved) r' where "cd_rows db' k = Some r'" "cm_version r' = cm_version r + 1" "transition_ok (cm_state r) (cm_state r')"
  | (recovered) r' where "cd_rows db' k = Some r'" "cm_version r' = cm_version r" "cm_state r = CS_PROCESSING" "cm_state r' = CS_READY"
      "cm_attemptCount r' = cm_attemptCount r"
  | (reopened) r' where "cd_rows db' k = Some r'" "cm_version r' = cm_version r + 1" "cm_state r = CS_DEAD_LETTERED" "cm_state r' = CS_MANUAL_REVIEW"
  using assms(1)
proof cases
  case (adv c n p x)
  then show ?thesis
  proof (cases rule: advanceCompensation_cases)
    case (written y t)
    from written(2) assms(2) show ?thesis
    proof (cases rule: update_row_cases)
      case same
      with written that(1) show ?thesis by simp
    next
      case w: written
      with written that(2) show ?thesis by simp
    qed
  qed (use assms(2) that(1) in auto)
next
  case (recover now)
  show ?thesis
  proof (cases "stale now r")
    case True
    show ?thesis
      by (rule that(3) [of "r\<lparr>cm_state := CS_READY, cm_lockedBy := None, cm_lockedAt := None, cm_lockExpiresAt := None\<rparr>"])
        (use True recover assms(2) in \<open>simp_all add: recoverStaleLeases_def stale_def\<close>)
  next
    case False
    show ?thesis by (rule that(1)) (use False recover assms(2) in \<open>simp add: recoverStaleLeases_def\<close>)
  qed
next
  case (create sha now newId a inp x)
  then show ?thesis using create_keeps assms(2) that(1) by blast
next
  case (force c)
  show ?thesis
  proof (cases "update_compensation c CS_MANUAL_REVIEW (\<lambda>r. r) (cd_rows db)")
    case None
    then show ?thesis using force assms(2) that(1) by (simp add: forceState_def)
  next
    case (Some y)
    then have u: "update_compensation c CS_MANUAL_REVIEW (\<lambda>r. r) (cd_rows db) = Some (fst y, snd y)" by simp
    have d: "cd_rows db' = snd y" using Some force(1) by (simp add: forceState_def split: prod.splits)
    from u assms(2) show ?thesis
    proof (cases rule: update_row_cases)
      case same
      with d that(1) show ?thesis by simp
    next
      case written
      with d force(2) that(4) show ?thesis by simp
    qed
  qed
qed

lemma run_invariant:
  assumes "queue_step\<^sup>*\<^sup>* db db'" "cd_rows db k = Some r" "P r"
    and keep: "\<And>a b s. queue_step a b \<Longrightarrow> cd_rows a k = Some s \<Longrightarrow> P s \<Longrightarrow> \<exists>s'. cd_rows b k = Some s' \<and> P s'"
  shows "\<exists>r'. cd_rows db' k = Some r' \<and> P r'"
  using assms(1)
proof (induction rule: rtranclp_induct)
  case (step b c)
  then show ?case using keep by blast
qed (use assms(2,3) in auto)

section \<open>Claims are exclusive\<close>

lemma due_rows_ready: "r \<in> set (due_rows now limit db) \<Longrightarrow> cm_state r = CS_READY"
  by (auto simp: due_rows_def dest: in_set_takeD)

text \<open>Rows are stored under their own id.\<close>

definition keyed :: "comp_db \<Rightarrow> bool" where
  "keyed db \<longleftrightarrow> (\<forall>k r. cd_rows db k = Some r \<longrightarrow> cm_id r = k)"

lemma claim_patch_simps [simp]: "cm_id (claim_patch w l now r) = cm_id r" "cm_lockedBy (claim_patch w l now r) = Some w"
  by (simp_all add: claim_patch_def)

text \<open>A claimed row is in the table as the claim returned it, processing and locked by the claimer, when its claim is made.\<close>

lemma claim_one:
  assumes "keyed db" "advanceCompensation r CS_PROCESSING (claim_patch w lease now) db = Inr (Some x, db')"
  shows "cd_rows db' (cm_id x) = Some x \<and> cm_state x = CS_PROCESSING \<and> cm_lockedBy x = Some w"
  using assms by (auto simp: advanceCompensation_def rbind_Inr_iff update_compensation_def Let_def keyed_def split: option.splits if_splits)

lemma claim_keyed:
  assumes "keyed db" "advanceCompensation r CS_PROCESSING (claim_patch w lease now) db = Inr (o', db')"
  shows "keyed db'"
  using assms by (auto simp: advanceCompensation_def rbind_Inr_iff update_compensation_def Let_def keyed_def split: option.splits if_splits)

lemma claim_rows_Cons:
  assumes "claim_rows w lease now (r # rs) db = Inr (cs, db')"
  obtains o' db1 cs' where "advanceCompensation r CS_PROCESSING (claim_patch w lease now) db = Inr (o', db1)"
    "claim_rows w lease now rs db1 = Inr (cs', db')" "cs = (case o' of None \<Rightarrow> cs' | Some x \<Rightarrow> x # cs')"
  using assms by (auto simp: rbind_Inr_iff split: prod.splits)

lemma claim_rows_run: "claim_rows w lease now rs db = Inr (cs, db') \<Longrightarrow> queue_step\<^sup>*\<^sup>* db db'"
proof (induction rs arbitrary: db cs)
  case (Cons r rs)
  from Cons.prems obtain o' db1 cs' where "advanceCompensation r CS_PROCESSING (claim_patch w lease now) db = Inr (o', db1)"
    "claim_rows w lease now rs db1 = Inr (cs', db')" by (rule claim_rows_Cons)
  then show ?case using Cons.IH by (meson converse_rtranclp_into_rtranclp queue_step.adv)
qed simp

lemma claimed_at:
  assumes "claim_rows w lease now rs db = Inr (cs, db')" "keyed db" "x \<in> set cs"
  shows "\<exists>d. cd_rows d (cm_id x) = Some x \<and> cm_state x = CS_PROCESSING \<and> cm_lockedBy x = Some w \<and> queue_step\<^sup>*\<^sup>* d db'"
  using assms
proof (induction rs arbitrary: db cs)
  case (Cons r rs)
  from Cons.prems(1) obtain o' db1 cs' where c: "advanceCompensation r CS_PROCESSING (claim_patch w lease now) db = Inr (o', db1)"
    "claim_rows w lease now rs db1 = Inr (cs', db')" "cs = (case o' of None \<Rightarrow> cs' | Some x \<Rightarrow> x # cs')" by (rule claim_rows_Cons)
  show ?case
  proof (cases "x \<in> set cs'")
    case True
    with Cons.IH [OF c(2) claim_keyed [OF Cons.prems(2) c(1)]] show ?thesis by simp
  next
    case False
    with c(3) Cons.prems(3) have "o' = Some x" by (auto split: option.splits)
    with claim_one [OF Cons.prems(2)] c(1,2) claim_rows_run show ?thesis by blast
  qed
qed simp

lemma claim_never_fails: "\<forall>r\<in>set rs. cm_state r = CS_READY \<Longrightarrow> \<exists>cs db'. claim_rows w lease now rs db = Inr (cs, db')"
proof (induction rs arbitrary: db)
  case (Cons r rs)
  have "\<exists>x db1. advanceCompensation r CS_PROCESSING (claim_patch w lease now) db = Inr (x, db1)"
    using Cons(2) by (auto simp: advanceCompensation_def assertCompensationTransition_def isTerminalCompensation_def
        TERMINAL_COMPENSATION_STATES_def canCompensationTransition_def split: option.splits)
  then obtain x db1 where "advanceCompensation r CS_PROCESSING (claim_patch w lease now) db = Inr (x, db1)" by blast
  moreover obtain cs db' where "claim_rows w lease now rs db1 = Inr (cs, db')" using Cons.IH [of db1] Cons.prems by auto
  ultimately show ?case by simp
qed simp

text \<open>
  C6.  A claim is exclusive.  Once a worker has claimed a compensation, its copy stays usable only as long as nobody else
  has touched the row: whatever statements other workers, planners and operators issue afterwards, lease
  recovery included, a later write made from that copy succeeds only if the row is still exactly the one
  it claimed, processing and locked by it.  So no two workers ever write the outcome of one claim.
\<close>

theorem claim_exclusive:
  assumes "keyed db" "claimReady w lease limit now seen db = Inr (cs, db1)" "x \<in> set cs"
    and "queue_step\<^sup>*\<^sup>* db1 db2" "advanceCompensation x n p db2 = Inr (Some y, db3)"
  shows "cd_rows db2 (cm_id x) = Some x \<and> cm_lockedBy x = Some w \<and> cm_state x = CS_PROCESSING"
proof -
  let ?P = "\<lambda>r. r = x \<or> cm_version x < cm_version r \<or> cm_version r = cm_version x \<and> cm_state r = CS_READY"
  from claimed_at [OF assms(2) [unfolded claimReady_def] assms(1,3)] obtain d where
    x: "cd_rows d (cm_id x) = Some x" "cm_state x = CS_PROCESSING" "cm_lockedBy x = Some w" and run: "queue_step\<^sup>*\<^sup>* d db2"
    using assms(4) by (meson rtranclp_trans)
  have keep: "\<exists>s'. cd_rows b (cm_id x) = Some s' \<and> ?P s'" if "queue_step a b" "cd_rows a (cm_id x) = Some s" "?P s" for a b s
    using that(1,2)
  proof (cases rule: queue_step_row)
    case (moved r')
    with that(3) show ?thesis by auto
  next
    case (reopened r')
    with that(3) show ?thesis by auto
  qed (use that(3) in auto)
  have "\<exists>r. cd_rows db2 (cm_id x) = Some r \<and> ?P r"
    by (rule run_invariant [where P = ?P, OF run x(1)]) (simp, rule keep)
  moreover obtain r0 where "cd_rows db2 (cm_id x) = Some r0" "cm_version r0 = cm_version x" "cm_state r0 = cm_state x"
    using assms(5) by (cases rule: advanceCompensation_cases) (auto dest: comps.upd_Some)
  ultimately show ?thesis using x by auto
qed

definition ex_comp :: compensation where
  "ex_comp = (new_compensation (\<lambda>s. s) 0 ''c1'' (plan_action REDIS_LOCK_RELEASE ''r'' ''l1'')
     \<lparr>pi_bookingId = ''b1'', pi_workflowId = None, pi_tenantId = Some ''t1'', pi_generation = None, pi_paymentProvider = None,
      pi_paymentReference = None, pi_externalProviderCode = None, pi_providerReservationId = None, pi_providerBookingId = None,
      pi_correlationId = None, pi_maxAttempts = None\<rparr>)\<lparr>cm_state := CS_READY, cm_version := 1\<rparr>"

definition ex_table :: "compensation \<Rightarrow> comp_db" where
  "ex_table r = \<lparr>cd_rows = [''c1'' \<mapsto> r], cd_ids = [''c1''], cd_byKey = Map.empty, cd_byIdentity = Map.empty\<rparr>"

lemmas comp_eval = advanceCompensation_def assertCompensationTransition_def update_compensation_def Let_def isTerminalCompensation_def
  TERMINAL_COMPENSATION_STATES_def canCompensationTransition_def

lemma ex_claim:
  "claimReady ''w'' 60 50 1000 (ex_table ex_comp) (ex_table ex_comp) =
    Inr ([(claim_patch ''w'' 60 1000 ex_comp)\<lparr>cm_state := CS_PROCESSING, cm_version := 2\<rparr>],
         ex_table ((claim_patch ''w'' 60 1000 ex_comp)\<lparr>cm_state := CS_PROCESSING, cm_version := 2\<rparr>))"
  by (simp add: claimReady_def due_rows_def ex_table_def ex_comp_def new_compensation_def comp_eval List.map_filter_simps sort_cmp_def)

theorem claim_exclusive_witness:
  "\<exists>x db1 y db2. claimReady ''w'' 60 50 1000 (ex_table ex_comp) (ex_table ex_comp) = Inr ([x], db1) \<and>
     advanceCompensation x CS_COMPLETED (\<lambda>r. r) db1 = Inr (Some y, db2) \<and> cd_rows db1 ''c1'' = Some x \<and> cm_lockedBy x = Some ''w''"
proof -
  let ?x = "(claim_patch ''w'' 60 1000 ex_comp)\<lparr>cm_state := CS_PROCESSING, cm_version := 2\<rparr>"
  have id: "cm_id ?x = ''c1''" by (simp add: ex_comp_def new_compensation_def)
  have k: "keyed (ex_table ex_comp)" by (simp add: keyed_def ex_table_def ex_comp_def new_compensation_def)
  obtain y db2 where a: "advanceCompensation ?x CS_COMPLETED (\<lambda>r. r) (ex_table ?x) = Inr (Some y, db2)"
    using id by (simp add: comp_eval ex_table_def)
  from claim_exclusive [OF k ex_claim _ rtranclp.rtrancl_refl a] id a show ?thesis
    by (intro exI [of _ ?x] exI [of _ "ex_table ?x"] exI [of _ y] exI [of _ db2]) (simp add: ex_claim)
qed

text \<open>
  Settled work stays settled.  Whatever statements are issued, a compensation that was completed or cancelled keeps that
  state, versions never go back and no row disappears; dead-lettered work is reopened only by an operator,
  and then only into review.
\<close>

lemma settled_work_stays_settled:
  assumes "queue_step\<^sup>*\<^sup>* db db'" "cd_rows db k = Some r"
  shows "\<exists>r'. cd_rows db' k = Some r' \<and> cm_version r \<le> cm_version r' \<and>
    (cm_state r \<in> {CS_COMPLETED, CS_CANCELLED} \<longrightarrow> cm_state r' = cm_state r)"
proof -
  let ?P = "\<lambda>s. cm_version r \<le> cm_version s \<and> (cm_state r \<in> {CS_COMPLETED, CS_CANCELLED} \<longrightarrow> cm_state s = cm_state r)"
  have keep: "\<exists>s'. cd_rows b k = Some s' \<and> ?P s'" if "queue_step a b" "cd_rows a k = Some s" "?P s" for a b s
    using that(1,2)
  proof (cases rule: queue_step_row)
    case (moved r')
    with that(3) show ?thesis by (auto simp: transition_ok_def isTerminalCompensation_def TERMINAL_COMPENSATION_STATES_def)
  qed (use that(3) in auto)
  show ?thesis by (rule run_invariant [where P = ?P, OF assms]) (simp, rule keep)
qed

lemma settled_work_stays_settled_witness:
  "\<exists>r. cd_rows (recoverStaleLeases 5 (ex_table (ex_comp\<lparr>cm_state := CS_COMPLETED\<rparr>))) ''c1'' = Some r \<and> cm_state r = CS_COMPLETED"
  using settled_work_stays_settled [OF r_into_rtranclp [of queue_step, OF queue_step.recover],
      of "ex_table (ex_comp\<lparr>cm_state := CS_COMPLETED\<rparr>)" "''c1''" "ex_comp\<lparr>cm_state := CS_COMPLETED\<rparr>" 5]
  by (auto simp: ex_table_def)

text \<open>
  The attempt limit is only looked at when an attempt reports a failure.  A worker that dies while it holds
  the row is recovered and the row is claimed again without a look at \<^verbatim>\<open>maxAttempts\<close>, so work that kills its
  worker is attempted without bound.
\<close>

lemma crash_loop_unbounded:
  "\<exists>r. queue_step\<^sup>*\<^sup>* (ex_table ex_comp) (ex_table r) \<and> cm_id r = ''c1'' \<and> cm_state r = CS_READY \<and> cm_attemptCount r = int n \<and> cm_maxAttempts r = 5"
proof (induction n)
  case 0
  show ?case by (rule exI [of _ ex_comp]) (simp add: ex_comp_def new_compensation_def)
next
  case (Suc n)
  then obtain r where r: "queue_step\<^sup>*\<^sup>* (ex_table ex_comp) (ex_table r)" "cm_id r = ''c1''" "cm_state r = CS_READY"
    "cm_attemptCount r = int n" "cm_maxAttempts r = 5" by blast
  define x where "x = (claim_patch ''w'' 0 0 r)\<lparr>cm_state := CS_PROCESSING, cm_version := cm_version r + 1\<rparr>"
  have "advanceCompensation r CS_PROCESSING (claim_patch ''w'' 0 0) (ex_table r) = Inr (Some x, ex_table x)"
    using r by (simp add: comp_eval ex_table_def x_def)
  then have 1: "queue_step (ex_table r) (ex_table x)" by (rule queue_step.adv)
  define z where "z = x\<lparr>cm_state := CS_READY, cm_lockedBy := None, cm_lockedAt := None, cm_lockExpiresAt := None\<rparr>"
  have "recoverStaleLeases 1 (ex_table x) = ex_table z"
    by (auto simp: recoverStaleLeases_def ex_table_def stale_def x_def z_def claim_patch_def)
  then have 2: "queue_step (ex_table x) (ex_table z)" by (metis queue_step.recover)
  have "queue_step\<^sup>*\<^sup>* (ex_table ex_comp) (ex_table z)" using r(1) 1 2 by (meson rtranclp.rtrancl_into_rtrancl)
  then show ?case using r by (intro exI [of _ z]) (simp add: z_def x_def claim_patch_def)
qed

section \<open>Planning is idempotent and keeps money out of the queue\<close>

text \<open>What recording one action does: either the key was there and nothing changes, or one new row appears.\<close>

lemma record_action_cases:
  assumes "record_action sha now newId inp a db = Inr (c, db')"
  obtains (replay) "db' = db" "Option.bind (cd_byKey db (idempotencyKey sha (action_identity a inp))) (cd_rows db) = Some c"
  | (new) r where "cd_rows db (newId db) = None" "cd_byKey db (idempotencyKey sha (action_identity a inp)) = None"
      "cd_rows db' = (cd_rows db)(newId db \<mapsto> r)" "cm_type r = ca_type a"
      "cm_state r = (if ca_autoExecutable a \<and> ca_type a \<in> set SAFE_NON_FINANCIAL_ACTIONS \<and> ca_type a \<notin> set FINANCIAL_ACTIONS
         then CS_READY else CS_MANUAL_REVIEW)"
      "cd_byKey db' = (cd_byKey db)(idempotencyKey sha (action_identity a inp) \<mapsto> newId db)"
proof -
  let ?k = "idempotencyKey sha (action_identity a inp)"
  let ?row = "new_compensation sha now (newId db) a inp"
  have q: "advance_quietly ?row n p d = d\<lparr>cd_rows := (cd_rows d)(newId db \<mapsto> (p ?row)\<lparr>cm_state := n, cm_version := 1\<rparr>)\<rparr>"
    if "cd_rows d (newId db) = Some ?row" "n = CS_READY \<or> n = CS_MANUAL_REVIEW" for n p d
    using that by (auto simp: advance_quietly_def advanceCompensation_def assertCompensationTransition_def update_compensation_def Let_def
        isTerminalCompensation_def TERMINAL_COMPENSATION_STATES_def canCompensationTransition_def new_compensation_def)
  show ?thesis
  proof (cases "cd_rows db (newId db) = None \<and> cd_byKey db ?k = None \<and> cd_byIdentity db (action_identity a inp) = None")
    case True
    have t: "cm_type (new_compensation sha now i a inp) = ca_type a" for i by (simp add: new_compensation_def)
    show ?thesis
    proof (cases "ca_autoExecutable a \<and> ca_type a \<in> set SAFE_NON_FINANCIAL_ACTIONS \<and> ca_type a \<notin> set FINANCIAL_ACTIONS")
      case safe: True
      show ?thesis
        by (rule that(2) [of "?row\<lparr>cm_state := CS_READY, cm_version := 1\<rparr>"])
          (use True safe assms t in \<open>auto simp: record_action_def createOrGetCompensation_def Let_def q\<close>)
    next
      case unsafe: False
      show ?thesis
        by (rule that(2) [of "?row\<lparr>cm_manualReviewReason := Some (ca_reasonCode a), cm_state := CS_MANUAL_REVIEW, cm_version := 1\<rparr>"])
          (use True unsafe assms t in \<open>auto simp: record_action_def createOrGetCompensation_def Let_def q\<close>)
    qed
  next
    case False
    then show ?thesis using assms that(1)
      by (auto simp: record_action_def createOrGetCompensation_def Let_def split: option.splits if_splits)
  qed
qed

definition recorded :: "comp_db \<Rightarrow> string \<Rightarrow> bool" where
  "recorded db k \<longleftrightarrow> (case cd_byKey db k of None \<Rightarrow> False | Some i \<Rightarrow> cd_rows db i \<noteq> None)"

lemma record_action_recorded:
  assumes "record_action sha now newId inp a db = Inr (c, db')"
  shows "recorded db' (idempotencyKey sha (action_identity a inp)) \<and> (recorded db k \<longrightarrow> recorded db' k)"
  using assms by (cases rule: record_action_cases) (auto simp: recorded_def bind_eq_Some_conv split: option.splits if_splits)

lemma record_actions_Cons:
  assumes "record_actions sha now newId inp (a # as) db = Inr (cs, db')"
  obtains c db1 cs' where "record_action sha now newId inp a db = Inr (c, db1)" "record_actions sha now newId inp as db1 = Inr (cs', db')"
  using assms by (auto simp: rbind_Inr_iff)

lemma record_actions_recorded:
  assumes "record_actions sha now newId inp as db = Inr (cs, db')"
  shows "(\<forall>a\<in>set as. recorded db' (idempotencyKey sha (action_identity a inp))) \<and> (recorded db k \<longrightarrow> recorded db' k)"
  using assms
proof (induction as arbitrary: db cs k)
  case (Cons a as)
  from Cons.prems obtain c db1 cs' where r: "record_action sha now newId inp a db = Inr (c, db1)"
    "record_actions sha now newId inp as db1 = Inr (cs', db')" by (rule record_actions_Cons)
  from Cons.IH [OF r(2)] record_action_recorded [OF r(1)] show ?case by auto
qed simp

lemma record_actions_replay:
  assumes "\<forall>a\<in>set as. recorded db (idempotencyKey sha (action_identity a inp))"
  shows "\<exists>cs. record_actions sha now newId inp as db = Inr (cs, db)"
  using assms
proof (induction as)
  case (Cons a as)
  then obtain c where "Option.bind (cd_byKey db (idempotencyKey sha (action_identity a inp))) (cd_rows db) = Some c"
    by (auto simp: recorded_def split: option.splits)
  then have "record_action sha now newId inp a db = Inr (c, db)"
    by (auto simp: record_action_def createOrGetCompensation_def Let_def bind_eq_Some_conv)
  with Cons show ?case by auto
qed simp

lemma queue_step_recorded:
  assumes "queue_step db db'" "recorded db k"
  shows "recorded db' k"
proof -
  obtain i r where i: "cd_byKey db k = Some i" "cd_rows db i = Some r" using assms(2) by (auto simp: recorded_def split: option.splits)
  have "cd_byKey db' k = Some i"
    using assms(1)
  proof cases
    case (adv c n p x)
    then show ?thesis by (cases rule: advanceCompensation_cases) (use i in auto)
  next
    case (create sha now newId a inp x)
    then show ?thesis using i(1) by (auto simp: createOrGetCompensation_def Let_def split: if_splits option.splits)
  qed (use i in \<open>auto simp: recoverStaleLeases_def forceState_def split: option.splits\<close>)
  moreover have "cd_rows db' i \<noteq> None" using assms(1) i(2) by (cases rule: queue_step_row) auto
  ultimately show ?thesis by (auto simp: recorded_def)
qed

lemma queue_run_recorded: "queue_step\<^sup>*\<^sup>* db db' \<Longrightarrow> recorded db k \<Longrightarrow> recorded db' k"
  by (induction rule: rtranclp_induct) (auto intro: queue_step_recorded)

text \<open>
  Planning is idempotent.  When a discrepancy has been planned for a booking, planning it again, however much later and
  whatever happened to the queue in between, returns records but changes nothing: no second row for the
  same action, and no action promoted a second time.
\<close>

lemma replan_changes_nothing:
  assumes "planService f sha now newId ctx inp db = Inr (rs, db')" "queue_step\<^sup>*\<^sup>* db' db''"
  shows "\<exists>rs'. planService f sha now' newId' ctx inp db'' = Inr (rs', db'')"
proof (cases "\<not> planningEnabled f \<or> cp_actions (planCompensation ctx) = []")
  case False
  then have "record_actions sha now newId inp (cp_actions (planCompensation ctx)) db = Inr (rs, db')"
    using assms(1) by (simp add: planService_def)
  then have "\<forall>a\<in>set (cp_actions (planCompensation ctx)). recorded db'' (idempotencyKey sha (action_identity a inp))"
    using record_actions_recorded queue_run_recorded [OF assms(2)] by blast
  with record_actions_replay False show ?thesis by (simp add: planService_def)
qed (simp add: planService_def)

definition ex_flags :: compensation_flags where
  "ex_flags = \<lparr>cf_enabled = True, cf_planning = True, cf_execution = True, cf_autoProviderCancel = False, cf_autoVoid = False,
     cf_autoRefund = False, cf_refundPolicyMode = None\<rparr>"

definition ex_plan_input :: plan_input where
  "ex_plan_input = \<lparr>pi_bookingId = ''b1'', pi_workflowId = None, pi_tenantId = Some ''t1'', pi_generation = None, pi_paymentProvider = None,
     pi_paymentReference = None, pi_externalProviderCode = None, pi_providerReservationId = None, pi_providerBookingId = None,
      pi_correlationId = None, pi_maxAttempts = None\<rparr>"

definition empty_comps :: comp_db where
  "empty_comps = \<lparr>cd_rows = Map.empty, cd_ids = [], cd_byKey = Map.empty, cd_byIdentity = Map.empty\<rparr>"

definition finalize_context :: compensation_context where
  "finalize_context = ex_context\<lparr>cx_redisFinalizeFailed := True\<rparr>"

lemma finalize_plan: "cp_actions (planCompensation finalize_context) = [plan_action REDIS_LOCK_RELEASE ''REDIS_FINALIZE_FAILED'' ''b1'']"
  by (simp add: finalize_context_def ex_context_def planCompensation_def Let_def)

lemma ex_planned:
  "\<exists>rs db. planService ex_flags (\<lambda>s. s) 0 (\<lambda>_. ''c1'') finalize_context ex_plan_input empty_comps = Inr (rs, db) \<and>
     (\<exists>r. cd_rows db ''c1'' = Some r \<and> cm_type r = REDIS_LOCK_RELEASE \<and> cm_targetReference r = ''b1'')"
  by (simp add: planService_def planningEnabled_def ex_flags_def finalize_plan record_action_def createOrGetCompensation_def Let_def
      empty_comps_def advance_quietly_def comp_eval new_compensation_def plan_action_def SAFE_NON_FINANCIAL_ACTIONS_def FINANCIAL_ACTIONS_def)

lemma replan_changes_nothing_witness:
  "\<exists>rs db rs'. planService ex_flags (\<lambda>s. s) 0 (\<lambda>_. ''c1'') finalize_context ex_plan_input empty_comps = Inr (rs, db) \<and>
     planService ex_flags (\<lambda>s. s) 9 (\<lambda>_. ''c2'') finalize_context ex_plan_input (recoverStaleLeases 7 db) = Inr (rs', recoverStaleLeases 7 db)"
  using ex_planned replan_changes_nothing [OF _ r_into_rtranclp [of queue_step, OF queue_step.recover]] by meson

lemma if_target_auto: "a \<in> set (if_target t (plan_action ty r)) \<Longrightarrow> ca_autoExecutable a \<longleftrightarrow> ca_type a \<in> set SAFE_NON_FINANCIAL_ACTIONS"
  by (auto simp: if_target_def split: option.splits if_splits)

definition honest :: "compensation_plan \<Rightarrow> bool" where
  "honest p \<longleftrightarrow> (\<forall>a\<in>set (cp_actions p). ca_autoExecutable a \<longleftrightarrow> ca_type a \<in> set SAFE_NON_FINANCIAL_ACTIONS)"

lemma honest_plans:
  "honest (plan_empty c r)" "honest (plan_of c (rejected_actions ctx))" "honest (plan_of c (exhausted_actions ctx))"
  "honest (plan_of c [plan_action ty r t])" "honest (plan_of c (plan_action ty r t # if_target t' (plan_action ty' r')))"
  using if_target_auto by (auto simp: honest_def rejected_actions_def exhausted_actions_def split: option.splits)

lemma plan_honest: "honest (planCompensation ctx)"
  unfolding planCompensation_def Let_def by (simp only: if_split [of honest] honest_plans) simp

lemma safe_not_financial: "ty \<in> set SAFE_NON_FINANCIAL_ACTIONS \<Longrightarrow> ty \<notin> set FINANCIAL_ACTIONS"
  by (auto simp: type_sets)

lemma record_actions_outcome:
  assumes "record_actions sha now newId inp as db = Inr (cs, db')"
    and "\<forall>a\<in>set as. ca_autoExecutable a \<longleftrightarrow> ca_type a \<in> set SAFE_NON_FINANCIAL_ACTIONS"
  shows "(\<forall>k r. cd_rows db k = Some r \<longrightarrow> cd_rows db' k = Some r) \<and>
    (\<forall>k r. cd_rows db k = None \<and> cd_rows db' k = Some r \<longrightarrow>
       cm_state r = (if cm_type r \<in> set SAFE_NON_FINANCIAL_ACTIONS then CS_READY else CS_MANUAL_REVIEW))"
  using assms
proof (induction as arbitrary: db cs)
  case (Cons a as)
  from Cons.prems(1) obtain c db1 cs' where r: "record_action sha now newId inp a db = Inr (c, db1)"
    "record_actions sha now newId inp as db1 = Inr (cs', db')" by (rule record_actions_Cons)
  have IH1: "cd_rows db1 k = Some s \<Longrightarrow> cd_rows db' k = Some s"
    and IH2: "cd_rows db1 k = None \<Longrightarrow> cd_rows db' k = Some s \<Longrightarrow>
      cm_state s = (if cm_type s \<in> set SAFE_NON_FINANCIAL_ACTIONS then CS_READY else CS_MANUAL_REVIEW)" for k s
    using Cons.IH [OF r(2)] Cons.prems(2) by (meson list.set_intros(2))+
  have auto: "ca_autoExecutable a \<longleftrightarrow> ca_type a \<in> set SAFE_NON_FINANCIAL_ACTIONS" using Cons.prems(2) by simp
  from r(1) show ?case
  proof (cases rule: record_action_cases)
    case replay
    with IH1 IH2 show ?thesis by blast
  next
    case (new row)
    have st: "cm_state row = (if cm_type row \<in> set SAFE_NON_FINANCIAL_ACTIONS then CS_READY else CS_MANUAL_REVIEW)"
      using new(4,5) auto safe_not_financial by simp
    show ?thesis
    proof (intro conjI allI impI)
      fix k r
      assume "cd_rows db k = Some r"
      with new(1,3) have "cd_rows db1 k = Some r" by (cases "k = newId db") simp_all
      then show "cd_rows db' k = Some r" by (rule IH1)
    next
      fix k r
      assume k: "cd_rows db k = None \<and> cd_rows db' k = Some r"
      show "cm_state r = (if cm_type r \<in> set SAFE_NON_FINANCIAL_ACTIONS then CS_READY else CS_MANUAL_REVIEW)"
      proof (cases "k = newId db")
        case True
        then have "cd_rows db1 k = Some row" using new(3) by simp
        then have "r = row" using IH1 k by fastforce
        with st show ?thesis by simp
      next
        case False
        then have "cd_rows db1 k = None" using new(3) k by simp
        with IH2 k show ?thesis by blast
      qed
    qed
  qed
qed auto

text \<open>
  What planning puts in the queue.  Planning never touches an existing record; of the records it creates, exactly those
  whose action neither moves money nor cancels anything at a provider become ready for the worker, and every
  other one waits in review for an operator.
\<close>

lemma plan_outcome:
  assumes "planService f sha now newId ctx inp db = Inr (rs, db')"
  shows "(\<forall>k r. cd_rows db k = Some r \<longrightarrow> cd_rows db' k = Some r) \<and>
    (\<forall>k r. cd_rows db k = None \<and> cd_rows db' k = Some r \<longrightarrow>
       cm_state r = (if cm_type r \<in> set SAFE_NON_FINANCIAL_ACTIONS then CS_READY else CS_MANUAL_REVIEW))"
proof (cases "\<not> planningEnabled f \<or> cp_actions (planCompensation ctx) = []")
  case False
  then have "record_actions sha now newId inp (cp_actions (planCompensation ctx)) db = Inr (rs, db')"
    using assms by (simp add: planService_def)
  then show ?thesis by (rule record_actions_outcome) (use plan_honest in \<open>simp add: honest_def\<close>)
qed (use assms in \<open>auto simp: planService_def\<close>)

lemma plan_outcome_witness:
  "\<exists>rs db r. planService ex_flags (\<lambda>s. s) 0 (\<lambda>_. ''c1'') finalize_context ex_plan_input empty_comps = Inr (rs, db) \<and>
     cd_rows db ''c1'' = Some r \<and> cm_state r = CS_READY"
proof -
  from ex_planned obtain rs db r where p: "planService ex_flags (\<lambda>s. s) 0 (\<lambda>_. ''c1'') finalize_context ex_plan_input empty_comps = Inr (rs, db)"
    "cd_rows db ''c1'' = Some r" "cm_type r = REDIS_LOCK_RELEASE" by blast
  moreover have "cd_rows empty_comps ''c1'' = None" by (simp add: empty_comps_def)
  ultimately have "cm_state r = CS_READY" using plan_outcome [OF p(1)] by (auto simp: SAFE_NON_FINANCIAL_ACTIONS_def)
  with p show ?thesis by blast
qed

end
