(* ===== verification/PaymentExecutors.thy ===== *)
theory PaymentExecutors
  imports CompensationQueue
begin

text \<open>
  The two executors that may move money for a compensation: \<^verbatim>\<open>payment-void.executor.ts\<close> (cancel an
  authorization) and \<^verbatim>\<open>payment-refund.executor.ts\<close> (refund a captured payment in full).  The payment provider
  is a parameter: it answers the n-th call it receives, or throws, as it likes.  The world records the
  provider calls that were made and the events that were stored.  A read from the database succeeds; whether
  a finalizing transaction and the intent transaction commit is a parameter.
\<close>

datatype payment_status =
  REQUIRES_PAYMENT | PAY_PROCESSING | PAY_AUTHORIZED | PAY_SUCCEEDED | PAY_FAILED | PAY_VOIDED | PAY_REFUNDED | PAY_PARTIALLY_REFUNDED

fun payment_status_name :: "payment_status \<Rightarrow> string" where
  "payment_status_name REQUIRES_PAYMENT = ''REQUIRES_PAYMENT''"
| "payment_status_name PAY_PROCESSING = ''PROCESSING''"
| "payment_status_name PAY_AUTHORIZED = ''AUTHORIZED''"
| "payment_status_name PAY_SUCCEEDED = ''SUCCEEDED''"
| "payment_status_name PAY_FAILED = ''FAILED''"
| "payment_status_name PAY_VOIDED = ''VOIDED''"
| "payment_status_name PAY_REFUNDED = ''REFUNDED''"
| "payment_status_name PAY_PARTIALLY_REFUNDED = ''PARTIALLY_REFUNDED''"

record payment_row =
  py_status :: payment_status
  py_amountMinor :: minor
  py_refundedMinor :: minor
  py_providerRef :: "string option"

record paid_booking =
  pb_status :: booking_status
  pb_currency :: string
  pb_tickets :: "string list"
  pb_eventCancelled :: bool
  pb_payment :: "payment_row option"
  pb_providerCancellationRequired :: bool

record refund_intent =
  rn_bookingId :: string
  rn_amountMinor :: minor
  rn_status :: refund_status
  rn_reason :: string
  rn_providerRef :: "string option"

datatype payment_event =
  VoidRequested string | PaymentVoided string | VoidAmbiguous string | VoidRejected string | ManualReviewRequired string
| PaymentStatusRecoveryRequested string | PaymentStatusRecovered string
| RefundRequested string | PaymentRefunded string | RefundPending string | RefundAmbiguous string | RefundRejected string
| RefundStatusRecoveryRequested string | RefundStatusRecovered string

datatype provider_call =
  CallCancel string | CallGetPayment string | CallRefund string minor | CallGetRefund string

record pay_world =
  pw_bookings :: "string \<rightharpoonup> paid_booking"
  pw_refunds :: "refund_intent list"
  pw_comps :: comp_db
  pw_events :: "payment_event list"
  pw_calls :: "provider_call list"

text \<open>An answer of \<open>None\<close> is an exception.  The first argument of an operation counts the calls made before.\<close>

record payment_provider =
  pp_name :: string
  pp_supportsAuthorizeCapture :: bool
  pp_supportsVoid :: bool
  pp_supportsIdempotentVoid :: bool
  pp_cancel :: "(nat \<Rightarrow> string \<Rightarrow> string option) option"
  pp_supportsPaymentStatusQuery :: bool
  pp_getPayment :: "(nat \<Rightarrow> string \<Rightarrow> string option) option"
  pp_supportsFullRefund :: bool
  pp_supportsIdempotentRefund :: bool
  pp_refundMayBeAsynchronous :: bool
  pp_refund :: "nat \<Rightarrow> string \<Rightarrow> minor \<Rightarrow> (string \<times> string) option"
  pp_supportsRefundStatusQuery :: bool
  pp_getRefund :: "(nat \<Rightarrow> string \<Rightarrow> (string \<times> string option) option) option"

record pay_env =
  pe_provider :: payment_provider
  pe_paymentStatusRecovery :: bool
  pe_refundStatusRecovery :: bool
  pe_finalizeCommits :: bool
  pe_intentCommits :: bool
  pe_policyMode :: refund_policy_mode
  pe_policyVersion :: "string option"
  pe_sha :: "string \<Rightarrow> string"
  pe_newId :: "comp_db \<Rightarrow> string"
  pe_now :: time_ms

definition emit :: "payment_event \<Rightarrow> pay_world \<Rightarrow> pay_world" where
  "emit e w = w\<lparr>pw_events := pw_events w @ [e]\<rparr>"

definition provider_called :: "provider_call \<Rightarrow> pay_world \<Rightarrow> pay_world" where
  "provider_called c w = w\<lparr>pw_calls := pw_calls w @ [c]\<rparr>"

definition set_booking :: "string \<Rightarrow> paid_booking \<Rightarrow> pay_world \<Rightarrow> pay_world" where
  "set_booking k b w = w\<lparr>pw_bookings := (pw_bookings w)(k \<mapsto> b)\<rparr>"

definition payment_of :: "pay_world \<Rightarrow> string \<Rightarrow> payment_row option" where
  "payment_of w k = Option.bind (pw_bookings w k) pb_payment"

section \<open>Voiding an authorization\<close>

datatype void_outcome = VOIDED | VOID_RETRYABLE | VOID_MANUAL_REVIEW | SUPERSEDED_BY_REFUND | VOID_NOT_ELIGIBLE

text \<open>The guarded update matches only an authorized or processing payment; a failed transaction is logged and dropped.\<close>

definition finalizeVoided :: "pay_env \<Rightarrow> compensation \<Rightarrow> pay_world \<Rightarrow> pay_world" where
  "finalizeVoided env c w =
    (case pw_bookings w (cm_bookingId c) of
       None \<Rightarrow> w
     | Some b \<Rightarrow> (case pb_payment b of
           None \<Rightarrow> w
         | Some p \<Rightarrow>
             if pe_finalizeCommits env \<and> py_status p \<in> {PAY_AUTHORIZED, PAY_PROCESSING}
             then emit (PaymentVoided (cm_id c))
               (set_booking (cm_bookingId c) (b\<lparr>pb_payment := Some (p\<lparr>py_status := PAY_VOIDED\<rparr>)\<rparr>) w)
             else w))"

definition handoff_action :: "compensation \<Rightarrow> string \<Rightarrow> minor \<Rightarrow> compensation_action" where
  "handoff_action c currency amount =
    \<lparr>ca_type = PAYMENT_REFUND, ca_reasonCode = ''PAYMENT_CAPTURED_VOID_SUPERSEDED'',
     ca_targetReference = nvl (cm_paymentReference c) (cm_bookingId c), ca_autoExecutable = False, ca_amountMinor = Some amount,
     ca_currency = Some currency\<rparr>"

definition handoff_input :: "payment_provider \<Rightarrow> compensation \<Rightarrow> plan_input" where
  "handoff_input pv c =
    \<lparr>pi_bookingId = cm_bookingId c, pi_workflowId = cm_workflowId c, pi_tenantId = cm_tenantId c, pi_generation = None,
     pi_paymentProvider = Some (nvl (cm_paymentProvider c) (pp_name pv)), pi_paymentReference = cm_paymentReference c,
     pi_externalProviderCode = None, pi_providerReservationId = None, pi_providerBookingId = None,
     pi_correlationId = cm_correlationId c, pi_maxAttempts = None\<rparr>"

definition handoffToRefund :: "pay_env \<Rightarrow> compensation \<Rightarrow> string \<Rightarrow> minor \<Rightarrow> pay_world \<Rightarrow> void_outcome \<times> pay_world" where
  "handoffToRefund env c currency amount w =
    (let w1 = (case createOrGetCompensation (pe_sha env) (pe_now env) (pe_newId env (pw_comps w)) (handoff_action c currency amount)
                 (handoff_input (pe_provider env) c) (pw_comps w) of
                 Inl _ \<Rightarrow> w
               | Inr (_, db) \<Rightarrow> w\<lparr>pw_comps := db\<rparr>)
     in (SUPERSEDED_BY_REFUND, emit (ManualReviewRequired (cm_id c)) w1))"

definition recoverStatus :: "pay_env \<Rightarrow> compensation \<Rightarrow> string \<Rightarrow> pay_world \<Rightarrow> string \<times> pay_world" where
  "recoverStatus env c ref w =
    (case (pp_supportsPaymentStatusQuery (pe_provider env) \<and> pe_paymentStatusRecovery env, pp_getPayment (pe_provider env)) of
       (True, Some get) \<Rightarrow>
         (let w1 = provider_called (CallGetPayment ref) (emit (PaymentStatusRecoveryRequested (cm_id c)) w) in
          case get (length (pw_calls w)) ref of
            None \<Rightarrow> (''UNKNOWN'', w1)
          | Some s \<Rightarrow> (s, emit (PaymentStatusRecovered (cm_id c)) w1))
     | _ \<Rightarrow> (''UNKNOWN'', w))"

definition voided :: "pay_env \<Rightarrow> compensation \<Rightarrow> pay_world \<Rightarrow> void_outcome \<times> pay_world" where
  "voided env c w = (VOIDED, finalizeVoided env c w)"

text \<open>The provider call of \<^verbatim>\<open>execute\<close> and what its answer, or its silence, leads to.\<close>

definition cancel_authorization ::
  "pay_env \<Rightarrow> compensation \<Rightarrow> paid_booking \<Rightarrow> payment_row \<Rightarrow> string \<Rightarrow> (nat \<Rightarrow> string \<Rightarrow> string option) \<Rightarrow> pay_world \<Rightarrow> void_outcome \<times> pay_world" where
  "cancel_authorization env c b p ref cancel w =
    (let w1 = emit (VoidRequested (cm_id c)) w; w2 = provider_called (CallCancel ref) w1 in
     case cancel (length (pw_calls w1)) ref of
       Some s \<Rightarrow>
         if s = ''CANCELLED'' then voided env c w2
         else if s = ''CAPTURED'' \<or> s = ''SUCCEEDED'' then handoffToRefund env c (pb_currency b) (py_amountMinor p) w2
         else (VOID_MANUAL_REVIEW, emit (VoidRejected (cm_id c)) w2)
     | None \<Rightarrow>
         (let (recovered, w3) = recoverStatus env c ref (emit (VoidAmbiguous (cm_id c)) w2) in
          if recovered = ''VOIDED'' \<or> recovered = ''CANCELLED'' then voided env c w3
          else if recovered = ''AUTHORIZED'' then (VOID_RETRYABLE, w3)
          else if recovered = ''CAPTURED'' then handoffToRefund env c (pb_currency b) (py_amountMinor p) w3
          else (VOID_MANUAL_REVIEW, emit (VoidRejected (cm_id c)) w3)))"

definition void_refused :: "compensation \<Rightarrow> paid_booking \<Rightarrow> payment_row \<Rightarrow> payment_provider \<Rightarrow> bool" where
  "void_refused c b p pv \<longleftrightarrow>
    pb_status b = BK_CONFIRMED \<or> pb_tickets b \<noteq> [] \<or>
    truthy (cm_currency c) \<and> cm_currency c \<noteq> Some (pb_currency b) \<or>
    cm_amountMinor c \<noteq> None \<and> cm_amountMinor c \<noteq> Some (py_amountMinor p) \<or>
    \<not> pp_supportsAuthorizeCapture pv \<or> \<not> pp_supportsVoid pv \<or> \<not> pp_supportsIdempotentVoid pv \<or> pp_cancel pv = None \<or>
    \<not> truthy (py_providerRef p)"

definition executeVoid :: "pay_env \<Rightarrow> compensation \<Rightarrow> pay_world \<Rightarrow> void_outcome \<times> pay_world" where
  "executeVoid env c w =
    (if cm_type c \<noteq> PAYMENT_VOID then (VOID_NOT_ELIGIBLE, w)
     else case pw_bookings w (cm_bookingId c) of
       None \<Rightarrow> (VOID_MANUAL_REVIEW, w)
     | Some b \<Rightarrow> (case pb_payment b of
         None \<Rightarrow> (VOID_MANUAL_REVIEW, w)
       | Some p \<Rightarrow>
         if void_refused c b p (pe_provider env) then (VOID_MANUAL_REVIEW, w)
         else let ref = nvl (py_providerRef p) []; cancel = the (pp_cancel (pe_provider env)) in
           if py_status p = PAY_VOIDED then (VOIDED, w)
           else if py_status p = PAY_SUCCEEDED then handoffToRefund env c (pb_currency b) (py_amountMinor p) w
           else if py_status p = PAY_AUTHORIZED then cancel_authorization env c b p ref cancel w
           else let (recovered, w1) = recoverStatus env c ref w in
             if recovered = ''AUTHORIZED'' then cancel_authorization env c b p ref cancel w1
             else if recovered = ''CAPTURED'' then handoffToRefund env c (pb_currency b) (py_amountMinor p) w1
             else if recovered = ''VOIDED'' \<or> recovered = ''CANCELLED'' then voided env c w1
             else (VOID_MANUAL_REVIEW, w1)))"

section \<open>Refunding a captured payment\<close>

datatype refund_outcome = REFUNDED | REFUND_PENDING | REFUND_RETRYABLE | REFUND_MANUAL_REVIEW | REFUND_NOT_ELIGIBLE

definition policy_context :: "paid_booking \<Rightarrow> payment_row \<Rightarrow> refund_policy_context" where
  "policy_context b p =
    \<lparr>rp_paymentStatus = payment_status_name (py_status p), rp_amountPaidMinor = py_amountMinor p, rp_currency = pb_currency b,
     rp_ticketCheckedIn = (''CHECKED_IN'' \<in> set (pb_tickets b)), rp_eventCancelled = pb_eventCancelled b,
     rp_customerCancellation = (pb_status b = BK_CANCELLED), rp_providerCancellationRequired = pb_providerCancellationRequired b,
     rp_providerCancellationSupported = False, rp_settlementStatus = None\<rparr>"

definition persistIntent :: "pay_env \<Rightarrow> compensation \<Rightarrow> minor \<Rightarrow> pay_world \<Rightarrow> pay_world" where
  "persistIntent env c amount w =
    (if \<not> pe_intentCommits env then w
     else emit (RefundRequested (cm_id c))
       (if \<exists>r\<in>set (pw_refunds w). rn_bookingId r = cm_bookingId c \<and> rn_reason r = cm_idempotencyKey c then w
        else w\<lparr>pw_refunds := pw_refunds w @
          [\<lparr>rn_bookingId = cm_bookingId c, rn_amountMinor = amount, rn_status = RS_PROCESSING, rn_reason = cm_idempotencyKey c,
            rn_providerRef = None\<rparr>]\<rparr>))"

text \<open>\<open>Inl ()\<close>: the finalizing transaction failed and the error is thrown on.\<close>

definition complete_intents :: "compensation \<Rightarrow> string \<Rightarrow> refund_intent list \<Rightarrow> refund_intent list" where
  "complete_intents c ref rs =
    map (\<lambda>r. if rn_bookingId r = cm_bookingId c \<and> rn_reason r = cm_idempotencyKey c
             then r\<lparr>rn_status := RS_COMPLETED, rn_providerRef := Some ref\<rparr> else r) rs"

definition finalizeRefunded :: "pay_env \<Rightarrow> compensation \<Rightarrow> minor \<Rightarrow> string \<Rightarrow> pay_world \<Rightarrow> unit + pay_world" where
  "finalizeRefunded env c amount ref w =
    (if \<not> pe_finalizeCommits env then Inl ()
     else Inr (case pw_bookings w (cm_bookingId c) of
         None \<Rightarrow> w
       | Some b \<Rightarrow> (case pb_payment b of
           None \<Rightarrow> w
         | Some p \<Rightarrow>
             if py_status p = PAY_SUCCEEDED
             then emit (PaymentRefunded (cm_id c))
               (set_booking (cm_bookingId c)
                 (b\<lparr>pb_status := BK_REFUNDED, pb_payment := Some (p\<lparr>py_status := PAY_REFUNDED, py_refundedMinor := amount\<rparr>)\<rparr>)
                 (w\<lparr>pw_refunds := complete_intents c ref (pw_refunds w)\<rparr>))
             else w)))"

text \<open>The result of an executor is an outcome or a throw, in the world it leaves behind.\<close>

definition recoverRefund ::
  "pay_env \<Rightarrow> compensation \<Rightarrow> string \<Rightarrow> string option \<Rightarrow> minor \<Rightarrow> pay_world \<Rightarrow> (unit + refund_outcome) \<times> pay_world" where
  "recoverRefund env c ref refundRef amount w =
    (case (pp_supportsRefundStatusQuery (pe_provider env) \<and> pe_refundStatusRecovery env, pp_getRefund (pe_provider env)) of
       (True, Some get) \<Rightarrow>
         (let q = nvl refundRef ref; w1 = provider_called (CallGetRefund q) (emit (RefundStatusRecoveryRequested (cm_id c)) w) in
          case get (length (pw_calls w)) q of
            None \<Rightarrow> (Inr REFUND_MANUAL_REVIEW, w1)
          | Some (s, r) \<Rightarrow>
              (let w2 = emit (RefundStatusRecovered (cm_id c)) w1 in
               if s = ''COMPLETED''
               then (case finalizeRefunded env c amount (nvl r (nvl refundRef ''recovered'')) w2 of
                       Inl _ \<Rightarrow> (Inl (), w2)
                     | Inr w3 \<Rightarrow> (Inr REFUNDED, w3))
               else if s = ''FAILED'' then (Inr REFUND_MANUAL_REVIEW, emit (RefundRejected (cm_id c)) w2)
               else (Inr REFUND_MANUAL_REVIEW, w2)))
     | _ \<Rightarrow> (Inr REFUND_MANUAL_REVIEW, w))"

definition ambiguous_refund :: "pay_env \<Rightarrow> compensation \<Rightarrow> string \<Rightarrow> minor \<Rightarrow> pay_world \<Rightarrow> (unit + refund_outcome) \<times> pay_world" where
  "ambiguous_refund env c ref amount w = recoverRefund env c ref None amount (emit (RefundAmbiguous (cm_id c)) w)"

text \<open>
  The provider call and what follows, the body of the \<^verbatim>\<open>try\<close>.  An error thrown inside it, by the provider or by
  the finalization, leads to the recovery of an ambiguous call.
\<close>

definition call_refund :: "pay_env \<Rightarrow> compensation \<Rightarrow> string \<Rightarrow> minor \<Rightarrow> pay_world \<Rightarrow> (unit + refund_outcome) \<times> pay_world" where
  "call_refund env c ref amount w =
    (let w1 = provider_called (CallRefund ref amount) w; pv = pe_provider env in
     case pp_refund pv (length (pw_calls w)) ref amount of
       None \<Rightarrow> ambiguous_refund env c ref amount w1
     | Some (s, refundRef) \<Rightarrow>
         (let later = (\<lambda>_::unit. case recoverRefund env c ref (Some refundRef) amount (emit (RefundPending (cm_id c)) w1) of
               (Inl _, w2) \<Rightarrow> ambiguous_refund env c ref amount w2
             | (Inr oc, w2) \<Rightarrow> (Inr oc, w2)) in
          if s = ''PROCESSING'' then later ()
          else if s = ''COMPLETED''
          then if pp_refundMayBeAsynchronous pv then later ()
            else (case finalizeRefunded env c amount refundRef w1 of
                    Inl _ \<Rightarrow> ambiguous_refund env c ref amount w1
                  | Inr w2 \<Rightarrow> (Inr REFUNDED, w2))
          else (Inr REFUND_MANUAL_REVIEW, emit (RefundRejected (cm_id c)) w1)))"

definition carry_out ::
  "pay_env \<Rightarrow> compensation \<Rightarrow> paid_booking \<Rightarrow> payment_row \<Rightarrow> refund_policy_decision \<Rightarrow> pay_world \<Rightarrow> (unit + refund_outcome) \<times> pay_world" where
  "carry_out env c b p d w =
    (let pv = pe_provider env; amount = nvl (rd_refundableAmountMinor d) 0; ref = nvl (py_providerRef p) [] in
     if \<not> rd_eligible d \<or> rd_refundType d \<noteq> RT_FULL \<or> rd_requiresManualReview d then (Inr REFUND_MANUAL_REVIEW, w)
     else if py_status p = PAY_REFUNDED then (Inr REFUNDED, w)
     else if py_status p \<noteq> PAY_SUCCEEDED then (Inr REFUND_MANUAL_REVIEW, w)
     else if \<not> pp_supportsFullRefund pv \<or> \<not> pp_supportsIdempotentRefund pv then (Inr REFUND_MANUAL_REVIEW, w)
     else if amount \<le> 0 \<or> py_amountMinor p < amount then (Inr REFUND_MANUAL_REVIEW, w)
     else if rd_refundableCurrency d \<noteq> [] \<and> rd_refundableCurrency d \<noteq> pb_currency b then (Inr REFUND_MANUAL_REVIEW, w)
     else if ref = [] then (Inr REFUND_MANUAL_REVIEW, w)
     else call_refund env c ref amount (persistIntent env c amount w))"

definition executeRefund :: "pay_env \<Rightarrow> compensation \<Rightarrow> pay_world \<Rightarrow> (unit + refund_outcome) \<times> pay_world" where
  "executeRefund env c w =
    (if cm_type c \<noteq> PAYMENT_REFUND then (Inr REFUND_NOT_ELIGIBLE, w)
     else case pw_bookings w (cm_bookingId c) of
       None \<Rightarrow> (Inr REFUND_MANUAL_REVIEW, w)
     | Some b \<Rightarrow> (case pb_payment b of
         None \<Rightarrow> (Inr REFUND_MANUAL_REVIEW, w)
       | Some p \<Rightarrow> carry_out env c b p (evaluateRefundPolicy (pe_policyMode env) (pe_policyVersion env) (policy_context b p)) w))"

section \<open>What a void may do\<close>

text \<open>
  The frame of the void executor: refunds are not touched, no refund is asked for, and the only payment that may
  change is the booking's own, from authorized or processing to voided, with the event that says so.
\<close>

definition void_frame :: "compensation \<Rightarrow> pay_world \<Rightarrow> void_outcome \<times> pay_world \<Rightarrow> bool" where
  "void_frame c w x \<longleftrightarrow> (case x of (oc, w') \<Rightarrow>
     pw_refunds w' = pw_refunds w \<and>
     (\<exists>cs. pw_calls w' = pw_calls w @ cs \<and> (\<forall>r a. CallRefund r a \<notin> set cs)) \<and>
     (\<exists>es. pw_events w' = pw_events w @ es \<and>
        (pw_bookings w' = pw_bookings w \<and> PaymentVoided (cm_id c) \<notin> set es \<or>
         oc = VOIDED \<and> length (filter ((=) (PaymentVoided (cm_id c))) es) = 1 \<and>
           (\<exists>b p. pw_bookings w (cm_bookingId c) = Some b \<and> pb_payment b = Some p \<and> py_status p \<in> {PAY_AUTHORIZED, PAY_PROCESSING} \<and>
              pw_bookings w' = (pw_bookings w)(cm_bookingId c \<mapsto> b\<lparr>pb_payment := Some (p\<lparr>py_status := PAY_VOIDED\<rparr>)\<rparr>)))))"

text \<open>Steps that only call the provider, store other events or plan work keep the frame open.\<close>

definition quiet :: "compensation \<Rightarrow> pay_world \<Rightarrow> pay_world \<Rightarrow> bool" where
  "quiet c w w' \<longleftrightarrow> pw_bookings w' = pw_bookings w \<and> pw_refunds w' = pw_refunds w \<and>
     (\<exists>cs. pw_calls w' = pw_calls w @ cs \<and> (\<forall>r a. CallRefund r a \<notin> set cs)) \<and>
     (\<exists>es. pw_events w' = pw_events w @ es \<and> PaymentVoided (cm_id c) \<notin> set es)"

lemma quiet_refl [simp]: "quiet c w w"
  by (simp add: quiet_def)

lemma quiet_trans: "quiet c a b \<Longrightarrow> quiet c b d \<Longrightarrow> quiet c a d"
  unfolding quiet_def by fastforce

lemma quiet_emit: "e \<noteq> PaymentVoided (cm_id c) \<Longrightarrow> quiet c w (emit e w)"
  by (simp add: quiet_def emit_def)

lemma quiet_called: "(\<And>r a. call \<noteq> CallRefund r a) \<Longrightarrow> quiet c w (provider_called call w)"
  by (auto simp: quiet_def provider_called_def)

lemma quiet_comps [simp]: "quiet c w (w\<lparr>pw_comps := db\<rparr>)"
  by (simp add: quiet_def)

lemma quiet_frame: "quiet c w w' \<Longrightarrow> void_frame c w (oc, w')"
  by (auto simp: quiet_def void_frame_def)

lemma quiet_then_frame: "quiet c w w1 \<Longrightarrow> void_frame c w1 x \<Longrightarrow> void_frame c w x"
  unfolding quiet_def void_frame_def by (clarsimp split: prod.splits) (auto simp: filter_empty_conv)

lemma handoff_frame: "void_frame c w (handoffToRefund env c cur amount w)"
  unfolding handoffToRefund_def Let_def
  by (rule quiet_frame, rule quiet_trans [OF _ quiet_emit]) (simp_all split: sum.splits prod.splits)

lemma voided_frame: "void_frame c w (voided env c w)"
  by (auto simp: voided_def finalizeVoided_def void_frame_def emit_def set_booking_def split: option.splits)

lemma recoverStatus_quiet: "recoverStatus env c ref w = (s, w') \<Longrightarrow> quiet c w w'"
proof -
  assume r: "recoverStatus env c ref w = (s, w')"
  have q: "quiet c w (provider_called (CallGetPayment ref) (emit (PaymentStatusRecoveryRequested (cm_id c)) w))" (is "quiet c w ?w1")
    by (rule quiet_trans [OF quiet_emit quiet_called]) simp_all
  moreover have "quiet c w (emit (PaymentStatusRecovered (cm_id c)) ?w1)" by (rule quiet_trans [OF q quiet_emit]) simp
  ultimately show ?thesis using r
    by (auto simp: recoverStatus_def Let_def split: bool.splits option.splits)
qed

lemma cancel_frame: "void_frame c w (cancel_authorization env c b p ref cancel w)"
proof -
  let ?w1 = "emit (VoidRequested (cm_id c)) w"
  let ?w2 = "provider_called (CallCancel ref) ?w1"
  have 2: "quiet c w ?w2" by (rule quiet_trans [OF quiet_emit quiet_called]) simp_all
  obtain s3 w3 where r: "recoverStatus env c ref (emit (VoidAmbiguous (cm_id c)) ?w2) = (s3, w3)" by fastforce
  have 3: "quiet c w w3" by (rule quiet_trans [OF quiet_trans [OF 2 quiet_emit] recoverStatus_quiet [OF r]]) simp
  have rej: "quiet c w (emit (VoidRejected (cm_id c)) ?w2)" "quiet c w (emit (VoidRejected (cm_id c)) w3)"
    by (rule quiet_trans [OF 2 quiet_emit], simp) (rule quiet_trans [OF 3 quiet_emit], simp)
  note ok = quiet_frame [OF rej(1)] quiet_frame [OF rej(2)] quiet_frame [OF 3] quiet_then_frame [OF 2 voided_frame]
    quiet_then_frame [OF 3 voided_frame] quiet_then_frame [OF 2 handoff_frame] quiet_then_frame [OF 3 handoff_frame]
  show ?thesis
    by (cases "cancel (length (pw_calls ?w1)) ref") (simp_all add: cancel_authorization_def Let_def r ok)
qed

lemma executeVoid_frame: "void_frame c w (executeVoid env c w)"
proof (cases "pw_bookings w (cm_bookingId c)")
  case (Some b)
  show ?thesis
  proof (cases "pb_payment b")
    case None
    then show ?thesis using Some by (simp add: executeVoid_def quiet_frame)
  next
    case p: (Some p)
    obtain s w1 where r: "recoverStatus env c (nvl (py_providerRef p) []) w = (s, w1)" by fastforce
    note q = recoverStatus_quiet [OF r]
    show ?thesis using Some p r q
      by (simp add: executeVoid_def Let_def quiet_frame handoff_frame cancel_frame quiet_then_frame [OF q cancel_frame]
          quiet_then_frame [OF q handoff_frame] quiet_then_frame [OF q voided_frame])
  qed
qed (simp add: executeVoid_def quiet_frame)

text \<open>When the executor asks the provider to cancel.\<close>

lemma executeVoid_cancels:
  assumes "executeVoid env c w = (oc, w')" "CallCancel r \<in> set (drop (length (pw_calls w)) (pw_calls w'))"
  shows "\<exists>b p. pw_bookings w (cm_bookingId c) = Some b \<and> pb_payment b = Some p \<and> \<not> void_refused c b p (pe_provider env) \<and>
    py_status p \<notin> {PAY_SUCCEEDED, PAY_VOIDED} \<and>
    (py_status p = PAY_AUTHORIZED \<or> fst (recoverStatus env c (nvl (py_providerRef p) []) w) = ''AUTHORIZED'')"
proof -
  have hand: "pw_calls (snd (handoffToRefund env c cur a v)) = pw_calls v" for cur a v
    by (simp add: handoffToRefund_def Let_def emit_def split: sum.splits)
  have void: "pw_calls (snd (voided env c v)) = pw_calls v" for v
    by (simp add: voided_def finalizeVoided_def emit_def set_booking_def split: option.splits)
  have rec: "CallCancel r \<notin> set (drop (length (pw_calls w)) (pw_calls (snd (recoverStatus env c ref w))))" for ref
    by (simp add: recoverStatus_def Let_def provider_called_def emit_def split: bool.splits option.splits)
  have type: "cm_type c = PAYMENT_VOID" using assms by (cases "cm_type c = PAYMENT_VOID") (simp_all add: executeVoid_def)
  obtain b where b: "pw_bookings w (cm_bookingId c) = Some b" using assms type
    by (cases "pw_bookings w (cm_bookingId c)") (simp_all add: executeVoid_def)
  obtain p where p: "pb_payment b = Some p" using assms type b by (cases "pb_payment b") (simp_all add: executeVoid_def)
  obtain s w1 where rw: "recoverStatus env c (nvl (py_providerRef p) []) w = (s, w1)" by fastforce
  with rec [of "nvl (py_providerRef p) []"] have rec1: "CallCancel r \<notin> set (drop (length (pw_calls w)) (pw_calls w1))" by simp
  have nr: "\<not> void_refused c b p (pe_provider env)" using assms type b p by (cases "void_refused c b p (pe_provider env)") (simp_all add: executeVoid_def)
  have e: "executeVoid env c w = (if py_status p = PAY_VOIDED then (VOIDED, w)
      else if py_status p = PAY_SUCCEEDED then handoffToRefund env c (pb_currency b) (py_amountMinor p) w
      else if py_status p = PAY_AUTHORIZED then cancel_authorization env c b p (nvl (py_providerRef p) []) (the (pp_cancel (pe_provider env))) w
      else if s = ''AUTHORIZED'' then cancel_authorization env c b p (nvl (py_providerRef p) []) (the (pp_cancel (pe_provider env))) w1
      else if s = ''CAPTURED'' then handoffToRefund env c (pb_currency b) (py_amountMinor p) w1
      else if s = ''VOIDED'' \<or> s = ''CANCELLED'' then voided env c w1 else (VOID_MANUAL_REVIEW, w1))"
    using type b p nr rw by (simp add: executeVoid_def Let_def)
  have "pw_calls w' = pw_calls (snd (executeVoid env c w))" by (simp add: assms(1))
  with assms(2) have "CallCancel r \<in> set (drop (length (pw_calls w)) (pw_calls (snd (executeVoid env c w))))" by simp
  then have "py_status p \<notin> {PAY_SUCCEEDED, PAY_VOIDED} \<and> (py_status p = PAY_AUTHORIZED \<or> s = ''AUTHORIZED'')"
    unfolding e using rec1 by (auto simp: hand void split: if_splits)
  with b p nr rw show ?thesis by simp
qed

text \<open>
  A void never touches captured money.  The executor asks the provider to cancel only an authorization: the booking is
  neither confirmed nor ticketed, the amount and currency of the record agree with the payment, the
  provider supports idempotent voids, and the payment is authorized in our books or, if our books are
  undecided, by the provider's own answer.  It never asks for a refund, changes no refund, and the only
  payment it may change is the booking's own, once, from authorized or processing to voided.
\<close>

lemma void_never_touches_captured:
  assumes "executeVoid env c w = (oc, w')"
  shows "void_frame c w (oc, w') \<and>
    (\<forall>r. CallCancel r \<in> set (drop (length (pw_calls w)) (pw_calls w')) \<longrightarrow>
      (\<exists>b p. pw_bookings w (cm_bookingId c) = Some b \<and> pb_payment b = Some p \<and> \<not> void_refused c b p (pe_provider env) \<and>
        py_status p \<notin> {PAY_SUCCEEDED, PAY_VOIDED} \<and>
        (py_status p = PAY_AUTHORIZED \<or> fst (recoverStatus env c (nvl (py_providerRef p) []) w) = ''AUTHORIZED'')))"
  using executeVoid_cancels [OF assms] executeVoid_frame [of c w env] assms by simp

definition ex_provider :: payment_provider where
  "ex_provider = \<lparr>pp_name = ''mock'', pp_supportsAuthorizeCapture = True, pp_supportsVoid = True, pp_supportsIdempotentVoid = True,
     pp_cancel = Some (\<lambda>n r. Some ''CANCELLED''), pp_supportsPaymentStatusQuery = True, pp_getPayment = Some (\<lambda>n r. Some ''CANCELLED''),
     pp_supportsFullRefund = True, pp_supportsIdempotentRefund = True, pp_refundMayBeAsynchronous = False,
     pp_refund = (\<lambda>n r a. Some (''COMPLETED'', ''rf1'')), pp_supportsRefundStatusQuery = True,
     pp_getRefund = Some (\<lambda>n r. Some (''COMPLETED'', Some ''rf1''))\<rparr>"

definition ex_env :: "bool \<Rightarrow> bool \<Rightarrow> pay_env" where
  "ex_env fin intent = \<lparr>pe_provider = ex_provider, pe_paymentStatusRecovery = True, pe_refundStatusRecovery = True, pe_finalizeCommits = fin,
     pe_intentCommits = intent, pe_policyMode = FULL_GROSS, pe_policyVersion = None, pe_sha = (\<lambda>s. s), pe_newId = (\<lambda>_. ''c9''), pe_now = 0\<rparr>"

definition ex_payment :: "payment_status \<Rightarrow> payment_row" where
  "ex_payment st = \<lparr>py_status = st, py_amountMinor = 1000, py_refundedMinor = 0, py_providerRef = Some ''pi1''\<rparr>"

definition ex_booking :: "payment_status \<Rightarrow> paid_booking" where
  "ex_booking st = \<lparr>pb_status = BK_CANCELLED, pb_currency = ''INR'', pb_tickets = [], pb_eventCancelled = False, pb_payment = Some (ex_payment st),
     pb_providerCancellationRequired = False\<rparr>"

definition ex_pay_world :: "payment_status \<Rightarrow> pay_world" where
  "ex_pay_world st = \<lparr>pw_bookings = [''b1'' \<mapsto> ex_booking st], pw_refunds = [], pw_comps = empty_comps, pw_events = [], pw_calls = []\<rparr>"

definition ex_money_comp :: "compensation_type \<Rightarrow> compensation" where
  "ex_money_comp ty = ex_comp\<lparr>cm_type := ty\<rparr>"

lemmas pay_eval = ex_provider_def ex_env_def ex_payment_def ex_booking_def ex_pay_world_def ex_money_comp_def ex_comp_def new_compensation_def
  plan_action_def emit_def provider_called_def set_booking_def payment_of_def Let_def

lemmas void_eval = pay_eval executeVoid_def void_refused_def truthy_def cancel_authorization_def voided_def finalizeVoided_def recoverStatus_def

lemma void_never_touches_captured_witness:
  "fst (executeVoid (ex_env True True) (ex_money_comp PAYMENT_VOID) (ex_pay_world PAY_AUTHORIZED)) = VOIDED \<and>
   pw_calls (snd (executeVoid (ex_env True True) (ex_money_comp PAYMENT_VOID) (ex_pay_world PAY_AUTHORIZED))) = [CallCancel ''pi1''] \<and>
   void_frame (ex_money_comp PAYMENT_VOID) (ex_pay_world PAY_AUTHORIZED)
     (executeVoid (ex_env True True) (ex_money_comp PAYMENT_VOID) (ex_pay_world PAY_AUTHORIZED))"
proof (intro conjI)
  show "void_frame (ex_money_comp PAYMENT_VOID) (ex_pay_world PAY_AUTHORIZED)
     (executeVoid (ex_env True True) (ex_money_comp PAYMENT_VOID) (ex_pay_world PAY_AUTHORIZED))"
    using void_never_touches_captured [of "ex_env True True" "ex_money_comp PAYMENT_VOID" "ex_pay_world PAY_AUTHORIZED",
        OF surjective_pairing, THEN conjunct1] by (simp only: prod.collapse)
qed (simp_all add: void_eval)

text \<open>
  A void is reported as done, and its compensation completed, although our payment was not voided: the payment was
  in a state that the guarded update does not match, or the finalizing transaction failed.
\<close>

lemma voided_but_not_recorded:
  "fst (executeVoid (ex_env True True) (ex_money_comp PAYMENT_VOID) (ex_pay_world REQUIRES_PAYMENT)) = VOIDED"
  "payment_of (snd (executeVoid (ex_env True True) (ex_money_comp PAYMENT_VOID) (ex_pay_world REQUIRES_PAYMENT))) ''b1'' = Some (ex_payment REQUIRES_PAYMENT)"
  "fst (executeVoid (ex_env False True) (ex_money_comp PAYMENT_VOID) (ex_pay_world PAY_AUTHORIZED)) = VOIDED"
  "payment_of (snd (executeVoid (ex_env False True) (ex_money_comp PAYMENT_VOID) (ex_pay_world PAY_AUTHORIZED))) ''b1'' = Some (ex_payment PAY_AUTHORIZED)"
  by (simp_all add: void_eval)

section \<open>What a refund may do\<close>

text \<open>
  As wired, no refund is ever paid without an operator.  The executor tells the policy nothing about the settlement, and
  the policy refuses what it does not know; so whatever the mode, the provider and the booking, a refund
  compensation ends in manual review with no provider call, no refund row and no event.
\<close>

lemma refund_executor_reviews:
  "executeRefund env c w = (Inr (if cm_type c = PAYMENT_REFUND then REFUND_MANUAL_REVIEW else REFUND_NOT_ELIGIBLE), w)"
proof -
  have "\<not> rd_eligible (evaluateRefundPolicy m v (policy_context b p))" for m v b p
    by (cases m) (simp_all add: evaluateRefundPolicy_def Let_def manual_decision_def policy_context_def settlementUnknownOrDone_def truthy_def)
  then show ?thesis by (simp add: executeRefund_def carry_out_def split: option.splits)
qed

text \<open>The effect of a finalization on the booking, and the calls that a recovery may make.\<close>

definition refunded_booking :: "paid_booking \<Rightarrow> payment_row \<Rightarrow> minor \<Rightarrow> paid_booking" where
  "refunded_booking b p amount = b\<lparr>pb_status := BK_REFUNDED, pb_payment := Some (p\<lparr>py_status := PAY_REFUNDED, py_refundedMinor := amount\<rparr>)\<rparr>"

definition refund_frame :: "compensation \<Rightarrow> minor \<Rightarrow> pay_world \<Rightarrow> (unit + refund_outcome) \<times> pay_world \<Rightarrow> bool" where
  "refund_frame c amount w x \<longleftrightarrow> (case x of (oc, w') \<Rightarrow>
     (\<exists>cs. pw_calls w' = pw_calls w @ cs \<and> (\<forall>r a. CallRefund r a \<notin> set cs)) \<and>
     (pw_bookings w' = pw_bookings w \<or>
      oc = Inr REFUNDED \<and> (\<exists>b p. pw_bookings w (cm_bookingId c) = Some b \<and> pb_payment b = Some p \<and> py_status p = PAY_SUCCEEDED \<and>
        pw_bookings w' = (pw_bookings w)(cm_bookingId c \<mapsto> refunded_booking b p amount))))"

lemma finalizeRefunded_frame:
  assumes "finalizeRefunded env c amount ref w = Inr w'"
  shows "refund_frame c amount w (Inr REFUNDED, w')"
  using assms
  by (auto simp: finalizeRefunded_def refund_frame_def refunded_booking_def emit_def set_booking_def split: if_splits option.splits)

lemma frame_calls:
  assumes "pw_bookings w1 = pw_bookings w" "pw_calls w1 = pw_calls w @ cs" "\<forall>r a. CallRefund r a \<notin> set cs" "refund_frame c amount w1 x"
  shows "refund_frame c amount w x"
  using assms unfolding refund_frame_def by fastforce

lemma recoverRefund_frame: "refund_frame c amount w (recoverRefund env c ref rr amount w)"
proof (cases "pp_supportsRefundStatusQuery (pe_provider env) \<and> pe_refundStatusRecovery env \<and> pp_getRefund (pe_provider env) \<noteq> None")
  case True
  then obtain get where get: "pp_getRefund (pe_provider env) = Some get" by blast
  let ?q = "nvl rr ref"
  let ?w1 = "provider_called (CallGetRefund ?q) (emit (RefundStatusRecoveryRequested (cm_id c)) w)"
  let ?w2 = "emit (RefundStatusRecovered (cm_id c)) ?w1"
  have w: "pw_bookings ?w1 = pw_bookings w" "pw_calls ?w1 = pw_calls w @ [CallGetRefund ?q]"
    "pw_bookings ?w2 = pw_bookings w" "pw_calls ?w2 = pw_calls w @ [CallGetRefund ?q]"
    by (simp_all add: provider_called_def emit_def)
  have none: "refund_frame c amount ?w2 (y, ?w2)" "refund_frame c amount ?w1 (y, ?w1)" "refund_frame c amount ?w2 (y, emit e ?w2)" for y e
    by (simp_all add: refund_frame_def emit_def)
  have f: "refund_frame c amount w (y, ?w2)" "refund_frame c amount w (y, ?w1)" "refund_frame c amount w (y, emit e ?w2)"
    "finalizeRefunded env c amount rf ?w2 = Inr w3 \<Longrightarrow> refund_frame c amount w (Inr REFUNDED, w3)" for y e rf w3
    using frame_calls [OF w(3,4)] frame_calls [OF w(1,2)] none finalizeRefunded_frame by simp_all
  show ?thesis
    using True get f by (auto simp: recoverRefund_def Let_def split: option.splits prod.splits sum.splits)
qed (auto simp: recoverRefund_def refund_frame_def split: option.splits bool.splits)

lemma ambiguous_frame: "refund_frame c amount w (ambiguous_refund env c ref amount w)"
  unfolding ambiguous_refund_def
  by (rule frame_calls [of "emit (RefundAmbiguous (cm_id c)) w" _ "[]"]) (simp_all add: emit_def recoverRefund_frame)

lemma frame_trans_thrown: "refund_frame c amount w (Inl e, w1) \<Longrightarrow> refund_frame c amount w1 x \<Longrightarrow> refund_frame c amount w x"
  unfolding refund_frame_def by (clarsimp split: prod.splits)

lemma call_refund_frame:
  "refund_frame c amount (provider_called (CallRefund ref amount) w) (call_refund env c ref amount w)"
proof -
  let ?w1 = "provider_called (CallRefund ref amount) w"
  have pending: "refund_frame c amount ?w1 (recoverRefund env c ref rr amount (emit (RefundPending (cm_id c)) ?w1))" for rr
    by (rule frame_calls [of "emit (RefundPending (cm_id c)) ?w1" _ "[]"]) (simp_all add: emit_def recoverRefund_frame)
  have later: "refund_frame c amount ?w1 (case recoverRefund env c ref rr amount (emit (RefundPending (cm_id c)) ?w1) of
      (Inl _, w2) \<Rightarrow> ambiguous_refund env c ref amount w2 | (Inr oc, w2) \<Rightarrow> (Inr oc, w2))" for rr
    using pending [of rr] by (auto split: prod.splits sum.splits intro: frame_trans_thrown [OF _ ambiguous_frame])
  have rejected: "refund_frame c amount ?w1 (y, emit e ?w1)" for y e by (simp add: refund_frame_def emit_def)
  show ?thesis
    using later rejected ambiguous_frame [of c amount ?w1] finalizeRefunded_frame
    by (auto simp: call_refund_def Let_def split: option.splits prod.splits sum.splits)
qed

text \<open>
  What carrying out an approved refund may do.  At most one refund is asked of the provider, and only for a captured payment,
  under a decision for a full refund, of a positive amount that does not exceed the capture, in the
  booking's currency; and the booking is either left alone or, with the outcome \<^verbatim>\<open>REFUNDED\<close>, marked refunded
  together with its payment for exactly that amount.
\<close>

lemma refund_carried_out_safely:
  assumes "carry_out env c b p d w = (oc, w')" "pw_bookings w (cm_bookingId c) = Some b" "pb_payment b = Some p"
  shows "\<exists>cs. pw_calls w' = pw_calls w @ cs \<and> length (filter (\<lambda>x. \<exists>r a. x = CallRefund r a) cs) \<le> 1 \<and>
    (\<forall>r a. CallRefund r a \<in> set cs \<longrightarrow> rd_eligible d \<and> rd_refundType d = RT_FULL \<and> py_status p = PAY_SUCCEEDED \<and>
       rd_refundableAmountMinor d = Some a \<and> 0 < a \<and> a \<le> py_amountMinor p) \<and>
    (pw_bookings w' = pw_bookings w \<or>
     oc = Inr REFUNDED \<and> (\<exists>a. rd_refundableAmountMinor d = Some a \<and> 0 < a \<and> a \<le> py_amountMinor p \<and>
       pw_bookings w' = (pw_bookings w)(cm_bookingId c \<mapsto> refunded_booking b p a)))"
proof (cases "w' = w")
  case True
  then show ?thesis by simp
next
  case False
  let ?a = "nvl (rd_refundableAmountMinor d) 0" and ?ref = "nvl (py_providerRef p) []"
  let ?w0 = "persistIntent env c ?a w"
  let ?w1 = "provider_called (CallRefund ?ref ?a) ?w0"
  have g: "rd_eligible d" "rd_refundType d = RT_FULL" "py_status p = PAY_SUCCEEDED" "0 < ?a" "?a \<le> py_amountMinor p"
    "call_refund env c ?ref ?a ?w0 = (oc, w')"
    using assms(1) False by (auto simp: carry_out_def Let_def split: if_splits)
  have am: "rd_refundableAmountMinor d = Some ?a" using g(4) by (cases "rd_refundableAmountMinor d") simp_all
  have w1: "pw_bookings ?w1 = pw_bookings w" "pw_calls ?w1 = pw_calls w @ [CallRefund ?ref ?a]"
    by (simp_all add: persistIntent_def provider_called_def emit_def)
  have f: "refund_frame c ?a ?w1 (oc, w')" using call_refund_frame [of c ?a ?ref ?w0 env] g(6) by simp
  then obtain cs where cs: "pw_calls w' = pw_calls w @ CallRefund ?ref ?a # cs" "\<forall>r a. CallRefund r a \<notin> set cs"
    using w1 by (auto simp: refund_frame_def)
  have none: "filter (\<lambda>x. \<exists>r a. x = CallRefund r a) cs = []" using cs(2) by (auto simp: filter_empty_conv)
  have bk: "pw_bookings w' = pw_bookings w \<or> oc = Inr REFUNDED \<and> pw_bookings w' = (pw_bookings w)(cm_bookingId c \<mapsto> refunded_booking b p ?a)"
    using f w1(1) assms(2,3) by (auto simp: refund_frame_def)
  show ?thesis
    by (rule exI [of _ "CallRefund ?ref ?a # cs"]) (use cs none bk g am in auto)
qed

definition ex_decision :: refund_policy_decision where
  "ex_decision = \<lparr>rd_eligible = True, rd_refundType = RT_FULL, rd_refundableAmountMinor = Some 1000, rd_refundableCurrency = ''INR'',
     rd_inventoryResellable = False, rd_providerCancellationRequired = False, rd_settlementReversalRequired = False,
     rd_requiresManualReview = False, rd_reasonCode = ''CANCELLATION_FULL'', rd_policyVersion = ''FULL_GROSS:v1''\<rparr>"

lemmas refund_eval = pay_eval carry_out_def ex_decision_def call_refund_def persistIntent_def finalizeRefunded_def ambiguous_refund_def
  recoverRefund_def complete_intents_def

definition ex_carry :: "bool \<Rightarrow> bool \<Rightarrow> pay_world \<Rightarrow> (unit + refund_outcome) \<times> pay_world" where
  "ex_carry fin intent = carry_out (ex_env fin intent) (ex_money_comp PAYMENT_REFUND) (ex_booking PAY_SUCCEEDED) (ex_payment PAY_SUCCEEDED) ex_decision"

lemma refund_carried_out_safely_witness:
  "fst (ex_carry True True (ex_pay_world PAY_SUCCEEDED)) = Inr REFUNDED \<and>
   (\<exists>cs. pw_calls (snd (ex_carry True True (ex_pay_world PAY_SUCCEEDED))) = pw_calls (ex_pay_world PAY_SUCCEEDED) @ cs \<and>
     length (filter (\<lambda>x. \<exists>r a. x = CallRefund r a) cs) \<le> 1)"
proof -
  have b: "pw_bookings (ex_pay_world PAY_SUCCEEDED) (cm_bookingId (ex_money_comp PAYMENT_REFUND)) = Some (ex_booking PAY_SUCCEEDED)"
    "pb_payment (ex_booking PAY_SUCCEEDED) = Some (ex_payment PAY_SUCCEEDED)" by (simp_all add: pay_eval)
  have "fst (ex_carry True True (ex_pay_world PAY_SUCCEEDED)) = Inr REFUNDED" by (simp add: refund_eval ex_carry_def)
  with refund_carried_out_safely [OF surjective_pairing b] show ?thesis unfolding ex_carry_def by blast
qed

text \<open>
  Two ways in which the executor falls short of its own description.  The refund is sent even when its durable intent could
  not be stored; and since the call carries no idempotency key, a refund whose finalization failed is
  sent a second time when the compensation is retried.
\<close>

lemma refund_sent_without_intent:
  "pw_calls (snd (ex_carry True False (ex_pay_world PAY_SUCCEEDED))) = [CallRefund ''pi1'' 1000]"
  "pw_refunds (snd (ex_carry True False (ex_pay_world PAY_SUCCEEDED))) = []"
  by (simp_all add: refund_eval ex_carry_def)

lemma refund_sent_twice:
  "fst (ex_carry False True (ex_pay_world PAY_SUCCEEDED)) = Inl ()"
  "filter (\<lambda>x. x = CallRefund ''pi1'' 1000) (pw_calls (snd (ex_carry True True (snd (ex_carry False True (ex_pay_world PAY_SUCCEEDED)))))) =
     [CallRefund ''pi1'' 1000, CallRefund ''pi1'' 1000]"
  by (simp_all add: refund_eval ex_carry_def)

end
