(* ===== verification/CompensationWorker.thy ===== *)
theory CompensationWorker
  imports PaymentExecutors LockService
begin

text \<open>
  Booking compensations, execution and operation: the worker of \<^verbatim>\<open>bookings/compensation/compensation.service.ts\<close>
  (\<^verbatim>\<open>processReady\<close>, \<^verbatim>\<open>executeSafe\<close>, \<^verbatim>\<open>backoff\<close>), the registration seam of
  \<^verbatim>\<open>orchestration/booking-confirmation-bridge.ts\<close> it calls, and the operator's actions of
  \<^verbatim>\<open>compensation-admin.service.ts\<close>.  It composes the queue, the payment executors and the lock service.  The
  code an error carries is a parameter where the error comes from the database or from Redis.
\<close>

record worker_world =
  ww_pay :: pay_world
  ww_redis :: redis

text \<open>
  A handler that was registered with the bridge: an outcome, or the code of the error it throws.  It reads bookings and
  payments, and of the state of this world it writes the locks only.
\<close>

type_synonym cancel_handler = "string \<Rightarrow> pay_world \<Rightarrow> redis \<Rightarrow> (string + string) \<times> redis"

record worker_env =
  we_flags :: compensation_flags
  we_pay :: pay_env
  we_locks :: "nat \<Rightarrow> world"
  we_lockErrorCode :: "lock_error \<Rightarrow> string"
  we_dbErrorCode :: string
  we_providerCancelHandler :: "cancel_handler option"
  we_pollIntervalSeconds :: "int option"
  we_leaseSeconds :: "int option"
  we_now :: time_ms

definition ww_comps :: "worker_world \<Rightarrow> comp_db" where
  "ww_comps w = pw_comps (ww_pay w)"

definition put_comps :: "comp_db \<Rightarrow> worker_world \<Rightarrow> worker_world" where
  "put_comps db w = w\<lparr>ww_pay := (ww_pay w)\<lparr>pw_comps := db\<rparr>\<rparr>"

definition backoff :: "worker_env \<Rightarrow> int \<Rightarrow> int" where
  "backoff env attempt = min (nvl (we_pollIntervalSeconds env) 30 * 2 ^ nat (max 0 (attempt - 1))) 3600"

definition cancelProviderReservation :: "worker_env \<Rightarrow> cancel_handler" where
  "cancelProviderReservation env bookingId pw st =
    (case we_providerCancelHandler env of None \<Rightarrow> (Inr ''NO_HANDLER'', st) | Some h \<Rightarrow> h bookingId pw st)"

text \<open>Statements inside a \<^verbatim>\<open>try\<close>: they may throw a code.\<close>

definition in_advance :: "compensation \<Rightarrow> compensation_state \<Rightarrow> (compensation \<Rightarrow> compensation) \<Rightarrow> worker_world \<Rightarrow> (string + unit) \<times> worker_world" where
  "in_advance c n p w =
    (case advanceCompensation c n p (ww_comps w) of
       Inl _ \<Rightarrow> (Inl ''COMPENSATION_INVALID_TRANSITION'', w)
     | Inr (_, db) \<Rightarrow> (Inr (), put_comps db w))"

definition in_retry :: "worker_env \<Rightarrow> compensation \<Rightarrow> string \<Rightarrow> worker_world \<Rightarrow> (string + unit) \<times> worker_world" where
  "in_retry env c code w =
    (case scheduleRetryOrDeadLetter c (backoff env (cm_attemptCount c)) code (we_now env) (ww_comps w) of
       Inl _ \<Rightarrow> (Inl ''COMPENSATION_INVALID_TRANSITION'', w)
     | Inr (_, db) \<Rightarrow> (Inr (), put_comps db w))"

definition completing :: "worker_env \<Rightarrow> compensation \<Rightarrow> worker_world \<Rightarrow> (string + bool) \<times> worker_world" where
  "completing env c w = (case in_advance c CS_COMPLETED (\<lambda>r. r\<lparr>cm_completedAt := Some (we_now env)\<rparr>) w of
     (Inl e, w') \<Rightarrow> (Inl e, w') | (Inr _, w') \<Rightarrow> (Inr True, w'))"

definition not_completing :: "(string + unit) \<times> worker_world \<Rightarrow> (string + bool) \<times> worker_world" where
  "not_completing x = (case x of (Inl e, w) \<Rightarrow> (Inl e, w) | (Inr _, w) \<Rightarrow> (Inr False, w))"

definition reviewing :: "compensation \<Rightarrow> string \<Rightarrow> worker_world \<Rightarrow> (string + unit) \<times> worker_world" where
  "reviewing c reason = in_advance c CS_MANUAL_REVIEW (\<lambda>r. r\<lparr>cm_manualReviewReason := Some reason\<rparr>)"

text \<open>The \<^verbatim>\<open>catch\<close> of each branch; an error thrown by it ends the run.\<close>

definition or_retry :: "worker_env \<Rightarrow> compensation \<Rightarrow> (string + bool) \<times> worker_world \<Rightarrow> (string + bool) \<times> worker_world" where
  "or_retry env c x = (case x of (Inr d, w) \<Rightarrow> (Inr d, w) | (Inl code, w) \<Rightarrow> not_completing (in_retry env c code w))"

text \<open>\<^verbatim>\<open>advance(MANUAL_REVIEW).catch(() => undefined)\<close>\<close>

definition park :: "compensation \<Rightarrow> string \<Rightarrow> worker_world \<Rightarrow> (string + bool) \<times> worker_world" where
  "park c reason w =
    (Inr False, put_comps (advance_quietly c CS_MANUAL_REVIEW (\<lambda>r. r\<lparr>cm_manualReviewReason := Some reason\<rparr>) (ww_comps w)) w)"

definition process_cancel :: "worker_env \<Rightarrow> compensation \<Rightarrow> worker_world \<Rightarrow> (string + bool) \<times> worker_world" where
  "process_cancel env c w =
    (let (res, st) = cancelProviderReservation env (cm_bookingId c) (ww_pay w) (ww_redis w); w1 = w\<lparr>ww_redis := st\<rparr> in
     case res of
       Inl code \<Rightarrow> (Inl code, w1)
     | Inr oc \<Rightarrow>
         if oc = ''CANCELLED'' then completing env c w1
         else if oc = ''RETRYABLE'' then not_completing (in_retry env c ''PROVIDER_CANCEL_RETRYABLE'' w1)
         else not_completing (reviewing c oc w1))"

fun void_outcome_name :: "void_outcome \<Rightarrow> string" where
  "void_outcome_name VOIDED = ''VOIDED''"
| "void_outcome_name VOID_RETRYABLE = ''RETRYABLE''"
| "void_outcome_name VOID_MANUAL_REVIEW = ''MANUAL_REVIEW''"
| "void_outcome_name SUPERSEDED_BY_REFUND = ''SUPERSEDED_BY_REFUND''"
| "void_outcome_name VOID_NOT_ELIGIBLE = ''NOT_ELIGIBLE''"

definition process_void :: "worker_env \<Rightarrow> compensation \<Rightarrow> worker_world \<Rightarrow> (string + bool) \<times> worker_world" where
  "process_void env c w =
    (let (oc, pw) = executeVoid (we_pay env) c (ww_pay w); w1 = w\<lparr>ww_pay := pw\<rparr> in
     case oc of
       VOIDED \<Rightarrow> completing env c w1
     | VOID_RETRYABLE \<Rightarrow> not_completing (in_retry env c ''PAYMENT_VOID_RETRYABLE'' w1)
     | SUPERSEDED_BY_REFUND \<Rightarrow>
         not_completing (in_advance c CS_CANCELLED (\<lambda>r. r\<lparr>cm_manualReviewReason := Some ''SUPERSEDED_BY_REFUND''\<rparr>) w1)
     | _ \<Rightarrow> not_completing (reviewing c (void_outcome_name oc) w1))"

definition process_refund :: "worker_env \<Rightarrow> compensation \<Rightarrow> worker_world \<Rightarrow> (string + bool) \<times> worker_world" where
  "process_refund env c w =
    (let (oc, pw) = executeRefund (we_pay env) c (ww_pay w); w1 = w\<lparr>ww_pay := pw\<rparr> in
     case oc of
       Inl _ \<Rightarrow> (Inl (we_dbErrorCode env), w1)
     | Inr REFUNDED \<Rightarrow> completing env c w1
     | Inr REFUND_PENDING \<Rightarrow> not_completing (in_retry env c ''REFUND_PENDING'' w1)
     | Inr REFUND_RETRYABLE \<Rightarrow> not_completing (in_retry env c ''REFUND_RETRYABLE'' w1)
     | Inr REFUND_MANUAL_REVIEW \<Rightarrow> not_completing (reviewing c ''MANUAL_REVIEW'' w1)
     | Inr REFUND_NOT_ELIGIBLE \<Rightarrow> not_completing (reviewing c ''NOT_ELIGIBLE'' w1))"

text \<open>The result is \<^verbatim>\<open>COMPLETED\<close> or the reason for a review, or the code of an error.\<close>

definition executeSafe :: "worker_env \<Rightarrow> compensation \<Rightarrow> worker_world \<Rightarrow> (string + string) \<times> worker_world" where
  "executeSafe env c w =
    (if cm_type c = REDIS_LOCK_RELEASE
     then let (read, st1) = guarded (we_locks env 0) (\<lambda>s. (getRaw (w_rt (we_locks env 0)) s (cm_targetReference c), s)) (ww_redis w) in
       case read of
         Inr (Some raw) \<Rightarrow>
           (case markInternal (we_locks env) 1 raw RELEASED st1 of
              (Inl e, st2) \<Rightarrow> (Inl (we_lockErrorCode env e), w\<lparr>ww_redis := st2\<rparr>)
            | (Inr _, st2) \<Rightarrow> (Inr ''COMPLETED'', w\<lparr>ww_redis := st2\<rparr>))
       | _ \<Rightarrow> (Inr ''COMPLETED'', w\<lparr>ww_redis := st1\<rparr>)
     else (Inr ''EXECUTOR_NOT_WIRED'', w))"

definition process_safe :: "worker_env \<Rightarrow> compensation \<Rightarrow> worker_world \<Rightarrow> (string + bool) \<times> worker_world" where
  "process_safe env c w =
    (case executeSafe env c w of
       (Inl code, w1) \<Rightarrow> (Inl code, w1)
     | (Inr oc, w1) \<Rightarrow> if oc = ''COMPLETED'' then completing env c w1 else not_completing (reviewing c oc w1))"

text \<open>One iteration of the loop; the result says whether it counts as completed.\<close>

definition process_one :: "worker_env \<Rightarrow> compensation \<Rightarrow> worker_world \<Rightarrow> (string + bool) \<times> worker_world" where
  "process_one env c w =
    (let f = we_flags env in
     if cm_type c = PROVIDER_RESERVATION_CANCEL
     then if \<not> cf_autoProviderCancel f then park c ''AUTO_PROVIDER_CANCEL_DISABLED'' w else or_retry env c (process_cancel env c w)
     else if cm_type c = PAYMENT_VOID
     then if \<not> cf_autoVoid f then park c ''AUTO_VOID_DISABLED'' w else or_retry env c (process_void env c w)
     else if cm_type c = PAYMENT_REFUND
     then if \<not> cf_autoRefund f then park c ''AUTO_REFUND_DISABLED'' w else or_retry env c (process_refund env c w)
     else if cm_type c \<in> set FINANCIAL_ACTIONS \<or> cm_type c \<notin> set SAFE_NON_FINANCIAL_ACTIONS
     then park c ''FINANCIAL_OR_UNSAFE'' w
     else or_retry env c (process_safe env c w))"

fun process_all :: "worker_env \<Rightarrow> compensation list \<Rightarrow> worker_world \<Rightarrow> (string + nat) \<times> worker_world" where
  "process_all env [] w = (Inr 0, w)"
| "process_all env (c # cs) w =
    (case process_one env c w of
       (Inl e, w1) \<Rightarrow> (Inl e, w1)
     | (Inr d, w1) \<Rightarrow>
         (case process_all env cs w1 of
            (Inl e, w2) \<Rightarrow> (Inl e, w2)
          | (Inr n, w2) \<Rightarrow> (Inr ((if d then 1 else 0) + n), w2)))"

definition processReady :: "worker_env \<Rightarrow> string \<Rightarrow> worker_world \<Rightarrow> (string + nat \<times> nat) \<times> worker_world" where
  "processReady env workerId w =
    (if \<not> executionEnabled (we_flags env) then (Inr (0, 0), w)
     else let db = recoverStaleLeases (we_now env) (ww_comps w) in
       case claimReady workerId (nvl (we_leaseSeconds env) 60) 50 (we_now env) db db of
         Inl _ \<Rightarrow> (Inl ''COMPENSATION_INVALID_TRANSITION'', put_comps db w)
       | Inr (claimed, db1) \<Rightarrow>
           (case process_all env claimed (put_comps db1 w) of
              (Inl e, w1) \<Rightarrow> (Inl e, w1)
            | (Inr n, w1) \<Rightarrow> (Inr (length claimed, n), w1)))"

section \<open>Operators\<close>

record admin_scope =
  sc_actorUserId :: string
  sc_isSuperAdmin :: bool
  sc_tenantId :: "string option"

datatype admin_error =
  AdminNotFound | AdminForbidden compensation_type | AdminConflict compensation_state | AdminInvalidTransition comp_error

text \<open>Every result carries the audit records written: the action and the record it names.\<close>

record admin_world =
  aw_comps :: comp_db
  aw_audit :: "(string \<times> string) list"

definition tenantWhere :: "admin_scope \<Rightarrow> compensation \<Rightarrow> bool" where
  "tenantWhere scope r \<longleftrightarrow> sc_isSuperAdmin scope \<or> cm_tenantId r = Some (nvl (sc_tenantId scope) (CHR 0x00 # ''__no_tenant__''))"

text \<open>Newest first: rows were inserted in the order of their creation.\<close>

definition listCompensations ::
  "admin_scope \<Rightarrow> compensation_state option \<Rightarrow> string option \<Rightarrow> nat option \<Rightarrow> comp_db \<Rightarrow> compensation list" where
  "listCompensations scope state bookingId limit db =
    take (min (nvl limit 100) 500)
      (filter (\<lambda>r. tenantWhere scope r \<and> (state = None \<or> state = Some (cm_state r)) \<and>
                 (\<not> truthy bookingId \<or> bookingId = Some (cm_bookingId r)))
        (rev (List.map_filter (cd_rows db) (cd_ids db))))"

text \<open>A record without a tenant (null) is not in the scope of a caller without one (undefined).\<close>

definition same_tenant :: "string option \<Rightarrow> string option \<Rightarrow> bool" where
  "same_tenant a b \<longleftrightarrow> a \<noteq> None \<and> a = b"

definition requireInTenant :: "admin_scope \<Rightarrow> string \<Rightarrow> comp_db \<Rightarrow> admin_error + compensation" where
  "requireInTenant scope i db =
    (case cd_rows db i of
       None \<Rightarrow> Inl AdminNotFound
     | Some r \<Rightarrow> if \<not> sc_isSuperAdmin scope \<and> \<not> same_tenant (cm_tenantId r) (sc_tenantId scope) then Inl AdminNotFound else Inr r)"

definition assertSafeNonFinancial :: "compensation_flags \<Rightarrow> compensation_type \<Rightarrow> admin_error + unit" where
  "assertSafeNonFinancial f ty =
    (if ty = PAYMENT_VOID \<and> cf_autoVoid f then Inr ()
     else if ty = PAYMENT_REFUND \<and> cf_autoRefund f \<and> cf_refundPolicyMode f \<noteq> Some MANUAL_ONLY then Inr ()
     else if ty \<in> set FINANCIAL_ACTIONS \<or> ty \<notin> set SAFE_NON_FINANCIAL_ACTIONS then Inl (AdminForbidden ty)
     else Inr ())"

text \<open>\<^verbatim>\<open>repo.advance\<close>, the audit record, and \<^verbatim>\<open>next ?? record\<close>.\<close>

definition advance_audited ::
  "string \<Rightarrow> compensation \<Rightarrow> compensation \<Rightarrow> compensation_state \<Rightarrow> (compensation \<Rightarrow> compensation) \<Rightarrow> admin_world \<Rightarrow> admin_error + compensation \<times> admin_world" where
  "advance_audited action record' cur n p w =
    (case advanceCompensation cur n p (aw_comps w) of
       Inl e \<Rightarrow> Inl (AdminInvalidTransition e)
     | Inr (next', db) \<Rightarrow> Inr (nvl next' record', w\<lparr>aw_comps := db, aw_audit := aw_audit w @ [(action, cm_id record')]\<rparr>))"

definition approve :: "compensation_flags \<Rightarrow> admin_scope \<Rightarrow> string \<Rightarrow> admin_world \<Rightarrow> admin_error + compensation \<times> admin_world" where
  "approve f scope i w =
    rbind (requireInTenant scope i (aw_comps w)) (\<lambda>r.
    rbind (assertSafeNonFinancial f (cm_type r)) (\<lambda>_.
      if cm_state r \<notin> {CS_PLANNED, CS_MANUAL_REVIEW} then Inl (AdminConflict (cm_state r))
      else advance_audited ''COMPENSATION_APPROVED'' r r CS_READY (\<lambda>x. x) w))"

definition retry :: "compensation_flags \<Rightarrow> time_ms \<Rightarrow> admin_scope \<Rightarrow> string \<Rightarrow> admin_world \<Rightarrow> admin_error + compensation \<times> admin_world" where
  "retry f now scope i w =
    rbind (requireInTenant scope i (aw_comps w)) (\<lambda>r.
    rbind (assertSafeNonFinancial f (cm_type r)) (\<lambda>_.
      if cm_state r \<notin> {CS_RETRYABLE_FAILURE, CS_DEAD_LETTERED} then Inl (AdminConflict (cm_state r))
      else let (cur, w1) =
          (if cm_state r = CS_DEAD_LETTERED
           then let (reopened, db) = forceState r CS_MANUAL_REVIEW (aw_comps w) in (nvl reopened r, w\<lparr>aw_comps := db\<rparr>)
           else (r, w))
        in advance_audited ''COMPENSATION_RETRIED'' r cur CS_READY
             (\<lambda>x. x\<lparr>cm_availableAt := now, cm_lockedBy := None, cm_lockedAt := None, cm_lockExpiresAt := None\<rparr>) w1))"

definition markManualReview :: "admin_scope \<Rightarrow> string \<Rightarrow> string \<Rightarrow> admin_world \<Rightarrow> admin_error + compensation \<times> admin_world" where
  "markManualReview scope i reason w =
    rbind (requireInTenant scope i (aw_comps w)) (\<lambda>r.
      advance_audited ''COMPENSATION_MANUAL_REVIEW'' r r CS_MANUAL_REVIEW (\<lambda>x. x\<lparr>cm_manualReviewReason := Some (take 200 reason)\<rparr>) w)"

definition releaseLease :: "admin_scope \<Rightarrow> string \<Rightarrow> admin_world \<Rightarrow> admin_error + compensation \<times> admin_world" where
  "releaseLease scope i w =
    rbind (requireInTenant scope i (aw_comps w)) (\<lambda>r.
      if cm_state r \<noteq> CS_PROCESSING then Inl (AdminConflict (cm_state r))
      else advance_audited ''COMPENSATION_LEASE_RELEASED'' r r CS_READY (\<lambda>x. x\<lparr>cm_lockedBy := None, cm_lockedAt := None, cm_lockExpiresAt := None\<rparr>) w)"

section \<open>One claimed compensation\<close>

abbreviation "rows w \<equiv> cd_rows (ww_comps w)"

lemma ww_comps_simps [simp]: "ww_comps (put_comps db w) = db" "ww_comps (w\<lparr>ww_redis := st\<rparr>) = ww_comps w"
  "ww_pay (put_comps db w) = (ww_pay w)\<lparr>pw_comps := db\<rparr>" "ww_comps (w\<lparr>ww_pay := pw\<rparr>) = pw_comps pw"
  by (simp_all add: ww_comps_def put_comps_def)


definition others_kept :: "string \<Rightarrow> comp_db \<Rightarrow> comp_db \<Rightarrow> bool" where
  "others_kept i db db' \<longleftrightarrow> (\<forall>k r. k \<noteq> i \<and> cd_rows db k = Some r \<longrightarrow> cd_rows db' k = Some r)"


lemma others_kept_refl [simp]: "others_kept i db db"
  by (simp add: others_kept_def)

lemma others_kept_trans: "others_kept i a b \<Longrightarrow> others_kept i b c \<Longrightarrow> others_kept i a c"
  by (simp add: others_kept_def)























section \<open>A run of the worker\<close>








section \<open>Money\<close>

text \<open>What a step may do to payments: no refund at all, and nothing whatever unless voids are enabled.\<close>

definition money_kept :: "bool \<Rightarrow> pay_world \<Rightarrow> pay_world \<Rightarrow> bool" where
  "money_kept av w w' \<longleftrightarrow> pw_refunds w' = pw_refunds w \<and>
     (\<exists>cs. pw_calls w' = pw_calls w @ cs \<and> (\<forall>r a. CallRefund r a \<notin> set cs) \<and> (\<not> av \<longrightarrow> cs = [] \<and> pw_bookings w' = pw_bookings w))"

lemma money_kept_comps [simp]: "money_kept av w (w\<lparr>pw_comps := db\<rparr>)" "money_kept av w w"
  by (simp_all add: money_kept_def)

lemma money_kept_trans: "money_kept av a b \<Longrightarrow> money_kept av b c \<Longrightarrow> money_kept av a c"
  unfolding money_kept_def by fastforce

lemma money_kept_steps [simp]:
  "money_kept av (ww_pay w) (ww_pay (snd (in_advance c n p w)))" "money_kept av (ww_pay w) (ww_pay (snd (in_retry env c code w)))"
  "money_kept av (ww_pay w) (ww_pay (snd (completing env c w)))" "money_kept av (ww_pay w) (ww_pay (snd (reviewing c reason w)))"
  "money_kept av (ww_pay w) (ww_pay (snd (park c reason w)))"
  by (auto simp: in_advance_def in_retry_def completing_def reviewing_def park_def split: sum.splits prod.splits)

lemmas money_steps = money_kept_trans [OF _ money_kept_steps(1)] money_kept_trans [OF _ money_kept_steps(2)]
  money_kept_trans [OF _ money_kept_steps(3)] money_kept_trans [OF _ money_kept_steps(4)]

lemma snd_not_completing [simp]: "snd (not_completing x) = snd x"
  by (auto simp: not_completing_def split: sum.splits prod.splits)

lemma money_kept_or_retry: "money_kept av w0 (ww_pay (snd x)) \<Longrightarrow> money_kept av w0 (ww_pay (snd (or_retry env c x)))"
  by (auto simp: or_retry_def split: sum.splits prod.splits intro: money_kept_trans)

lemma money_process_void:
  "money_kept True (ww_pay w) (ww_pay (snd (process_void env c w)))"
proof -
  obtain oc pw where e: "executeVoid (we_pay env) c (ww_pay w) = (oc, pw)" by fastforce
  have "void_frame c (ww_pay w) (oc, pw)" using executeVoid_frame [of c "ww_pay w" "we_pay env"] e by simp
  then have "money_kept True (ww_pay w) (ww_pay (w\<lparr>ww_pay := pw\<rparr>))" by (auto simp: void_frame_def money_kept_def)
  then show ?thesis using e by (cases oc) (simp_all add: process_void_def money_steps)
qed

lemma money_process_refund: "money_kept av (ww_pay w) (ww_pay (snd (process_refund env c w)))"
  by (simp add: process_refund_def refund_executor_reviews)

lemma money_process_cancel: "money_kept av (ww_pay w) (ww_pay (snd (process_cancel env c w)))"
proof -
  obtain res st where r: "cancelProviderReservation env (cm_bookingId c) (ww_pay w) (ww_redis w) = (res, st)" by fastforce
  show ?thesis by (cases res) (simp_all add: process_cancel_def r Let_def money_steps)
qed

lemma executeSafe_pay: "executeSafe env c w = (x, w1) \<Longrightarrow> ww_pay w1 = ww_pay w"
  by (auto simp: executeSafe_def Let_def split: if_splits prod.splits sum.splits option.splits)

lemma money_process_safe: "money_kept av (ww_pay w) (ww_pay (snd (process_safe env c w)))"
proof -
  obtain res w1 where r: "executeSafe env c w = (res, w1)" by fastforce
  note w1 = executeSafe_pay [OF r]
  show ?thesis by (cases res) (simp_all add: process_safe_def r w1 money_steps)
qed

lemma money_process_one: "money_kept (cf_autoVoid (we_flags env)) (ww_pay w) (ww_pay (snd (process_one env c w)))"
  using money_kept_or_retry [OF money_process_void] money_kept_or_retry [OF money_process_cancel] money_kept_or_retry [OF money_process_safe]
    money_kept_or_retry [OF money_process_refund]
  by (auto simp: process_one_def Let_def)

lemma money_process_all: "money_kept (cf_autoVoid (we_flags env)) (ww_pay w) (ww_pay (snd (process_all env cs w)))"
proof (induction cs arbitrary: w)
  case (Cons c cs)
  obtain x w1 where o: "process_one env c w = (x, w1)" by fastforce
  have 1: "money_kept (cf_autoVoid (we_flags env)) (ww_pay w) (ww_pay w1)" using money_process_one [of env w c] o by simp
  show ?case using money_kept_trans [OF 1 Cons.IH [of w1]] 1 o
    by (cases x) (auto split: sum.splits prod.splits)
qed simp

text \<open>
  Money needs every switch.  A run of the worker never asks for a refund and never touches a refund; and it calls the payment
  provider or changes a booking's payment only if compensations, planning, execution and automatic voids
  are all enabled.
\<close>

lemma worker_money_needs_flags:
  assumes "processReady env workerId w = (x, w')"
  shows "pw_refunds (ww_pay w') = pw_refunds (ww_pay w) \<and>
    (\<exists>cs. pw_calls (ww_pay w') = pw_calls (ww_pay w) @ cs \<and> (\<forall>r a. CallRefund r a \<notin> set cs) \<and>
      (cs \<noteq> [] \<or> pw_bookings (ww_pay w') \<noteq> pw_bookings (ww_pay w) \<longrightarrow>
         cf_enabled (we_flags env) \<and> cf_planning (we_flags env) \<and> cf_execution (we_flags env) \<and> cf_autoVoid (we_flags env)))"
proof (cases "executionEnabled (we_flags env)")
  case False
  with assms show ?thesis by (simp add: processReady_def)
next
  case True
  then have f: "cf_enabled (we_flags env)" "cf_planning (we_flags env)" "cf_execution (we_flags env)"
    by (simp_all add: executionEnabled_def planningEnabled_def)
  have "money_kept (cf_autoVoid (we_flags env)) (ww_pay w) (ww_pay (snd (process_all env cs (put_comps db w))))" for cs db
    using money_process_all [of env "put_comps db w" cs] by (rule money_kept_trans [rotated]) simp
  then have "money_kept (cf_autoVoid (we_flags env)) (ww_pay w) (ww_pay w')"
    using assms True by (auto simp: processReady_def Let_def split: sum.splits prod.splits) (metis snd_conv)+
  then show ?thesis using f by (auto simp: money_kept_def)
qed

definition ex_worker_env :: "reply \<Rightarrow> worker_env" where
  "ex_worker_env rep = \<lparr>we_flags = ex_flags\<lparr>cf_autoVoid := True\<rparr>, we_pay = ex_env True True,
     we_locks = (\<lambda>_. ex_world 1000 rep), we_lockErrorCode = (\<lambda>_. ''LOCK''), we_dbErrorCode = ''P2034'', we_providerCancelHandler = None,
     we_pollIntervalSeconds = None, we_leaseSeconds = None, we_now = 1000\<rparr>"

definition ex_worker_world :: "compensation \<Rightarrow> redis \<Rightarrow> worker_world" where
  "ex_worker_world c st = \<lparr>ww_pay = (ex_pay_world PAY_AUTHORIZED)\<lparr>pw_comps := ex_table c\<rparr>, ww_redis = st\<rparr>"



lemma worker_money_needs_flags_witness:
  "let env = (ex_worker_env Answered)\<lparr>we_flags := ex_flags\<rparr>; w = ex_worker_world (ex_money_comp PAYMENT_VOID) empty_redis in
   \<not> cf_autoVoid (we_flags env) \<and> pw_calls (ww_pay (snd (processReady env ''w'' w))) = []"
  unfolding Let_def
  using worker_money_needs_flags [of "(ex_worker_env Answered)\<lparr>we_flags := ex_flags\<rparr>" "''w''"
      "ex_worker_world (ex_money_comp PAYMENT_VOID) empty_redis", OF surjective_pairing]
  by (auto simp: ex_flags_def ex_worker_world_def ex_pay_world_def)

text \<open>
  What a completed lock release may mean.  The planner names the booking as the target of a lock release, but the executor reads the
  target as the id of a lock: there is no such lock, nothing is released, and the action counts as completed.
  The same happens when Redis cannot be reached, since a failed read is taken for an absent lock.
\<close>

lemma release_of_unknown_lock_completes:
  assumes "cm_type c = REDIS_LOCK_RELEASE" "w_reply (we_locks env 0) = Answered"
    and "getRaw (w_rt (we_locks env 0)) (w_others (we_locks env 0) (ww_redis w)) (cm_targetReference c) = None"
  shows "executeSafe env c w = (Inr ''COMPLETED'', w\<lparr>ww_redis := w_others (we_locks env 0) (ww_redis w)\<rparr>)"
  using assms by (simp add: executeSafe_def guarded_def Let_def)

lemma release_with_redis_down_completes:
  assumes "cm_type c = REDIS_LOCK_RELEASE" "w_reply (we_locks env 0) = Down"
  shows "executeSafe env c w = (Inr ''COMPLETED'', w\<lparr>ww_redis := w_others (we_locks env 0) (ww_redis w)\<rparr>)"
  using assms by (simp add: executeSafe_def guarded_def Let_def)

lemma planned_release_targets_booking:
  assumes "a \<in> set (cp_actions (planCompensation ctx))" "ca_type a = REDIS_LOCK_RELEASE"
  shows "ca_targetReference a = cx_bookingId ctx"
proof -
  define ok where "ok p \<longleftrightarrow> (\<forall>a\<in>set (cp_actions p). ca_type a = REDIS_LOCK_RELEASE \<longrightarrow> ca_targetReference a = cx_bookingId ctx)" for p :: compensation_plan
  have "ok (plan_of c [plan_action ty r (cx_bookingId ctx)])" "ok (plan_empty c r)" "ok (plan_of c (rejected_actions ctx))"
    "ok (plan_of c (exhausted_actions ctx))"
    "ok (plan_of c (plan_action LOCAL_HOLD_RELEASE r b # if_target t (plan_action PROVIDER_RESERVATION_CANCEL r)))" for c ty r b t
    by (auto simp: ok_def rejected_actions_def exhausted_actions_def if_target_def split: option.splits if_splits)
  then have "ok (planCompensation ctx)"
    unfolding planCompensation_def Let_def by (simp only: if_split [of ok]) simp
  with assms show ?thesis by (simp add: ok_def)
qed

section \<open>What operators may do\<close>

lemma requireInTenant_Inr:
  "requireInTenant scope i db = Inr r \<Longrightarrow> cd_rows db i = Some r \<and> (sc_isSuperAdmin scope \<or> (\<exists>t. cm_tenantId r = Some t \<and> sc_tenantId scope = Some t))"
  by (auto simp: requireInTenant_def same_tenant_def split: option.splits if_splits)

lemma advance_audited_effect:
  assumes "advance_audited action r cur n p w = Inr (x, w')" "cm_id cur = i"
  shows "(\<forall>k. k \<noteq> i \<longrightarrow> cd_rows (aw_comps w') k = cd_rows (aw_comps w) k) \<and> aw_audit w' = aw_audit w @ [(action, cm_id r)]"
  using assms comps.upd_others
  by (auto simp: advance_audited_def advanceCompensation_def rbind_Inr_iff split: sum.splits option.splits)

lemma forceState_effect:
  assumes "forceState r n db = (x, db')" "cd_rows db (cm_id r) = Some r"
  shows "(\<forall>k. k \<noteq> cm_id r \<longrightarrow> cd_rows db' k = cd_rows db k) \<and> cm_id (nvl x r) = cm_id r"
  using assms by (auto simp: forceState_def update_compensation_def Let_def split: option.splits if_splits)

definition admin_effect :: "admin_scope \<Rightarrow> string \<Rightarrow> admin_world \<Rightarrow> admin_world \<Rightarrow> bool" where
  "admin_effect scope i w w' \<longleftrightarrow>
    (\<exists>r. cd_rows (aw_comps w) i = Some r \<and> (sc_isSuperAdmin scope \<or> (\<exists>t. cm_tenantId r = Some t \<and> sc_tenantId scope = Some t))) \<and>
    (\<forall>k. k \<noteq> i \<longrightarrow> cd_rows (aw_comps w') k = cd_rows (aw_comps w) k) \<and> (\<exists>action. aw_audit w' = aw_audit w @ [(action, i)])"

lemma keyed_id: "keyed db \<Longrightarrow> cd_rows db i = Some r \<Longrightarrow> cm_id r = i"
  by (simp add: keyed_def)

lemma admin_effectI:
  assumes "keyed (aw_comps w)" "requireInTenant scope i (aw_comps w) = Inr r" "advance_audited action r r n p w = Inr (x, w')"
  shows "admin_effect scope i w w'"
proof -
  have r: "cd_rows (aw_comps w) i = Some r" "sc_isSuperAdmin scope \<or> (\<exists>t. cm_tenantId r = Some t \<and> sc_tenantId scope = Some t)"
    using requireInTenant_Inr [OF assms(2)] by auto
  have i: "cm_id r = i" using keyed_id assms(1) r(1) .
  show ?thesis unfolding admin_effect_def using r i advance_audited_effect [OF assms(3) i] by auto
qed

lemma approve_Inr:
  assumes "approve f scope i w = Inr (x, w')"
  obtains r where "requireInTenant scope i (aw_comps w) = Inr r" "assertSafeNonFinancial f (cm_type r) = Inr ()"
    "advance_audited ''COMPENSATION_APPROVED'' r r CS_READY (\<lambda>x. x) w = Inr (x, w')"
  using assms by (auto simp: approve_def rbind_Inr_iff split: if_splits)

lemma retry_effect:
  assumes "keyed (aw_comps w)" "retry f now scope i w = Inr (x, w')"
  shows "admin_effect scope i w w' \<and> (\<exists>r. cd_rows (aw_comps w) i = Some r \<and> assertSafeNonFinancial f (cm_type r) = Inr ())"
proof -
  obtain r cur w1 action p where r: "requireInTenant scope i (aw_comps w) = Inr r" "assertSafeNonFinancial f (cm_type r) = Inr ()"
    and cw: "(cur, w1) = (if cm_state r = CS_DEAD_LETTERED
        then let (reopened, db) = forceState r CS_MANUAL_REVIEW (aw_comps w) in (nvl reopened r, w\<lparr>aw_comps := db\<rparr>) else (r, w))"
    and a: "advance_audited action r cur CS_READY p w1 = Inr (x, w')"
    using assms(2) unfolding retry_def rbind_Inr_iff by (auto split: if_splits prod.splits simp: Let_def)
  have t: "cd_rows (aw_comps w) i = Some r" "sc_isSuperAdmin scope \<or> (\<exists>t. cm_tenantId r = Some t \<and> sc_tenantId scope = Some t)"
    using requireInTenant_Inr [OF r(1)] by auto
  have i: "cm_id r = i" using keyed_id assms(1) t(1) .
  have c: "cm_id cur = i \<and> (\<forall>k. k \<noteq> i \<longrightarrow> cd_rows (aw_comps w1) k = cd_rows (aw_comps w) k) \<and> aw_audit w1 = aw_audit w"
  proof (cases "cm_state r = CS_DEAD_LETTERED")
    case True
    obtain y db where f: "forceState r CS_MANUAL_REVIEW (aw_comps w) = (y, db)" by fastforce
    have "cd_rows (aw_comps w) (cm_id r) = Some r" using t(1) i by simp
    from forceState_effect [OF f this] show ?thesis using cw True f i by simp
  qed (use cw i in simp)
  show ?thesis unfolding admin_effect_def using t r i c advance_audited_effect [OF a c [THEN conjunct1]] by auto
qed

lemma markManualReview_effect:
  "keyed (aw_comps w) \<Longrightarrow> markManualReview scope i reason w = Inr (x, w') \<Longrightarrow> admin_effect scope i w w'"
  unfolding markManualReview_def rbind_Inr_iff using admin_effectI by blast

lemma assertSafe_Inr:
  "assertSafeNonFinancial f ty = Inr () \<longleftrightarrow> ty \<in> set SAFE_NON_FINANCIAL_ACTIONS \<or> ty = PAYMENT_VOID \<and> cf_autoVoid f \<or>
     ty = PAYMENT_REFUND \<and> cf_autoRefund f \<and> cf_refundPolicyMode f \<noteq> Some MANUAL_ONLY"
  by (auto simp: assertSafeNonFinancial_def type_sets)

text \<open>
  What an operator can make ready.  An approval or a retry that succeeds concerns a record of the operator's own tenant (any
  record, for a super administrator), changes that record alone and writes one audit entry naming it; and the
  record is one of the actions that move no money, or a void or refund whose automatic execution is switched
  on.
\<close>

lemma operators_confined:
  assumes "keyed (aw_comps w)" "approve f scope i w = Inr (x, w') \<or> retry f now scope i w = Inr (x, w')"
  shows "admin_effect scope i w w' \<and>
    (\<exists>r. cd_rows (aw_comps w) i = Some r \<and>
      (cm_type r \<in> set SAFE_NON_FINANCIAL_ACTIONS \<or> cm_type r = PAYMENT_VOID \<and> cf_autoVoid f \<or>
       cm_type r = PAYMENT_REFUND \<and> cf_autoRefund f \<and> cf_refundPolicyMode f \<noteq> Some MANUAL_ONLY))"
  using assms(2)
proof
  assume "approve f scope i w = Inr (x, w')"
  then obtain r where r: "requireInTenant scope i (aw_comps w) = Inr r" "assertSafeNonFinancial f (cm_type r) = Inr ()"
    "advance_audited ''COMPENSATION_APPROVED'' r r CS_READY (\<lambda>x. x) w = Inr (x, w')" by (rule approve_Inr)
  with admin_effectI [OF assms(1) r(1,3)] requireInTenant_Inr [OF r(1)] show ?thesis by (auto simp: assertSafe_Inr)
next
  assume "retry f now scope i w = Inr (x, w')"
  from retry_effect [OF assms(1) this] show ?thesis by (auto simp: assertSafe_Inr)
qed

definition ex_admin :: "compensation_state \<Rightarrow> admin_world" where
  "ex_admin st = \<lparr>aw_comps = ex_table (ex_comp\<lparr>cm_state := st\<rparr>), aw_audit = []\<rparr>"

definition ex_operator :: "string \<Rightarrow> admin_scope" where
  "ex_operator t = \<lparr>sc_actorUserId = ''op'', sc_isSuperAdmin = False, sc_tenantId = Some t\<rparr>"

lemmas admin_eval = ex_admin_def ex_operator_def ex_table_def ex_comp_def new_compensation_def requireInTenant_def same_tenant_def
  assertSafeNonFinancial_def type_sets advance_audited_def comp_eval forceState_def ex_flags_def plan_action_def

lemma operators_confined_witness:
  "\<exists>x w'. retry ex_flags 5 (ex_operator ''t1'') ''c1'' (ex_admin CS_DEAD_LETTERED) = Inr (x, w') \<and>
     admin_effect (ex_operator ''t1'') ''c1'' (ex_admin CS_DEAD_LETTERED) w' \<and>
     approve ex_flags (ex_operator ''t2'') ''c1'' (ex_admin CS_MANUAL_REVIEW) = Inl AdminNotFound"
proof -
  obtain x w' where r: "retry ex_flags 5 (ex_operator ''t1'') ''c1'' (ex_admin CS_DEAD_LETTERED) = Inr (x, w')"
    by (simp add: retry_def admin_eval)
  have k: "keyed (aw_comps (ex_admin CS_DEAD_LETTERED))" by (simp add: keyed_def admin_eval)
  have "approve ex_flags (ex_operator ''t2'') ''c1'' (ex_admin CS_MANUAL_REVIEW) = Inl AdminNotFound"
    by (simp add: approve_def admin_eval)
  with operators_confined [OF k disjI2, OF r] r show ?thesis by blast
qed

text \<open>
  Releasing a lease by hand is refused for every record: the transition it asks for, from processing to ready, is not in the matrix.
\<close>

lemma releaseLease_never_succeeds: "releaseLease scope i w \<noteq> Inr x"
  by (auto simp: releaseLease_def rbind_Inr_iff advance_audited_def comp_eval split: if_splits)

end
