(* ===== verification/Subscription.thy ===== *)
theory Subscription
  imports Prelude
begin

text \<open>
  The lifecycle of an organizer's subscription: \<^verbatim>\<open>billing/subscription-state-machine.ts\<close> (one pure function
  \<open>transition\<close> that every change goes through, the entitlements a state grants and the moves the clock makes)
  and the dunning stages of \<^verbatim>\<open>billing/billing-dunning.ts\<close>.  Human-readable messages of errors are left out.

  Shown here: the invariant \<open>snapshot_ok\<close> of every snapshot the function produces, that a paid period is
  backed by a verified payment over any history of events, that an ended subscription never comes back, and
  that the clock's moves and the entitlements agree.
\<close>

datatype sub_status = TRIALING | ACTIVE | PAST_DUE | GRACE | CANCELLED | EXPIRED | COMPLIMENTARY

datatype sub_source = PROVIDER | ADMIN_COMPLIMENTARY | TRIAL

text \<open>An amount is a JavaScript number that need not be an integer; the code checks that it is.\<close>

record payment_evidence =
  pe_verified :: bool
  pe_provider :: string
  pe_paymentRef :: string
  pe_amountMinor :: rat
  pe_currency :: string

record sub_snapshot =
  ss_status :: sub_status
  ss_source :: sub_source
  ss_planId :: string
  ss_currentPeriodStart :: time_ms
  ss_currentPeriodEnd :: "time_ms option"
  ss_cancelAtPeriodEnd :: bool
  ss_trialEndsAt :: "time_ms option"
  ss_graceEndsAt :: "time_ms option"
  ss_scheduledPlanId :: "string option"
  ss_cancelledAt :: "time_ms option"
  ss_endedAt :: "time_ms option"

datatype sub_event =
  START_TRIAL string time_ms
| TRIAL_ENDED
| ACTIVATE string time_ms time_ms "payment_evidence option"
| RENEW time_ms "payment_evidence option"
| PAYMENT_FAILED
| ENTER_GRACE time_ms
| GRACE_ENDED
| CANCEL_AT_PERIOD_END
| RESUME
| PERIOD_ENDED
| SCHEDULE_PLAN_CHANGE string
| CANCEL_SCHEDULED_CHANGE
| CHANGE_PLAN_NOW string "payment_evidence option"
| GRANT_COMPLIMENTARY string "time_ms option"
| COMPLIMENTARY_ENDED
| REVOKE
| CANCEL_NOW

datatype sub_error = INVALID_TRANSITION | PAYMENT_NOT_VERIFIED | TOO_EARLY | INVALID_INPUT

record transition_result =
  tr_next :: sub_snapshot
  tr_creates :: bool

definition isTerminal :: "sub_status \<Rightarrow> bool" where
  "isTerminal s \<longleftrightarrow> s \<in> {CANCELLED, EXPIRED}"

lemma isTerminal_simps [simp]:
  "isTerminal CANCELLED" "isTerminal EXPIRED" "\<not> isTerminal TRIALING" "\<not> isTerminal ACTIVE"
  "\<not> isTerminal PAST_DUE" "\<not> isTerminal GRACE" "\<not> isTerminal COMPLIMENTARY"
  by (simp_all add: isTerminal_def)

definition DAY :: time_ms where
  "DAY = 24 * 60 * 60 * 1000"

definition RENEWAL_TOLERANCE_MS :: time_ms where
  "RENEWAL_TOLERANCE_MS = 3 * 24 * 60 * 60 * 1000"

text \<open>\<^verbatim>\<open>d && t < d\<close> and \<^verbatim>\<open>d && t >= d\<close> on a nullable date.\<close>

definition before :: "time_ms \<Rightarrow> time_ms option \<Rightarrow> bool" where
  "before t d \<longleftrightarrow> (case d of None \<Rightarrow> False | Some e \<Rightarrow> t < e)"

definition reached :: "time_ms \<Rightarrow> time_ms option \<Rightarrow> bool" where
  "reached t d \<longleftrightarrow> (case d of None \<Rightarrow> False | Some e \<Rightarrow> e \<le> t)"

lemma before_simps [simp]: "\<not> before t None" "before t (Some e) \<longleftrightarrow> t < e"
  by (simp_all add: before_def)

lemma reached_simps [simp]: "\<not> reached t None" "reached t (Some e) \<longleftrightarrow> e \<le> t"
  by (simp_all add: reached_def)

definition grantsEntitlements :: "sub_snapshot \<Rightarrow> time_ms \<Rightarrow> bool" where
  "grantsEntitlements s t \<longleftrightarrow> ss_currentPeriodStart s \<le> t \<and>
    (case ss_status s of
       TRIALING \<Rightarrow> before t (ss_trialEndsAt s)
     | ACTIVE \<Rightarrow> (case ss_currentPeriodEnd s of
           None \<Rightarrow> True
         | Some e \<Rightarrow> t < e + (if ss_cancelAtPeriodEnd s then 0 else RENEWAL_TOLERANCE_MS))
     | PAST_DUE \<Rightarrow> True
     | GRACE \<Rightarrow> before t (ss_graceEndsAt s)
     | COMPLIMENTARY \<Rightarrow> ss_currentPeriodEnd s = None \<or> before t (ss_currentPeriodEnd s)
     | _ \<Rightarrow> False)"

section \<open>The transition function\<close>

definition is_integer :: "rat \<Rightarrow> bool" where
  "is_integer x \<longleftrightarrow> snd (quotient_of x) = 1"

definition verified_payment :: "payment_evidence option \<Rightarrow> bool" where
  "verified_payment ev \<longleftrightarrow> (case ev of
     None \<Rightarrow> False
   | Some e \<Rightarrow> pe_verified e \<and> pe_paymentRef e \<noteq> [] \<and> is_integer (pe_amountMinor e) \<and>
       0 < pe_amountMinor e \<and> pe_currency e \<noteq> [])"

definition requireVerifiedPayment ::
  "payment_evidence option \<Rightarrow> (sub_error + transition_result) \<Rightarrow> sub_error + transition_result" where
  "requireVerifiedPayment ev k = (if verified_payment ev then k else Inl PAYMENT_NOT_VERIFIED)"

definition fresh_sub :: "sub_status \<Rightarrow> sub_source \<Rightarrow> string \<Rightarrow> time_ms \<Rightarrow> time_ms option \<Rightarrow> sub_snapshot" where
  "fresh_sub st src plan start pend = \<lparr>ss_status = st, ss_source = src, ss_planId = plan,
    ss_currentPeriodStart = start, ss_currentPeriodEnd = pend, ss_cancelAtPeriodEnd = False, ss_trialEndsAt = None,
    ss_graceEndsAt = None, ss_scheduledPlanId = None, ss_cancelledAt = None, ss_endedAt = None\<rparr>"

definition startable :: "sub_snapshot option \<Rightarrow> bool" where
  "startable cur \<longleftrightarrow> (case cur of None \<Rightarrow> True | Some s \<Rightarrow> isTerminal (ss_status s))"

text \<open>
  The guards of \<open>transition\<close>: the current status is one of the allowed ones (\<^verbatim>\<open>refuse\<close> otherwise, also when
  there is no current subscription), and a date has been reached.
\<close>

definition when_in ::
  "sub_status list \<Rightarrow> sub_snapshot option \<Rightarrow> (sub_snapshot \<Rightarrow> sub_error + transition_result) \<Rightarrow>
   sub_error + transition_result" where
  "when_in sts cur k = (case cur of
     None \<Rightarrow> Inl INVALID_TRANSITION
   | Some s \<Rightarrow> if ss_status s \<in> set sts then k s else Inl INVALID_TRANSITION)"

definition notBefore ::
  "time_ms option \<Rightarrow> time_ms \<Rightarrow> (sub_error + transition_result) \<Rightarrow> sub_error + transition_result" where
  "notBefore d now k = (if reached now d then k else Inl TOO_EARLY)"

definition keep_sub :: "sub_snapshot \<Rightarrow> sub_error + transition_result" where
  "keep_sub s = Inr \<lparr>tr_next = s, tr_creates = False\<rparr>"

definition end_sub :: "sub_status \<Rightarrow> time_ms \<Rightarrow> sub_snapshot \<Rightarrow> sub_error + transition_result" where
  "end_sub st now s = keep_sub (s\<lparr>ss_status := st, ss_endedAt := Some now,
     ss_cancelledAt := (if st = CANCELLED then Some now else ss_cancelledAt s), ss_scheduledPlanId := None\<rparr>)"

fun transition :: "sub_snapshot option \<Rightarrow> sub_event \<Rightarrow> time_ms \<Rightarrow> sub_error + transition_result" where
  "transition cur (START_TRIAL plan trialEnd) now =
    (if \<not> startable cur then Inl INVALID_TRANSITION
     else if trialEnd \<le> now then Inl INVALID_INPUT
     else Inr \<lparr>tr_next = (fresh_sub TRIALING TRIAL plan now (Some trialEnd))\<lparr>ss_trialEndsAt := Some trialEnd\<rparr>,
               tr_creates = True\<rparr>)"
| "transition cur TRIAL_ENDED now =
    when_in [TRIALING] cur (\<lambda>s. notBefore (ss_trialEndsAt s) now (end_sub EXPIRED now s))"
| "transition cur (ACTIVATE plan start pend ev) now =
    (if \<not> (startable cur \<or> map_option ss_status cur = Some TRIALING \<or> map_option ss_status cur = Some COMPLIMENTARY)
     then Inl INVALID_TRANSITION
     else requireVerifiedPayment ev
       (if pend \<le> start then Inl INVALID_INPUT
        else Inr \<lparr>tr_next = fresh_sub ACTIVE PROVIDER plan start (Some pend), tr_creates = startable cur\<rparr>))"
| "transition cur (RENEW pend ev) now =
    when_in [ACTIVE, PAST_DUE, GRACE] cur (\<lambda>s.
      if ss_cancelAtPeriodEnd s then Inl INVALID_TRANSITION
      else requireVerifiedPayment ev
        (let follows = nvl (ss_currentPeriodEnd s) now in
         if pend \<le> follows then Inl INVALID_INPUT
         else keep_sub (s\<lparr>ss_status := ACTIVE, ss_planId := nvl (ss_scheduledPlanId s) (ss_planId s),
           ss_scheduledPlanId := None, ss_currentPeriodStart := (if follows > now then now else follows),
           ss_currentPeriodEnd := Some pend, ss_graceEndsAt := None\<rparr>)))"
| "transition cur PAYMENT_FAILED now =
    when_in [ACTIVE, PAST_DUE] cur (\<lambda>s.
      if ss_status s = PAST_DUE then keep_sub s else keep_sub (s\<lparr>ss_status := PAST_DUE\<rparr>))"
| "transition cur (ENTER_GRACE graceEnd) now =
    when_in [PAST_DUE] cur (\<lambda>s.
      if graceEnd \<le> now then Inl INVALID_INPUT
      else keep_sub (s\<lparr>ss_status := GRACE, ss_graceEndsAt := Some graceEnd\<rparr>))"
| "transition cur GRACE_ENDED now =
    when_in [GRACE] cur (\<lambda>s. notBefore (ss_graceEndsAt s) now (end_sub EXPIRED now s))"
| "transition cur CANCEL_AT_PERIOD_END now =
    when_in [ACTIVE, PAST_DUE] cur (\<lambda>s. keep_sub (s\<lparr>ss_cancelAtPeriodEnd := True, ss_scheduledPlanId := None\<rparr>))"
| "transition cur RESUME now =
    when_in [ACTIVE] cur (\<lambda>s.
      if \<not> ss_cancelAtPeriodEnd s then Inl INVALID_TRANSITION else keep_sub (s\<lparr>ss_cancelAtPeriodEnd := False\<rparr>))"
| "transition cur PERIOD_ENDED now =
    when_in [ACTIVE] cur (\<lambda>s.
      if \<not> ss_cancelAtPeriodEnd s then Inl INVALID_TRANSITION
      else notBefore (ss_currentPeriodEnd s) now (end_sub CANCELLED now s))"
| "transition cur (SCHEDULE_PLAN_CHANGE plan) now =
    when_in [ACTIVE] cur (\<lambda>s.
      if plan = ss_planId s then Inl INVALID_INPUT
      else keep_sub (s\<lparr>ss_scheduledPlanId := Some plan, ss_cancelAtPeriodEnd := False\<rparr>))"
| "transition cur CANCEL_SCHEDULED_CHANGE now =
    when_in [ACTIVE] cur (\<lambda>s.
      if \<not> truthy (ss_scheduledPlanId s) then Inl INVALID_TRANSITION else keep_sub (s\<lparr>ss_scheduledPlanId := None\<rparr>))"
| "transition cur (CHANGE_PLAN_NOW plan ev) now =
    when_in [ACTIVE] cur (\<lambda>s.
      if plan = ss_planId s then Inl INVALID_INPUT
      else requireVerifiedPayment ev (keep_sub (s\<lparr>ss_planId := plan, ss_scheduledPlanId := None\<rparr>)))"
| "transition cur (GRANT_COMPLIMENTARY plan ends) now =
    (if \<not> startable cur \<and> map_option ss_status cur \<noteq> Some TRIALING then Inl INVALID_TRANSITION
     else if reached now ends then Inl INVALID_INPUT
     else Inr \<lparr>tr_next = fresh_sub COMPLIMENTARY ADMIN_COMPLIMENTARY plan now ends, tr_creates = startable cur\<rparr>)"
| "transition cur COMPLIMENTARY_ENDED now =
    when_in [COMPLIMENTARY] cur (\<lambda>s. notBefore (ss_currentPeriodEnd s) now (end_sub EXPIRED now s))"
| "transition cur REVOKE now = when_in [TRIALING, COMPLIMENTARY] cur (\<lambda>s. end_sub EXPIRED now s)"
| "transition cur CANCEL_NOW now =
    (case cur of
       None \<Rightarrow> Inl INVALID_TRANSITION
     | Some s \<Rightarrow> if startable cur then Inl INVALID_TRANSITION else end_sub CANCELLED now s)"

definition dueTimedEvent :: "sub_snapshot \<Rightarrow> time_ms \<Rightarrow> sub_event option" where
  "dueTimedEvent s now =
    (if ss_status s = TRIALING \<and> reached now (ss_trialEndsAt s) then Some TRIAL_ENDED
     else if ss_status s = GRACE \<and> reached now (ss_graceEndsAt s) then Some GRACE_ENDED
     else if ss_status s = COMPLIMENTARY \<and> reached now (ss_currentPeriodEnd s) then Some COMPLIMENTARY_ENDED
     else if ss_status s = ACTIVE \<and> ss_cancelAtPeriodEnd s \<and> reached now (ss_currentPeriodEnd s) then Some PERIOD_ENDED
     else None)"

section \<open>Dunning\<close>

datatype dunning_stage = DS_PAST_DUE | DS_GRACE | DS_GRACE_ENDING

definition GRACE_ENDING_WINDOW_MS :: time_ms where
  "GRACE_ENDING_WINDOW_MS = 2 * 24 * 60 * 60 * 1000"

definition dunningStageFor :: "sub_snapshot \<Rightarrow> time_ms \<Rightarrow> dunning_stage option" where
  "dunningStageFor s now =
    (if ss_status s = PAST_DUE then Some DS_PAST_DUE
     else if ss_status s \<noteq> GRACE then None
     else case ss_graceEndsAt s of
       None \<Rightarrow> None
     | Some e \<Rightarrow> Some (if e - now \<le> GRACE_ENDING_WINDOW_MS then DS_GRACE_ENDING else DS_GRACE))"

section \<open>What a snapshot satisfies\<close>

definition paid_status :: "sub_status \<Rightarrow> bool" where
  "paid_status st \<longleftrightarrow> st \<in> {ACTIVE, PAST_DUE, GRACE}"

lemma paid_status_simps [simp]:
  "paid_status ACTIVE" "paid_status PAST_DUE" "paid_status GRACE" "\<not> paid_status TRIALING"
  "\<not> paid_status COMPLIMENTARY" "\<not> paid_status CANCELLED" "\<not> paid_status EXPIRED"
  by (simp_all add: paid_status_def)

text \<open>
  The source tells how the plan was obtained, a dated state has its date, a bounded period is not empty, an end
  is recorded exactly for a terminal state, and a cancellation excludes a scheduled change to another plan.
\<close>

definition bounded_period :: "sub_snapshot \<Rightarrow> bool" where
  "bounded_period s \<longleftrightarrow> before (ss_currentPeriodStart s) (ss_currentPeriodEnd s)"

definition not_ended :: "sub_snapshot \<Rightarrow> bool" where
  "not_ended s \<longleftrightarrow> ss_endedAt s = None \<and> ss_cancelledAt s = None"

definition no_plan_change :: "sub_snapshot \<Rightarrow> bool" where
  "no_plan_change s \<longleftrightarrow> \<not> ss_cancelAtPeriodEnd s \<and> ss_scheduledPlanId s = None"

definition paid_ok :: "sub_snapshot \<Rightarrow> bool" where
  "paid_ok s \<longleftrightarrow> ss_source s = PROVIDER \<and> bounded_period s \<and> not_ended s \<and>
    (ss_cancelAtPeriodEnd s \<longrightarrow> ss_scheduledPlanId s = None) \<and> ss_scheduledPlanId s \<noteq> Some (ss_planId s)"

definition ended_state :: "sub_snapshot \<Rightarrow> bool" where
  "ended_state s \<longleftrightarrow> ss_endedAt s \<noteq> None \<and> ss_scheduledPlanId s = None \<and>
    (ss_source s = ADMIN_COMPLIMENTARY \<and> ss_currentPeriodEnd s = None \<or> bounded_period s)"

definition snapshot_ok :: "sub_snapshot \<Rightarrow> bool" where
  "snapshot_ok s \<longleftrightarrow> (case ss_status s of
     TRIALING \<Rightarrow> ss_source s = TRIAL \<and> bounded_period s \<and> ss_trialEndsAt s = ss_currentPeriodEnd s \<and>
       not_ended s \<and> no_plan_change s
   | ACTIVE \<Rightarrow> paid_ok s
   | PAST_DUE \<Rightarrow> paid_ok s
   | GRACE \<Rightarrow> paid_ok s \<and> ss_graceEndsAt s \<noteq> None
   | COMPLIMENTARY \<Rightarrow> ss_source s = ADMIN_COMPLIMENTARY \<and> (ss_currentPeriodEnd s = None \<or> bounded_period s) \<and>
       not_ended s \<and> no_plan_change s
   | CANCELLED \<Rightarrow> ended_state s \<and> ss_cancelledAt s \<noteq> None
   | EXPIRED \<Rightarrow> ended_state s \<and> ss_cancelledAt s = None)"

lemmas ok_defs = bounded_period_def not_ended_def no_plan_change_def paid_ok_def ended_state_def snapshot_ok_def

text \<open>The branches of an accepted event, as one rule per guard.\<close>

lemma when_in_Inr: "when_in sts cur k = Inr r \<longleftrightarrow> (\<exists>s. cur = Some s \<and> ss_status s \<in> set sts \<and> k s = Inr r)"
  by (auto simp: when_in_def split: option.splits)

lemma requireVerifiedPayment_Inr: "requireVerifiedPayment ev k = Inr r \<longleftrightarrow> verified_payment ev \<and> k = Inr r"
  by (simp add: requireVerifiedPayment_def)

lemma notBefore_Inr: "notBefore d now k = Inr r \<longleftrightarrow> reached now d \<and> k = Inr r"
  by (simp add: notBefore_def)

lemmas accepted = when_in_Inr requireVerifiedPayment_Inr notBefore_Inr keep_sub_def end_sub_def fresh_sub_def
  startable_def

lemma live_accepted:
  assumes "transition (Some s) e now = Inr r" "isTerminal (ss_status s)"
  shows "tr_creates r"
  using assms by (cases e) (auto simp: accepted isTerminal_def Let_def split: if_splits)

lemma kept_live: "transition cur e now = Inr r \<Longrightarrow> \<not> tr_creates r \<Longrightarrow> \<exists>s. cur = Some s \<and> \<not> isTerminal (ss_status s)"
  by (cases e; cases cur) (auto simp: accepted Let_def isTerminal_def split: if_splits option.splits)

lemma renewed_ok:
  assumes "snapshot_ok s" "paid_status (ss_status s)" "\<not> ss_cancelAtPeriodEnd s" "start < pend"
  shows "snapshot_ok (s\<lparr>ss_status := ACTIVE, ss_planId := plan, ss_scheduledPlanId := None,
    ss_currentPeriodStart := start, ss_currentPeriodEnd := Some pend, ss_graceEndsAt := None\<rparr>)"
  using assms by (cases "ss_status s") (simp_all add: ok_defs)

lemma ended_ok:
  assumes "snapshot_ok s" "\<not> isTerminal (ss_status s)" "st \<in> {CANCELLED, EXPIRED}" "end_sub st now s = Inr r"
  shows "snapshot_ok (tr_next r)"
  using assms by (cases "ss_status s") (auto simp: end_sub_def keep_sub_def ok_defs)

lemma transition_ok:
  assumes "transition cur e now = Inr r" "\<And>s. cur = Some s \<Longrightarrow> snapshot_ok s"
  shows "snapshot_ok (tr_next r)"
proof (cases cur)
  case None
  with assms(1) show ?thesis
    by (cases e) (auto simp: accepted ok_defs before_def reached_def split: if_splits option.splits)
next
  case (Some s)
  with assms(2) have ok: "snapshot_ok s" by simp
  note rules = when_in_Inr requireVerifiedPayment_Inr notBefore_Inr keep_sub_def startable_def
  show ?thesis
  proof (cases e)
    case (RENEW pend ev)
    let ?follows = "nvl (ss_currentPeriodEnd s) now"
    from RENEW assms(1) Some have st: "paid_status (ss_status s)" "\<not> ss_cancelAtPeriodEnd s" "?follows < pend"
      and r: "tr_next r = s\<lparr>ss_status := ACTIVE, ss_planId := nvl (ss_scheduledPlanId s) (ss_planId s),
        ss_scheduledPlanId := None, ss_currentPeriodStart := (if ?follows > now then now else ?follows),
        ss_currentPeriodEnd := Some pend, ss_graceEndsAt := None\<rparr>"
      by (auto simp: rules Let_def split: if_splits)
    show ?thesis unfolding r by (rule renewed_ok [OF ok st(1,2)]) (use st(3) in auto)
  next
    case TRIAL_ENDED
    with assms(1) Some ok show ?thesis by (auto simp: rules intro: ended_ok)
  next
    case GRACE_ENDED
    with assms(1) Some ok show ?thesis by (auto simp: rules intro: ended_ok)
  next
    case PERIOD_ENDED
    with assms(1) Some ok show ?thesis by (auto simp: rules split: if_splits intro: ended_ok)
  next
    case COMPLIMENTARY_ENDED
    with assms(1) Some ok show ?thesis by (auto simp: rules intro: ended_ok)
  next
    case REVOKE
    with assms(1) Some ok show ?thesis by (auto simp: rules intro: ended_ok)
  next
    case CANCEL_NOW
    with assms(1) Some ok show ?thesis by (auto simp: startable_def split: if_splits intro: ended_ok)
  qed (use assms(1) ok Some in \<open>auto simp: rules fresh_sub_def ok_defs before_def reached_def split: if_splits option.splits\<close>)
qed

section \<open>Histories\<close>

text \<open>
  The life of one subscription: an event that creates it, then events that keep it.  The history is the list of
  the accepted events with their times.
\<close>

inductive sub_run :: "(sub_event \<times> time_ms) list \<Rightarrow> sub_snapshot \<Rightarrow> bool" where
  create: "transition cur e t = Inr r \<Longrightarrow> tr_creates r \<Longrightarrow> sub_run [(e, t)] (tr_next r)"
| move: "sub_run h s \<Longrightarrow> transition (Some s) e t = Inr r \<Longrightarrow> \<not> tr_creates r \<Longrightarrow> sub_run (h @ [(e, t)]) (tr_next r)"

text \<open>The event is a verified payment for a period that ends at the given time.\<close>

fun pays_until :: "sub_event \<Rightarrow> time_ms \<Rightarrow> bool" where
  "pays_until (ACTIVATE _ _ pend ev) t \<longleftrightarrow> pend = t \<and> verified_payment ev"
| "pays_until (RENEW pend ev) t \<longleftrightarrow> pend = t \<and> verified_payment ev"
| "pays_until _ _ \<longleftrightarrow> False"

lemma created_ok: "transition cur e t = Inr r \<Longrightarrow> tr_creates r \<Longrightarrow> transition None e t = Inr r"
  by (cases e; cases cur) (auto simp: accepted Let_def split: if_splits option.splits)

lemma run_ok: "sub_run h s \<Longrightarrow> snapshot_ok s"
proof (induction rule: sub_run.induct)
  case (create cur e t r)
  from created_ok [OF create] show ?case by (rule transition_ok) simp
next
  case (move h s e t r)
  from move(2) show ?case by (rule transition_ok) (use move in simp)
qed

lemma step_paid:
  assumes "transition cur e t = Inr r" "ss_source (tr_next r) = PROVIDER" "snapshot_ok (tr_next r)"
  shows "(\<exists>d. ss_currentPeriodEnd (tr_next r) = Some d \<and> pays_until e d) \<or>
    (\<exists>s. cur = Some s \<and> ss_source s = PROVIDER \<and> ss_currentPeriodEnd (tr_next r) = ss_currentPeriodEnd s)"
  using assms(1,2) by (cases e; cases cur) (auto simp: accepted Let_def split: if_splits)

lemma paid_in_history:
  "sub_run h s \<Longrightarrow> ss_source s = PROVIDER \<Longrightarrow> \<exists>e t d. (e, t) \<in> set h \<and> ss_currentPeriodEnd s = Some d \<and> pays_until e d"
proof (induction rule: sub_run.induct)
  case (create cur e t r)
  from created_ok [OF create(1,2)] have new: "transition None e t = Inr r" .
  have "snapshot_ok (tr_next r)" by (rule run_ok [OF sub_run.create [OF create(1,2)]])
  from step_paid [OF new create(3) this] show ?case by auto
next
  case (move h s e t r)
  have "snapshot_ok (tr_next r)" by (rule run_ok [OF sub_run.move [OF move(1-3)]])
  from step_paid [OF move(2) move(5) this] move(4) show ?case by fastforce
qed

text \<open>
  C19.  The one rule about money.  Whatever events a subscription has taken, if it is a paid one (its source is the
  provider) then its current period ends where a verified payment among those events says, and while it is
  active it grants the plan at most up to that date and the renewal tolerance.
\<close>

theorem paid_period_backed_by_payment:
  assumes "sub_run h s" "ss_source s = PROVIDER"
  shows "\<exists>e t d. (e, t) \<in> set h \<and> pays_until e d \<and> ss_currentPeriodEnd s = Some d \<and>
    (ss_status s = ACTIVE \<longrightarrow> (\<forall>u. grantsEntitlements s u \<longrightarrow> u < d + RENEWAL_TOLERANCE_MS))"
proof -
  obtain e t d where "(e, t) \<in> set h" "ss_currentPeriodEnd s = Some d" "pays_until e d"
    using paid_in_history [OF assms] by blast
  moreover have "u < d + RENEWAL_TOLERANCE_MS" if "ss_status s = ACTIVE" "grantsEntitlements s u" for u
    using that \<open>ss_currentPeriodEnd s = Some d\<close>
    by (auto simp: grantsEntitlements_def RENEWAL_TOLERANCE_MS_def split: if_splits)
  ultimately show ?thesis by blast
qed

text \<open>A subscription that is renewed once and then fails to renew.\<close>

definition ex_evidence :: "payment_evidence option" where
  "ex_evidence = Some \<lparr>pe_verified = True, pe_provider = ''STRIPE_BILLING'', pe_paymentRef = ''pi_1'', pe_amountMinor = 4900,
    pe_currency = ''USD''\<rparr>"

definition ex_paid :: sub_snapshot where
  "ex_paid = (fresh_sub ACTIVE PROVIDER ''pro'' 100 (Some 300))\<lparr>ss_status := PAST_DUE\<rparr>"

lemma ex_verified [simp]: "verified_payment ex_evidence"
  by (simp add: verified_payment_def ex_evidence_def is_integer_def)

lemma ex_paid_run: "sub_run [(ACTIVATE ''pro'' 0 100 ex_evidence, 0), (RENEW 300 ex_evidence, 120), (PAYMENT_FAILED, 310)] ex_paid"
proof -
  have "sub_run [(ACTIVATE ''pro'' 0 100 ex_evidence, 0)] (fresh_sub ACTIVE PROVIDER ''pro'' 0 (Some 100))"
    using sub_run.create [of None "ACTIVATE ''pro'' 0 100 ex_evidence" 0]
    by (simp add: requireVerifiedPayment_def startable_def)
  from sub_run.move [OF this, of "RENEW 300 ex_evidence" 120]
  have "sub_run [(ACTIVATE ''pro'' 0 100 ex_evidence, 0), (RENEW 300 ex_evidence, 120)] (fresh_sub ACTIVE PROVIDER ''pro'' 100 (Some 300))"
    by (simp add: requireVerifiedPayment_def when_in_def fresh_sub_def keep_sub_def)
  from sub_run.move [OF this, of PAYMENT_FAILED 310] show ?thesis
    by (simp add: when_in_def fresh_sub_def keep_sub_def ex_paid_def)
qed

theorem paid_period_backed_by_payment_witness:
  "\<exists>e t d. (e, t) \<in> set [(ACTIVATE ''pro'' 0 100 ex_evidence, 0), (RENEW 300 ex_evidence, 120), (PAYMENT_FAILED, 310 :: int)] \<and>
    pays_until e d \<and> ss_currentPeriodEnd ex_paid = Some d"
  using paid_period_backed_by_payment [OF ex_paid_run] by (auto simp: ex_paid_def fresh_sub_def)

text \<open>
  C27.  Every snapshot that any history of accepted events produces is well formed: its source tells how the plan was
  obtained, a dated state has its date, a bounded period is not empty, an end is recorded exactly for an ended
  subscription and a cancellation excludes a scheduled plan change; and once ended it takes no further event
  except one that starts a new subscription.
\<close>

theorem snapshots_well_formed:
  assumes "sub_run h s"
  shows "snapshot_ok s \<and> (isTerminal (ss_status s) \<longrightarrow> (\<forall>e t r. transition (Some s) e t = Inr r \<longrightarrow> tr_creates r))"
  using run_ok [OF assms] live_accepted by blast

theorem snapshots_well_formed_witness: "snapshot_ok ex_paid"
  using snapshots_well_formed [OF ex_paid_run] by blast

section \<open>The clock\<close>

text \<open>Paid, not cancelled, and the renewal is overdue: the case the billing sweep settles with the provider.\<close>

definition renewal_overdue :: "sub_snapshot \<Rightarrow> time_ms \<Rightarrow> bool" where
  "renewal_overdue s now \<longleftrightarrow> ss_status s = ACTIVE \<and> \<not> ss_cancelAtPeriodEnd s \<and>
    (case ss_currentPeriodEnd s of None \<Rightarrow> False | Some e \<Rightarrow> e + RENEWAL_TOLERANCE_MS \<le> now)"

lemma due_accepted:
  assumes "dueTimedEvent s now = Some e"
  shows "\<exists>r. transition (Some s) e now = Inr r \<and> \<not> tr_creates r \<and> isTerminal (ss_status (tr_next r))"
  using assms unfolding dueTimedEvent_def
  by (auto simp: when_in_def notBefore_def end_sub_def keep_sub_def split: if_splits)

lemma terminal_grants_nothing: "isTerminal (ss_status s) \<Longrightarrow> \<not> grantsEntitlements s t"
  by (auto simp: isTerminal_def grantsEntitlements_def)

lemma clock_exact:
  assumes "snapshot_ok s" "ss_currentPeriodStart s \<le> now"
  shows "\<not> isTerminal (ss_status s) \<and> \<not> grantsEntitlements s now \<longleftrightarrow>
    dueTimedEvent s now \<noteq> None \<or> renewal_overdue s now"
  using assms
  by (cases "ss_status s")
    (auto simp: ok_defs grantsEntitlements_def dueTimedEvent_def renewal_overdue_def before_def reached_def not_less
      split: option.splits)

text \<open>
  The stored status follows the clock.  In every well-formed subscription whose period has begun, a live
  status that no longer grants the plan is exactly one for which the clock has a move or whose renewal is overdue;
  and the move the clock names is always accepted and ends the subscription, after which nothing is granted.
\<close>

lemma clock_and_entitlements_agree:
  assumes "snapshot_ok s" "ss_currentPeriodStart s \<le> now"
  shows "(\<not> isTerminal (ss_status s) \<and> \<not> grantsEntitlements s now \<longleftrightarrow> dueTimedEvent s now \<noteq> None \<or> renewal_overdue s now) \<and>
    (\<forall>e. dueTimedEvent s now = Some e \<longrightarrow> (\<exists>r. transition (Some s) e now = Inr r \<and> isTerminal (ss_status (tr_next r)) \<and>
       (\<forall>t. \<not> grantsEntitlements (tr_next r) t)))"
  using clock_exact [OF assms] due_accepted terminal_grants_nothing by blast

definition ex_trial :: sub_snapshot where
  "ex_trial = (fresh_sub TRIALING TRIAL ''pro'' 0 (Some 100))\<lparr>ss_trialEndsAt := Some 100\<rparr>"

lemma clock_and_entitlements_agree_witness:
  "dueTimedEvent ex_trial 150 = Some TRIAL_ENDED \<and> \<not> grantsEntitlements ex_trial 150 \<and>
    (\<exists>r. transition (Some ex_trial) TRIAL_ENDED 150 = Inr r \<and> ss_status (tr_next r) = EXPIRED)"
proof -
  have "snapshot_ok ex_trial" "ss_currentPeriodStart ex_trial \<le> 150" "dueTimedEvent ex_trial 150 = Some TRIAL_ENDED"
    by (simp_all add: ex_trial_def fresh_sub_def ok_defs dueTimedEvent_def)
  with clock_and_entitlements_agree [of ex_trial 150] show ?thesis
    by (auto simp: ex_trial_def fresh_sub_def when_in_def notBefore_def end_sub_def keep_sub_def)
qed

end
