(* ===== verification/SubscriptionStore.thy ===== *)
theory SubscriptionStore
  imports Subscription Regions
begin

text \<open>
  The stored subscriptions: \<^verbatim>\<open>billing/billing-account.ts\<close> (the account of an organization) and
  \<^verbatim>\<open>billing/subscription.service.ts\<close> (persisting a move of the state machine, staff grants and the sweep that
  applies the clock).  A transaction is a function from the database to an error or a new database; it holds the
  lock of the billing account, so that it runs without interleaving.  Identifiers that the database makes
  (\<^verbatim>\<open>cuid()\<close>) are arguments; a clash, like any violated unique constraint, is the error \<open>UniqueViolation\<close>.

  Shown here: the invariant \<open>store_ok\<close> (one live subscription per account, current key exactly for live rows,
  well-formed snapshots) and that every operation keeps it, that the two conflict branches of \<open>applyInTx\<close> cannot
  be reached, and that the sweep equals ending every due row at once.
\<close>

datatype billing_provider = NONE | MOCK | STRIPE_BILLING | RAZORPAY_BILLING

record billing_org =
  bo_id :: string
  bo_registeredCountry :: "string option"
  bo_financeContactEmail :: "string option"
  bo_contactEmail :: "string option"

datatype plan_code = FREE | PRO | PREMIUM

record billing_plan =
  bp_id :: string
  bp_code :: plan_code
  bp_name :: string
  bp_active :: bool

record billing_account =
  ba_id :: string
  ba_organizationId :: string
  ba_country :: string
  ba_currency :: string
  ba_provider :: billing_provider
  ba_providerCustomerRef :: "string option"
  ba_taxId :: "string option"
  ba_billingEmail :: "string option"
  ba_disputedAt :: "time_ms option"
  ba_disputeRef :: "string option"

text \<open>A row of \<^verbatim>\<open>OrganizerSubscription\<close>; the eleven columns of a snapshot are one field.\<close>

record org_subscription =
  os_id :: string
  os_accountId :: string
  os_snapshot :: sub_snapshot
  os_priceId :: "string option"
  os_providerSubscriptionRef :: "string option"
  os_currentKey :: "string option"
  os_grantedByUserId :: "string option"
  os_note :: "string option"
  os_providerStateAt :: "time_ms option"
  os_version :: int

record sub_audit =
  sa_actorUserId :: "string option"
  sa_organizationId :: string
  sa_action :: string
  sa_entityId :: string
  sa_transition :: sub_event
  sa_fromStatus :: "sub_status option"
  sa_toStatus :: sub_status
  sa_planId :: string
  sa_reason :: "string option"

record sub_store =
  sd_orgs :: "billing_org list"
  sd_plans :: "billing_plan list"
  sd_accounts :: "billing_account list"
  sd_subs :: "org_subscription list"
  sd_audit :: "sub_audit list"
  sd_changed :: "sub_audit list"

datatype billing_error =
  TransitionInvalid sub_error | AlreadyCurrent | ChangedMeanwhile | OrgNotFound | PlanNotInCatalogue
| PaidPlanOnly | UniqueViolation

definition is_app_exception :: "billing_error \<Rightarrow> bool" where
  "is_app_exception e \<longleftrightarrow> e \<noteq> UniqueViolation"

section \<open>The billing account\<close>

definition is_letter :: "char \<Rightarrow> bool" where
  "is_letter c \<longleftrightarrow> upper_char c \<noteq> c \<or> lower_char c \<noteq> c"

definition billingCountryOf :: "string option \<Rightarrow> string option" where
  "billingCountryOf registeredCountry =
    (let raw = trim (nvl registeredCountry []) in
     if raw = [] then None
     else case find (\<lambda>alpha2. lower alpha2 \<in> set (countryAliases raw))
         [''IN'', ''US'', ''CA'', ''GB'', ''AE'', ''SG'', ''AU'', ''NZ''] of
       Some alpha2 \<Rightarrow> Some alpha2
     | None \<Rightarrow> if length raw = 2 \<and> list_all is_letter raw then Some (upper raw) else None)"

definition ensureBillingAccount ::
  "string \<Rightarrow> string \<Rightarrow> sub_store \<Rightarrow> billing_error + (billing_account \<times> sub_store)" where
  "ensureBillingAccount newId organizationId db =
    (case find (\<lambda>a. ba_organizationId a = organizationId) (sd_accounts db) of
       Some existing \<Rightarrow> Inr (existing, db)
     | None \<Rightarrow>
        (case find (\<lambda>o'. bo_id o' = organizationId) (sd_orgs db) of
           None \<Rightarrow> Inl OrgNotFound
         | Some org \<Rightarrow>
            (let country = nvl (billingCountryOf (bo_registeredCountry org)) ''XX'';
                 account = \<lparr>ba_id = newId, ba_organizationId = organizationId, ba_country = country,
                   ba_currency = nvl (currencyForCountry (Some country)) ''USD'', ba_provider = NONE,
                   ba_providerCustomerRef = None, ba_taxId = None,
                   ba_billingEmail = (case bo_financeContactEmail org of Some e \<Rightarrow> Some e | None \<Rightarrow> bo_contactEmail org),
                   ba_disputedAt = None, ba_disputeRef = None\<rparr> in
             if newId \<in> set (map ba_id (sd_accounts db)) then Inl UniqueViolation
             else Inr (account, db\<lparr>sd_accounts := sd_accounts db @ [account]\<rparr>))))"

section \<open>Applying a move\<close>

text \<open>
  \<^verbatim>\<open>ctx.priceId\<close> is optional and nullable: \<open>None\<close> leaves the column of an existing row, \<open>Some p\<close> writes \<open>p\<close>.
\<close>

record apply_context =
  ac_auditAction :: string
  ac_actorUserId :: "string option"
  ac_reason :: "string option"
  ac_priceId :: "string option option"
  ac_providerSubscriptionRef :: "string option"
  ac_newAccountId :: string
  ac_newSubscriptionId :: string

definition toSnapshot :: "org_subscription \<Rightarrow> sub_snapshot" where
  "toSnapshot s = os_snapshot s"

definition current_sub :: "string \<Rightarrow> sub_store \<Rightarrow> org_subscription option" where
  "current_sub accountId db = find (\<lambda>r. os_currentKey r = Some accountId) (sd_subs db)"

text \<open>Two rows clash on a nullable unique column only if both have a value there.\<close>

definition clash :: "'a option \<Rightarrow> 'a option \<Rightarrow> bool" where
  "clash x y \<longleftrightarrow> x \<noteq> None \<and> x = y"

definition rows_clash :: "org_subscription \<Rightarrow> org_subscription \<Rightarrow> bool" where
  "rows_clash r r' \<longleftrightarrow> os_id r = os_id r' \<or> clash (os_currentKey r) (os_currentKey r') \<or>
    clash (os_providerSubscriptionRef r) (os_providerSubscriptionRef r')"

definition create_sub :: "org_subscription \<Rightarrow> sub_store \<Rightarrow> billing_error + sub_store" where
  "create_sub r db =
    (if list_ex (rows_clash r) (sd_subs db) then Inl UniqueViolation else Inr (db\<lparr>sd_subs := sd_subs db @ [r]\<rparr>))"

text \<open>\<^verbatim>\<open>updateMany({where: {id, version}, ...})\<close>: the new rows and how many were written.\<close>

definition update_sub ::
  "string \<Rightarrow> int \<Rightarrow> (org_subscription \<Rightarrow> org_subscription) \<Rightarrow> sub_store \<Rightarrow> billing_error + (nat \<times> sub_store)" where
  "update_sub i v f db =
    (let hit = (\<lambda>r. os_id r = i \<and> os_version r = v);
         written = map f (filter hit (sd_subs db)) in
     if list_ex (\<lambda>r. list_ex (rows_clash r) (filter (\<lambda>r'. \<not> hit r') (sd_subs db))) written then Inl UniqueViolation
     else Inr (length written, db\<lparr>sd_subs := map (\<lambda>r. if hit r then f r else r) (sd_subs db)\<rparr>))"

definition new_row :: "apply_context \<Rightarrow> string \<Rightarrow> sub_snapshot \<Rightarrow> org_subscription" where
  "new_row ctx accountId next = \<lparr>os_id = ac_newSubscriptionId ctx, os_accountId = accountId, os_snapshot = next,
     os_priceId = nvl (ac_priceId ctx) None, os_providerSubscriptionRef = ac_providerSubscriptionRef ctx,
     os_currentKey = (if isTerminal (ss_status next) then None else Some accountId),
     os_grantedByUserId = ac_actorUserId ctx, os_note = ac_reason ctx, os_providerStateAt = None, os_version = 1\<rparr>"

definition moved_row :: "apply_context \<Rightarrow> string \<Rightarrow> sub_snapshot \<Rightarrow> org_subscription \<Rightarrow> org_subscription" where
  "moved_row ctx accountId next r = r\<lparr>os_snapshot := next,
     os_priceId := nvl (ac_priceId ctx) (os_priceId r),
     os_providerSubscriptionRef :=
       (if truthy (ac_providerSubscriptionRef ctx) then ac_providerSubscriptionRef ctx else os_providerSubscriptionRef r),
     os_currentKey := (if isTerminal (ss_status next) then None else Some accountId), os_version := os_version r + 1\<rparr>"

definition audit_entry ::
  "apply_context \<Rightarrow> string \<Rightarrow> sub_event \<Rightarrow> org_subscription option \<Rightarrow> org_subscription \<Rightarrow> sub_audit" where
  "audit_entry ctx organizationId event current row = \<lparr>sa_actorUserId = ac_actorUserId ctx, sa_organizationId = organizationId,
     sa_action = ac_auditAction ctx, sa_entityId = os_id row, sa_transition = event,
     sa_fromStatus = map_option (ss_status \<circ> os_snapshot) current, sa_toStatus = ss_status (os_snapshot row),
     sa_planId = ss_planId (os_snapshot row), sa_reason = ac_reason ctx\<rparr>"

definition save_move ::
  "apply_context \<Rightarrow> string \<Rightarrow> org_subscription option \<Rightarrow> transition_result \<Rightarrow> sub_store \<Rightarrow>
   billing_error + (org_subscription \<times> sub_store)" where
  "save_move ctx accountId current result db =
    (let next = tr_next result in
     if tr_creates result then
       (if current \<noteq> None then Inl AlreadyCurrent
        else let row = new_row ctx accountId next in rbind (create_sub row db) (\<lambda>db. Inr (row, db)))
     else case current of
       None \<Rightarrow> Inl ChangedMeanwhile
     | Some c \<Rightarrow> rbind (update_sub (os_id c) (os_version c) (moved_row ctx accountId next) db) (\<lambda>(n, db).
          if n \<noteq> 1 then Inl ChangedMeanwhile
          else case find (\<lambda>r. os_id r = os_id c) (sd_subs db) of
            None \<Rightarrow> Inl ChangedMeanwhile
          | Some row \<Rightarrow> Inr (row, db)))"

definition applyInTx ::
  "apply_context \<Rightarrow> string \<Rightarrow> sub_event \<Rightarrow> time_ms \<Rightarrow> sub_store \<Rightarrow> billing_error + (org_subscription \<times> sub_audit \<times> sub_store)" where
  "applyInTx ctx organizationId event now db =
    rbind (ensureBillingAccount (ac_newAccountId ctx) organizationId db) (\<lambda>(account, db).
      let current = current_sub (ba_id account) db in
      case transition (map_option toSnapshot current) event now of
        Inl e \<Rightarrow> Inl (TransitionInvalid e)
      | Inr result \<Rightarrow> rbind (save_move ctx (ba_id account) current result db) (\<lambda>(row, db).
          let entry = audit_entry ctx organizationId event current row in
          Inr (row, entry, db\<lparr>sd_audit := sd_audit db @ [entry]\<rparr>)))"

text \<open>\<^verbatim>\<open>apply\<close>: the move with its domain event, in one transaction.\<close>

definition apply_sub ::
  "apply_context \<Rightarrow> string \<Rightarrow> sub_event \<Rightarrow> time_ms \<Rightarrow> sub_store \<Rightarrow> billing_error + (org_subscription \<times> sub_store)" where
  "apply_sub ctx organizationId event now db =
    rbind (applyInTx ctx organizationId event now db) (\<lambda>(row, entry, db).
      Inr (row, db\<lparr>sd_changed := sd_changed db @ [entry]\<rparr>))"

section \<open>Staff grants\<close>

definition planByCode :: "plan_code \<Rightarrow> sub_store \<Rightarrow> billing_error + billing_plan" where
  "planByCode code db =
    (case find (\<lambda>p. bp_code p = code) (sd_plans db) of
       None \<Rightarrow> Inl PlanNotInCatalogue
     | Some plan \<Rightarrow> if bp_active plan then Inr plan else Inl PlanNotInCatalogue)"

definition staff_context :: "string \<Rightarrow> string \<Rightarrow> string \<Rightarrow> string \<times> string \<Rightarrow> apply_context" where
  "staff_context action actor reason ids = \<lparr>ac_auditAction = action, ac_actorUserId = Some actor, ac_reason = Some reason,
     ac_priceId = None, ac_providerSubscriptionRef = None, ac_newAccountId = fst ids, ac_newSubscriptionId = snd ids\<rparr>"

definition grantTrial ::
  "string \<times> string \<Rightarrow> string \<Rightarrow> plan_code \<Rightarrow> int \<Rightarrow> string \<Rightarrow> string \<Rightarrow> time_ms \<Rightarrow> sub_store \<Rightarrow>
   billing_error + (org_subscription \<times> sub_store)" where
  "grantTrial ids organizationId planCode days reason actor now db =
    (if planCode = FREE then Inl PaidPlanOnly
     else rbind (planByCode planCode db) (\<lambda>plan.
       apply_sub (staff_context ''BILLING_TRIAL_GRANTED'' actor reason ids) organizationId
         (START_TRIAL (bp_id plan) (now + days * DAY)) now db))"

definition grantComplimentary ::
  "string \<times> string \<Rightarrow> string \<Rightarrow> plan_code \<Rightarrow> time_ms option \<Rightarrow> string \<Rightarrow> string \<Rightarrow> time_ms \<Rightarrow> sub_store \<Rightarrow>
   billing_error + (org_subscription \<times> sub_store)" where
  "grantComplimentary ids organizationId planCode endsAt reason actor now db =
    (if planCode = FREE then Inl PaidPlanOnly
     else rbind (planByCode planCode db) (\<lambda>plan.
       apply_sub (staff_context ''BILLING_COMPLIMENTARY_GRANTED'' actor reason ids) organizationId
         (GRANT_COMPLIMENTARY (bp_id plan) endsAt) now db))"

definition endGrant ::
  "string \<times> string \<Rightarrow> string \<Rightarrow> string \<Rightarrow> string \<Rightarrow> time_ms \<Rightarrow> sub_store \<Rightarrow> billing_error + (org_subscription \<times> sub_store)" where
  "endGrant ids organizationId reason actor now db =
    apply_sub (staff_context ''BILLING_GRANT_ENDED'' actor reason ids) organizationId REVOKE now db"

section \<open>The sweep of the clock\<close>

definition org_of_account :: "sub_store \<Rightarrow> string \<Rightarrow> string" where
  "org_of_account db accountId =
    (case find (\<lambda>a. ba_id a = accountId) (sd_accounts db) of None \<Rightarrow> [] | Some a \<Rightarrow> ba_organizationId a)"

definition sweep_context :: apply_context where
  "sweep_context = \<lparr>ac_auditAction = ''BILLING_SUBSCRIPTION_EXPIRED_BY_CLOCK'', ac_actorUserId = None, ac_reason = None,
     ac_priceId = None, ac_providerSubscriptionRef = None, ac_newAccountId = [], ac_newSubscriptionId = []\<rparr>"

text \<open>One row of the sweep: the copy read at its start, with the organization of its account.\<close>

definition sweep_one ::
  "time_ms \<Rightarrow> org_subscription \<times> string \<Rightarrow> nat \<times> sub_store \<Rightarrow> billing_error + (nat \<times> sub_store)" where
  "sweep_one now s st =
    (case dueTimedEvent (toSnapshot (fst s)) now of
       None \<Rightarrow> Inr st
     | Some due \<Rightarrow>
        (case apply_sub sweep_context (snd s) due now (snd st) of
           Inr (_, db) \<Rightarrow> Inr (fst st + 1, db)
         | Inl e \<Rightarrow> if is_app_exception e then Inr st else Inl e))"

definition live_rows :: "sub_store \<Rightarrow> (org_subscription \<times> string) list" where
  "live_rows db = map (\<lambda>r. (r, org_of_account db (os_accountId r))) (filter (\<lambda>r. os_currentKey r \<noteq> None) (sd_subs db))"

definition sweep :: "time_ms \<Rightarrow> sub_store \<Rightarrow> billing_error + (nat \<times> sub_store)" where
  "sweep now db = rfold (sweep_one now) (live_rows db) (0, db)"

section \<open>The invariant\<close>

definition row_ok :: "billing_account list \<Rightarrow> org_subscription \<Rightarrow> bool" where
  "row_ok accounts r \<longleftrightarrow> snapshot_ok (os_snapshot r) \<and>
    os_currentKey r = (if isTerminal (ss_status (os_snapshot r)) then None else Some (os_accountId r)) \<and>
    os_accountId r \<in> set (map ba_id accounts)"

definition rows_apart :: "org_subscription list \<Rightarrow> bool" where
  "rows_apart rs \<longleftrightarrow> sorted_wrt (\<lambda>r r'. \<not> rows_clash r r') rs"

definition store_ok :: "sub_store \<Rightarrow> bool" where
  "store_ok db \<longleftrightarrow> rows_apart (sd_subs db) \<and> list_all (row_ok (sd_accounts db)) (sd_subs db) \<and>
    distinct (map ba_id (sd_accounts db)) \<and> distinct (map ba_organizationId (sd_accounts db))"

lemma rows_clash_sym: "rows_clash r r' \<longleftrightarrow> rows_clash r' r"
  unfolding rows_clash_def clash_def by metis

lemma rows_distinct: "rows_apart rs \<Longrightarrow> distinct rs"
  by (induction rs) (auto simp: rows_apart_def rows_clash_def)

lemma filter_only: "distinct xs \<Longrightarrow> x \<in> set xs \<Longrightarrow> filter (\<lambda>y. y = x) xs = [x]"
  by (induction xs) (auto simp: filter_empty_conv)

lemma rows_apartD: "rows_apart rs \<Longrightarrow> r \<in> set rs \<Longrightarrow> r' \<in> set rs \<Longrightarrow> r \<noteq> r' \<Longrightarrow> \<not> rows_clash r r'"
  by (induction rs) (auto simp: rows_apart_def rows_clash_sym)

lemma same_id_same_row: "rows_apart rs \<Longrightarrow> r \<in> set rs \<Longrightarrow> r' \<in> set rs \<Longrightarrow> os_id r = os_id r' \<Longrightarrow> r = r'"
  by (induction rs) (auto simp: rows_apart_def rows_clash_def)

lemma same_key_same_row:
  "rows_apart rs \<Longrightarrow> r \<in> set rs \<Longrightarrow> r' \<in> set rs \<Longrightarrow> os_currentKey r = Some k \<Longrightarrow> os_currentKey r' = Some k \<Longrightarrow> r = r'"
  by (induction rs) (auto simp: rows_apart_def rows_clash_def clash_def)

lemma rows_apart_map:
  assumes "rows_apart rs" "c \<in> set rs" "\<And>r. r \<in> set rs \<Longrightarrow> r \<noteq> c \<Longrightarrow> \<not> rows_clash c' r"
  shows "rows_apart (map (\<lambda>r. if r = c then c' else r) rs)"
proof -
  have "\<not> rows_clash (if x = c then c' else x) (if y = c then c' else y)"
    if "\<not> rows_clash x y" "x \<in> set rs" "y \<in> set rs" for x y
    using that assms(3) rows_clash_sym by (auto simp: rows_clash_def)
  with assms(1) show ?thesis
    unfolding rows_apart_def sorted_wrt_map by (elim sorted_wrt_mono_rel [rotated]) blast
qed

lemma rows_apart_snoc: "rows_apart rs \<Longrightarrow> \<not> list_ex (rows_clash r) rs \<Longrightarrow> rows_apart (rs @ [r])"
  by (auto simp: rows_apart_def sorted_wrt_append list_ex_iff rows_clash_sym [of _ r])

text \<open>An update by identifier and version of a row that is there writes that row and no other.\<close>

lemma update_sub_row:
  assumes "rows_apart (sd_subs db)" "c \<in> set (sd_subs db)"
  shows "update_sub (os_id c) (os_version c) f db =
    (if \<exists>r \<in> set (sd_subs db). r \<noteq> c \<and> rows_clash (f c) r then Inl UniqueViolation
     else Inr (1, db\<lparr>sd_subs := map (\<lambda>r. if r = c then f c else r) (sd_subs db)\<rparr>))"
proof -
  have hit: "os_id r = os_id c \<and> os_version r = os_version c \<longleftrightarrow> r = c" if "r \<in> set (sd_subs db)" for r
    using that assms same_id_same_row by blast
  have one: "filter (\<lambda>r. os_id r = os_id c \<and> os_version r = os_version c) (sd_subs db) = [c]"
    using filter_only [OF rows_distinct [OF assms(1)] assms(2)] by (simp add: hit cong: filter_cong)
  show ?thesis
    unfolding update_sub_def Let_def one
    by (auto simp: list_ex_iff hit cong: map_cong)
qed

lemma ensure_Inr:
  assumes "store_ok db" "ensureBillingAccount i org db = Inr (account, db')"
  shows "store_ok db' \<and> account \<in> set (sd_accounts db') \<and> ba_organizationId account = org \<and> sd_subs db' = sd_subs db"
proof (cases "find (\<lambda>a. ba_organizationId a = org) (sd_accounts db)")
  case (Some a)
  with assms find_set [OF Some] show ?thesis by (auto simp: ensureBillingAccount_def)
next
  case None
  then have "org \<notin> set (map ba_organizationId (sd_accounts db))" by (auto simp: find_None_iff)
  with None assms show ?thesis
    by (auto simp: ensureBillingAccount_def store_ok_def list_all_iff row_ok_def Let_def split: option.splits if_splits)
qed

lemma ensure_existing:
  assumes "store_ok db" "account \<in> set (sd_accounts db)"
  shows "ensureBillingAccount i (ba_organizationId account) db = Inr (account, db)"
proof -
  have "find (\<lambda>a. ba_organizationId a = ba_organizationId account) (sd_accounts db) = Some account"
    using assms by (intro find_the) (auto simp: store_ok_def distinct_map inj_on_def)
  then show ?thesis by (simp add: ensureBillingAccount_def)
qed

lemma current_sub_Some: "current_sub a db = Some c \<Longrightarrow> c \<in> set (sd_subs db) \<and> os_currentKey c = Some a"
  unfolding current_sub_def by (drule find_set) simp

lemma current_subI:
  assumes "store_ok db" "r \<in> set (sd_subs db)" "os_currentKey r = Some a"
  shows "current_sub a db = Some r"
  unfolding current_sub_def using assms same_key_same_row [of "sd_subs db"]
  by (intro find_the) (auto simp: store_ok_def)

lemma current_snapshot:
  assumes "store_ok db" "map_option toSnapshot (current_sub a db) = Some s"
  shows "snapshot_ok s \<and> \<not> isTerminal (ss_status s)"
  using assms current_sub_Some [of a db]
  by (auto simp: store_ok_def list_all_iff row_ok_def toSnapshot_def split: if_splits)

text \<open>What a saved move does to the rows: one more row, or the current row moved.\<close>

lemma save_existing:
  fixes ctx :: apply_context
  assumes ok: "store_ok db" and c: "current_sub a db = Some c" and keeps: "\<not> tr_creates result"
  defines "row \<equiv> moved_row ctx a (tr_next result) c"
  defines "rows \<equiv> map (\<lambda>r. if r = c then row else r) (sd_subs db)"
  shows "if \<exists>r \<in> set (sd_subs db). r \<noteq> c \<and> rows_clash row r
    then save_move ctx a (current_sub a db) result db = Inl UniqueViolation
    else rows_apart rows \<and> save_move ctx a (current_sub a db) result db = Inr (row, db\<lparr>sd_subs := rows\<rparr>)"
proof -
  have apart: "rows_apart (sd_subs db)" using ok by (simp add: store_ok_def)
  note cur = current_sub_Some [OF c]
  have row: "row \<in> set rows" "os_id row = os_id c" using cur by (auto simp: rows_def row_def moved_row_def)
  have "rows_apart rows" "find (\<lambda>r. os_id r = os_id c) rows = Some row"
    if no: "\<not> (\<exists>r \<in> set (sd_subs db). r \<noteq> c \<and> rows_clash row r)"
  proof -
    show apart': "rows_apart rows" unfolding rows_def by (rule rows_apart_map [OF apart]) (use cur no in blast)+
    show "find (\<lambda>r. os_id r = os_id c) rows = Some row"
    proof (rule find_the)
      fix y assume "y \<in> set rows" "os_id y = os_id c"
      with row(2) show "y = row" by (intro same_id_same_row [OF apart' _ row(1)]) simp_all
    qed (fact row)+
  qed
  moreover have "update_sub (os_id c) (os_version c) (moved_row ctx a (tr_next result)) db =
    (if \<exists>r \<in> set (sd_subs db). r \<noteq> c \<and> rows_clash row r then Inl UniqueViolation else Inr (1, db\<lparr>sd_subs := rows\<rparr>))"
    unfolding rows_def row_def using cur by (simp add: update_sub_row [OF apart])
  ultimately show ?thesis using c keeps by (simp add: save_move_def Let_def)
qed

lemma live_keeps: "transition (Some s) e now = Inr r \<Longrightarrow> \<not> isTerminal (ss_status s) \<Longrightarrow> \<not> tr_creates r"
  by (cases e) (auto simp: accepted Let_def split: if_splits)

definition row_change ::
  "apply_context \<Rightarrow> string \<Rightarrow> org_subscription option \<Rightarrow> sub_snapshot \<Rightarrow> org_subscription \<Rightarrow> org_subscription list \<Rightarrow>
   org_subscription list \<Rightarrow> bool" where
  "row_change ctx a current next row rows rows' \<longleftrightarrow> (case current of
     None \<Rightarrow> row = new_row ctx a next \<and> rows' = rows @ [row]
   | Some c \<Rightarrow> row = moved_row ctx a next c \<and> rows' = map (\<lambda>r. if r = c then row else r) rows)"

lemma save_move_cases:
  assumes ok: "store_ok db" and a: "a \<in> set (map ba_id (sd_accounts db))"
    and tr: "transition (map_option toSnapshot (current_sub a db)) e now = Inr result"
  shows "save_move ctx a (current_sub a db) result db = Inl UniqueViolation \<or>
    (\<exists>row rows. save_move ctx a (current_sub a db) result db = Inr (row, db\<lparr>sd_subs := rows\<rparr>) \<and>
      rows_apart rows \<and> row_ok (sd_accounts db) row \<and> os_snapshot row = tr_next result \<and>
      row_change ctx a (current_sub a db) (tr_next result) row (sd_subs db) rows)"
proof (cases "current_sub a db")
  case None
  have ok': "snapshot_ok (tr_next result)" using tr None by (auto intro: transition_ok)
  have creates: "tr_creates result" using kept_live [OF tr] None by auto
  let ?row = "new_row ctx a (tr_next result)"
  have "row_ok (sd_accounts db) ?row" using ok' a by (simp add: row_ok_def new_row_def)
  moreover have "rows_apart (sd_subs db @ [?row])" if "\<not> list_ex (rows_clash ?row) (sd_subs db)"
    using rows_apart_snoc that ok by (simp add: store_ok_def)
  ultimately show ?thesis
    using None creates by (simp add: save_move_def create_sub_def Let_def row_change_def) (simp add: new_row_def)
next
  case (Some c)
  have snap: "snapshot_ok (os_snapshot c)" "\<not> isTerminal (ss_status (os_snapshot c))"
    using current_snapshot [OF ok, of a] Some by (auto simp: toSnapshot_def)
  have ok': "snapshot_ok (tr_next result)" using tr Some snap by (auto simp: toSnapshot_def intro: transition_ok)
  have keeps: "\<not> tr_creates result" using tr Some snap live_keeps by (simp add: toSnapshot_def)
  have "os_accountId c = a"
    using current_sub_Some [OF Some] ok by (auto simp: store_ok_def list_all_iff row_ok_def split: if_splits)
  then have "row_ok (sd_accounts db) (moved_row ctx a (tr_next result) c)"
    using ok' a by (simp add: row_ok_def moved_row_def)
  moreover have "os_snapshot (moved_row ctx a (tr_next result) c) = tr_next result" by (simp add: moved_row_def)
  ultimately show ?thesis
    using save_existing [OF ok Some keeps, of ctx] Some by (auto simp: row_change_def split: if_splits)
qed

lemma store_ok_subs:
  "store_ok db \<Longrightarrow> rows_apart rows \<Longrightarrow> list_all (row_ok (sd_accounts db)) rows \<Longrightarrow> store_ok (db\<lparr>sd_subs := rows\<rparr>)"
  by (simp add: store_ok_def)

lemma store_ok_log [simp]:
  "store_ok (db\<lparr>sd_audit := x\<rparr>) \<longleftrightarrow> store_ok db" "store_ok (db\<lparr>sd_changed := y\<rparr>) \<longleftrightarrow> store_ok db"
  by (simp_all add: store_ok_def)

lemma row_change_rows:
  assumes "row_change ctx a current next row rows rows'"
  shows "set rows' \<subseteq> insert row (set rows)" "(\<And>c. current = Some c \<Longrightarrow> c \<in> set rows) \<Longrightarrow> row \<in> set rows'"
  using assms by (auto simp: row_change_def split: option.splits)

lemma applyInTx_cases:
  assumes ok: "store_ok db"
  shows "case applyInTx ctx org e now db of
      Inr (row, entry, db') \<Rightarrow> store_ok db' \<and> row \<in> set (sd_subs db') \<and>
        (\<exists>account db1 result. ensureBillingAccount (ac_newAccountId ctx) org db = Inr (account, db1) \<and>
          transition (map_option toSnapshot (current_sub (ba_id account) db)) e now = Inr result \<and>
          os_snapshot row = tr_next result)
    | Inl err \<Rightarrow> err \<notin> {AlreadyCurrent, ChangedMeanwhile}"
proof (cases "ensureBillingAccount (ac_newAccountId ctx) org db")
  case (Inl err)
  then show ?thesis by (auto simp: applyInTx_def ensureBillingAccount_def Let_def split: option.splits if_splits)
next
  case (Inr p)
  obtain account db1 where p: "p = (account, db1)" by force
  note ens = ensure_Inr [OF ok Inr [unfolded p]]
  have cur: "current_sub (ba_id account) db = current_sub (ba_id account) db1" using ens by (simp add: current_sub_def)
  show ?thesis
  proof (cases "transition (map_option toSnapshot (current_sub (ba_id account) db1)) e now")
    case (Inl err)
    with Inr p show ?thesis by (simp add: applyInTx_def)
  next
    case tr: (Inr result)
    have a: "ba_id account \<in> set (map ba_id (sd_accounts db1))" using ens by auto
    have ok1: "list_all (row_ok (sd_accounts db1)) (sd_subs db1)" using conjunct1 [OF ens] unfolding store_ok_def by blast
    from save_move_cases [OF conjunct1 [OF ens] a tr, of ctx] show ?thesis
    proof (elim disjE exE conjE)
      fix row rows
      assume sv: "save_move ctx (ba_id account) (current_sub (ba_id account) db1) result db1 = Inr (row, db1\<lparr>sd_subs := rows\<rparr>)"
        and r: "rows_apart rows" "row_ok (sd_accounts db1) row" "os_snapshot row = tr_next result"
        and ch: "row_change ctx (ba_id account) (current_sub (ba_id account) db1) (tr_next result) row (sd_subs db1) rows"
      from row_change_rows [OF ch] ok1 r(2) have rows: "list_all (row_ok (sd_accounts db1)) rows" "row \<in> set rows"
        using current_sub_Some [of "ba_id account" db1] by (auto simp: list_all_iff)
      have "store_ok (db1\<lparr>sd_subs := rows\<rparr>)" using ens r(1) rows(1) by (intro store_ok_subs) auto
      with sv Inr p tr cur rows(2) r(3) show ?thesis by (auto simp: applyInTx_def Let_def)
    qed (use Inr p tr in \<open>simp add: applyInTx_def Let_def\<close>)
  qed
qed

lemma apply_sub_ok: "store_ok db \<Longrightarrow> apply_sub ctx org e now db = Inr (row, db') \<Longrightarrow> store_ok db'"
  using applyInTx_cases [of db ctx org e now] by (auto simp: apply_sub_def rbind_Inr_iff)

lemma apply_sub_error: "store_ok db \<Longrightarrow> apply_sub ctx org e now db = Inl err \<Longrightarrow> err \<notin> {AlreadyCurrent, ChangedMeanwhile}"
  using applyInTx_cases [of db ctx org e now] by (auto simp: apply_sub_def rbind_Inl_iff split: prod.splits)

lemma sweep_rows_ok: "store_ok (snd st) \<Longrightarrow> rfold (sweep_one now) ps st = Inr st' \<Longrightarrow> store_ok (snd st')"
proof (induction ps arbitrary: st)
  case (Cons p ps)
  then obtain st1 where st1: "sweep_one now p st = Inr st1" "rfold (sweep_one now) ps st1 = Inr st'"
    by (auto simp: rbind_Inr_iff)
  have "store_ok (snd st1)"
    using st1(1) Cons.prems(1) apply_sub_ok
    by (auto simp: sweep_one_def split: option.splits sum.splits if_splits)
  with Cons.IH st1(2) show ?case by blast
qed simp

text \<open>Every operation on the stored subscriptions, in any order.\<close>

inductive store_step :: "sub_store \<Rightarrow> sub_store \<Rightarrow> bool" where
  applied: "apply_sub ctx org e now db = Inr (row, db') \<Longrightarrow> store_step db db'"
| trial: "grantTrial ids org code days reason actor now db = Inr (row, db') \<Longrightarrow> store_step db db'"
| complimentary: "grantComplimentary ids org code ends reason actor now db = Inr (row, db') \<Longrightarrow> store_step db db'"
| revoked: "endGrant ids org reason actor now db = Inr (row, db') \<Longrightarrow> store_step db db'"
| swept: "sweep now db = Inr (n, db') \<Longrightarrow> store_step db db'"

inductive_cases store_stepE: "store_step db db'"

lemma store_step_ok: "store_step db db' \<Longrightarrow> store_ok db \<Longrightarrow> store_ok db'"
proof (induction rule: store_step.induct)
  case (swept now db n db')
  then show ?case using sweep_rows_ok [of "(0, db)" now "live_rows db" "(n, db')"] by (simp add: sweep_def)
qed (auto simp: grantTrial_def grantComplimentary_def endGrant_def rbind_Inr_iff split: if_splits intro: apply_sub_ok)

lemma store_run_ok: "store_step\<^sup>*\<^sup>* db db' \<Longrightarrow> store_ok db \<Longrightarrow> store_ok db'"
  by (induction rule: rtranclp_induct) (auto intro: store_step_ok)

lemma live_row_unique:
  assumes "store_ok db"
  shows "length (filter (\<lambda>r. os_accountId r = a \<and> \<not> isTerminal (ss_status (os_snapshot r))) (sd_subs db)) \<le> 1"
proof -
  let ?live = "\<lambda>r. os_accountId r = a \<and> \<not> isTerminal (ss_status (os_snapshot r))"
  have "x = y" if "x \<in> set (filter ?live (sd_subs db))" "y \<in> set (filter ?live (sd_subs db))" for x y
    using that assms same_key_same_row [of "sd_subs db" x y a] by (auto simp: store_ok_def list_all_iff row_ok_def)
  moreover have "distinct (filter ?live (sd_subs db))" using assms rows_distinct by (auto simp: store_ok_def)
  ultimately show ?thesis
    using card_le_Suc0_iff_eq [of "set (filter ?live (sd_subs db))"] distinct_card by fastforce
qed

text \<open>
  Whatever operations run in whatever order (moves from the provider, staff grants and their end, sweeps of
  the clock), an organization has at most one live subscription, a row is current exactly while it is live,
  every stored snapshot is well formed, and neither conflict that the code guards against (a second current
  subscription, a row changed under the account's lock) can occur in the next operation.
\<close>

lemma one_live_subscription:
  assumes "store_step\<^sup>*\<^sup>* db db'" "store_ok db"
  shows "length (filter (\<lambda>r. os_accountId r = a \<and> \<not> isTerminal (ss_status (os_snapshot r))) (sd_subs db')) \<le> 1 \<and>
    (\<forall>r \<in> set (sd_subs db'). snapshot_ok (os_snapshot r) \<and>
      (os_currentKey r \<noteq> None \<longleftrightarrow> \<not> isTerminal (ss_status (os_snapshot r)))) \<and>
    (\<forall>err. apply_sub ctx org e now db' = Inl err \<longrightarrow> err \<notin> {AlreadyCurrent, ChangedMeanwhile})"
proof -
  have ok: "store_ok db'" by (rule store_run_ok [OF assms])
  have "snapshot_ok (os_snapshot r) \<and> (os_currentKey r \<noteq> None \<longleftrightarrow> \<not> isTerminal (ss_status (os_snapshot r)))"
    if "r \<in> set (sd_subs db')" for r
    using ok that by (auto simp: store_ok_def list_all_iff row_ok_def)
  with live_row_unique [OF ok] apply_sub_error [OF ok] show ?thesis by blast
qed

text \<open>What an applied event does to the rows, and what it leaves alone.\<close>

lemma apply_sub_rows:
  assumes ok: "store_ok db" and app: "apply_sub ctx org e now db = Inr (row, db')"
  shows "\<exists>account db1 result. ensureBillingAccount (ac_newAccountId ctx) org db = Inr (account, db1) \<and>
    sd_accounts db' = sd_accounts db1 \<and>
    transition (map_option toSnapshot (current_sub (ba_id account) db)) e now = Inr result \<and> os_snapshot row = tr_next result \<and>
    row_change ctx (ba_id account) (current_sub (ba_id account) db) (tr_next result) row (sd_subs db) (sd_subs db')"
proof -
  from app obtain entry db2 where tx: "applyInTx ctx org e now db = Inr (row, entry, db2)"
    and db': "sd_subs db' = sd_subs db2" "sd_accounts db' = sd_accounts db2"
    by (auto simp: apply_sub_def rbind_Inr_iff)
  from tx obtain account db1 where ens: "ensureBillingAccount (ac_newAccountId ctx) org db = Inr (account, db1)"
    unfolding applyInTx_def rbind_Inr_iff by auto
  obtain result where tr: "transition (map_option toSnapshot (current_sub (ba_id account) db1)) e now = Inr result"
    using tx ens by (cases "transition (map_option toSnapshot (current_sub (ba_id account) db1)) e now") (auto simp: applyInTx_def)
  have sv: "\<exists>db3. save_move ctx (ba_id account) (current_sub (ba_id account) db1) result db1 = Inr (row, db3) \<and>
      sd_subs db' = sd_subs db3 \<and> sd_accounts db' = sd_accounts db3"
    using tx ens tr db' by (auto simp: applyInTx_def Let_def rbind_Inr_iff)
  note ens' = ensure_Inr [OF ok ens]
  have cur: "current_sub (ba_id account) db1 = current_sub (ba_id account) db" using ens' by (simp add: current_sub_def)
  have "ba_id account \<in> set (map ba_id (sd_accounts db1))" using ens' by auto
  from save_move_cases [OF conjunct1 [OF ens'] this tr, of ctx] sv have
    "os_snapshot row = tr_next result" "sd_accounts db' = sd_accounts db1"
    "row_change ctx (ba_id account) (current_sub (ba_id account) db1) (tr_next result) row (sd_subs db1) (sd_subs db')"
    by auto
  with ens tr cur ens' show ?thesis by metis
qed

lemma account_of_org:
  assumes "store_ok db" "account \<in> set (sd_accounts db)" "ba_organizationId account = org"
    and "ensureBillingAccount i org db = Inr (account', db1)"
  shows "account' = account \<and> db1 = db"
  using assms ensure_existing [OF assms(1,2), of i] by simp

text \<open>Only the live row of the organization's own account is touched, and nothing that has ended.\<close>

definition confined_to :: "string \<Rightarrow> sub_store \<Rightarrow> sub_store \<Rightarrow> bool" where
  "confined_to a db db' \<longleftrightarrow>
    filter (\<lambda>r. os_accountId r \<noteq> a) (sd_subs db') = filter (\<lambda>r. os_accountId r \<noteq> a) (sd_subs db) \<and>
    (\<forall>r \<in> set (sd_subs db). isTerminal (ss_status (os_snapshot r)) \<longrightarrow> r \<in> set (sd_subs db')) \<and>
    sd_accounts db' = sd_accounts db"

lemma confined_refl [simp]: "confined_to a db db"
  by (simp add: confined_to_def)

lemma confined_trans: "confined_to a x y \<Longrightarrow> confined_to a y z \<Longrightarrow> confined_to a x z"
  by (auto simp: confined_to_def)

lemma filter_map_if: "\<not> P c \<Longrightarrow> \<not> P c' \<Longrightarrow> filter P (map (\<lambda>r. if r = c then c' else r) rs) = filter P rs"
  by (induction rs) auto

lemma apply_sub_confined:
  assumes ok: "store_ok db" and acc: "account \<in> set (sd_accounts db)"
    and app: "apply_sub ctx (ba_organizationId account) e now db = Inr (row, db')"
  shows "confined_to (ba_id account) db db'"
proof -
  from apply_sub_rows [OF ok app] obtain account' db1 and result :: transition_result where
    ens: "ensureBillingAccount (ac_newAccountId ctx) (ba_organizationId account) db = Inr (account', db1)" and
    accs': "sd_accounts db' = sd_accounts db1" and
    rows': "row_change ctx (ba_id account') (current_sub (ba_id account') db) (tr_next result) row (sd_subs db) (sd_subs db')"
    by blast
  from account_of_org [OF ok acc refl ens] accs' rows' have accs: "sd_accounts db' = sd_accounts db" and
    rows: "row_change ctx (ba_id account) (current_sub (ba_id account) db) (tr_next result) row (sd_subs db) (sd_subs db')"
    by simp_all
  show ?thesis
  proof (cases "current_sub (ba_id account) db")
    case None
    with rows accs show ?thesis by (simp add: confined_to_def row_change_def new_row_def)
  next
    case (Some c)
    have c: "os_accountId c = ba_id account" "\<not> isTerminal (ss_status (os_snapshot c))"
      using current_sub_Some [OF Some] ok by (auto simp: store_ok_def list_all_iff row_ok_def split: if_splits)
    from Some rows have row: "os_accountId row = os_accountId c"
      and rows': "sd_subs db' = map (\<lambda>r. if r = c then row else r) (sd_subs db)"
      by (simp_all add: row_change_def moved_row_def)
    have "filter (\<lambda>r. os_accountId r \<noteq> ba_id account) (sd_subs db') = filter (\<lambda>r. os_accountId r \<noteq> ba_id account) (sd_subs db)"
      unfolding rows' by (rule filter_map_if) (simp_all add: row c)
    moreover have "r \<in> set (sd_subs db')" if "r \<in> set (sd_subs db)" "isTerminal (ss_status (os_snapshot r))" for r
    proof -
      from that c(2) have "r \<noteq> c" by blast
      with that(1) show ?thesis unfolding rows' by force
    qed
    ultimately show ?thesis using accs by (simp add: confined_to_def)
  qed
qed

text \<open>An accepted event of a live row, without a new provider reference, always goes through and moves that row only.\<close>

lemma apply_existing:
  fixes ctx :: apply_context
  assumes ok: "store_ok db" and r: "r \<in> set (sd_subs db)" "os_currentKey r \<noteq> None"
    and org: "account \<in> set (sd_accounts db)" "ba_id account = os_accountId r"
    and tr: "transition (Some (os_snapshot r)) e now = Inr result" and ref: "\<not> truthy (ac_providerSubscriptionRef ctx)"
  defines "row \<equiv> moved_row ctx (os_accountId r) (tr_next result) r"
  shows "\<exists>audit changed. apply_sub ctx (ba_organizationId account) e now db =
    Inr (row, db\<lparr>sd_subs := map (\<lambda>x. if x = r then row else x) (sd_subs db), sd_audit := audit, sd_changed := changed\<rparr>)"
proof -
  have key: "os_currentKey r = Some (os_accountId r)" and live: "\<not> isTerminal (ss_status (os_snapshot r))"
    and apart: "rows_apart (sd_subs db)"
    using ok r by (auto simp: store_ok_def list_all_iff row_ok_def split: if_splits)
  have cur: "current_sub (os_accountId r) db = Some r" by (rule current_subI [OF ok r(1) key])
  have "\<not> rows_clash row x" if "x \<in> set (sd_subs db)" "x \<noteq> r" for x
  proof -
    have "\<not> rows_clash r x" by (rule rows_apartD [OF apart r(1) that(1)]) (use that in simp)
    then show ?thesis using key ref by (auto simp: rows_clash_def row_def moved_row_def clash_def)
  qed
  with save_existing [OF ok cur live_keeps [OF tr live], of ctx]
  have "save_move ctx (os_accountId r) (Some r) result db =
      Inr (row, db\<lparr>sd_subs := map (\<lambda>x. if x = r then row else x) (sd_subs db)\<rparr>)"
    using cur unfolding row_def by (auto split: if_splits)
  then show ?thesis
    using ensure_existing [OF ok org(1)] cur tr org(2)
    by (auto simp: apply_sub_def applyInTx_def Let_def toSnapshot_def)
qed

section \<open>The sweep is the clock on every row\<close>

definition due_row :: "time_ms \<Rightarrow> org_subscription \<Rightarrow> bool" where
  "due_row now r \<longleftrightarrow> os_currentKey r \<noteq> None \<and> dueTimedEvent (os_snapshot r) now \<noteq> None"

text \<open>The row after its due move, written without the store.\<close>

definition settled_row :: "time_ms \<Rightarrow> org_subscription \<Rightarrow> org_subscription" where
  "settled_row now r =
    (if due_row now r then
       (let s = os_snapshot r; st = (if ss_status s = ACTIVE then CANCELLED else EXPIRED) in
        r\<lparr>os_snapshot := s\<lparr>ss_status := st, ss_endedAt := Some now,
             ss_cancelledAt := (if st = CANCELLED then Some now else ss_cancelledAt s), ss_scheduledPlanId := None\<rparr>,
          os_currentKey := None, os_version := os_version r + 1\<rparr>)
     else r)"

lemma due_transition:
  assumes "dueTimedEvent s now = Some e"
  shows "transition (Some s) e now = end_sub (if ss_status s = ACTIVE then CANCELLED else EXPIRED) now s"
  using assms unfolding dueTimedEvent_def by (auto simp: when_in_def notBefore_def split: if_splits)

lemma sweep_moves:
  assumes ok: "store_ok db" and r: "r \<in> set (sd_subs db)" "os_currentKey r \<noteq> None"
    and due: "dueTimedEvent (os_snapshot r) now = Some e"
    and org: "account \<in> set (sd_accounts db)" "ba_id account = os_accountId r"
  shows "\<exists>row audit changed. apply_sub sweep_context (ba_organizationId account) e now db =
    Inr (row, db\<lparr>sd_subs := map (\<lambda>x. if x = r then settled_row now r else x) (sd_subs db), sd_audit := audit, sd_changed := changed\<rparr>)"
proof -
  obtain result where res: "transition (Some (os_snapshot r)) e now = Inr result"
    and row: "moved_row sweep_context (os_accountId r) (tr_next result) r = settled_row now r"
    using due due_transition [OF due] r(2)
    by (auto simp: end_sub_def keep_sub_def moved_row_def settled_row_def due_row_def sweep_context_def truthy_def Let_def
      split: if_splits)
  have "\<not> truthy (ac_providerSubscriptionRef sweep_context)" by (simp add: sweep_context_def truthy_def)
  from apply_existing [OF ok r org res this] show ?thesis unfolding row by blast
qed

lemma settled_row_ended: "due_row now r \<Longrightarrow> os_currentKey (settled_row now r) = None"
  by (simp add: settled_row_def Let_def)

lemma settled_not_due: "\<not> due_row now (settled_row now r)"
  using settled_row_ended by (cases "due_row now r") (auto simp: due_row_def settled_row_def)

lemma sweep_fold:
  assumes "store_ok db" "\<And>r. r \<in> set L \<Longrightarrow> r \<in> set (sd_subs db) \<and> os_currentKey r \<noteq> None" "distinct L"
    and "\<And>r. r \<in> set L \<Longrightarrow> \<exists>account \<in> set (sd_accounts db). ba_id account = os_accountId r \<and> ba_organizationId account = org r"
  shows "\<exists>db'. rfold (sweep_one now) (map (\<lambda>r. (r, org r)) L) (n, db) = Inr (n + length (filter (due_row now) L), db') \<and>
    sd_subs db' = map (\<lambda>r. if r \<in> set L then settled_row now r else r) (sd_subs db)"
  using assms
proof (induction L arbitrary: n db)
  case (Cons r L)
  have r: "r \<in> set (sd_subs db)" "os_currentKey r \<noteq> None" "r \<notin> set L" using Cons.prems(2,3) by auto
  show ?case
  proof (cases "dueTimedEvent (os_snapshot r) now")
    case None
    then have "sweep_one now (r, org r) (n, db) = Inr (n, db)" "\<not> due_row now r" "settled_row now r = r"
      by (simp_all add: sweep_one_def toSnapshot_def due_row_def settled_row_def)
    moreover obtain db' where
      "rfold (sweep_one now) (map (\<lambda>r. (r, org r)) L) (n, db) = Inr (n + length (filter (due_row now) L), db')"
      "sd_subs db' = map (\<lambda>r. if r \<in> set L then settled_row now r else r) (sd_subs db)"
      using Cons.IH [of db n] Cons.prems by fastforce
    ultimately show ?thesis by (auto cong: map_cong)
  next
    case (Some e)
    then have due: "due_row now r" using r by (simp add: due_row_def)
    obtain account where acc: "account \<in> set (sd_accounts db)" "ba_id account = os_accountId r" "ba_organizationId account = org r"
      using Cons.prems(4) [of r] by auto
    obtain row audit changed where app: "apply_sub sweep_context (org r) e now db = Inr (row, db\<lparr>sd_subs :=
        map (\<lambda>x. if x = r then settled_row now r else x) (sd_subs db), sd_audit := audit, sd_changed := changed\<rparr>)"
      (is "_ = Inr (row, ?db1)")
      using sweep_moves [OF Cons.prems(1) r(1,2) Some acc(1,2)] acc(3) by auto
    have one: "sweep_one now (r, org r) (n, db) = Inr (n + 1, ?db1)" using Some app by (simp add: sweep_one_def toSnapshot_def)
    have "\<exists>db'. rfold (sweep_one now) (map (\<lambda>r. (r, org r)) L) (n + 1, ?db1) = Inr (n + 1 + length (filter (due_row now) L), db') \<and>
      sd_subs db' = map (\<lambda>r. if r \<in> set L then settled_row now r else r) (sd_subs ?db1)"
    proof (rule Cons.IH)
      show "store_ok ?db1" by (rule apply_sub_ok [OF Cons.prems(1) app])
      show "x \<in> set (sd_subs ?db1) \<and> os_currentKey x \<noteq> None" if "x \<in> set L" for x
        using Cons.prems(2) [of x] that r(3) by auto
      show "distinct L" using Cons.prems(3) by simp
      show "\<exists>account \<in> set (sd_accounts ?db1). ba_id account = os_accountId x \<and> ba_organizationId account = org x"
        if "x \<in> set L" for x using Cons.prems(4) [of x] that by simp
    qed
    moreover have "settled_row now r \<notin> set L"
      using Cons.prems(2) [of "settled_row now r"] settled_row_ended [OF due] by auto
    ultimately show ?thesis using one due r(3) by (auto simp: comp_def cong: map_cong)
  qed
qed simp

lemma org_of_account:
  assumes "store_ok db" "account \<in> set (sd_accounts db)"
  shows "org_of_account db (ba_id account) = ba_organizationId account"
proof -
  have "find (\<lambda>a. ba_id a = ba_id account) (sd_accounts db) = Some account"
    using assms by (intro find_the) (auto simp: store_ok_def distinct_map inj_on_def)
  then show ?thesis by (simp add: org_of_account_def)
qed

text \<open>
  C21.  The sweep of the clock, which applies one transaction after the other and skips what fails, always
  finishes, ends exactly the rows that are due at its start as if all were ended at once, counts them, and
  leaves nothing due.
\<close>

theorem sweep_settles_all:
  assumes "store_ok db"
  shows "\<exists>db'. sweep now db = Inr (length (filter (due_row now) (sd_subs db)), db') \<and>
    sd_subs db' = map (settled_row now) (sd_subs db) \<and> (\<forall>r \<in> set (sd_subs db'). \<not> due_row now r)"
proof -
  let ?live = "filter (\<lambda>r. os_currentKey r \<noteq> None) (sd_subs db)"
  let ?org = "\<lambda>r. org_of_account db (os_accountId r)"
  have live: "\<exists>account \<in> set (sd_accounts db). ba_id account = os_accountId r \<and> ba_organizationId account = ?org r"
    if "r \<in> set ?live" for r
  proof -
    have "os_accountId r \<in> ba_id ` set (sd_accounts db)"
      using assms that by (simp add: store_ok_def list_all_iff row_ok_def)
    then obtain account where "account \<in> set (sd_accounts db)" "ba_id account = os_accountId r" by auto
    with org_of_account [OF assms] show ?thesis by metis
  qed
  have dist: "distinct ?live" using assms rows_distinct by (simp add: store_ok_def)
  obtain db' where db': "sweep now db = Inr (length (filter (due_row now) ?live), db')"
      "sd_subs db' = map (\<lambda>r. if r \<in> set ?live then settled_row now r else r) (sd_subs db)"
    using sweep_fold [OF assms _ dist live, of now 0] by (auto simp: sweep_def live_rows_def)
  have "sd_subs db' = map (settled_row now) (sd_subs db)"
    unfolding db'(2) by (auto simp: settled_row_def due_row_def)
  moreover have "filter (due_row now) ?live = filter (due_row now) (sd_subs db)"
    by (auto simp: due_row_def intro: filter_cong)
  ultimately show ?thesis using db'(1) settled_not_due by auto
qed

section \<open>Witnesses\<close>

definition ex_store :: sub_store where
  "ex_store = \<lparr>sd_orgs = [\<lparr>bo_id = ''org'', bo_registeredCountry = Some ''India'', bo_financeContactEmail = None, bo_contactEmail = None\<rparr>],
     sd_plans = [\<lparr>bp_id = ''pro'', bp_code = PRO, bp_name = ''Pro'', bp_active = True\<rparr>],
     sd_accounts = [\<lparr>ba_id = ''acc'', ba_organizationId = ''org'', ba_country = ''IN'', ba_currency = ''INR'', ba_provider = NONE,
        ba_providerCustomerRef = None, ba_taxId = None, ba_billingEmail = None, ba_disputedAt = None, ba_disputeRef = None\<rparr>],
     sd_subs = [], sd_audit = [], sd_changed = []\<rparr>"

lemma ex_store_ok: "store_ok ex_store"
  by (simp add: store_ok_def ex_store_def rows_apart_def)

lemma ex_trial_granted: "\<exists>row db'. grantTrial (''a2'', ''sub'') ''org'' PRO 14 ''demo'' ''staff'' 0 ex_store = Inr (row, db') \<and>
    length (sd_subs db') = 1 \<and> due_row (20 * DAY) (hd (sd_subs db'))"
  by (simp add: grantTrial_def planByCode_def ex_store_def apply_sub_def applyInTx_def ensureBillingAccount_def current_sub_def
    startable_def save_move_def Let_def create_sub_def new_row_def staff_context_def DAY_def fresh_sub_def due_row_def
    dueTimedEvent_def)

lemma one_live_subscription_witness:
  "\<exists>row db'. grantTrial (''a2'', ''sub'') ''org'' PRO 14 ''demo'' ''staff'' 0 ex_store = Inr (row, db') \<and>
    length (filter (\<lambda>r. os_accountId r = ''acc'' \<and> \<not> isTerminal (ss_status (os_snapshot r))) (sd_subs db')) \<le> 1"
  using ex_trial_granted one_live_subscription [OF r_into_rtranclp [of store_step, OF store_step.trial] ex_store_ok, of _ _ _ _ _ _ _ _ _ "''acc''"]
  by blast

theorem sweep_settles_all_witness:
  "\<exists>row db db'. grantTrial (''a2'', ''sub'') ''org'' PRO 14 ''demo'' ''staff'' 0 ex_store = Inr (row, db) \<and>
    sweep (20 * DAY) db = Inr (1, db') \<and> (\<forall>r \<in> set (sd_subs db'). \<not> due_row (20 * DAY) r)"
proof -
  obtain row db where g: "grantTrial (''a2'', ''sub'') ''org'' PRO 14 ''demo'' ''staff'' 0 ex_store = Inr (row, db)"
    "length (sd_subs db) = 1" "due_row (20 * DAY) (hd (sd_subs db))"
    using ex_trial_granted by blast
  then have "length (filter (due_row (20 * DAY)) (sd_subs db)) = 1" by (cases "sd_subs db") auto
  with g(1) sweep_settles_all [OF store_step_ok [OF store_step.trial [OF g(1)] ex_store_ok], of "20 * DAY"] show ?thesis by metis
qed

end
