(* ===== verification/InvoiceNumber.thy ===== *)
theory InvoiceNumber
  imports Prelude
begin

text \<open>
  Numbers of the platform's invoices: \<^verbatim>\<open>billing/invoice-number.ts\<close>, with the dates of ECMAScript it reads (the year
  and month of a time value in UTC) and the counter \<^verbatim>\<open>etg_next_reference_value\<close> as a map from scopes to the last
  value taken.

  Shown here: the calendar is that of the language standard, and the numbers issued from empty counters are
  gapless in every series and distinct from one another within a century, Indian ones having 16 characters.
\<close>

section \<open>Dates\<close>

definition MS_PER_DAY :: time_ms where
  "MS_PER_DAY = 86400000"

text \<open>\<^verbatim>\<open>DayFromYear\<close> of the standard: the day number of the first of January.\<close>

definition day_from_year :: "int \<Rightarrow> int" where
  "day_from_year y = 365 * (y - 1970) + (y - 1969) div 4 - (y - 1901) div 100 + (y - 1601) div 400"

definition leap_year :: "int \<Rightarrow> bool" where
  "leap_year y \<longleftrightarrow> y mod 4 = 0 \<and> (y mod 100 \<noteq> 0 \<or> y mod 400 = 0)"

text \<open>The year of a day number: the mean length of a year gives it up to one.\<close>

definition year_from_day :: "int \<Rightarrow> int" where
  "year_from_day d =
    (let y = (400 * d) div 146097 + 1970 in
     if d < day_from_year y then y - 1 else if day_from_year (y + 1) \<le> d then y + 1 else y)"

definition getUTCFullYear :: "time_ms \<Rightarrow> int" where
  "getUTCFullYear t = year_from_day (t div MS_PER_DAY)"

definition month_ends :: "bool \<Rightarrow> int list" where
  "month_ends leap = (let l = (if leap then 1 else 0) in
    [31, 59 + l, 90 + l, 120 + l, 151 + l, 181 + l, 212 + l, 243 + l, 273 + l, 304 + l, 334 + l])"

definition getUTCMonth :: "time_ms \<Rightarrow> int" where
  "getUTCMonth t =
    (let d = t div MS_PER_DAY; y = year_from_day d; day = d - day_from_year y in
     int (length (filter (\<lambda>e. e \<le> day) (month_ends (leap_year y)))))"

section \<open>Series and numbers\<close>

definition IST_OFFSET_MS :: time_ms where
  "IST_OFFSET_MS = (5 * 60 + 30) * 60 * 1000"

definition indianFinancialYearStart :: "time_ms \<Rightarrow> int" where
  "indianFinancialYearStart t =
    (let ist = t + IST_OFFSET_MS; year = getUTCFullYear ist in if 3 \<le> getUTCMonth ist then year else year - 1)"

text \<open>\<^verbatim>\<open>s.padStart(n, '0')\<close>\<close>

definition padStart0 :: "nat \<Rightarrow> string \<Rightarrow> string" where
  "padStart0 n s = replicate (n - length s) (CHR ''0'') @ s"

text \<open>JavaScript's \<^verbatim>\<open>%\<close> takes the sign of the dividend; the years that occur are positive.\<close>

definition js_mod :: "int \<Rightarrow> int \<Rightarrow> int" where
  "js_mod a b = (if a < 0 then - ((- a) mod b) else a mod b)"

definition two_digits :: "int \<Rightarrow> string" where
  "two_digits y = padStart0 2 (show_int (js_mod y 100))"

definition pad_seq :: "nat \<Rightarrow> string" where
  "pad_seq seq = padStart0 6 (decimal seq)"

definition series_country :: "string \<Rightarrow> string" where
  "series_country country =
    (if length country = 2 \<and> list_all (\<lambda>c. upper_char c \<noteq> c \<or> lower_char c \<noteq> c) country then upper country else ''XX'')"

text \<open>\<^verbatim>\<open>InvoiceSeries\<close>: the counter's scope and the part of a number before its sequence.\<close>

record invoice_series =
  is_scope :: string
  is_prefix :: string

definition invoiceSeries :: "string \<Rightarrow> time_ms \<Rightarrow> invoice_series" where
  "invoiceSeries country issuedAt =
    (let cc = series_country country in
     if cc = ''IN'' then
       (let start = indianFinancialYearStart issuedAt; endShort = two_digits (start + 1) in
        \<lparr>is_scope = ''BIL-IN-FY'' @ show_int start @ ''-'' @ endShort,
         is_prefix = ''ETGB-'' @ two_digits start @ endShort @ ''-''\<rparr>)
     else
       (let year = show_int (getUTCFullYear issuedAt) in
        \<lparr>is_scope = ''BIL-'' @ cc @ ''-'' @ year, is_prefix = ''ETG-BIL-'' @ cc @ ''-'' @ year @ ''-''\<rparr>))"

type_synonym counters = "string \<Rightarrow> nat"

text \<open>\<^verbatim>\<open>etg_next_reference_value\<close>: one upsert of the scope's row; it starts at one.\<close>

definition next_reference_value :: "string \<Rightarrow> counters \<Rightarrow> nat \<times> counters" where
  "next_reference_value scope c = (c scope + 1, c(scope := c scope + 1))"

definition assignInvoiceNumber :: "time_ms \<Rightarrow> string \<Rightarrow> counters \<Rightarrow> string \<times> counters" where
  "assignInvoiceNumber issuedAt country c =
    (let series = invoiceSeries country issuedAt; (seq, c) = next_reference_value (is_scope series) c in
     (is_prefix series @ pad_seq seq, c))"

section \<open>The calendar\<close>

lemma div_bounds:
  fixes a b :: int
  assumes "0 < b"
  shows "b * (a div b) \<le> a" "a < b * (a div b) + b"
proof -
  have "b * (a div b) + a mod b = a" by simp
  with pos_mod_sign [OF assms, of a] pos_mod_bound [OF assms, of a]
  show "b * (a div b) \<le> a" "a < b * (a div b) + b" by linarith+
qed

lemma day_from_year_bounds:
  "146097 * (y - 1970) - 600 \<le> 400 * day_from_year y" "400 * day_from_year y \<le> 146097 * (y - 1970) + 900"
proof -
  have "4 * ((y - 1969) div 4) \<le> y - 1969" "y - 1969 < 4 * ((y - 1969) div 4) + 4"
    "100 * ((y - 1901) div 100) \<le> y - 1901" "y - 1901 < 100 * ((y - 1901) div 100) + 100"
    "400 * ((y - 1601) div 400) \<le> y - 1601" "y - 1601 < 400 * ((y - 1601) div 400) + 400"
    by (rule div_bounds, simp)+
  then show "146097 * (y - 1970) - 600 \<le> 400 * day_from_year y" "400 * day_from_year y \<le> 146097 * (y - 1970) + 900"
    unfolding day_from_year_def right_diff_distrib distrib_left by linarith+
qed

lemma year_from_day_correct: "day_from_year (year_from_day d) \<le> d \<and> d < day_from_year (year_from_day d + 1)"
proof -
  define y where "y = (400 * d) div 146097 + 1970"
  have y: "146097 * (y - 1970) \<le> 400 * d" "400 * d < 146097 * (y - 1970) + 146097"
    using div_bounds [of 146097 "400 * d"] by (simp_all add: y_def)
  have "day_from_year (y - 1) \<le> d" using day_from_year_bounds [of "y - 1"] y unfolding right_diff_distrib distrib_left by linarith
  moreover have "d < day_from_year (y + 2)" using day_from_year_bounds [of "y + 2"] y unfolding right_diff_distrib distrib_left by linarith
  ultimately show ?thesis
    unfolding year_from_day_def y_def [symmetric] Let_def by (auto simp: add.assoc)
qed

section \<open>Decimal numerals\<close>

declare decimal.simps [simp del]

lemma decimal_chars: "c \<in> set (decimal n) \<Longrightarrow> c \<noteq> CHR ''-''"
proof (induction n rule: decimal.induct)
  case (1 n)
  have digit: "char_of (48 + k) \<noteq> CHR ''-''" if "k < 10" for k :: nat
  proof
    assume "char_of (48 + k) = CHR ''-''"
    then have "of_char (char_of (48 + k) :: char) = (of_char (CHR ''-'') :: nat)" by simp
    with that show False by simp
  qed
  have "char_of (48 + n mod 10) \<noteq> CHR ''-''" by (rule digit) simp
  with 1 digit [of n] show ?case
    by (cases "n < 10") (simp_all add: decimal.simps [of n], metis)
qed

lemma decimal_length: "n < 10 ^ k \<Longrightarrow> 0 < k \<Longrightarrow> length (decimal n) \<le> k"
proof (induction n arbitrary: k rule: decimal.induct)
  case (1 n)
  show ?case
  proof (cases "n < 10")
    case False
    with 1(2) have "k \<noteq> 1" by auto
    with 1(3) obtain j where j: "k = Suc j" "0 < j" by (cases k) auto
    with 1(2) have "n div 10 < 10 ^ j" by (simp add: less_mult_imp_div_less mult.commute)
    with 1(1) [OF False _ j(2)] j(1) False show ?thesis by (simp add: decimal.simps [of n])
  qed (use 1 in \<open>simp add: decimal.simps [of n]\<close>)
qed

lemma undecimal_pad: "undecimal (padStart0 k s) = undecimal s"
proof -
  have "foldl (\<lambda>a c. 10 * a + digit_value c) 0 (replicate m (CHR ''0'')) = 0" for m
    by (induction m) (simp_all add: digit_value_def)
  then show ?thesis by (simp add: padStart0_def undecimal_def)
qed

lemma pad_seq_inj: "pad_seq m = pad_seq n \<Longrightarrow> m = n"
  by (metis pad_seq_def undecimal_pad undecimal_decimal)

lemma pad_seq_chars: "c \<in> set (pad_seq n) \<Longrightarrow> c \<noteq> CHR ''-''"
  by (auto simp: pad_seq_def padStart0_def dest: decimal_chars)

lemma show_two_digits: "0 \<le> y \<Longrightarrow> two_digits y = padStart0 2 (decimal (nat (y mod 100)))"
proof -
  assume "0 \<le> y"
  moreover have "\<not> y mod 100 < 0" by simp
  ultimately show ?thesis unfolding two_digits_def show_int_def js_mod_def by simp
qed

lemma two_digits_value: "0 \<le> y \<Longrightarrow> undecimal (two_digits y) = nat (y mod 100)"
  by (simp add: show_two_digits undecimal_pad undecimal_decimal)

lemma two_digits_length: "0 \<le> y \<Longrightarrow> length (two_digits y) = 2"
  using decimal_length [of "nat (y mod 100)" 2] by (simp add: show_two_digits padStart0_def nat_less_iff)

section \<open>Issued numbers\<close>

text \<open>A sequence of issues (country and time of each), one transaction after the other.\<close>

fun issue_all :: "(string \<times> time_ms) list \<Rightarrow> counters \<Rightarrow> string list" where
  "issue_all [] c = []"
| "issue_all ((country, t) # rs) c = (let (number, c') = assignInvoiceNumber t country c in number # issue_all rs c')"

abbreviation series_of :: "string \<times> time_ms \<Rightarrow> invoice_series" where
  "series_of r \<equiv> invoiceSeries (fst r) (snd r)"

text \<open>The place of an issue in its own series.\<close>

definition place_in_series :: "(string \<times> time_ms) list \<Rightarrow> nat \<Rightarrow> nat" where
  "place_in_series rs i = length (filter (\<lambda>r. is_scope (series_of r) = is_scope (series_of (rs ! i))) (take (Suc i) rs))"

lemma issue_step:
  "issue_all (r # rs) c = (is_prefix (series_of r) @ pad_seq (Suc (c (is_scope (series_of r))))) #
    issue_all rs (c(is_scope (series_of r) := Suc (c (is_scope (series_of r)))))"
  by (cases r) (simp add: assignInvoiceNumber_def next_reference_value_def Let_def)

lemma length_issue_all [simp]: "length (issue_all rs c) = length rs"
  by (induction rs arbitrary: c) (auto simp: issue_step)

lemma issued_number:
  "i < length rs \<Longrightarrow> issue_all rs c ! i =
    is_prefix (series_of (rs ! i)) @ pad_seq (c (is_scope (series_of (rs ! i))) + place_in_series rs i)"
proof (induction rs arbitrary: c i)
  case (Cons r rs)
  show ?case
  proof (cases i)
    case 0
    then show ?thesis by (simp add: issue_step place_in_series_def del: issue_all.simps)
  next
    case (Suc j)
    define c' where "c' = c(is_scope (series_of r) := Suc (c (is_scope (series_of r))))"
    have "issue_all (r # rs) c ! i = issue_all rs c' ! j" using Suc by (simp add: issue_step c'_def del: issue_all.simps)
    also have "\<dots> = is_prefix (series_of (rs ! j)) @ pad_seq (c' (is_scope (series_of (rs ! j))) + place_in_series rs j)"
      by (rule Cons.IH) (use Suc Cons.prems in simp)
    also have "c' (is_scope (series_of (rs ! j))) + place_in_series rs j =
        c (is_scope (series_of (rs ! j))) + place_in_series (r # rs) i"
      using Suc by (simp add: c'_def place_in_series_def)
    finally show ?thesis using Suc by simp
  qed
qed simp

lemma place_mono:
  assumes "i < j" "j < length rs" "is_scope (series_of (rs ! i)) = is_scope (series_of (rs ! j))"
  shows "place_in_series rs i < place_in_series rs j"
proof -
  let ?P = "\<lambda>r. is_scope (series_of r) = is_scope (series_of (rs ! j))"
  have "take (Suc j) rs = take (Suc i) rs @ drop (Suc i) (take j rs) @ [rs ! j]"
    using assms(1,2) take_Suc_conv_app_nth [OF assms(2)] append_take_drop_id [of "Suc i" "take j rs"]
    by (simp add: min_def)
  then have "filter ?P (take (Suc j) rs) = filter ?P (take (Suc i) rs) @ filter ?P (drop (Suc i) (take j rs)) @ [rs ! j]"
    by simp
  then show ?thesis using assms(3) by (simp add: place_in_series_def)
qed

text \<open>The part behind the last dash is the sequence, the part before it the series.\<close>

lemma split_last_dash:
  assumes "p @ CHR ''-'' # x = q @ CHR ''-'' # y" "CHR ''-'' \<notin> set x" "CHR ''-'' \<notin> set y"
  shows "p = q \<and> x = y"
proof -
  let ?tail = "\<lambda>s. takeWhile (\<lambda>c. c \<noteq> CHR ''-'') (rev s)"
  have "?tail (r @ CHR ''-'' # z) = rev z" if "CHR ''-'' \<notin> set z" for r z
  proof -
    have "takeWhile (\<lambda>c. c \<noteq> CHR ''-'') (rev z @ CHR ''-'' # rev r) = rev z @ takeWhile (\<lambda>c. c \<noteq> CHR ''-'') (CHR ''-'' # rev r)"
      by (rule takeWhile_append2) (use that in auto)
    then show ?thesis by simp
  qed
  with assms have "rev x = rev y" by metis
  with assms(1) show ?thesis by simp
qed

lemma century: "x \<in> {2000..<2100} \<Longrightarrow> x div 100 = (20 :: int)"
  by auto

lemma prefix_dash: "\<exists>p. is_prefix (invoiceSeries country t) = p @ ''-''"
  by (auto simp: invoiceSeries_def Let_def)

lemma series_country_length: "length (series_country c) = 2"
  by (simp add: series_country_def upper_def)

lemma same_prefix_same_scope:
  assumes eq: "is_prefix (invoiceSeries country t) = is_prefix (invoiceSeries country' t')"
    and year: "indianFinancialYearStart t \<in> {2000..<2100}" "indianFinancialYearStart t' \<in> {2000..<2100}"
  shows "is_scope (invoiceSeries country t) = is_scope (invoiceSeries country' t')"
proof -
  have cc: "length (series_country country) = length (series_country country')" by (simp add: series_country_length)
  show ?thesis
  proof (cases "series_country country = ''IN''"; cases "series_country country' = ''IN''")
    assume "series_country country = ''IN''" "series_country country' = ''IN''"
    with eq year have "two_digits (indianFinancialYearStart t) = two_digits (indianFinancialYearStart t')"
      by (simp add: invoiceSeries_def Let_def append_eq_append_conv two_digits_length)
    then have "nat (indianFinancialYearStart t mod 100) = nat (indianFinancialYearStart t' mod 100)"
      using year by (simp add: two_digits_value [symmetric])
    then have "indianFinancialYearStart t mod 100 = indianFinancialYearStart t' mod 100"
      by (simp add: eq_nat_nat_iff)
    with century [OF year(1)] century [OF year(2)] have "indianFinancialYearStart t = indianFinancialYearStart t'"
      by (metis div_mult_mod_eq)
    then show ?thesis
      using \<open>series_country country = ''IN''\<close> \<open>series_country country' = ''IN''\<close> by (simp add: invoiceSeries_def Let_def)
  next
    assume "series_country country \<noteq> ''IN''" "series_country country' \<noteq> ''IN''"
    with eq cc show ?thesis by (auto simp: invoiceSeries_def Let_def)
  qed (use eq in \<open>auto simp: invoiceSeries_def Let_def\<close>)
qed

lemma number_determines_issue:
  assumes "is_prefix (invoiceSeries country t) @ pad_seq m = is_prefix (invoiceSeries country' t') @ pad_seq n"
    and "indianFinancialYearStart t \<in> {2000..<2100}" "indianFinancialYearStart t' \<in> {2000..<2100}"
  shows "is_scope (invoiceSeries country t) = is_scope (invoiceSeries country' t') \<and> m = n"
proof -
  obtain p q where p: "is_prefix (invoiceSeries country t) = p @ ''-''" "is_prefix (invoiceSeries country' t') = q @ ''-''"
    using prefix_dash by metis
  have "p = q \<and> pad_seq m = pad_seq n"
    using split_last_dash [of p "pad_seq m" q "pad_seq n"] assms(1) p pad_seq_chars by auto
  with p assms(2,3) same_prefix_same_scope pad_seq_inj show ?thesis by metis
qed

text \<open>
  C26.  Invoice numbers.  Issued one after the other from empty counters, the number of an invoice is its series
  followed by its place in that series (so every series is gapless from one), and no two invoices of this
  century share a number, whatever their countries; an Indian number has 16 characters up to 999,999 invoices
  of a financial year.
\<close>

theorem invoice_numbers_gapless_and_unique:
  assumes "\<And>r. r \<in> set rs \<Longrightarrow> indianFinancialYearStart (snd r) \<in> {2000..<2100}"
  shows "distinct (issue_all rs (\<lambda>_. 0)) \<and>
    (\<forall>i < length rs. issue_all rs (\<lambda>_. 0) ! i = is_prefix (series_of (rs ! i)) @ pad_seq (place_in_series rs i) \<and>
      (series_country (fst (rs ! i)) = ''IN'' \<longrightarrow> place_in_series rs i \<le> 999999 \<longrightarrow>
        length (issue_all rs (\<lambda>_. 0) ! i) = 16))"
proof (intro conjI allI impI)
  have "issue_all rs (\<lambda>_. 0) ! i \<noteq> issue_all rs (\<lambda>_. 0) ! j" if "i < j" "j < length rs" for i j
  proof
    assume "issue_all rs (\<lambda>_. 0) ! i = issue_all rs (\<lambda>_. 0) ! j"
    then have eq: "is_prefix (series_of (rs ! i)) @ pad_seq (place_in_series rs i) =
        is_prefix (series_of (rs ! j)) @ pad_seq (place_in_series rs j)"
      using that by (simp add: issued_number)
    have "is_scope (series_of (rs ! i)) = is_scope (series_of (rs ! j)) \<and> place_in_series rs i = place_in_series rs j"
      by (rule number_determines_issue [OF eq]; rule assms) (use that in simp_all)
    with place_mono [OF that] show False by simp
  qed
  then show "distinct (issue_all rs (\<lambda>_. 0))"
    unfolding distinct_conv_nth by (metis length_issue_all linorder_neqE_nat)
next
  fix i assume i: "i < length rs"
  then show n: "issue_all rs (\<lambda>_. 0) ! i = is_prefix (series_of (rs ! i)) @ pad_seq (place_in_series rs i)"
    by (simp add: issued_number)
  assume "series_country (fst (rs ! i)) = ''IN''" "place_in_series rs i \<le> 999999"
  moreover have "0 \<le> indianFinancialYearStart (snd (rs ! i))" using assms [of "rs ! i"] i by simp
  moreover have "length (pad_seq (place_in_series rs i)) = 6" if "place_in_series rs i \<le> 999999"
    using decimal_length [of "place_in_series rs i" 6] that by (simp add: pad_seq_def padStart0_def)
  ultimately show "length (issue_all rs (\<lambda>_. 0) ! i) = 16"
    unfolding n by (simp add: invoiceSeries_def Let_def two_digits_length)
qed

text \<open>Two Indian invoices at midnight IST around 1 April 2026 and one from the United States.\<close>

definition ex_issues :: "(string \<times> time_ms) list" where
  "ex_issues = [(''IN'', 1774981799999), (''IN'', 1774981800000), (''us'', 1774981800000), (''IN'', 1774981800001)]"

theorem invoice_numbers_gapless_and_unique_witness:
  "distinct (issue_all ex_issues (\<lambda>_. 0)) \<and> length (issue_all ex_issues (\<lambda>_. 0) ! 3) = 16"
proof -
  have "list_all (\<lambda>r. 2000 \<le> indianFinancialYearStart (snd r) \<and> indianFinancialYearStart (snd r) < 2100) ex_issues"
    by code_simp
  then have "\<And>r. r \<in> set ex_issues \<Longrightarrow> indianFinancialYearStart (snd r) \<in> {2000..<2100}" by (simp add: list_all_iff)
  moreover have "place_in_series ex_issues 3 \<le> length (take 4 ex_issues)"
    unfolding place_in_series_def by (rule order_trans [OF length_filter_le]) simp
  moreover have "length (take 4 ex_issues) = 4" "3 < length ex_issues" "series_country (fst (ex_issues ! 3)) = ''IN''"
    by (code_simp, simp add: ex_issues_def, code_simp)
  ultimately show ?thesis using invoice_numbers_gapless_and_unique [of ex_issues] by auto
qed

end
