(* ===== verification/BillingEvents.thy ===== *)
theory BillingEvents
  imports SubscriptionStore InvoiceNumber
begin

text \<open>
  Events of the billing providers: \<^verbatim>\<open>billing/billing-provider-events.service.ts\<close> with the paid invoice of
  \<^verbatim>\<open>billing/billing-invoice.service.ts\<close>, the credit packs of \<^verbatim>\<open>credit-packs.ts\<close> and the billing sweep of
  \<^verbatim>\<open>billing-sweep.service.ts\<close>.

  The provider is a record of its optional methods; the number passed to a method is the number of the call
  within the handling of one event, so that two calls may be answered differently.  \<open>Inl t\<close> is a call that threw,
  \<open>t\<close> telling whether the error has a status of at least 500.  What the tax rules quote and what the seller's
  configuration says (\<^verbatim>\<open>billing-tax.service.ts\<close>, \<^verbatim>\<open>billing-seller.ts\<close>) are fields of \<open>billing_env\<close>.  The frozen JSON
  of an invoice is left out; so are texts of refusals and notes, which are constructors here.
\<close>

section \<open>What the provider reports\<close>

datatype event_type =
  EV_PAYMENT_CAPTURED | EV_PAYMENT_FAILED | EV_SUBSCRIPTION_CANCELLED | EV_SUBSCRIPTION_UPDATED
| EV_SUBSCRIPTION_HALTED | EV_CHECKOUT_COMPLETED | EV_CREDIT_PACK_PAID | EV_INVOICE_FINALIZED | EV_DISPUTE_OPENED
| EV_IGNORED

record billing_event =
  be_providerEventId :: string
  be_type :: event_type
  be_providerSubscriptionRef :: "string option"
  be_paymentRef :: "string option"
  be_objectRef :: "string option"
  be_occurredAt :: "time_ms option"
  be_payload :: string

datatype provider_sub_status =
  PS_INCOMPLETE | PS_AUTHENTICATED | PS_TRIALING | PS_ACTIVE | PS_PAST_DUE | PS_HALTED | PS_CANCELLED | PS_COMPLETED

record sub_record =
  sr_verified :: bool
  sr_customerRef :: "string option"
  sr_status :: provider_sub_status
  sr_cancelAtPeriodEnd :: "bool option"
  sr_periodStart :: "time_ms option"
  sr_periodEnd :: "time_ms option"
  sr_organizationId :: "string option"
  sr_latestPaidPaymentRef :: "string option"

datatype pay_purpose = SUBSCRIPTION_PAYMENT | CREDIT_PACK

record payment_record =
  pr_verified :: bool
  pr_paymentRef :: string
  pr_amountMinor :: rat
  pr_currency :: string
  pr_purpose :: pay_purpose
  pr_taxMinor :: rat
  pr_customerRef :: "string option"
  pr_subscriptionRef :: "string option"
  pr_providerPriceRef :: "string option"
  pr_periodStart :: "time_ms option"
  pr_periodEnd :: "time_ms option"
  pr_organizationId :: "string option"
  pr_invoiceRef :: "string option"
  pr_creditPackCode :: "string option"
  pr_purchaseRef :: "string option"
  pr_paidAt :: "time_ms option"

record dispute_record =
  dr_verified :: bool
  dr_disputeRef :: string
  dr_customerRef :: "string option"

record provider_api =
  pa_key :: billing_provider
  pa_live :: bool
  pa_fetchPaymentRecord :: "(nat \<Rightarrow> string \<Rightarrow> bool + payment_record) option"
  pa_fetchSubscription :: "(nat \<Rightarrow> string \<Rightarrow> bool + sub_record) option"
  pa_fetchDispute :: "(string \<Rightarrow> bool + dispute_record) option"
  pa_parseEvent :: "(string \<Rightarrow> string \<Rightarrow> billing_event) option"

section \<open>The database\<close>

datatype tax_mode = MANUAL | PROVIDER_AUTOMATIC

record tax_line =
  tl_label :: string
  tl_rateBasisPoints :: int
  tl_baseMinor :: int
  tl_amountMinor :: int

record tax_quote =
  tq_mode :: tax_mode
  tq_currency :: string
  tq_netMinor :: minor
  tq_taxMinor :: minor
  tq_totalMinor :: minor
  tq_lines :: "tax_line list"

datatype bill_interval = MONTH | YEAR

record billing_price =
  bpr_id :: string
  bpr_planId :: string
  bpr_country :: string
  bpr_currency :: string
  bpr_interval :: bill_interval
  bpr_amountMinor :: minor
  bpr_providerPriceRefTest :: "string option"
  bpr_providerPriceRefLive :: "string option"

record billing_payment =
  py_id :: string
  py_accountId :: string
  py_invoiceId :: "string option"
  py_provider :: billing_provider
  py_providerPaymentRef :: string
  py_amountMinor :: minor
  py_taxMinor :: minor
  py_currency :: string
  py_purpose :: pay_purpose
  py_verifiedAt :: time_ms

record organizer_invoice =
  oi_id :: string
  oi_accountId :: string
  oi_subscriptionId :: "string option"
  oi_number :: string
  oi_issuedAt :: time_ms
  oi_currency :: string
  oi_subtotalMinor :: minor
  oi_taxMinor :: minor
  oi_totalMinor :: minor
  oi_periodStart :: "time_ms option"
  oi_periodEnd :: "time_ms option"
  oi_provider :: billing_provider
  oi_providerInvoiceRef :: string

datatype webhook_status = WH_RECEIVED | WH_PROCESSED | WH_IGNORED | WH_FAILED

record webhook_row =
  wh_id :: string
  wh_provider :: billing_provider
  wh_providerEventId :: string
  wh_payload :: string
  wh_status :: webhook_status
  wh_accountId :: "string option"
  wh_attempts :: nat
  wh_occurredAt :: "time_ms option"
  wh_receivedAt :: time_ms
  wh_processedAt :: "time_ms option"

record credit_purchase =
  cp_purchaseRef :: string
  cp_organizationId :: string
  cp_packCode :: string
  cp_currency :: string
  cp_netMinor :: minor
  cp_taxMinor :: minor
  cp_totalMinor :: minor
  cp_taxLines :: "tax_line list"
  cp_taxMode :: tax_mode
  cp_paidAt :: "time_ms option"

record ledger_row =
  lg_id :: string
  lg_organizationId :: string
  lg_delta :: int
  lg_refId :: string
  lg_idempotencyKey :: string

record billing_db =
  bl_store :: sub_store
  bl_prices :: "billing_price list"
  bl_payments :: "billing_payment list"
  bl_invoices :: "organizer_invoice list"
  bl_counters :: counters
  bl_webhooks :: "webhook_row list"
  bl_purchases :: "credit_purchase list"
  bl_ledger :: "ledger_row list"
  bl_audit :: "(string \<times> string) list"
  bl_reminders :: "(string \<times> string \<times> dunning_stage) list"

datatype event_error = Refused | Rejected billing_error | ProviderFault bool | PlainError

text \<open>\<^verbatim>\<open>isTransientBillingError\<close>: an application error is transient from status 500, any other error always.\<close>

fun isTransientBillingError :: "event_error \<Rightarrow> bool" where
  "isTransientBillingError Refused \<longleftrightarrow> False"
| "isTransientBillingError (Rejected e) \<longleftrightarrow> \<not> is_app_exception e"
| "isTransientBillingError (ProviderFault t) \<longleftrightarrow> t"
| "isTransientBillingError PlainError \<longleftrightarrow> True"

datatype gst_status = GST_REGISTERED | GST_UNREGISTERED

text \<open>
  \<open>en_quote\<close> is \<^verbatim>\<open>BillingTaxService.quote\<close> (\<open>None\<close>: no such service; \<open>Inl True\<close>: an application error), \<open>en_seller\<close> the
  registration on the seller's snapshot or an error, \<open>en_graceDays\<close> and \<open>en_pastDueDays\<close> the configuration.
\<close>

record billing_env =
  en_quote :: "billing_account \<Rightarrow> minor \<Rightarrow> string \<Rightarrow> time_ms \<Rightarrow> (bool + tax_quote) option"
  en_seller :: "string \<Rightarrow> string \<Rightarrow> event_error + gst_status option"
  en_graceDays :: int
  en_pastDueDays :: int

record new_ids =
  ni_account :: string
  ni_subscription :: string
  ni_payment :: string
  ni_invoice :: string
  ni_ledger :: string

datatype applied_note =
  AlreadyApplied | PeriodAlreadyApplied | ProviderNotLive | AlreadyEndedHere | AnotherPaidSubscription

datatype applied_status = APPLIED | NOT_APPLIED

record applied =
  ap_status :: applied_status
  ap_note :: "applied_note option"
  ap_accountId :: "string option"

definition ignored :: "string option \<Rightarrow> applied" where
  "ignored accountId = \<lparr>ap_status = NOT_APPLIED, ap_note = None, ap_accountId = accountId\<rparr>"

definition processed :: "applied_note option \<Rightarrow> string \<Rightarrow> applied" where
  "processed note accountId = \<lparr>ap_status = APPLIED, ap_note = note, ap_accountId = Some accountId\<rparr>"

text \<open>A guard that throws a refusal, and an optional method of the provider.\<close>

definition need :: "bool \<Rightarrow> (event_error + 'a) \<Rightarrow> event_error + 'a" where
  "need b k = (if b then k else Inl Refused)"

definition ask :: "bool + 'a \<Rightarrow> event_error + 'a" where
  "ask answer = (case answer of Inl t \<Rightarrow> Inl (ProviderFault t) | Inr x \<Rightarrow> Inr x)"

lemma need_Inr [simp]: "need b k = Inr x \<longleftrightarrow> b \<and> k = Inr x"
  by (simp add: need_def)

lemma ask_Inr [simp]: "ask a = Inr x \<longleftrightarrow> a = Inr x"
  by (simp add: ask_def split: sum.splits)

section \<open>What was charged\<close>

record charged_split =
  cs_netMinor :: minor
  cs_taxMinor :: minor
  cs_lines :: "tax_line list"

definition js_trunc :: "rat \<Rightarrow> int" where
  "js_trunc x = (if 0 \<le> x then \<lfloor>x\<rfloor> else \<lceil>x\<rceil>)"

text \<open>
  The amount of a provider that charges tax on top equals the net price when it gets past the comparison, so the
  net is written as the integer it equals.
\<close>

definition chargedSplit ::
  "billing_provider \<Rightarrow> payment_record \<Rightarrow> minor \<Rightarrow> tax_quote option \<Rightarrow> event_error + charged_split" where
  "chargedSplit key rec net quote =
    (if key = RAZORPAY_BILLING then
       (case quote of
          None \<Rightarrow> Inl Refused
        | Some q \<Rightarrow> need (pr_amountMinor rec = of_int (tq_totalMinor q))
            (Inr \<lparr>cs_netMinor = tq_netMinor q, cs_taxMinor = tq_taxMinor q, cs_lines = tq_lines q\<rparr>))
     else need (pr_amountMinor rec = of_int net)
       (let taxMinor = max 0 (js_trunc (pr_taxMinor rec));
            single = [\<lparr>tl_label = (if map_option tq_mode quote = Some PROVIDER_AUTOMATIC then ''Sales tax (Stripe Tax)'' else ''Tax''),
              tl_rateBasisPoints = 0, tl_baseMinor = net, tl_amountMinor = taxMinor\<rparr>];
            lines = (case quote of
              Some q \<Rightarrow> if tq_mode q = MANUAL \<and> tq_taxMinor q = taxMinor then tq_lines q else single
            | None \<Rightarrow> if 0 < taxMinor then single else []) in
        Inr \<lparr>cs_netMinor = net, cs_taxMinor = taxMinor, cs_lines = lines\<rparr>))"

definition quoteOrRefuse ::
  "billing_env \<Rightarrow> billing_account \<Rightarrow> minor \<Rightarrow> string \<Rightarrow> time_ms \<Rightarrow> event_error + tax_quote option" where
  "quoteOrRefuse env account amount currency t =
    (case en_quote env account amount currency t of
       None \<Rightarrow> Inr None
     | Some (Inr q) \<Rightarrow> Inr (Some q)
     | Some (Inl app) \<Rightarrow> Inl (if app then Refused else PlainError))"

section \<open>Lookups that cross-check the tenant\<close>

definition accountFor ::
  "billing_provider \<Rightarrow> string option \<Rightarrow> string option \<Rightarrow> sub_store \<Rightarrow> event_error + billing_account" where
  "accountFor key customerRef organizationHint db =
    (if key = RAZORPAY_BILLING then
       need (truthy organizationHint)
         (case find (\<lambda>a. Some (ba_organizationId a) = organizationHint) (sd_accounts db) of
            None \<Rightarrow> Inl Refused
          | Some account \<Rightarrow> need (ba_provider account = key)
              (need (\<not> (truthy (ba_providerCustomerRef account) \<and> truthy customerRef \<and>
                  ba_providerCustomerRef account \<noteq> customerRef)) (Inr account)))
     else need (truthy customerRef)
       (case find (\<lambda>a. ba_provider a = key \<and> ba_providerCustomerRef a = customerRef) (sd_accounts db) of
          None \<Rightarrow> Inl Refused
        | Some account \<Rightarrow> need (\<not> (truthy organizationHint \<and> organizationHint \<noteq> Some (ba_organizationId account)))
            (Inr account)))"

definition priceFor :: "bool \<Rightarrow> string option \<Rightarrow> billing_db \<Rightarrow> billing_price option" where
  "priceFor live ref db =
    (if \<not> truthy ref then None
     else find (\<lambda>p. (if live then bpr_providerPriceRefLive p else bpr_providerPriceRefTest p) = ref) (bl_prices db))"

section \<open>The paid invoice\<close>

record invoice_input =
  ii_accountId :: string
  ii_provider :: billing_provider
  ii_providerInvoiceRef :: string
  ii_currency :: string
  ii_lines :: "(int \<times> minor) list"
  ii_taxMinor :: int
  ii_taxLines :: "tax_line list"
  ii_subscriptionId :: "string option"
  ii_periodStart :: "time_ms option"
  ii_periodEnd :: "time_ms option"
  ii_paidAt :: time_ms

definition assertNoGstFromUnregistered :: "gst_status option \<Rightarrow> int \<Rightarrow> bool" where
  "assertNoGstFromUnregistered gst taxMinor \<longleftrightarrow> \<not> (gst = Some GST_UNREGISTERED \<and> 0 < taxMinor)"

definition recordPaidInTx ::
  "billing_env \<Rightarrow> string \<Rightarrow> invoice_input \<Rightarrow> billing_db \<Rightarrow> event_error + (organizer_invoice \<times> billing_db)" where
  "recordPaidInTx env newId inp db =
    (case find (\<lambda>i. oi_provider i = ii_provider inp \<and> oi_providerInvoiceRef i = ii_providerInvoiceRef inp) (bl_invoices db) of
       Some existing \<Rightarrow> Inr (existing, db)
     | None \<Rightarrow>
        (case find (\<lambda>a. ba_id a = ii_accountId inp) (sd_accounts (bl_store db)) of
           None \<Rightarrow> Inl PlainError
         | Some account \<Rightarrow>
            (let subtotal = sum_list (map (\<lambda>(q, u). q * u) (ii_lines inp));
                 taxMinor = max 0 (ii_taxMinor inp) in
             if ii_taxLines inp \<noteq> [] \<and> sum_list (map tl_amountMinor (ii_taxLines inp)) \<noteq> taxMinor then Inl PlainError
             else rbind (en_seller env (ba_country account) (ii_currency inp)) (\<lambda>gst.
               if \<not> assertNoGstFromUnregistered gst taxMinor then Inl PlainError
               else let (number, counters) = assignInvoiceNumber (ii_paidAt inp) (ba_country account) (bl_counters db);
                   invoice = \<lparr>oi_id = newId, oi_accountId = ii_accountId inp, oi_subscriptionId = ii_subscriptionId inp,
                     oi_number = number, oi_issuedAt = ii_paidAt inp, oi_currency = ii_currency inp,
                     oi_subtotalMinor = subtotal, oi_taxMinor = taxMinor, oi_totalMinor = subtotal + taxMinor,
                     oi_periodStart = ii_periodStart inp, oi_periodEnd = ii_periodEnd inp, oi_provider = ii_provider inp,
                     oi_providerInvoiceRef = ii_providerInvoiceRef inp\<rparr> in
                 if newId \<in> set (map oi_id (bl_invoices db)) then Inl (Rejected UniqueViolation)
                 else Inr (invoice, db\<lparr>bl_invoices := bl_invoices db @ [invoice], bl_counters := counters\<rparr>)))))"

section \<open>A subscription payment\<close>

text \<open>Everything that is established about a payment before the transaction that applies it.\<close>

record paid_facts =
  pf_record :: payment_record
  pf_account :: billing_account
  pf_price :: billing_price
  pf_split :: charged_split
  pf_subscriptionRef :: string
  pf_subRecord :: sub_record
  pf_periodStart :: time_ms
  pf_periodEnd :: time_ms
  pf_paidAt :: time_ms

definition check_subscription :: "billing_account \<Rightarrow> sub_record \<Rightarrow> bool" where
  "check_subscription account rec \<longleftrightarrow> sr_verified rec \<and>
    \<not> (truthy (sr_customerRef rec) \<and> truthy (ba_providerCustomerRef account) \<and>
       sr_customerRef rec \<noteq> ba_providerCustomerRef account) \<and>
    \<not> (truthy (sr_organizationId rec) \<and> sr_organizationId rec \<noteq> Some (ba_organizationId account))"

text \<open>The record of the payment, the account it belongs to and the price it is for.\<close>

definition identify_payment ::
  "provider_api \<Rightarrow> (nat \<Rightarrow> string \<Rightarrow> bool + payment_record) \<Rightarrow> string option \<Rightarrow> billing_db \<Rightarrow>
   event_error + (payment_record \<times> billing_account \<times> billing_price)" where
  "identify_payment api fetchPaymentRecord paymentRef db =
    need (truthy paymentRef) (rbind (ask (fetchPaymentRecord 1 (the paymentRef))) (\<lambda>rec.
      need (pr_verified rec) (need (pr_purpose rec = SUBSCRIPTION_PAYMENT)
        (rbind (accountFor (pa_key api) (pr_customerRef rec) (pr_organizationId rec) (bl_store db)) (\<lambda>account.
          (case priceFor (pa_live api) (pr_providerPriceRef rec) db of
             None \<Rightarrow> Inl Refused
           | Some price \<Rightarrow> need (bpr_country price = ba_country account)
               (need (pr_currency rec = bpr_currency price) (Inr (rec, account, price)))))))))"

text \<open>The tax of the payment: a charge that includes it cannot be split without a quote.\<close>

definition split_payment ::
  "billing_env \<Rightarrow> provider_api \<Rightarrow> payment_record \<Rightarrow> billing_account \<Rightarrow> billing_price \<Rightarrow> time_ms \<Rightarrow> event_error + charged_split" where
  "split_payment env api rec account price paidAt =
    (let quoting = quoteOrRefuse env account (bpr_amountMinor price) (bpr_currency price) paidAt in
     rbind (if pa_key api = RAZORPAY_BILLING then quoting else (case quoting of Inl _ \<Rightarrow> Inr None | Inr q \<Rightarrow> Inr q))
       (chargedSplit (pa_key api) rec (bpr_amountMinor price)))"

definition check_payment ::
  "billing_env \<Rightarrow> provider_api \<Rightarrow> string option \<Rightarrow> time_ms \<Rightarrow> billing_db \<Rightarrow> event_error + paid_facts" where
  "check_payment env api paymentRef now db =
    (case (pa_fetchPaymentRecord api, pa_fetchSubscription api) of
       (Some fetchPaymentRecord, Some fetchSubscription) \<Rightarrow>
         rbind (identify_payment api fetchPaymentRecord paymentRef db) (\<lambda>(rec, account, price).
           let paidAt = nvl (pr_paidAt rec) now in
           rbind (split_payment env api rec account price paidAt) (\<lambda>split.
             need (truthy (pr_subscriptionRef rec)) (rbind (ask (fetchSubscription 1 (the (pr_subscriptionRef rec)))) (\<lambda>subRec.
               need (check_subscription account subRec)
                 (let periodStart = nvl (pr_periodStart rec) (nvl (sr_periodStart subRec) now) in
                  Inr \<lparr>pf_record = rec, pf_account = account, pf_price = price, pf_split = split,
                    pf_subscriptionRef = the (pr_subscriptionRef rec), pf_subRecord = subRec, pf_periodStart = periodStart,
                    pf_periodEnd = nvl (pr_periodEnd rec) (nvl (sr_periodEnd subRec)
                      (periodStart + (case bpr_interval price of YEAR \<Rightarrow> 365 | MONTH \<Rightarrow> 30) * DAY)),
                    pf_paidAt = paidAt\<rparr>)))))
     | _ \<Rightarrow> Inl Refused)"

fun provider_name :: "billing_provider \<Rightarrow> string" where
  "provider_name NONE = ''NONE''"
| "provider_name MOCK = ''MOCK''"
| "provider_name STRIPE_BILLING = ''STRIPE_BILLING''"
| "provider_name RAZORPAY_BILLING = ''RAZORPAY_BILLING''"

definition evidence_of :: "provider_api \<Rightarrow> paid_facts \<Rightarrow> payment_evidence option" where
  "evidence_of api pf = Some \<lparr>pe_verified = True,
     pe_provider = provider_name (pa_key api), pe_paymentRef = pr_paymentRef (pf_record pf), pe_amountMinor = of_int (cs_netMinor (pf_split pf)),
     pe_currency = pr_currency (pf_record pf)\<rparr>"

text \<open>\<^verbatim>\<open>move\<close>: one event of the subscription, with the price and the provider's reference.\<close>

definition payment_move ::
  "new_ids \<Rightarrow> paid_facts \<Rightarrow> string \<Rightarrow> sub_event \<Rightarrow> time_ms \<Rightarrow> billing_db \<Rightarrow> event_error + (org_subscription \<times> billing_db)" where
  "payment_move ids pf action event now db =
    (case apply_sub \<lparr>ac_auditAction = action, ac_actorUserId = None, ac_reason = None, ac_priceId = Some (Some (bpr_id (pf_price pf))),
         ac_providerSubscriptionRef = Some (pf_subscriptionRef pf), ac_newAccountId = ni_account ids,
         ac_newSubscriptionId = ni_subscription ids\<rparr> (ba_organizationId (pf_account pf)) event now (bl_store db) of
       Inl e \<Rightarrow> Inl (Rejected e)
     | Inr (row, store) \<Rightarrow> Inr (row, db\<lparr>bl_store := store\<rparr>))"

definition provider_live :: "sub_record \<Rightarrow> bool" where
  "provider_live rec \<longleftrightarrow> sr_status rec \<in> {PS_ACTIVE, PS_TRIALING, PS_PAST_DUE}"

definition settle_payment ::
  "new_ids \<Rightarrow> provider_api \<Rightarrow> paid_facts \<Rightarrow> time_ms \<Rightarrow> billing_db \<Rightarrow>
   event_error + (string option \<times> applied_note option \<times> billing_db)" where
  "settle_payment ids api pf now db =
    (let current = current_sub (ba_id (pf_account pf)) (bl_store db);
         evidence = evidence_of api pf;
         same = (case current of None \<Rightarrow> False
           | Some c \<Rightarrow> os_providerSubscriptionRef c = Some (pf_subscriptionRef pf) \<and> paid_status (ss_status (os_snapshot c)));
         replaceable = (case current of None \<Rightarrow> True
           | Some c \<Rightarrow> isTerminal (ss_status (os_snapshot c)) \<or> ss_status (os_snapshot c) = TRIALING \<or>
               ss_status (os_snapshot c) = COMPLIMENTARY) in
     if same then
       (let c = the current; s = os_snapshot c in
        rbind (if bpr_planId (pf_price pf) \<noteq> ss_planId s \<and> ss_status s = ACTIVE
               then rbind (payment_move ids pf ''BILLING_PLAN_CHANGED_BY_PROVIDER''
                      (CHANGE_PLAN_NOW (bpr_planId (pf_price pf)) evidence) now db) (Inr \<circ> snd)
               else Inr db) (\<lambda>db.
        if ss_currentPeriodEnd s = None \<or> before (the (ss_currentPeriodEnd s)) (Some (pf_periodEnd pf))
        then rbind (payment_move ids pf ''BILLING_SUBSCRIPTION_RENEWED'' (RENEW (pf_periodEnd pf) evidence) now db)
               (\<lambda>(_, db). Inr (Some (os_id c), None, db))
        else Inr (Some (os_id c), Some PeriodAlreadyApplied, db)))
     else if \<not> provider_live (pf_subRecord pf) then Inr (None, Some ProviderNotLive, db)
     else if replaceable then
       (if list_ex (\<lambda>r. os_providerSubscriptionRef r = Some (pf_subscriptionRef pf)) (sd_subs (bl_store db))
        then Inr (None, Some AlreadyEndedHere, db)
        else rbind (payment_move ids pf ''BILLING_SUBSCRIPTION_ACTIVATED''
            (ACTIVATE (bpr_planId (pf_price pf)) (pf_periodStart pf) (pf_periodEnd pf) evidence) now db)
          (\<lambda>(row, db). Inr (Some (os_id row), None, db)))
     else Inr (None, Some AnotherPaidSubscription,
       db\<lparr>bl_audit := bl_audit db @ [(''BILLING_DUPLICATE_SUBSCRIPTION_PAYMENT'', ni_payment ids)]\<rparr>))"

definition find_payment :: "billing_provider \<Rightarrow> string \<Rightarrow> billing_db \<Rightarrow> billing_payment option" where
  "find_payment key ref db = find (\<lambda>p. py_provider p = key \<and> py_providerPaymentRef p = ref) (bl_payments db)"

definition add_payment ::
  "new_ids \<Rightarrow> billing_provider \<Rightarrow> payment_record \<Rightarrow> string \<Rightarrow> charged_split \<Rightarrow> time_ms \<Rightarrow> billing_db \<Rightarrow> event_error + billing_db" where
  "add_payment ids key rec accountId split now db =
    (if ni_payment ids \<in> set (map py_id (bl_payments db)) then Inl (Rejected UniqueViolation)
     else Inr (db\<lparr>bl_payments := bl_payments db @ [\<lparr>py_id = ni_payment ids, py_accountId = accountId, py_invoiceId = None,
       py_provider = key, py_providerPaymentRef = pr_paymentRef rec, py_amountMinor = cs_netMinor split,
       py_taxMinor = cs_taxMinor split, py_currency = pr_currency rec, py_purpose = pr_purpose rec, py_verifiedAt = now\<rparr>]\<rparr>))"

definition link_invoice :: "string \<Rightarrow> string \<Rightarrow> billing_db \<Rightarrow> billing_db" where
  "link_invoice paymentId invoiceId db = db\<lparr>bl_payments :=
     map (\<lambda>p. if py_id p = paymentId then p\<lparr>py_invoiceId := Some invoiceId\<rparr> else p) (bl_payments db)\<rparr>"

definition payment_tx ::
  "billing_env \<Rightarrow> new_ids \<Rightarrow> provider_api \<Rightarrow> paid_facts \<Rightarrow> time_ms \<Rightarrow> billing_db \<Rightarrow>
   event_error + (applied_note option \<times> billing_db)" where
  "payment_tx env ids api pf now db =
    (let rec = pf_record pf; accountId = ba_id (pf_account pf) in
     if find_payment (pa_key api) (pr_paymentRef rec) db \<noteq> None then Inr (Some AlreadyApplied, db)
     else rbind (add_payment ids (pa_key api) rec accountId (pf_split pf) now db) (\<lambda>db.
       rbind (settle_payment ids api pf now db) (\<lambda>(subscriptionId, note, db).
         rbind (recordPaidInTx env (ni_invoice ids)
             \<lparr>ii_accountId = accountId, ii_provider = pa_key api,
              ii_providerInvoiceRef = nvl (pr_invoiceRef rec) (pr_paymentRef rec), ii_currency = pr_currency rec,
              ii_lines = [(1, cs_netMinor (pf_split pf))], ii_taxMinor = cs_taxMinor (pf_split pf),
              ii_taxLines = cs_lines (pf_split pf), ii_subscriptionId = subscriptionId,
              ii_periodStart = Some (pf_periodStart pf), ii_periodEnd = Some (pf_periodEnd pf), ii_paidAt = pf_paidAt pf\<rparr> db)
           (\<lambda>(invoice, db). Inr (note, link_invoice (ni_payment ids) (oi_id invoice) db)))))"

definition payment ::
  "billing_env \<Rightarrow> new_ids \<Rightarrow> provider_api \<Rightarrow> string option \<Rightarrow> time_ms \<Rightarrow> billing_db \<Rightarrow> event_error + (applied \<times> billing_db)" where
  "payment env ids api paymentRef now db =
    rbind (check_payment env api paymentRef now db) (\<lambda>pf.
      rbind (payment_tx env ids api pf now db) (\<lambda>(note, db).
        Inr (\<lparr>ap_status = (if note = Some AlreadyApplied then NOT_APPLIED else APPLIED), ap_note = note,
              ap_accountId = Some (ba_id (pf_account pf))\<rparr>, db)))"

section \<open>What a payment can do\<close>

definition payment_keys :: "billing_db \<Rightarrow> (billing_provider \<times> string) list" where
  "payment_keys db = map (\<lambda>p. (py_provider p, py_providerPaymentRef p)) (bl_payments db)"

definition billing_ok :: "billing_db \<Rightarrow> bool" where
  "billing_ok db \<longleftrightarrow> store_ok (bl_store db) \<and> distinct (payment_keys db)"

lemma accountFor_Inr:
  assumes "accountFor key customerRef hint db = Inr account"
  shows "account \<in> set (sd_accounts db) \<and> ba_provider account = key \<and>
    (key = RAZORPAY_BILLING \<longrightarrow> hint = Some (ba_organizationId account)) \<and>
    (key \<noteq> RAZORPAY_BILLING \<longrightarrow> ba_providerCustomerRef account = customerRef)"
  using assms by (auto simp: accountFor_def dest!: find_set split: if_splits option.splits)

lemma identify_Inr:
  assumes "identify_payment api f ref db = Inr (rec, account, price)"
  shows "f 1 (the ref) = Inr rec \<and> pr_verified rec \<and> pr_purpose rec = SUBSCRIPTION_PAYMENT \<and>
    accountFor (pa_key api) (pr_customerRef rec) (pr_organizationId rec) (bl_store db) = Inr account \<and>
    price \<in> set (bl_prices db) \<and> bpr_country price = ba_country account \<and> pr_currency rec = bpr_currency price"
  using assms by (auto simp: identify_payment_def rbind_Inr_iff priceFor_def dest!: find_set split: if_splits option.splits)

lemma chargedSplit_Inr:
  assumes "chargedSplit key rec net quote = Inr split"
  shows "(key = RAZORPAY_BILLING \<longrightarrow> (\<exists>q. quote = Some q \<and> pr_amountMinor rec = of_int (tq_totalMinor q) \<and>
      cs_netMinor split = tq_netMinor q \<and> cs_taxMinor split = tq_taxMinor q)) \<and>
    (key \<noteq> RAZORPAY_BILLING \<longrightarrow> pr_amountMinor rec = of_int net \<and> cs_netMinor split = net)"
  using assms by (auto simp: chargedSplit_def Let_def split: if_splits option.splits)

text \<open>The charge is the price: of a provider that adds tax itself the net, of one that does not the quoted total.\<close>

definition exact_charge :: "billing_env \<Rightarrow> provider_api \<Rightarrow> paid_facts \<Rightarrow> bool" where
  "exact_charge env api pf \<longleftrightarrow> (let amount = pr_amountMinor (pf_record pf); price = pf_price pf in
     if pa_key api = RAZORPAY_BILLING
     then (case en_quote env (pf_account pf) (bpr_amountMinor price) (bpr_currency price) (pf_paidAt pf) of
             Some (Inr q) \<Rightarrow> amount = of_int (tq_totalMinor q) | _ \<Rightarrow> False)
     else amount = of_int (bpr_amountMinor price))"

lemma check_payment_Inr:
  assumes "check_payment env api ref now db = Inr pf"
  shows "pr_verified (pf_record pf) \<and> pf_account pf \<in> set (sd_accounts (bl_store db)) \<and> pf_price pf \<in> set (bl_prices db) \<and>
    bpr_country (pf_price pf) = ba_country (pf_account pf) \<and> pr_currency (pf_record pf) = bpr_currency (pf_price pf) \<and>
    exact_charge env api pf \<and> sr_verified (pf_subRecord pf) \<and>
    (pa_key api = RAZORPAY_BILLING \<longrightarrow> pr_organizationId (pf_record pf) = Some (ba_organizationId (pf_account pf))) \<and>
    (pa_key api \<noteq> RAZORPAY_BILLING \<longrightarrow> ba_providerCustomerRef (pf_account pf) = pr_customerRef (pf_record pf)) \<and>
    (\<exists>f. pa_fetchPaymentRecord api = Some f \<and> f 1 (the ref) = Inr (pf_record pf))"
proof -
  from assms obtain f g rec account price split subRec where
    f: "pa_fetchPaymentRecord api = Some f" "pa_fetchSubscription api = Some g" and
    ident: "identify_payment api f ref db = Inr (rec, account, price)" and
    sp: "split_payment env api rec account price (nvl (pr_paidAt rec) now) = Inr split" and
    sub: "check_subscription account subRec" and
    pf: "pf_record pf = rec" "pf_account pf = account" "pf_price pf = price" "pf_subRecord pf = subRec"
      "pf_paidAt pf = nvl (pr_paidAt rec) now"
    by (auto simp: check_payment_def rbind_Inr_iff Let_def split: option.splits)
  have "exact_charge env api pf"
    using sp unfolding pf exact_charge_def split_payment_def Let_def rbind_Inr_iff
    by (auto simp: quoteOrRefuse_def dest!: chargedSplit_Inr split: if_splits option.splits sum.splits)
  moreover have "sr_verified subRec" using sub by (simp add: check_subscription_def)
  ultimately show ?thesis using identify_Inr [OF ident] accountFor_Inr f pf by metis
qed

text \<open>A move of the subscription of one account that leaves every other table alone.\<close>

definition only_moves :: "string \<Rightarrow> billing_db \<Rightarrow> billing_db \<Rightarrow> bool" where
  "only_moves a db db' \<longleftrightarrow> store_ok (bl_store db') \<and> confined_to a (bl_store db) (bl_store db') \<and>
    bl_payments db' = bl_payments db \<and> bl_invoices db' = bl_invoices db \<and> bl_counters db' = bl_counters db \<and>
    bl_ledger db' = bl_ledger db \<and> bl_webhooks db' = bl_webhooks db"

lemma only_moves_trans: "only_moves a x y \<Longrightarrow> only_moves a y z \<Longrightarrow> only_moves a x z"
  by (auto simp: only_moves_def intro: confined_trans)

lemma payment_move_frame:
  assumes "payment_move ids pf action e now db = Inr (row, db')" "store_ok (bl_store db)"
    "pf_account pf \<in> set (sd_accounts (bl_store db))"
  shows "only_moves (ba_id (pf_account pf)) db db'"
  using assms by (auto simp: payment_move_def only_moves_def apply_sub_ok apply_sub_confined split: sum.splits)

lemma only_moves_account: "only_moves a db db' \<Longrightarrow> sd_accounts (bl_store db') = sd_accounts (bl_store db)"
  by (simp add: only_moves_def confined_to_def)

lemma settle_frame:
  assumes settle: "settle_payment ids api pf now db = Inr (sid, note, db')" and ok: "store_ok (bl_store db)"
    and acc: "pf_account pf \<in> set (sd_accounts (bl_store db))"
  shows "only_moves (ba_id (pf_account pf)) db db'" "note \<noteq> Some AlreadyApplied"
proof -
  let ?a = "ba_id (pf_account pf)"
  have self: "only_moves ?a db db" using ok by (simp add: only_moves_def)
  have two: "only_moves ?a db db2"
    if "only_moves ?a db db1" "payment_move ids pf action e now db1 = Inr (row, db2)" for db1 db2 action e row
  proof -
    have "store_ok (bl_store db1)" "pf_account pf \<in> set (sd_accounts (bl_store db1))"
      using that(1) acc only_moves_account [OF that(1)] by (simp_all add: only_moves_def)
    from payment_move_frame [OF that(2) this] that(1) show ?thesis by (rule only_moves_trans [rotated])
  qed
  have "only_moves ?a db db' \<and> note \<noteq> Some AlreadyApplied"
    using settle self
    by (auto simp: settle_payment_def Let_def rbind_Inr_iff only_moves_def [of _ db "db\<lparr>bl_audit := _\<rparr>"] ok
      split: if_splits option.splits dest: two [OF self] two)
  then show "only_moves ?a db db'" "note \<noteq> Some AlreadyApplied" by blast+
qed

lemma recordPaid_frame:
  assumes "recordPaidInTx env i inp db = Inr (invoice, db')"
  shows "bl_store db' = bl_store db \<and> bl_payments db' = bl_payments db \<and> bl_ledger db' = bl_ledger db \<and>
    bl_webhooks db' = bl_webhooks db"
  using assms by (auto simp: recordPaidInTx_def Let_def rbind_Inr_iff split: option.splits if_splits prod.splits)

lemma find_payment_None: "find_payment key ref db = None \<longleftrightarrow> (key, ref) \<notin> set (payment_keys db)"
  by (auto simp: find_payment_def find_None_iff payment_keys_def)

lemma link_invoice_simps [simp]:
  "bl_store (link_invoice p i db) = bl_store db" "payment_keys (link_invoice p i db) = payment_keys db"
  "bl_webhooks (link_invoice p i db) = bl_webhooks db"
  by (auto simp: link_invoice_def payment_keys_def)

lemma payment_tx_cases:
  assumes tx: "payment_tx env ids api pf now db = Inr (nt, db')" and ok: "store_ok (bl_store db)"
    and acc: "pf_account pf \<in> set (sd_accounts (bl_store db))"
  defines "key \<equiv> (pa_key api, pr_paymentRef (pf_record pf))"
  shows "if key \<in> set (payment_keys db) then nt = Some AlreadyApplied \<and> db' = db
    else nt \<noteq> Some AlreadyApplied \<and> payment_keys db' = payment_keys db @ [key] \<and> store_ok (bl_store db') \<and>
      confined_to (ba_id (pf_account pf)) (bl_store db) (bl_store db') \<and> bl_webhooks db' = bl_webhooks db"
proof (cases "key \<in> set (payment_keys db)")
  case True
  then have "find_payment (pa_key api) (pr_paymentRef (pf_record pf)) db \<noteq> None" by (simp add: find_payment_None key_def)
  with True tx show ?thesis by (simp add: payment_tx_def Let_def)
next
  case False
  then have "find_payment (pa_key api) (pr_paymentRef (pf_record pf)) db = None" by (simp add: find_payment_None key_def)
  with tx obtain db1 sid db2 db3 and inp :: invoice_input and invoice :: organizer_invoice where
    add: "add_payment ids (pa_key api) (pf_record pf) (ba_id (pf_account pf)) (pf_split pf) now db = Inr db1" and
    set: "settle_payment ids api pf now db1 = Inr (sid, nt, db2)" and
    inv: "recordPaidInTx env (ni_invoice ids) inp db2 = Inr (invoice, db3)" and
    db': "db' = link_invoice (ni_payment ids) (oi_id invoice) db3"
    by (clarsimp simp: payment_tx_def Let_def rbind_Inr_iff)
  have add': "bl_store db1 = bl_store db" "payment_keys db1 = payment_keys db @ [key]" "bl_webhooks db1 = bl_webhooks db"
    using add by (auto simp: add_payment_def key_def payment_keys_def split: if_splits)
  have mv: "only_moves (ba_id (pf_account pf)) db1 db2" "nt \<noteq> Some AlreadyApplied"
    using settle_frame [OF set] ok acc add'(1) by simp_all
  have "payment_keys db3 = payment_keys db1"
    using recordPaid_frame [OF inv] mv(1) by (simp add: payment_keys_def only_moves_def)
  with recordPaid_frame [OF inv] mv add' False show ?thesis by (simp add: db' only_moves_def)
qed

lemma payment_Inr:
  assumes "payment env ids api ref now db = Inr (a, db')"
  shows "\<exists>pf nt. check_payment env api ref now db = Inr pf \<and> payment_tx env ids api pf now db = Inr (nt, db') \<and>
    (ap_status a = NOT_APPLIED \<longleftrightarrow> nt = Some AlreadyApplied)"
  using assms by (auto simp: payment_def rbind_Inr_iff)

lemma payment_frame:
  assumes "payment env ids api ref now db = Inr (a, db')" "billing_ok db"
  shows "billing_ok db' \<and> set (payment_keys db) \<subseteq> set (payment_keys db') \<and> bl_webhooks db' = bl_webhooks db"
proof -
  obtain pf nt where pf: "check_payment env api ref now db = Inr pf" "payment_tx env ids api pf now db = Inr (nt, db')"
    using payment_Inr [OF assms(1)] by blast
  have "store_ok (bl_store db)" "pf_account pf \<in> set (sd_accounts (bl_store db))"
    using assms(2) check_payment_Inr [OF pf(1)] by (auto simp: billing_ok_def)
  from payment_tx_cases [OF pf(2) this] assms(2) show ?thesis
    by (auto simp: billing_ok_def split: if_splits)
qed

text \<open>
  A payment that was handled is not applied by a later handling of the same payment of the same provider, as long
  as its row is still there.
\<close>

lemma payment_applied_once:
  assumes "payment env ids api ref now db = Inr (a, db')" "billing_ok db"
    and "check_payment env api ref now db = Inr pf"
    and "set (payment_keys db') \<subseteq> set (payment_keys db2)" "billing_ok db2"
    and "check_payment env2 api2 ref2 now2 db2 = Inr pf2" "pa_key api2 = pa_key api"
      "pr_paymentRef (pf_record pf2) = pr_paymentRef (pf_record pf)"
  shows "\<exists>r. payment env2 ids2 api2 ref2 now2 db2 = Inr (r, db2) \<and> ap_status r = NOT_APPLIED"
proof -
  obtain nt where tx: "payment_tx env ids api pf now db = Inr (nt, db')"
    using payment_Inr [OF assms(1)] assms(3) by auto
  have "store_ok (bl_store db)" "pf_account pf \<in> set (sd_accounts (bl_store db))"
    using assms(2) check_payment_Inr [OF assms(3)] by (auto simp: billing_ok_def)
  from payment_tx_cases [OF tx this] have "(pa_key api, pr_paymentRef (pf_record pf)) \<in> set (payment_keys db')"
    by (auto split: if_splits)
  with assms(4) have "find_payment (pa_key api2) (pr_paymentRef (pf_record pf2)) db2 \<noteq> None"
    unfolding find_payment_None assms(7,8) by blast
  with assms(6) show ?thesis by (simp add: payment_def payment_tx_def Let_def)
qed

text \<open>
  What a handled payment rests on.  Whenever a payment event is handled, the provider has a verified record of the
  payment, for exactly the amount of a known price (its quoted total where the charge includes tax) in its
  currency and for the country of the account; the account is the one the provider's customer or organization
  belongs to; and no subscription of another account and none that has ended is changed.
\<close>

lemma payment_needs_exact_money:
  assumes "payment env ids api ref now db = Inr (a, db')" "billing_ok db"
  shows "\<exists>pf f. pa_fetchPaymentRecord api = Some f \<and> f 1 (the ref) = Inr (pf_record pf) \<and> pr_verified (pf_record pf) \<and>
    exact_charge env api pf \<and> pf_price pf \<in> set (bl_prices db) \<and> pr_currency (pf_record pf) = bpr_currency (pf_price pf) \<and>
    bpr_country (pf_price pf) = ba_country (pf_account pf) \<and> pf_account pf \<in> set (sd_accounts (bl_store db)) \<and>
    (pa_key api = RAZORPAY_BILLING \<longrightarrow> pr_organizationId (pf_record pf) = Some (ba_organizationId (pf_account pf))) \<and>
    (pa_key api \<noteq> RAZORPAY_BILLING \<longrightarrow> ba_providerCustomerRef (pf_account pf) = pr_customerRef (pf_record pf)) \<and>
    confined_to (ba_id (pf_account pf)) (bl_store db) (bl_store db')"
proof -
  obtain pf nt where pf: "check_payment env api ref now db = Inr pf" "payment_tx env ids api pf now db = Inr (nt, db')"
    using payment_Inr [OF assms(1)] by blast
  note facts = check_payment_Inr [OF pf(1)]
  have "store_ok (bl_store db)" "pf_account pf \<in> set (sd_accounts (bl_store db))"
    using assms(2) facts by (auto simp: billing_ok_def)
  from payment_tx_cases [OF pf(2) this] have "confined_to (ba_id (pf_account pf)) (bl_store db) (bl_store db')"
    by (auto split: if_splits)
  with facts show ?thesis by blast
qed

section \<open>Two payments that go wrong\<close>

text \<open>
  A payment for a subscription that is set to end with its period is not recorded at all: the renewal is refused
  and takes the payment row and the invoice with it.
\<close>

lemma payment_for_cancelling_subscription_lost:
  assumes "current_sub (ba_id (pf_account pf)) (bl_store db) = Some c"
    and "os_providerSubscriptionRef c = Some (pf_subscriptionRef pf)" "paid_status (ss_status (os_snapshot c))"
    and "ss_cancelAtPeriodEnd (os_snapshot c)" "before e (Some (pf_periodEnd pf))" "ss_currentPeriodEnd (os_snapshot c) = Some e"
    and "bpr_planId (pf_price pf) = ss_planId (os_snapshot c)"
    and "store_ok (bl_store db)" "pf_account pf \<in> set (sd_accounts (bl_store db))"
    and "find_payment (pa_key api) (pr_paymentRef (pf_record pf)) db = None" "ni_payment ids \<notin> set (map py_id (bl_payments db))"
  shows "payment_tx env ids api pf now db = Inl (Rejected (TransitionInvalid INVALID_TRANSITION)) \<and>
    \<not> isTransientBillingError (Rejected (TransitionInvalid INVALID_TRANSITION))"
proof -
  have "ss_status (os_snapshot c) \<in> set [ACTIVE, PAST_DUE, GRACE]" using assms(3) by (auto simp: paid_status_def)
  then have "transition (Some (toSnapshot c)) (RENEW (pf_periodEnd pf) (evidence_of api pf)) now = Inl INVALID_TRANSITION"
    using assms(4) by (simp add: when_in_def toSnapshot_def)
  then have "payment_move ids pf action (RENEW (pf_periodEnd pf) (evidence_of api pf)) now db' =
      Inl (Rejected (TransitionInvalid INVALID_TRANSITION))" if "bl_store db' = bl_store db" for action db'
    using assms(1) that ensure_existing [OF assms(8,9), of "ni_account ids"]
    by (simp add: payment_move_def apply_sub_def applyInTx_def Let_def)
  with assms show ?thesis
    by (simp add: payment_tx_def settle_payment_def add_payment_def Let_def current_sub_def is_app_exception_def)
qed

definition ex_price :: "string \<Rightarrow> string \<Rightarrow> minor \<Rightarrow> billing_price" where
  "ex_price ref plan amount = \<lparr>bpr_id = ref, bpr_planId = plan, bpr_country = ''US'', bpr_currency = ''USD'', bpr_interval = MONTH,
     bpr_amountMinor = amount, bpr_providerPriceRefTest = Some ref, bpr_providerPriceRefLive = None\<rparr>"

definition ex_account :: billing_account where
  "ex_account = \<lparr>ba_id = ''acc'', ba_organizationId = ''org'', ba_country = ''US'', ba_currency = ''USD'', ba_provider = STRIPE_BILLING,
     ba_providerCustomerRef = Some ''cus'', ba_taxId = None, ba_billingEmail = None, ba_disputedAt = None, ba_disputeRef = None\<rparr>"

text \<open>A database with one account and the subscription given.\<close>

definition ex_db :: "sub_snapshot option \<Rightarrow> billing_db" where
  "ex_db s = \<lparr>bl_store = \<lparr>sd_orgs = [], sd_plans = [], sd_accounts = [ex_account],
       sd_subs = (case s of None \<Rightarrow> [] | Some s \<Rightarrow> [\<lparr>os_id = ''sub'', os_accountId = ''acc'', os_snapshot = s, os_priceId = Some ''price_big'',
         os_providerSubscriptionRef = Some ''sub_ref'', os_currentKey = Some ''acc'', os_grantedByUserId = None, os_note = None,
         os_providerStateAt = None, os_version = 1\<rparr>]), sd_audit = [], sd_changed = []\<rparr>,
     bl_prices = [ex_price ''price_big'' ''premium'' 9900, ex_price ''price_small'' ''pro'' 2900], bl_payments = [], bl_invoices = [],
     bl_counters = (\<lambda>_. 0), bl_webhooks = [], bl_purchases = [], bl_ledger = [], bl_audit = [], bl_reminders = []\<rparr>"

definition ex_payment :: payment_record where
  "ex_payment = \<lparr>pr_verified = True, pr_paymentRef = ''in_1'', pr_amountMinor = 2900, pr_currency = ''USD'', pr_purpose = SUBSCRIPTION_PAYMENT,
     pr_taxMinor = 0, pr_customerRef = Some ''cus'', pr_subscriptionRef = Some ''sub_ref'', pr_providerPriceRef = Some ''price_small'',
     pr_periodStart = Some 1000, pr_periodEnd = Some 2000, pr_organizationId = Some ''org'', pr_invoiceRef = None, pr_creditPackCode = None,
     pr_purchaseRef = None, pr_paidAt = Some 1000\<rparr>"

definition ex_subscription :: sub_record where
  "ex_subscription = \<lparr>sr_verified = True, sr_customerRef = Some ''cus'', sr_status = PS_ACTIVE, sr_cancelAtPeriodEnd = Some False,
     sr_periodStart = Some 1000, sr_periodEnd = Some 2000, sr_organizationId = Some ''org'', sr_latestPaidPaymentRef = Some ''in_1''\<rparr>"

definition ex_api :: provider_api where
  "ex_api = \<lparr>pa_key = STRIPE_BILLING, pa_live = False, pa_fetchPaymentRecord = Some (\<lambda>_ _. Inr ex_payment),
     pa_fetchSubscription = Some (\<lambda>_ _. Inr ex_subscription), pa_fetchDispute = None, pa_parseEvent = None\<rparr>"

definition ex_env :: billing_env where
  "ex_env = \<lparr>en_quote = (\<lambda>_ _ _ _. None), en_seller = (\<lambda>_ _. Inr None), en_graceDays = 7, en_pastDueDays = 7\<rparr>"

definition ex_ids :: new_ids where
  "ex_ids = \<lparr>ni_account = ''a2'', ni_subscription = ''s2'', ni_payment = ''p1'', ni_invoice = ''i1'', ni_ledger = ''l1''\<rparr>"

lemmas ex_billing = ex_price_def ex_account_def ex_db_def ex_payment_def ex_subscription_def ex_api_def ex_env_def ex_ids_def

lemma ex_billing_ok: "billing_ok (ex_db None)"
  by (simp add: billing_ok_def payment_keys_def store_ok_def rows_apart_def ex_billing)

lemma ex_checked: "\<exists>pf. check_payment ex_env ex_api (Some ''in_1'') t (ex_db s) = Inr pf \<and>
    pf_account pf = ex_account \<and> bpr_planId (pf_price pf) = ''pro'' \<and> pr_paymentRef (pf_record pf) = ''in_1'' \<and>
    pf_subscriptionRef pf = ''sub_ref'' \<and> pf_periodStart pf = 1000 \<and> pf_periodEnd pf = 2000 \<and> pf_record pf = ex_payment \<and>
    pf_subRecord pf = ex_subscription \<and> bpr_id (pf_price pf) = ''price_small'' \<and>
    pf_split pf = \<lparr>cs_netMinor = 2900, cs_taxMinor = 0, cs_lines = []\<rparr> \<and> pf_paidAt pf = 1000"
  by (simp add: check_payment_def identify_payment_def truthy_def ask_def need_def accountFor_def priceFor_def split_payment_def
    quoteOrRefuse_def chargedSplit_def js_trunc_def check_subscription_def Let_def ex_billing)

lemma ex_payment_applied: "\<exists>a db'. payment ex_env ex_ids ex_api (Some ''in_1'') 1500 (ex_db None) = Inr (a, db') \<and>
    ap_status a = APPLIED \<and> map (ss_status \<circ> os_snapshot) (sd_subs (bl_store db')) = [ACTIVE] \<and>
    sd_accounts (bl_store db') = sd_accounts (bl_store (ex_db None)) \<and> bl_prices db' = bl_prices (ex_db None)"
  by (simp add: payment_def check_payment_def identify_payment_def truthy_def ask_def need_def accountFor_def priceFor_def
    split_payment_def quoteOrRefuse_def chargedSplit_def js_trunc_def check_subscription_def Let_def ex_billing payment_tx_def
    find_payment_def add_payment_def settle_payment_def current_sub_def provider_live_def payment_move_def apply_sub_def applyInTx_def
    ensureBillingAccount_def startable_def requireVerifiedPayment_def verified_payment_def evidence_of_def is_integer_def
    fresh_sub_def save_move_def create_sub_def new_row_def recordPaidInTx_def assertNoGstFromUnregistered_def case_prod_beta
    link_invoice_def)

definition ex_past_due :: sub_snapshot where
  "ex_past_due = (fresh_sub ACTIVE PROVIDER ''premium'' 0 (Some 1000))\<lparr>ss_status := PAST_DUE\<rparr>"

text \<open>
  A payment for another plan's price on a subscription that is past due renews the old plan: the plan is changed
  only for an active subscription, so the organizer keeps the premium plan with the price of the small one.
\<close>

lemma past_due_payment_keeps_old_plan: "\<exists>a db' row. payment ex_env ex_ids ex_api (Some ''in_1'') 1500 (ex_db (Some ex_past_due)) = Inr (a, db') \<and>
    ap_status a = APPLIED \<and> sd_subs (bl_store db') = [row] \<and> ss_status (os_snapshot row) = ACTIVE \<and>
    ss_planId (os_snapshot row) = ''premium'' \<and> os_priceId row = Some ''price_small''"
  by (simp add: payment_def check_payment_def identify_payment_def truthy_def ask_def need_def accountFor_def priceFor_def
    split_payment_def quoteOrRefuse_def chargedSplit_def js_trunc_def check_subscription_def Let_def ex_billing payment_tx_def
    find_payment_def add_payment_def settle_payment_def current_sub_def payment_move_def apply_sub_def applyInTx_def
    ensureBillingAccount_def when_in_def keep_sub_def toSnapshot_def requireVerifiedPayment_def verified_payment_def evidence_of_def is_integer_def
    fresh_sub_def save_move_def update_sub_def moved_row_def recordPaidInTx_def assertNoGstFromUnregistered_def case_prod_beta
    link_invoice_def ex_past_due_def)

lemma check_payment_cong:
  assumes "sd_accounts (bl_store db) = sd_accounts (bl_store db2)" "bl_prices db = bl_prices db2"
  shows "check_payment env api ref now db = check_payment env api ref now db2"
proof -
  have "identify_payment api f ref db = identify_payment api f ref db2" for f
    unfolding identify_payment_def accountFor_def priceFor_def assms ..
  then show ?thesis by (simp add: check_payment_def split: option.split)
qed

lemma payment_needs_exact_money_witness:
  "\<exists>a db' pf. payment ex_env ex_ids ex_api (Some ''in_1'') 1500 (ex_db None) = Inr (a, db') \<and> exact_charge ex_env ex_api pf \<and>
    confined_to (ba_id (pf_account pf)) (bl_store (ex_db None)) (bl_store db')"
  using ex_payment_applied payment_needs_exact_money [OF _ ex_billing_ok] by metis

end
