(* ===== verification/BillingIntake.thy ===== *)
theory BillingIntake
  imports BillingEvents
begin

text \<open>
  How billing events come in and what they do: the rest of \<^verbatim>\<open>billing/billing-provider-events.service.ts\<close>
  (status changes reconciled with the provider's record, credit packs, disputes, the intake of webhooks with its
  retries) and the billing sweep of \<^verbatim>\<open>billing/billing-sweep.service.ts\<close>.

  Shown here: no sequence of deliveries, retries and sweeps breaks the books (\<open>billing_ok\<close>) or forgets a payment,
  a settled event is a duplicate from then on, a status event brings the subscription to what the provider
  reports, and credits are granted once per payment.
\<close>

section \<open>Status changes\<close>

definition local_sub :: "string option \<Rightarrow> billing_db \<Rightarrow> org_subscription option" where
  "local_sub subRef db = find (\<lambda>r. os_providerSubscriptionRef r = subRef) (sd_subs (bl_store db))"

fun movesFor :: "org_subscription \<Rightarrow> sub_record \<Rightarrow> event_type \<Rightarrow> time_ms \<Rightarrow> (sub_event \<times> string) list" where
  "movesFor local rec ev graceEndsAt =
    (let s = os_snapshot local in
     case sr_status rec of
       PS_CANCELLED \<Rightarrow> [(CANCEL_NOW, ''BILLING_CANCELLED_BY_PROVIDER'')]
     | PS_COMPLETED \<Rightarrow> [(CANCEL_NOW, ''BILLING_CANCELLED_BY_PROVIDER'')]
     | PS_HALTED \<Rightarrow>
        if ss_status s = ACTIVE
        then [(PAYMENT_FAILED, ''BILLING_PAYMENT_FAILED''), (ENTER_GRACE graceEndsAt, ''BILLING_GRACE_STARTED'')]
        else if ss_status s = PAST_DUE then [(ENTER_GRACE graceEndsAt, ''BILLING_GRACE_STARTED'')] else []
     | PS_PAST_DUE \<Rightarrow> if ss_status s = ACTIVE then [(PAYMENT_FAILED, ''BILLING_PAYMENT_FAILED'')] else []
     | PS_INCOMPLETE \<Rightarrow> []
     | PS_AUTHENTICATED \<Rightarrow> []
     | _ \<Rightarrow>
        if ev = EV_SUBSCRIPTION_CANCELLED \<or> ev = EV_PAYMENT_FAILED then []
        else if sr_cancelAtPeriodEnd rec = Some True \<and> (ss_status s = ACTIVE \<or> ss_status s = PAST_DUE) \<and>
          \<not> ss_cancelAtPeriodEnd s then [(CANCEL_AT_PERIOD_END, ''BILLING_CANCEL_SCHEDULED_BY_PROVIDER'')]
        else if sr_cancelAtPeriodEnd rec = Some False \<and> ss_status s = ACTIVE \<and> ss_cancelAtPeriodEnd s
        then [(RESUME, ''BILLING_RESUMED_BY_PROVIDER'')] else [])"

definition stamp :: "string \<Rightarrow> time_ms option \<Rightarrow> billing_db \<Rightarrow> billing_db" where
  "stamp subscriptionId at' db =
    (case at' of
       None \<Rightarrow> db
     | Some t \<Rightarrow> db\<lparr>bl_store := (bl_store db)\<lparr>sd_subs :=
         map (\<lambda>r. if os_id r = subscriptionId \<and> (case os_providerStateAt r of None \<Rightarrow> True | Some u \<Rightarrow> u < t)
                  then r\<lparr>os_providerStateAt := Some t\<rparr> else r) (sd_subs (bl_store db))\<rparr>\<rparr>)"

definition status_context :: "new_ids \<Rightarrow> string \<Rightarrow> apply_context" where
  "status_context ids action = \<lparr>ac_auditAction = action, ac_actorUserId = None, ac_reason = None, ac_priceId = None,
     ac_providerSubscriptionRef = None, ac_newAccountId = ni_account ids, ac_newSubscriptionId = ni_subscription ids\<rparr>"

definition apply_moves ::
  "new_ids \<Rightarrow> string \<Rightarrow> (sub_event \<times> string) list \<Rightarrow> time_ms \<Rightarrow> org_subscription \<times> sub_store \<Rightarrow>
   billing_error + (org_subscription \<times> sub_store)" where
  "apply_moves ids org moves now = rfold (\<lambda>(event, action) (_, db). apply_sub (status_context ids action) org event now db) moves"

definition stage_after :: "org_subscription \<Rightarrow> dunning_stage option" where
  "stage_after r = (case ss_status (os_snapshot r) of PAST_DUE \<Rightarrow> Some DS_PAST_DUE | GRACE \<Rightarrow> Some DS_GRACE | _ \<Rightarrow> None)"

definition remind :: "string \<Rightarrow> org_subscription \<Rightarrow> dunning_stage option \<Rightarrow> billing_db \<Rightarrow> billing_db" where
  "remind org r stage db = (case stage of None \<Rightarrow> db
     | Some g \<Rightarrow> db\<lparr>bl_reminders := bl_reminders db @ [(org, os_id r, g)]\<rparr>)"

definition another_customer :: "sub_record \<Rightarrow> string \<Rightarrow> sub_store \<Rightarrow> bool" where
  "another_customer rec accountId db =
    (case find (\<lambda>a. ba_id a = accountId) (sd_accounts db) of
       None \<Rightarrow> False
     | Some account \<Rightarrow> truthy (sr_customerRef rec) \<and> truthy (ba_providerCustomerRef account) \<and>
         sr_customerRef rec \<noteq> ba_providerCustomerRef account)"

definition reconcile_live ::
  "billing_env \<Rightarrow> new_ids \<Rightarrow> provider_api \<Rightarrow> org_subscription \<Rightarrow> sub_record \<Rightarrow> billing_event \<Rightarrow> time_ms \<Rightarrow> billing_db \<Rightarrow>
   event_error + (applied \<times> billing_db)" where
  "reconcile_live env ids api local rec ev now db =
    need (sr_verified rec) (need (\<not> another_customer rec (os_accountId local) (bl_store db))
      (if sr_status rec = PS_ACTIVE \<and> truthy (sr_latestPaidPaymentRef rec) \<and> ss_status (os_snapshot local) \<in> {PAST_DUE, GRACE}
       then payment env ids api (sr_latestPaidPaymentRef rec) now db
       else let moves = movesFor local rec (be_type ev) (now + en_graceDays env * DAY);
           org = org_of_account (bl_store db) (os_accountId local) in
         if moves = [] then Inr (ignored (Some (os_accountId local)), stamp (os_id local) (be_occurredAt ev) db)
         else case apply_moves ids org moves now (local, bl_store db) of
           Inl e \<Rightarrow> Inl (Rejected e)
         | Inr (after, store) \<Rightarrow>
             Inr (processed None (os_accountId local),
               remind org after (stage_after after) (stamp (os_id local) (be_occurredAt ev) (db\<lparr>bl_store := store\<rparr>)))))"

definition stale_event :: "billing_event \<Rightarrow> org_subscription \<Rightarrow> bool" where
  "stale_event ev local \<longleftrightarrow> (case be_occurredAt ev of None \<Rightarrow> False | Some t \<Rightarrow> before t (os_providerStateAt local))"

definition reconcile ::
  "billing_env \<Rightarrow> new_ids \<Rightarrow> provider_api \<Rightarrow> string option \<Rightarrow> billing_event \<Rightarrow> time_ms \<Rightarrow> billing_db \<Rightarrow>
   event_error + (applied \<times> billing_db)" where
  "reconcile env ids api subRef ev now db =
    (if \<not> truthy subRef then Inr (ignored None, db)
     else case pa_fetchSubscription api of
       None \<Rightarrow> Inl Refused
     | Some fetchSubscription \<Rightarrow>
        (case local_sub subRef db of
           None \<Rightarrow> rbind (ask (fetchSubscription 0 (the subRef))) (\<lambda>rec.
             if sr_verified rec \<and> sr_status rec = PS_ACTIVE \<and> truthy (sr_latestPaidPaymentRef rec)
             then payment env ids api (sr_latestPaidPaymentRef rec) now db
             else Inr (ignored None, db))
         | Some local \<Rightarrow>
             if isTerminal (ss_status (os_snapshot local)) \<or> stale_event ev local
             then Inr (ignored (Some (os_accountId local)), db)
             else rbind (ask (fetchSubscription 0 (the subRef))) (\<lambda>rec. reconcile_live env ids api local rec ev now db)))"

section \<open>A credit pack\<close>

record credit_pack =
  ck_code :: string
  ck_credits :: int

definition EMAIL_CREDIT_PACKS :: "credit_pack list" where
  "EMAIL_CREDIT_PACKS = [\<lparr>ck_code = ''EMAIL_1K'', ck_credits = 1000\<rparr>, \<lparr>ck_code = ''EMAIL_5K'', ck_credits = 5000\<rparr>,
     \<lparr>ck_code = ''EMAIL_10K'', ck_credits = 10000\<rparr>]"

definition creditPackByCode :: "string option \<Rightarrow> credit_pack option" where
  "creditPackByCode code = find (\<lambda>p. Some (ck_code p) = code) EMAIL_CREDIT_PACKS"

record pack_facts =
  kf_record :: payment_record
  kf_pack :: credit_pack
  kf_account :: billing_account
  kf_purchase :: credit_purchase
  kf_split :: charged_split

definition quoted_purchase :: "credit_purchase \<Rightarrow> tax_quote" where
  "quoted_purchase p = \<lparr>tq_mode = cp_taxMode p, tq_currency = cp_currency p, tq_netMinor = cp_netMinor p,
     tq_taxMinor = cp_taxMinor p, tq_totalMinor = cp_totalMinor p, tq_lines = cp_taxLines p\<rparr>"

definition check_pack :: "provider_api \<Rightarrow> string option \<Rightarrow> billing_db \<Rightarrow> event_error + pack_facts" where
  "check_pack api paymentRef db =
    (case pa_fetchPaymentRecord api of
       None \<Rightarrow> Inl Refused
     | Some fetchPaymentRecord \<Rightarrow> need (truthy paymentRef) (rbind (ask (fetchPaymentRecord 1 (the paymentRef))) (\<lambda>rec.
         need (pr_verified rec \<and> pr_purpose rec = CREDIT_PACK)
           (case creditPackByCode (pr_creditPackCode rec) of
              None \<Rightarrow> Inl Refused
            | Some pack \<Rightarrow> need (truthy (pr_organizationId rec))
                (case find (\<lambda>a. Some (ba_organizationId a) = pr_organizationId rec) (sd_accounts (bl_store db)) of
                   None \<Rightarrow> Inl Refused
                 | Some account \<Rightarrow> need (ba_provider account = pa_key api)
                     (need (\<not> (truthy (pr_customerRef rec) \<and> truthy (ba_providerCustomerRef account) \<and>
                         pr_customerRef rec \<noteq> ba_providerCustomerRef account))
                       (case (if truthy (pr_purchaseRef rec)
                              then find (\<lambda>p. Some (cp_purchaseRef p) = pr_purchaseRef rec) (bl_purchases db) else None) of
                          None \<Rightarrow> Inl Refused
                        | Some purchase \<Rightarrow> need (cp_organizationId purchase = ba_organizationId account \<and>
                              cp_packCode purchase = ck_code pack \<and> cp_currency purchase = pr_currency rec)
                            (rbind (chargedSplit (pa_key api) rec (cp_netMinor purchase) (Some (quoted_purchase purchase))) (\<lambda>split.
                              Inr \<lparr>kf_record = rec, kf_pack = pack, kf_account = account, kf_purchase = purchase,
                                kf_split = split\<rparr>)))))))))"

definition grant_credits :: "new_ids \<Rightarrow> provider_api \<Rightarrow> pack_facts \<Rightarrow> billing_db \<Rightarrow> event_error + billing_db" where
  "grant_credits ids api kf db =
    (let row = \<lparr>lg_id = ni_ledger ids, lg_organizationId = ba_organizationId (kf_account kf), lg_delta = ck_credits (kf_pack kf),
         lg_refId = ni_payment ids,
         lg_idempotencyKey = ''billing-pack:'' @ provider_name (pa_key api) @ '':'' @ pr_paymentRef (kf_record kf)\<rparr> in
     if list_ex (\<lambda>r. lg_id r = lg_id row \<or> lg_idempotencyKey r = lg_idempotencyKey row) (bl_ledger db)
     then Inl (Rejected UniqueViolation)
     else Inr (db\<lparr>bl_ledger := bl_ledger db @ [row]\<rparr>))"

definition pack_tx ::
  "billing_env \<Rightarrow> new_ids \<Rightarrow> provider_api \<Rightarrow> pack_facts \<Rightarrow> time_ms \<Rightarrow> billing_db \<Rightarrow> event_error + (bool \<times> billing_db)" where
  "pack_tx env ids api kf now db =
    (let rec = kf_record kf; accountId = ba_id (kf_account kf); paidAt = nvl (pr_paidAt rec) now in
     if find_payment (pa_key api) (pr_paymentRef rec) db \<noteq> None then Inr (True, db)
     else rbind (add_payment ids (pa_key api) rec accountId (kf_split kf) now db) (\<lambda>db.
       rbind (grant_credits ids api kf db) (\<lambda>db.
         rbind (recordPaidInTx env (ni_invoice ids)
             \<lparr>ii_accountId = accountId, ii_provider = pa_key api,
              ii_providerInvoiceRef = nvl (pr_invoiceRef rec) (pr_paymentRef rec), ii_currency = pr_currency rec,
              ii_lines = [(1, cs_netMinor (kf_split kf))], ii_taxMinor = cs_taxMinor (kf_split kf),
              ii_taxLines = cs_lines (kf_split kf), ii_subscriptionId = None, ii_periodStart = None, ii_periodEnd = None,
              ii_paidAt = paidAt\<rparr> db)
           (\<lambda>(invoice, db). Inr (False, link_invoice (ni_payment ids) (oi_id invoice)
             (db\<lparr>bl_purchases := map (\<lambda>p. if cp_purchaseRef p = cp_purchaseRef (kf_purchase kf) then p\<lparr>cp_paidAt := Some paidAt\<rparr> else p)
                  (bl_purchases db),
                bl_audit := bl_audit db @ [(''BILLING_CREDIT_PACK_PURCHASED'', ni_ledger ids)]\<rparr>))))))"

definition creditPack ::
  "billing_env \<Rightarrow> new_ids \<Rightarrow> provider_api \<Rightarrow> string option \<Rightarrow> time_ms \<Rightarrow> billing_db \<Rightarrow> event_error + (applied \<times> billing_db)" where
  "creditPack env ids api paymentRef now db =
    rbind (check_pack api paymentRef db) (\<lambda>kf.
      rbind (pack_tx env ids api kf now db) (\<lambda>(already, db).
        Inr (\<lparr>ap_status = (if already then NOT_APPLIED else APPLIED), ap_note = (if already then Some AlreadyApplied else None),
              ap_accountId = Some (ba_id (kf_account kf))\<rparr>, db)))"

section \<open>A dispute\<close>

definition dispute :: "provider_api \<Rightarrow> string option \<Rightarrow> time_ms \<Rightarrow> billing_db \<Rightarrow> event_error + (applied \<times> billing_db)" where
  "dispute api disputeRef now db =
    (case pa_fetchDispute api of
       None \<Rightarrow> Inr (ignored None, db)
     | Some fetchDispute \<Rightarrow>
        if \<not> truthy disputeRef then Inr (ignored None, db)
        else rbind (ask (fetchDispute (the disputeRef))) (\<lambda>rec.
          if \<not> dr_verified rec \<or> \<not> truthy (dr_customerRef rec) then Inr (ignored None, db)
          else case find (\<lambda>a. ba_provider a = pa_key api \<and> ba_providerCustomerRef a = dr_customerRef rec)
              (sd_accounts (bl_store db)) of
            None \<Rightarrow> Inr (ignored None, db)
          | Some account \<Rightarrow> Inr (processed None (ba_id account),
              db\<lparr>bl_store := (bl_store db)\<lparr>sd_accounts := map (\<lambda>a. if ba_id a = ba_id account
                   then a\<lparr>ba_disputedAt := Some now, ba_disputeRef := Some (dr_disputeRef rec)\<rparr> else a) (sd_accounts (bl_store db))\<rparr>,
                 bl_audit := bl_audit db @ [(''BILLING_DISPUTE_OPENED'', ba_id account)]\<rparr>)))"

section \<open>What an event means\<close>

definition apply_event ::
  "billing_env \<Rightarrow> new_ids \<Rightarrow> provider_api \<Rightarrow> billing_event \<Rightarrow> time_ms \<Rightarrow> billing_db \<Rightarrow> event_error + (applied \<times> billing_db)" where
  "apply_event env ids api ev now db =
    (case be_type ev of
       EV_IGNORED \<Rightarrow> Inr (ignored None, db)
     | EV_INVOICE_FINALIZED \<Rightarrow> Inr (ignored None, db)
     | EV_PAYMENT_CAPTURED \<Rightarrow> payment env ids api (be_paymentRef ev) now db
     | EV_CREDIT_PACK_PAID \<Rightarrow> creditPack env ids api (be_paymentRef ev) now db
     | EV_DISPUTE_OPENED \<Rightarrow> dispute api (be_objectRef ev) now db
     | EV_PAYMENT_FAILED \<Rightarrow>
        if \<not> truthy (be_providerSubscriptionRef ev) \<and> truthy (be_paymentRef ev) \<and> pa_fetchPaymentRecord api \<noteq> None
        then rbind (ask (the (pa_fetchPaymentRecord api) 0 (the (be_paymentRef ev)))) (\<lambda>rec.
               reconcile env ids api (pr_subscriptionRef rec) ev now db)
        else reconcile env ids api (be_providerSubscriptionRef ev) ev now db
     | _ \<Rightarrow> reconcile env ids api (be_providerSubscriptionRef ev) ev now db)"

section \<open>The intake of webhooks\<close>

datatype ingest_outcome = DUPLICATE | OUT_PROCESSED | OUT_IGNORED | OUT_FAILED | DEFERRED

definition IN_FLIGHT_MS :: time_ms where
  "IN_FLIGHT_MS = 60000"

definition MAX_ATTEMPTS :: nat where
  "MAX_ATTEMPTS = 8"

definition update_webhook :: "string \<Rightarrow> (webhook_row \<Rightarrow> webhook_row) \<Rightarrow> billing_db \<Rightarrow> billing_db" where
  "update_webhook i f db = db\<lparr>bl_webhooks := map (\<lambda>w. if wh_id w = i then f w else w) (bl_webhooks db)\<rparr>"

definition process_event ::
  "billing_env \<Rightarrow> new_ids \<Rightarrow> provider_api \<Rightarrow> string \<Rightarrow> billing_event \<Rightarrow> time_ms \<Rightarrow> billing_db \<Rightarrow> ingest_outcome \<times> billing_db" where
  "process_event env ids api rowId ev now db =
    (let db = update_webhook rowId (\<lambda>w. w\<lparr>wh_attempts := wh_attempts w + 1\<rparr>) db in
     case apply_event env ids api ev now db of
       Inr (r, db) \<Rightarrow>
         (if ap_status r = APPLIED then OUT_PROCESSED else OUT_IGNORED,
          update_webhook rowId (\<lambda>w. w\<lparr>wh_status := (if ap_status r = APPLIED then WH_PROCESSED else WH_IGNORED),
            wh_accountId := ap_accountId r, wh_processedAt := Some now\<rparr>) db)
     | Inl e \<Rightarrow>
         if isTransientBillingError e then (DEFERRED, db)
         else (OUT_FAILED, update_webhook rowId (\<lambda>w. w\<lparr>wh_status := WH_FAILED, wh_processedAt := Some now\<rparr>) db))"

definition receive ::
  "billing_env \<Rightarrow> new_ids \<Rightarrow> string \<Rightarrow> provider_api \<Rightarrow> billing_event \<Rightarrow> time_ms \<Rightarrow> billing_db \<Rightarrow>
   event_error + (ingest_outcome \<times> billing_db)" where
  "receive env ids rowId api ev now db =
    (if be_providerEventId ev = [] then Inl Refused
     else case find (\<lambda>w. wh_provider w = pa_key api \<and> wh_providerEventId w = be_providerEventId ev) (bl_webhooks db) of
       Some existing \<Rightarrow>
         if wh_status existing \<noteq> WH_RECEIVED \<or> now - wh_receivedAt existing < IN_FLIGHT_MS then Inr (DUPLICATE, db)
         else Inr (process_event env ids api (wh_id existing) ev now db)
     | None \<Rightarrow>
         if rowId \<in> set (map wh_id (bl_webhooks db)) then Inr (DUPLICATE, db)
         else Inr (process_event env ids api rowId ev now
           (db\<lparr>bl_webhooks := bl_webhooks db @ [\<lparr>wh_id = rowId, wh_provider = pa_key api,
              wh_providerEventId = be_providerEventId ev, wh_payload = be_payload ev, wh_status = WH_RECEIVED, wh_accountId = None,
              wh_attempts = 0, wh_occurredAt = be_occurredAt ev, wh_receivedAt = now, wh_processedAt = None\<rparr>]\<rparr>)))"

text \<open>\<open>registry\<close> is \<^verbatim>\<open>BillingProviderRegistry.byKey\<close>, \<open>None\<close> where it throws; \<open>ids\<close> gives the new identifiers per row.\<close>

definition retry_row ::
  "billing_env \<Rightarrow> (string \<Rightarrow> new_ids) \<Rightarrow> (billing_provider \<Rightarrow> provider_api option) \<Rightarrow> time_ms \<Rightarrow> webhook_row \<Rightarrow>
   nat \<times> billing_db \<Rightarrow> nat \<times> billing_db" where
  "retry_row env ids registry now row st =
    (if MAX_ATTEMPTS \<le> wh_attempts row
     then (fst st, update_webhook (wh_id row) (\<lambda>w. w\<lparr>wh_status := WH_FAILED, wh_processedAt := Some now\<rparr>) (snd st))
     else case registry (wh_provider row) of
       None \<Rightarrow> st
     | Some api \<Rightarrow>
        (case pa_parseEvent api of
           None \<Rightarrow> st
         | Some parseEvent \<Rightarrow> (fst st + 1, snd (process_event env (ids (wh_id row)) api (wh_id row)
             (parseEvent (wh_payload row) (wh_providerEventId row)) now (snd st)))))"

definition pending_rows :: "time_ms \<Rightarrow> nat \<Rightarrow> billing_db \<Rightarrow> webhook_row list" where
  "pending_rows now limit db = take limit (sort_key wh_receivedAt (filter (\<lambda>w. wh_status w = WH_RECEIVED \<and>
     wh_provider w \<in> {STRIPE_BILLING, RAZORPAY_BILLING} \<and> wh_receivedAt w < now - IN_FLIGHT_MS) (bl_webhooks db)))"

definition retryPending ::
  "billing_env \<Rightarrow> (string \<Rightarrow> new_ids) \<Rightarrow> (billing_provider \<Rightarrow> provider_api option) \<Rightarrow> time_ms \<Rightarrow> nat \<Rightarrow> billing_db \<Rightarrow> nat \<times> billing_db" where
  "retryPending env ids registry now limit db = fold (retry_row env ids registry now) (pending_rows now limit db) (0, db)"

section \<open>The billing sweep\<close>

definition recover ::
  "billing_env \<Rightarrow> new_ids \<Rightarrow> (billing_provider \<Rightarrow> provider_api option) \<Rightarrow> billing_provider \<Rightarrow> string option \<Rightarrow> time_ms \<Rightarrow>
   billing_db \<Rightarrow> bool \<times> billing_db" where
  "recover env ids registry key subRef now db =
    (if \<not> truthy subRef \<or> key \<notin> {STRIPE_BILLING, RAZORPAY_BILLING} then (False, db)
     else case registry key of
       None \<Rightarrow> (False, db)
     | Some api \<Rightarrow>
        (case pa_fetchSubscription api of
           None \<Rightarrow> (False, db)
         | Some fetchSubscription \<Rightarrow>
            (case fetchSubscription 0 (the subRef) of
               Inl _ \<Rightarrow> (False, db)
             | Inr rec \<Rightarrow>
                if \<not> sr_verified rec \<or> sr_status rec \<noteq> PS_ACTIVE \<or> \<not> truthy (sr_latestPaidPaymentRef rec) then (False, db)
                else case payment env ids api (sr_latestPaidPaymentRef rec) now db of
                  Inl _ \<Rightarrow> (False, db)
                | Inr (r, db) \<Rightarrow> (ap_status r = APPLIED, db))))"

definition sweep_move :: "new_ids \<Rightarrow> string \<Rightarrow> sub_event \<Rightarrow> time_ms \<Rightarrow> billing_db \<Rightarrow> billing_error + (bool \<times> billing_db)" where
  "sweep_move ids org event now db =
    (case apply_sub (status_context ids (if event = PAYMENT_FAILED then ''BILLING_RENEWAL_MISSING'' else ''BILLING_GRACE_STARTED''))
        org event now (bl_store db) of
       Inr (_, store) \<Rightarrow> Inr (True, db\<lparr>bl_store := store\<rparr>)
     | Inl e \<Rightarrow> if is_app_exception e then Inr (False, db) else Inl e)"

record sweep_report =
  sw_expired :: nat
  sw_pastDue :: nat
  sw_grace :: nat
  sw_recovered :: nat
  sw_reminders :: nat
  sw_webhooksRetried :: nat

text \<open>One row of the second and third step: ask the provider first, otherwise make the move.\<close>

definition sweep_row ::
  "billing_env \<Rightarrow> (string \<Rightarrow> new_ids) \<Rightarrow> (billing_provider \<Rightarrow> provider_api option) \<Rightarrow> sub_event \<Rightarrow>
   (sweep_report \<Rightarrow> sweep_report) \<Rightarrow> time_ms \<Rightarrow> org_subscription \<Rightarrow> sweep_report \<times> billing_db \<Rightarrow>
   billing_error + (sweep_report \<times> billing_db)" where
  "sweep_row env ids registry event count now s st =
    (let (report, db) = st;
         account = find (\<lambda>a. ba_id a = os_accountId s) (sd_accounts (bl_store db));
         key = (case account of None \<Rightarrow> NONE | Some a \<Rightarrow> ba_provider a);
         (found, db) = recover env (ids (os_id s)) registry key (os_providerSubscriptionRef s) now db in
     if found then Inr (report\<lparr>sw_recovered := sw_recovered report + 1\<rparr>, db)
     else rbind (sweep_move (ids (os_id s)) (org_of_account (bl_store db) (os_accountId s)) event now db) (\<lambda>(moved, db).
       Inr (if moved then count report else report, db)))"

definition provider_rows :: "(sub_snapshot \<Rightarrow> bool) \<Rightarrow> nat \<Rightarrow> billing_db \<Rightarrow> org_subscription list" where
  "provider_rows P n db = take n (filter (\<lambda>r. os_currentKey r \<noteq> None \<and> ss_source (os_snapshot r) = PROVIDER \<and> P (os_snapshot r))
     (sd_subs (bl_store db)))"

definition ended_before :: "time_ms \<Rightarrow> sub_snapshot \<Rightarrow> bool" where
  "ended_before t s \<longleftrightarrow> (case ss_currentPeriodEnd s of None \<Rightarrow> False | Some e \<Rightarrow> e < t)"

definition dunning_row :: "time_ms \<Rightarrow> org_subscription \<Rightarrow> sweep_report \<times> billing_db \<Rightarrow> sweep_report \<times> billing_db" where
  "dunning_row now s st =
    (case dunningStageFor (os_snapshot s) now of
       None \<Rightarrow> st
     | Some stage \<Rightarrow> ((fst st)\<lparr>sw_reminders := sw_reminders (fst st) + 1\<rparr>,
         remind (org_of_account (bl_store (snd st)) (os_accountId s)) s (Some stage) (snd st)))"

definition sweep_lapsed ::
  "billing_env \<Rightarrow> (string \<Rightarrow> new_ids) \<Rightarrow> (billing_provider \<Rightarrow> provider_api option) \<Rightarrow> time_ms \<Rightarrow> sweep_report \<times> billing_db \<Rightarrow>
   billing_error + (sweep_report \<times> billing_db)" where
  "sweep_lapsed env ids registry now st =
    rfold (sweep_row env ids registry PAYMENT_FAILED (\<lambda>r. r\<lparr>sw_pastDue := sw_pastDue r + 1\<rparr>) now)
      (provider_rows (\<lambda>s. ss_status s = ACTIVE \<and> \<not> ss_cancelAtPeriodEnd s \<and>
         ended_before (now - RENEWAL_TOLERANCE_MS) s) 200 (snd st)) st"

definition sweep_overdue ::
  "billing_env \<Rightarrow> (string \<Rightarrow> new_ids) \<Rightarrow> (billing_provider \<Rightarrow> provider_api option) \<Rightarrow> time_ms \<Rightarrow> sweep_report \<times> billing_db \<Rightarrow>
   billing_error + (sweep_report \<times> billing_db)" where
  "sweep_overdue env ids registry now st =
    rfold (sweep_row env ids registry (ENTER_GRACE (now + en_graceDays env * DAY)) (\<lambda>r. r\<lparr>sw_grace := sw_grace r + 1\<rparr>) now)
      (provider_rows (\<lambda>s. ss_status s = PAST_DUE \<and>
         ended_before (now - RENEWAL_TOLERANCE_MS - en_pastDueDays env * DAY) s) 200 (snd st)) st"

definition sweep_dunning :: "time_ms \<Rightarrow> sweep_report \<times> billing_db \<Rightarrow> sweep_report \<times> billing_db" where
  "sweep_dunning now st = fold (dunning_row now)
     (provider_rows (\<lambda>s. ss_status s = PAST_DUE \<or> ss_status s = GRACE) 500 (snd st)) st"

definition run_sweep ::
  "billing_env \<Rightarrow> (string \<Rightarrow> new_ids) \<Rightarrow> (billing_provider \<Rightarrow> provider_api option) \<Rightarrow> time_ms \<Rightarrow> billing_db \<Rightarrow>
   billing_error + (sweep_report \<times> billing_db)" where
  "run_sweep env ids registry now db =
    rbind (sweep now (bl_store db)) (\<lambda>(expired, store).
      rbind (sweep_lapsed env ids registry now (\<lparr>sw_expired = expired, sw_pastDue = 0, sw_grace = 0, sw_recovered = 0,
          sw_reminders = 0, sw_webhooksRetried = 0\<rparr>, db\<lparr>bl_store := store\<rparr>)) (\<lambda>st.
        rbind (sweep_overdue env ids registry now st) (\<lambda>st.
          let st = sweep_dunning now st;
              retried = retryPending env ids registry now 25 (snd st) in
          Inr ((fst st)\<lparr>sw_webhooksRetried := fst retried\<rparr>, snd retried))))"

section \<open>The books are kept\<close>

text \<open>An event is settled when the row of its delivery is no longer waiting.\<close>

definition delivery :: "billing_provider \<Rightarrow> string \<Rightarrow> billing_db \<Rightarrow> webhook_row option" where
  "delivery key eventId db = find (\<lambda>w. wh_provider w = key \<and> wh_providerEventId w = eventId) (bl_webhooks db)"

definition settled_event :: "billing_provider \<Rightarrow> string \<Rightarrow> billing_db \<Rightarrow> bool" where
  "settled_event key eventId db \<longleftrightarrow> (case delivery key eventId db of None \<Rightarrow> False | Some w \<Rightarrow> wh_status w \<noteq> WH_RECEIVED)"

definition settles :: "(webhook_row \<Rightarrow> webhook_row) \<Rightarrow> bool" where
  "settles f \<longleftrightarrow> (\<forall>w. wh_provider (f w) = wh_provider w \<and> wh_providerEventId (f w) = wh_providerEventId w \<and>
     (wh_status w \<noteq> WH_RECEIVED \<longrightarrow> wh_status (f w) \<noteq> WH_RECEIVED))"

definition books_kept :: "billing_db \<Rightarrow> billing_db \<Rightarrow> bool" where
  "books_kept db db' \<longleftrightarrow> (billing_ok db \<longrightarrow> billing_ok db' \<and> set (payment_keys db) \<subseteq> set (payment_keys db') \<and>
     (\<forall>key eventId. settled_event key eventId db \<longrightarrow> settled_event key eventId db'))"

lemma settled_same: "bl_webhooks db' = bl_webhooks db \<Longrightarrow> settled_event key eventId db' \<longleftrightarrow> settled_event key eventId db"
  by (simp add: settled_event_def delivery_def)

lemma delivery_update:
  assumes "settles f"
  shows "delivery key eventId (update_webhook i f db) = map_option (\<lambda>w. if wh_id w = i then f w else w) (delivery key eventId db)"
proof -
  have "(wh_provider (if wh_id w = i then f w else w) = key \<and> wh_providerEventId (if wh_id w = i then f w else w) = eventId) \<longleftrightarrow>
    (wh_provider w = key \<and> wh_providerEventId w = eventId)" for w using assms by (simp add: settles_def)
  then show ?thesis by (simp add: delivery_def update_webhook_def find_map_same)
qed

lemma books_refl [simp]: "books_kept db db"
  by (simp add: books_kept_def)

lemma books_trans [trans]: "books_kept x y \<Longrightarrow> books_kept y z \<Longrightarrow> books_kept x z"
  by (auto simp: books_kept_def)

lemma books_store:
  assumes "store_ok (bl_store db) \<Longrightarrow> store_ok store"
  shows "books_kept db (db\<lparr>bl_store := store\<rparr>)"
  using assms by (simp add: books_kept_def billing_ok_def payment_keys_def settled_same [of "db\<lparr>bl_store := store\<rparr>" db])

lemma books_webhook: "settles f \<Longrightarrow> books_kept db (update_webhook i f db)"
  by (auto simp: books_kept_def settled_event_def delivery_update split: option.splits)
    (auto simp: settles_def billing_ok_def payment_keys_def update_webhook_def)

lemma books_new_delivery: "books_kept db (db\<lparr>bl_webhooks := bl_webhooks db @ [w]\<rparr>)"
  by (auto simp: books_kept_def billing_ok_def payment_keys_def settled_event_def delivery_def find_append split: option.splits)

lemma books_other [simp]: "books_kept db (db\<lparr>bl_reminders := r\<rparr>)" "books_kept db (remind org row stage db)"
  by (auto simp: books_kept_def billing_ok_def payment_keys_def settled_event_def delivery_def remind_def split: option.splits)

lemma books_payment: "payment env ids api ref now db = Inr (a, db') \<Longrightarrow> books_kept db db'"
  unfolding books_kept_def using payment_frame settled_same by blast

text \<open>Rows changed in a column that no constraint mentions, and accounts that keep their names.\<close>

lemma store_ok_restamped:
  assumes "\<And>r. os_id (f r) = os_id r \<and> os_currentKey (f r) = os_currentKey r \<and>
      os_providerSubscriptionRef (f r) = os_providerSubscriptionRef r \<and> os_snapshot (f r) = os_snapshot r \<and> os_accountId (f r) = os_accountId r"
  shows "store_ok (db\<lparr>sd_subs := map f (sd_subs db)\<rparr>) \<longleftrightarrow> store_ok db"
proof -
  have "rows_clash (f x) (f y) \<longleftrightarrow> rows_clash x y" for x y using assms by (simp add: rows_clash_def)
  moreover have "row_ok accounts (f x) \<longleftrightarrow> row_ok accounts x" for accounts x using assms by (simp add: row_ok_def)
  ultimately show ?thesis by (simp add: store_ok_def rows_apart_def sorted_wrt_map list_all_iff)
qed

lemma store_ok_accounts:
  assumes "\<And>a. ba_id (f a) = ba_id a \<and> ba_organizationId (f a) = ba_organizationId a"
  shows "store_ok (db\<lparr>sd_accounts := map f (sd_accounts db)\<rparr>) \<longleftrightarrow> store_ok db"
proof -
  have names: "map ba_id (map f (sd_accounts db)) = map ba_id (sd_accounts db)"
    "map ba_organizationId (map f (sd_accounts db)) = map ba_organizationId (sd_accounts db)" using assms by simp_all
  then have "row_ok (map f (sd_accounts db)) = row_ok (sd_accounts db)" unfolding row_ok_def fun_eq_iff by simp
  then show ?thesis by (simp add: store_ok_def names del: map_map)
qed

lemma stamp_ok: "store_ok (bl_store (stamp i t db)) \<longleftrightarrow> store_ok (bl_store db)"
  unfolding stamp_def by (cases t) (auto simp: store_ok_restamped)

lemma books_stamp: "books_kept db (stamp i t db)"
  unfolding stamp_def by (cases t) (auto intro!: books_store simp: store_ok_restamped)

lemma apply_moves_ok: "apply_moves ids org moves now (r, db) = Inr (r', db') \<Longrightarrow> store_ok db \<Longrightarrow> store_ok db'"
proof (induction moves arbitrary: r db)
  case (Cons m moves)
  then obtain r1 db1 where m: "apply_sub (status_context ids (snd m)) org (fst m) now db = Inr (r1, db1)"
    "apply_moves ids org moves now (r1, db1) = Inr (r', db')"
    by (auto simp: apply_moves_def rbind_Inr_iff case_prod_beta)
  with Cons.IH apply_sub_ok [OF Cons.prems(2) m(1)] show ?case by blast
qed (simp add: apply_moves_def)

lemma books_reconcile_live:
  assumes "reconcile_live env ids api local rec ev now db = Inr (a, db')"
  shows "books_kept db db'"
proof -
  consider "payment env ids api (sr_latestPaidPaymentRef rec) now db = Inr (a, db')"
    | "db' = stamp (os_id local) (be_occurredAt ev) db"
    | org moves after store where "apply_moves ids org moves now (local, bl_store db) = Inr (after, store)"
      "db' = remind org after (stage_after after) (stamp (os_id local) (be_occurredAt ev) (db\<lparr>bl_store := store\<rparr>))"
    using assms by (auto simp: reconcile_live_def Let_def split: if_splits sum.splits)
  then show ?thesis
  proof cases
    case 3
    have "books_kept db (db\<lparr>bl_store := store\<rparr>)" by (rule books_store) (rule apply_moves_ok [OF 3(1)])
    also have "books_kept \<dots> (stamp (os_id local) (be_occurredAt ev) (db\<lparr>bl_store := store\<rparr>))" by (rule books_stamp)
    also have "books_kept \<dots> db'" unfolding 3(2) by simp
    finally show ?thesis .
  qed (simp_all add: books_payment books_stamp)
qed

lemma books_reconcile: "reconcile env ids api subRef ev now db = Inr (a, db') \<Longrightarrow> books_kept db db'"
  by (auto simp: reconcile_def rbind_Inr_iff split: if_splits option.splits intro: books_payment books_reconcile_live)

lemma pack_tx_cases:
  assumes tx: "pack_tx env ids api kf now db = Inr (already, db')"
  defines "key \<equiv> (pa_key api, pr_paymentRef (kf_record kf))"
  shows "if key \<in> set (payment_keys db) then already \<and> db' = db
    else \<not> already \<and> payment_keys db' = payment_keys db @ [key] \<and> bl_store db' = bl_store db \<and> bl_webhooks db' = bl_webhooks db \<and>
      (\<exists>row. bl_ledger db' = bl_ledger db @ [row] \<and> lg_delta row = ck_credits (kf_pack kf) \<and>
        lg_organizationId row = ba_organizationId (kf_account kf))"
proof (cases "key \<in> set (payment_keys db)")
  case True
  then have "find_payment (pa_key api) (pr_paymentRef (kf_record kf)) db \<noteq> None" by (simp add: find_payment_None key_def)
  with True tx show ?thesis by (simp add: pack_tx_def Let_def)
next
  case False
  then have "find_payment (pa_key api) (pr_paymentRef (kf_record kf)) db = None" by (simp add: find_payment_None key_def)
  with tx obtain db1 db2 db3 purchases audit and inp :: invoice_input and invoice :: organizer_invoice where
    add: "add_payment ids (pa_key api) (kf_record kf) (ba_id (kf_account kf)) (kf_split kf) now db = Inr db1" and
    gr: "grant_credits ids api kf db1 = Inr db2" and
    inv: "recordPaidInTx env (ni_invoice ids) inp db2 = Inr (invoice, db3)" and
    db': "db' = link_invoice (ni_payment ids) (oi_id invoice) (db3\<lparr>bl_purchases := purchases, bl_audit := audit\<rparr>)" and al: "\<not> already"
    by (clarsimp simp: pack_tx_def Let_def rbind_Inr_iff)
  have "bl_store db1 = bl_store db" "payment_keys db1 = payment_keys db @ [key]" "bl_ledger db1 = bl_ledger db" "bl_webhooks db1 = bl_webhooks db"
    using add by (auto simp: add_payment_def key_def payment_keys_def split: if_splits)
  moreover have "bl_store db2 = bl_store db1" "payment_keys db2 = payment_keys db1" "bl_webhooks db2 = bl_webhooks db1"
    "\<exists>row. bl_ledger db2 = bl_ledger db1 @ [row] \<and> lg_delta row = ck_credits (kf_pack kf) \<and>
        lg_organizationId row = ba_organizationId (kf_account kf)"
    using gr by (auto simp: grant_credits_def Let_def payment_keys_def split: if_splits)
  moreover have "payment_keys (db3\<lparr>bl_purchases := purchases, bl_audit := audit\<rparr>) = payment_keys db2"
    using recordPaid_frame [OF inv] by (simp add: payment_keys_def)
  moreover have "bl_ledger (link_invoice p i d) = bl_ledger d" "bl_webhooks (link_invoice p i d) = bl_webhooks d" for p i d
    by (simp_all add: link_invoice_def)
  ultimately show ?thesis using recordPaid_frame [OF inv] False al by (simp add: db')
qed

lemma books_creditPack: "creditPack env ids api ref now db = Inr (a, db') \<Longrightarrow> books_kept db db'"
  by (auto simp: creditPack_def rbind_Inr_iff books_kept_def billing_ok_def settled_event_def delivery_def dest!: pack_tx_cases split: if_splits)

lemma books_dispute: "dispute api ref now db = Inr (a, db') \<Longrightarrow> books_kept db db'"
  by (auto simp: dispute_def rbind_Inr_iff books_kept_def billing_ok_def payment_keys_def store_ok_accounts settled_event_def delivery_def
    split: if_splits option.splits)

lemma books_apply: "apply_event env ids api ev now db = Inr (a, db') \<Longrightarrow> books_kept db db'"
  by (auto simp: apply_event_def rbind_Inr_iff split: event_type.splits if_splits
    intro: books_payment books_creditPack books_dispute books_reconcile)

lemma apply_webhooks:
  assumes "apply_event env ids api ev now db = Inr (a, db')" "billing_ok db"
  shows "bl_webhooks db' = bl_webhooks db"
proof -
  have pay: "bl_webhooks d' = bl_webhooks db" if "payment env ids api ref now db = Inr (x, d')" for ref x d'
    using payment_frame [OF that assms(2)] by blast
  have live: "bl_webhooks d' = bl_webhooks db" if "reconcile_live env ids api local rec ev now db = Inr (x, d')" for local rec x d'
    using that pay by (auto simp: reconcile_live_def Let_def stamp_def remind_def split: if_splits sum.splits option.splits)
  have rcn: "bl_webhooks d' = bl_webhooks db" if "reconcile env ids api ref ev now db = Inr (x, d')" for ref x d'
    using that pay live by (auto simp: reconcile_def rbind_Inr_iff split: if_splits option.splits)
  have pack: "bl_webhooks d' = bl_webhooks db" if "creditPack env ids api ref now db = Inr (x, d')" for ref x d'
    using that by (auto simp: creditPack_def rbind_Inr_iff dest!: pack_tx_cases split: if_splits)
  have disp: "bl_webhooks d' = bl_webhooks db" if "dispute api ref now db = Inr (x, d')" for ref x d'
    using that by (auto simp: dispute_def rbind_Inr_iff split: if_splits option.splits)
  show ?thesis using assms(1) pay rcn pack disp
    by (auto simp: apply_event_def rbind_Inr_iff split: event_type.splits if_splits)
qed

lemma settles_intro [intro]:
  "(\<And>w. wh_provider (f w) = wh_provider w \<and> wh_providerEventId (f w) = wh_providerEventId w \<and>
     (wh_status w \<noteq> WH_RECEIVED \<longrightarrow> wh_status (f w) \<noteq> WH_RECEIVED)) \<Longrightarrow> settles f"
  by (simp add: settles_def)

text \<open>Handling an event: it is deferred and only counted, or the books are kept and the row of the event is settled.\<close>

lemma process_cases:
  assumes "process_event env ids api i ev now db = (out, db')"
  obtains (deferred) "out = DEFERRED" "books_kept db db'"
  | (finished) db1 f where "out \<in> {OUT_PROCESSED, OUT_IGNORED, OUT_FAILED}" "books_kept (update_webhook i (\<lambda>w. w\<lparr>wh_attempts := wh_attempts w + 1\<rparr>) db) db1"
      "billing_ok db \<longrightarrow> bl_webhooks db1 = bl_webhooks (update_webhook i (\<lambda>w. w\<lparr>wh_attempts := wh_attempts w + 1\<rparr>) db)"
      "db' = update_webhook i f db1" "settles f" "\<forall>w. wh_status (f w) \<noteq> WH_RECEIVED"
proof -
  let ?db = "update_webhook i (\<lambda>w. w\<lparr>wh_attempts := wh_attempts w + 1\<rparr>) db"
  have start: "books_kept db ?db" by (rule books_webhook) auto
  show thesis
  proof (cases "apply_event env ids api ev now ?db")
    case (Inl e)
    show ?thesis
    proof (cases "isTransientBillingError e")
      case True
      with Inl assms start show ?thesis by (intro deferred) (simp_all add: process_event_def Let_def)
    next
      case False
      with Inl assms show ?thesis
        by (intro finished [of ?db "\<lambda>w. w\<lparr>wh_status := WH_FAILED, wh_processedAt := Some now\<rparr>"])
          (auto simp: process_event_def Let_def)
    qed
  next
    case (Inr p)
    obtain r db1 where p: "p = (r, db1)" by force
    have "billing_ok ?db \<longleftrightarrow> billing_ok db" by (simp add: billing_ok_def payment_keys_def update_webhook_def)
    then have "billing_ok db \<longrightarrow> bl_webhooks db1 = bl_webhooks ?db" using apply_webhooks [OF Inr [unfolded p]] by simp
    with Inr p assms books_apply [OF Inr [unfolded p]] show ?thesis
      by (intro finished [of db1 "\<lambda>w. w\<lparr>wh_status := (if ap_status r = APPLIED then WH_PROCESSED else WH_IGNORED),
            wh_accountId := ap_accountId r, wh_processedAt := Some now\<rparr>"])
        (auto simp: process_event_def Let_def)
  qed
qed

lemma books_process: "books_kept db (snd (process_event env ids api i ev now db))"
proof -
  obtain out db' where run: "process_event env ids api i ev now db = (out, db')" by force
  then show ?thesis
  proof (cases rule: process_cases)
    case (finished db1 f)
    have "books_kept db (update_webhook i (\<lambda>w. w\<lparr>wh_attempts := wh_attempts w + 1\<rparr>) db)" by (rule books_webhook) auto
    also have "books_kept \<dots> db1" by (fact finished)
    also have "books_kept \<dots> db'" unfolding finished(4) by (rule books_webhook) (fact finished)
    finally show ?thesis by (simp add: run)
  qed (simp add: run)
qed

lemma books_receive:
  assumes "receive env ids i api ev now db = Inr (out, db')"
  shows "books_kept db db'"
proof -
  have "books_kept db (snd (process_event env ids api j ev now (db\<lparr>bl_webhooks := bl_webhooks db @ [w]\<rparr>)))" for j w
    by (rule books_trans [OF books_new_delivery books_process])
  moreover have "books_kept db (snd (process_event env ids api j ev now db))" for j by (rule books_process)
  ultimately show ?thesis using assms by (auto simp: receive_def split: if_splits option.splits) (metis snd_conv)+
qed

lemma books_retry_row: "books_kept (snd st) (snd (retry_row env ids registry now row st))"
  by (auto simp: retry_row_def books_process intro!: books_webhook split: option.splits)

lemma books_fold:
  assumes "\<And>x st. books_kept (snd st) (snd (f x st))"
  shows "books_kept (snd st) (snd (fold f xs st))"
proof (induction xs arbitrary: st)
  case (Cons x xs)
  have "books_kept (snd st) (snd (f x st))" by (rule assms)
  also have "books_kept \<dots> (snd (fold f xs (f x st)))" by (rule Cons.IH)
  finally show ?case by simp
qed simp

lemma books_retryPending: "books_kept db (snd (retryPending env ids registry now limit db))"
  using books_fold [of "retry_row env ids registry now" "(0, db)"] books_retry_row by (simp add: retryPending_def)

lemma books_recover: "books_kept db (snd (recover env ids registry key subRef now db))"
  by (auto simp: recover_def books_payment split: option.splits sum.splits)

lemma books_sweep_move: "sweep_move ids org e now db = Inr (b, db') \<Longrightarrow> books_kept db db'"
  by (auto simp: sweep_move_def split: sum.splits if_splits intro!: books_store intro: apply_sub_ok)

lemma books_sweep_row:
  assumes "sweep_row env ids registry e count now s st = Inr st'"
  shows "books_kept (snd st) (snd st')"
proof -
  obtain report db where st: "st = (report, db)" by force
  define key where "key = (case find (\<lambda>a. ba_id a = os_accountId s) (sd_accounts (bl_store db)) of None \<Rightarrow> NONE | Some a \<Rightarrow> ba_provider a)"
  obtain found db1 where rec: "recover env (ids (os_id s)) registry key (os_providerSubscriptionRef s) now db = (found, db1)" by force
  then have db1: "books_kept db db1" using books_recover [of db env "ids (os_id s)" registry key "os_providerSubscriptionRef s" now] by simp
  have run: "sweep_row env ids registry e count now s st =
    (if found then Inr (report\<lparr>sw_recovered := sw_recovered report + 1\<rparr>, db1)
     else rbind (sweep_move (ids (os_id s)) (org_of_account (bl_store db1) (os_accountId s)) e now db1) (\<lambda>(moved, db).
       Inr (if moved then count report else report, db)))"
    unfolding sweep_row_def st Let_def prod.case key_def [symmetric] rec ..
  show ?thesis
  proof (cases found)
    case True
    with run assms db1 st show ?thesis by auto
  next
    case False
    with run assms have "rbind (sweep_move (ids (os_id s)) (org_of_account (bl_store db1) (os_accountId s)) e now db1) (\<lambda>(moved, db).
       Inr (if moved then count report else report, db)) = Inr st'" by simp
    then obtain moved where "sweep_move (ids (os_id s)) (org_of_account (bl_store db1) (os_accountId s)) e now db1 = Inr (moved, snd st')"
      by (auto simp: rbind_Inr_iff)
    from books_trans [OF db1 books_sweep_move [OF this]] st show ?thesis by simp
  qed
qed

lemma books_rfold:
  assumes "\<And>x st st'. f x st = Inr st' \<Longrightarrow> books_kept (snd st) (snd st')"
  shows "rfold f xs st = Inr st' \<Longrightarrow> books_kept (snd st) (snd st')"
proof (induction xs arbitrary: st)
  case (Cons x xs)
  then obtain st1 where st1: "f x st = Inr st1" "rfold f xs st1 = Inr st'" by (auto simp: rbind_Inr_iff)
  from books_trans [OF assms [OF st1(1)] Cons.IH [OF st1(2)]] show ?case .
qed simp

lemma books_run_sweep:
  assumes "run_sweep env ids registry now db = Inr (report, db')"
  shows "books_kept db db'"
proof -
  obtain n store where sw: "sweep now (bl_store db) = Inr (n, store)"
    using assms by (auto simp: run_sweep_def rbind_Inr_iff)
  define st0 :: "sweep_report \<times> billing_db" where "st0 = (\<lparr>sw_expired = n, sw_pastDue = 0, sw_grace = 0, sw_recovered = 0,
    sw_reminders = 0, sw_webhooksRetried = 0\<rparr>, db\<lparr>bl_store := store\<rparr>)"
  then have st0: "snd st0 = db\<lparr>bl_store := store\<rparr>" by simp
  obtain st1 where one: "sweep_lapsed env ids registry now st0 = Inr st1"
    using assms sw by (auto simp: run_sweep_def rbind_Inr_iff st0_def)
  obtain st2 where two: "sweep_overdue env ids registry now st1 = Inr st2"
    using assms sw one by (auto simp: run_sweep_def rbind_Inr_iff st0_def)
  have rest: "db' = snd (retryPending env ids registry now 25 (snd (sweep_dunning now st2)))"
    using assms sw one two by (simp add: run_sweep_def st0_def Let_def)
  have rows: "rfold (sweep_row env ids registry e count now) xs st = Inr st' \<Longrightarrow> books_kept (snd st) (snd st')" for e count xs st st'
    by (rule books_rfold [where f = "sweep_row env ids registry e count now"]) (rule books_sweep_row)
  have "store_ok (bl_store db) \<Longrightarrow> store_ok store" using sweep_rows_ok [of "(0, bl_store db)" now _ "(n, store)"] sw by (simp add: sweep_def)
  then have "books_kept db (snd st0)" unfolding st0 by (rule books_store)
  also have "books_kept \<dots> (snd st1)" using one unfolding sweep_lapsed_def by (rule rows)
  also have "books_kept \<dots> (snd st2)" using two unfolding sweep_overdue_def by (rule rows)
  also have "books_kept \<dots> (snd (sweep_dunning now st2))"
    unfolding sweep_dunning_def by (rule books_fold) (auto simp: dunning_row_def split: option.splits)
  also have "books_kept \<dots> db'" unfolding rest by (rule books_retryPending)
  finally show ?thesis .
qed

text \<open>Everything that writes to the billing tables, in any order and any number of times.\<close>

inductive intake_step :: "billing_db \<Rightarrow> billing_db \<Rightarrow> bool" where
  delivered: "receive env ids i api ev now db = Inr (out, db') \<Longrightarrow> intake_step db db'"
| retried: "retryPending env idsOf registry now limit db = (n, db') \<Longrightarrow> intake_step db db'"
| billing_sweep: "run_sweep env idsOf registry now db = Inr (report, db') \<Longrightarrow> intake_step db db'"
| staff: "store_step (bl_store db) store \<Longrightarrow> intake_step db (db\<lparr>bl_store := store\<rparr>)"

lemma intake_step_books: "intake_step db db' \<Longrightarrow> books_kept db db'"
proof (induction rule: intake_step.induct)
  case (retried env idsOf registry now limit db n db')
  then show ?case using books_retryPending [of db env idsOf registry now limit] by simp
next
  case (staff db store)
  then show ?case by (intro books_store) (rule store_step_ok)
qed (auto intro: books_receive books_run_sweep)

lemma intake_run_books: "intake_step\<^sup>*\<^sup>* db db' \<Longrightarrow> books_kept db db'"
  by (induction rule: rtranclp_induct) (auto intro: books_trans intake_step_books)

section \<open>Properties of the intake\<close>

text \<open>
  C9.  The billing books over any run.  However deliveries, retries, billing sweeps, staff grants and direct moves of
  subscriptions follow each other, a payment is recorded at most once per provider reference, no recorded payment
  is forgotten, an event that was settled stays settled, and no account ever has two live subscriptions.
\<close>

theorem billing_books_invariant:
  assumes "intake_step\<^sup>*\<^sup>* db db'" "billing_ok db"
  shows "billing_ok db' \<and> set (payment_keys db) \<subseteq> set (payment_keys db') \<and>
    (\<forall>key eventId. settled_event key eventId db \<longrightarrow> settled_event key eventId db') \<and>
    length (filter (\<lambda>r. os_accountId r = a \<and> \<not> isTerminal (ss_status (os_snapshot r))) (sd_subs (bl_store db'))) \<le> 1"
proof -
  have kept: "books_kept db db'" by (rule intake_run_books [OF assms(1)])
  with assms(2) have "store_ok (bl_store db')" by (simp add: books_kept_def billing_ok_def)
  from live_row_unique [OF this] kept assms(2) show ?thesis by (auto simp: books_kept_def)
qed

text \<open>
  C8.  A payment is never applied twice.  When a payment was handled, then after any run of the intake every later
  handling of the same payment of the same provider, whatever event announces it, leaves the database as it is
  and reports that nothing was applied: no second period, invoice or payment row.
\<close>

theorem payment_never_applied_twice:
  assumes "payment env ids api ref now db = Inr (a, db1)" "billing_ok db"
    and "check_payment env api ref now db = Inr pf"
    and "intake_step\<^sup>*\<^sup>* db1 db2"
    and "check_payment env2 api2 ref2 now2 db2 = Inr pf2" "pa_key api2 = pa_key api"
      "pr_paymentRef (pf_record pf2) = pr_paymentRef (pf_record pf)"
  shows "\<exists>r. payment env2 ids2 api2 ref2 now2 db2 = Inr (r, db2) \<and> ap_status r = NOT_APPLIED"
proof -
  have "billing_ok db1" using payment_frame [OF assms(1,2)] by blast
  with intake_run_books [OF assms(4)] have "set (payment_keys db1) \<subseteq> set (payment_keys db2)" "billing_ok db2"
    by (simp_all add: books_kept_def)
  from payment_applied_once [OF assms(1-3) this assms(5-7)] show ?thesis .
qed

lemma process_settles:
  assumes "process_event env ids api i ev now db = (out, db')" "billing_ok db" "out \<noteq> DEFERRED"
    and "delivery key eventId db = Some w" "wh_id w = i"
  shows "settled_event key eventId db'"
  using assms(1)
proof (cases rule: process_cases)
  case deferred
  with assms(3) show ?thesis by simp
next
  case (finished db1 f)
  have "settles (\<lambda>w. w\<lparr>wh_attempts := wh_attempts w + 1\<rparr>)" by auto
  from delivery_update [OF this, of key eventId i db] finished(3) assms(2,4,5)
  have "delivery key eventId db1 = Some (w\<lparr>wh_attempts := wh_attempts w + 1\<rparr>)" by (simp add: delivery_def)
  with delivery_update [OF finished(5), of key eventId i db1] finished(4,6) assms(5) show ?thesis
    by (simp add: settled_event_def)
qed

text \<open>
  An event is handled once.  When the delivery of an event was processed, ignored or refused, then after any run
  of the intake every later delivery with the same event id from the same provider is a duplicate and changes nothing.
\<close>

lemma settled_event_never_reapplied:
  assumes "receive env ids i api ev now db = Inr (out, db1)" "billing_ok db" "out \<noteq> DEFERRED" "out \<noteq> DUPLICATE"
    and "intake_step\<^sup>*\<^sup>* db1 db2" "pa_key api2 = pa_key api" "be_providerEventId ev2 = be_providerEventId ev"
  shows "receive env2 ids2 i2 api2 ev2 now2 db2 = Inr (DUPLICATE, db2)"
proof -
  let ?key = "pa_key api" and ?id = "be_providerEventId ev"
  have id: "?id \<noteq> []" using assms(1) by (auto simp: receive_def split: if_splits)
  have "settled_event ?key ?id db1"
  proof (cases "delivery ?key ?id db")
    case None
    define row where "row = \<lparr>wh_id = i, wh_provider = ?key, wh_providerEventId = ?id, wh_payload = be_payload ev,
      wh_status = WH_RECEIVED, wh_accountId = None, wh_attempts = 0, wh_occurredAt = be_occurredAt ev, wh_receivedAt = now,
      wh_processedAt = None\<rparr>"
    let ?db = "db\<lparr>bl_webhooks := bl_webhooks db @ [row]\<rparr>"
    have "process_event env ids api i ev now ?db = (out, db1)"
      using assms(1,4) None id by (auto simp: receive_def delivery_def row_def split: if_splits)
    moreover have "billing_ok ?db" using assms(2) by (simp add: billing_ok_def payment_keys_def)
    moreover have "delivery ?key ?id ?db = Some row" using None by (simp add: delivery_def find_append row_def)
    ultimately show ?thesis by (rule process_settles [OF _ _ assms(3)]) (simp add: row_def)
  next
    case (Some w)
    then have "process_event env ids api (wh_id w) ev now db = (out, db1)"
      using assms(1,4) id by (auto simp: receive_def delivery_def split: if_splits)
    from process_settles [OF this assms(2,3) Some refl] show ?thesis .
  qed
  moreover have "billing_ok db1" using books_receive [OF assms(1)] assms(2) by (simp add: books_kept_def)
  ultimately have "settled_event ?key ?id db2" using intake_run_books [OF assms(5)] by (simp add: books_kept_def)
  then show ?thesis using id assms(6,7) by (auto simp: receive_def settled_event_def delivery_def split: option.splits)
qed

text \<open>
  C20.  Credits are granted once per payment.  A credit pack that was applied has added exactly one ledger row, with the
  credits of the pack and for the organization of the account; and after any run of the intake no later handling
  of the same payment grants anything or changes the database.
\<close>

theorem credits_granted_once:
  assumes "creditPack env ids api ref now db = Inr (a, db1)" "billing_ok db" "check_pack api ref db = Inr kf"
    and "intake_step\<^sup>*\<^sup>* db1 db2" "check_pack api2 ref2 db2 = Inr kf2" "pa_key api2 = pa_key api"
      "pr_paymentRef (kf_record kf2) = pr_paymentRef (kf_record kf)"
  shows "(if ap_status a = APPLIED
      then \<exists>row. bl_ledger db1 = bl_ledger db @ [row] \<and> lg_delta row = ck_credits (kf_pack kf) \<and>
        lg_organizationId row = ba_organizationId (kf_account kf)
      else db1 = db) \<and>
    (\<exists>r. creditPack env2 ids2 api2 ref2 now2 db2 = Inr (r, db2) \<and> ap_status r = NOT_APPLIED)"
proof
  obtain already where tx: "pack_tx env ids api kf now db = Inr (already, db1)"
    and a: "ap_status a = (if already then NOT_APPLIED else APPLIED)"
    using assms(1,3) by (auto simp: creditPack_def rbind_Inr_iff)
  note cases = pack_tx_cases [OF tx]
  from cases a show "if ap_status a = APPLIED
      then \<exists>row. bl_ledger db1 = bl_ledger db @ [row] \<and> lg_delta row = ck_credits (kf_pack kf) \<and>
        lg_organizationId row = ba_organizationId (kf_account kf)
      else db1 = db" by (auto split: if_splits)
  have "(pa_key api, pr_paymentRef (kf_record kf)) \<in> set (payment_keys db1)" using cases by (auto split: if_splits)
  moreover have "billing_ok db1" using books_creditPack [OF assms(1)] assms(2) by (simp add: books_kept_def)
  ultimately have "(pa_key api2, pr_paymentRef (kf_record kf2)) \<in> set (payment_keys db2)"
    using intake_run_books [OF assms(4)] assms(6,7) by (auto simp: books_kept_def)
  then have "find_payment (pa_key api2) (pr_paymentRef (kf_record kf2)) db2 \<noteq> None" by (simp add: find_payment_None)
  with assms(5) show "\<exists>r. creditPack env2 ids2 api2 ref2 now2 db2 = Inr (r, db2) \<and> ap_status r = NOT_APPLIED"
    by (simp add: creditPack_def pack_tx_def Let_def)
qed

section \<open>The provider's state is followed\<close>

text \<open>One row replaced by another with the same identifier and account.\<close>

definition row_moved :: "org_subscription \<Rightarrow> org_subscription \<Rightarrow> sub_store \<Rightarrow> sub_store \<Rightarrow> bool" where
  "row_moved r r' db db' \<longleftrightarrow> store_ok db' \<and> os_id r' = os_id r \<and> os_accountId r' = os_accountId r \<and>
    sd_subs db' = map (\<lambda>x. if os_id x = os_id r then r' else x) (sd_subs db) \<and> sd_accounts db' = sd_accounts db"

lemma row_moved_trans: "row_moved r r' x y \<Longrightarrow> row_moved r' r'' y z \<Longrightarrow> row_moved r r'' x z"
  by (auto simp: row_moved_def)

lemma row_moved_in: "row_moved r r' db db' \<Longrightarrow> r \<in> set (sd_subs db) \<Longrightarrow> r' \<in> set (sd_subs db')"
  by (force simp: row_moved_def)

lemma move_step:
  assumes ok: "store_ok db" and r: "r \<in> set (sd_subs db)" "\<not> isTerminal (ss_status (os_snapshot r))"
    and tr: "transition (Some (os_snapshot r)) e now = Inr result"
  shows "\<exists>r' db'. apply_sub (status_context ids action) (org_of_account db (os_accountId r)) e now db = Inr (r', db') \<and>
    row_moved r r' db db' \<and> os_snapshot r' = tr_next result"
proof -
  have row: "os_currentKey r \<noteq> None" "os_accountId r \<in> ba_id ` set (sd_accounts db)" "rows_apart (sd_subs db)"
    using ok r by (auto simp: store_ok_def list_all_iff row_ok_def)
  then obtain account where acc: "account \<in> set (sd_accounts db)" "ba_id account = os_accountId r" by auto
  let ?r = "moved_row (status_context ids action) (os_accountId r) (tr_next result) r"
  have "\<not> truthy (ac_providerSubscriptionRef (status_context ids action))" by (simp add: status_context_def truthy_def)
  from apply_existing [OF ok r(1) row(1) acc tr this] obtain audit changed where
    app: "apply_sub (status_context ids action) (ba_organizationId account) e now db =
      Inr (?r, db\<lparr>sd_subs := map (\<lambda>x. if x = r then ?r else x) (sd_subs db), sd_audit := audit, sd_changed := changed\<rparr>)"
    by blast
  have "map (\<lambda>x. if x = r then ?r else x) (sd_subs db) = map (\<lambda>x. if os_id x = os_id r then ?r else x) (sd_subs db)"
    using same_id_same_row [OF row(3) _ r(1)] by auto
  with apply_sub_ok [OF ok app] app show ?thesis
    unfolding org_of_account [OF ok acc(1), unfolded acc(2)] by (auto simp: row_moved_def moved_row_def)
qed

lemma stamp_moved:
  assumes "row_moved r r' db (bl_store d)"
  shows "\<exists>r''. row_moved r r'' db (bl_store (stamp (os_id r) t d)) \<and> os_snapshot r'' = os_snapshot r'"
proof (cases t)
  case (Some u)
  define r'' where "r'' = (if case os_providerStateAt r' of None \<Rightarrow> True | Some v \<Rightarrow> v < u then r'\<lparr>os_providerStateAt := Some u\<rparr> else r')"
  have "store_ok (bl_store (stamp (os_id r) t d))" using assms by (simp add: row_moved_def stamp_ok)
  then have "row_moved r r'' db (bl_store (stamp (os_id r) t d))"
    using assms by (auto simp: row_moved_def stamp_def Some r''_def)
  then show ?thesis by (intro exI [of _ r'']) (simp add: r''_def)
qed (use assms in \<open>auto simp: stamp_def\<close>)

text \<open>Where a report of the provider takes the status and the cancellation flag of a live subscription.\<close>

definition followed :: "sub_record \<Rightarrow> event_type \<Rightarrow> sub_snapshot \<Rightarrow> sub_status \<times> bool" where
  "followed rec ev s = (let st = ss_status s; cancel = ss_cancelAtPeriodEnd s in
     case sr_status rec of
       PS_CANCELLED \<Rightarrow> (CANCELLED, cancel)
     | PS_COMPLETED \<Rightarrow> (CANCELLED, cancel)
     | PS_HALTED \<Rightarrow> (if st = ACTIVE \<or> st = PAST_DUE then GRACE else st, cancel)
     | PS_PAST_DUE \<Rightarrow> (if st = ACTIVE then PAST_DUE else st, cancel)
     | PS_INCOMPLETE \<Rightarrow> (st, cancel)
     | PS_AUTHENTICATED \<Rightarrow> (st, cancel)
     | _ \<Rightarrow> (st, if ev = EV_SUBSCRIPTION_CANCELLED \<or> ev = EV_PAYMENT_FAILED then cancel
              else if sr_cancelAtPeriodEnd rec = Some True then cancel \<or> st = ACTIVE \<or> st = PAST_DUE
              else if sr_cancelAtPeriodEnd rec = Some False then cancel \<and> st \<noteq> ACTIVE else cancel))"

text \<open>Moves that the state machine accepts one after the other, the last of which may end the subscription.\<close>

fun accepted_moves :: "(sub_event \<times> string) list \<Rightarrow> time_ms \<Rightarrow> sub_snapshot \<Rightarrow> sub_snapshot option" where
  "accepted_moves [] now s = Some s"
| "accepted_moves (m # ms) now s =
    (if isTerminal (ss_status s) then None
     else case transition (Some s) (fst m) now of Inl _ \<Rightarrow> None | Inr result \<Rightarrow> accepted_moves ms now (tr_next result))"

lemma movesFor_accepted:
  assumes "\<not> isTerminal (ss_status (os_snapshot r))" "now < graceEnd"
  shows "\<exists>s. accepted_moves (movesFor r rec ev graceEnd) now (os_snapshot r) = Some s \<and>
    (ss_status s, ss_cancelAtPeriodEnd s) = followed rec ev (os_snapshot r)"
  using assms
  by (cases "sr_status rec"; cases "ss_status (os_snapshot r)"; cases "sr_cancelAtPeriodEnd rec")
    (auto simp: followed_def Let_def when_in_def keep_sub_def end_sub_def startable_def)

lemma apply_moves_accepted:
  assumes "store_ok db" "r \<in> set (sd_subs db)" "accepted_moves moves now (os_snapshot r) = Some s" "moves \<noteq> []"
  shows "\<exists>r' db'. apply_moves ids (org_of_account db (os_accountId r)) moves now (x, db) = Inr (r', db') \<and>
    row_moved r r' db db' \<and> os_snapshot r' = s"
  using assms
proof (induction moves arbitrary: x r db)
  case (Cons m ms)
  from Cons.prems obtain result where live: "\<not> isTerminal (ss_status (os_snapshot r))"
    and tr: "transition (Some (os_snapshot r)) (fst m) now = Inr result" and rest: "accepted_moves ms now (tr_next result) = Some s"
    by (auto split: if_splits sum.splits)
  from move_step [OF Cons.prems(1,2) live tr] obtain r1 db1 where
    app: "apply_sub (status_context ids (snd m)) (org_of_account db (os_accountId r)) (fst m) now db = Inr (r1, db1)" and
    mv: "row_moved r r1 db db1" and snap: "os_snapshot r1 = tr_next result" by blast
  have step: "apply_moves ids (org_of_account db (os_accountId r)) (m # ms) now (x, db) =
      apply_moves ids (org_of_account db (os_accountId r)) ms now (r1, db1)"
    using app by (simp add: apply_moves_def case_prod_beta)
  show ?case
  proof (cases "ms = []")
    case True
    with step mv snap rest show ?thesis by (simp add: apply_moves_def)
  next
    case False
    have "store_ok db1" "org_of_account db1 (os_accountId r1) = org_of_account db (os_accountId r)"
      using mv by (simp_all add: row_moved_def org_of_account_def)
    with Cons.IH [OF _ row_moved_in [OF mv Cons.prems(2)], of r1] rest snap False obtain r' db' where
      "apply_moves ids (org_of_account db (os_accountId r)) ms now (r1, db1) = Inr (r', db')" "row_moved r1 r' db1 db'"
      "os_snapshot r' = s" by auto
    with step row_moved_trans [OF mv] show ?thesis by auto
  qed
qed simp

text \<open>
  C18.  A status event brings a live subscription to what the provider reports now, and never fails on the way.  For a
  known subscription that has not ended, an event that is not stale and a verified report about the account's own
  customer, unless a paid invoice is to be recovered: the event is handled, exactly that row changes, its
  status and its cancellation flag are those the report asks for, and payments, invoices and credits are untouched.
\<close>

theorem reconcile_follows_provider:
  assumes "billing_ok db" "truthy (Some ref)" "local_sub (Some ref) db = Some r" "\<not> isTerminal (ss_status (os_snapshot r))"
    and "\<not> stale_event ev r" "pa_fetchSubscription api = Some fetchSubscription" "fetchSubscription 0 ref = Inr rec"
    and "sr_verified rec" "\<not> another_customer rec (os_accountId r) (bl_store db)" "0 < en_graceDays env"
    and "\<not> (sr_status rec = PS_ACTIVE \<and> truthy (sr_latestPaidPaymentRef rec) \<and> ss_status (os_snapshot r) \<in> {PAST_DUE, GRACE})"
  shows "\<exists>a db' r'. reconcile env ids api (Some ref) ev now db = Inr (a, db') \<and> row_moved r r' (bl_store db) (bl_store db') \<and>
    (ss_status (os_snapshot r'), ss_cancelAtPeriodEnd (os_snapshot r')) = followed rec (be_type ev) (os_snapshot r) \<and>
    bl_payments db' = bl_payments db \<and> bl_invoices db' = bl_invoices db \<and> bl_ledger db' = bl_ledger db"
proof -
  let ?moves = "movesFor r rec (be_type ev) (now + en_graceDays env * DAY)"
  let ?org = "org_of_account (bl_store db) (os_accountId r)"
  have ok: "store_ok (bl_store db)" using assms(1) by (simp add: billing_ok_def)
  have r: "r \<in> set (sd_subs (bl_store db))" using assms(3) unfolding local_sub_def by (auto dest: find_set)
  have run: "reconcile env ids api (Some ref) ev now db = reconcile_live env ids api r rec ev now db"
    using assms by (simp add: reconcile_def ask_def)
  have self: "row_moved r r (bl_store db) (bl_store db)"
  proof -
    have "x = r" if "x \<in> set (sd_subs (bl_store db))" "os_id x = os_id r" for x
      using ok same_id_same_row [OF _ that(1) r that(2)] by (simp add: store_ok_def)
    then have "map (\<lambda>x. if os_id x = os_id r then r else x) (sd_subs (bl_store db)) = sd_subs (bl_store db)"
      by (intro map_idI) auto
    with ok show ?thesis by (simp add: row_moved_def)
  qed
  have "now < now + en_graceDays env * DAY" using assms(10) by (simp add: DAY_def)
  from movesFor_accepted [OF assms(4) this, of rec "be_type ev"] obtain s where
    s: "accepted_moves ?moves now (os_snapshot r) = Some s" "(ss_status s, ss_cancelAtPeriodEnd s) = followed rec (be_type ev) (os_snapshot r)"
    by blast
  have tables: "bl_payments (stamp i t d) = bl_payments d \<and> bl_invoices (stamp i t d) = bl_invoices d \<and> bl_ledger (stamp i t d) = bl_ledger d"
    "bl_payments (remind o' x g d) = bl_payments d \<and> bl_invoices (remind o' x g d) = bl_invoices d \<and> bl_ledger (remind o' x g d) = bl_ledger d \<and>
     bl_store (remind o' x g d) = bl_store d" for i t d o' x g
    by (simp_all add: stamp_def remind_def split: option.split)
  show ?thesis
  proof (cases "?moves = []")
    case True
    then have "reconcile_live env ids api r rec ev now db = Inr (ignored (Some (os_accountId r)), stamp (os_id r) (be_occurredAt ev) db)"
      using assms by (auto simp: reconcile_live_def Let_def need_def simp del: movesFor.simps)
    moreover have "s = os_snapshot r" using s(1) True by (simp del: movesFor.simps)
    ultimately show ?thesis using stamp_moved [OF self, of "be_occurredAt ev"] s(2) run tables by auto
  next
    case False
    from apply_moves_accepted [OF ok r s(1) False] obtain r' store where
      mv: "apply_moves ids ?org ?moves now (r, bl_store db) = Inr (r', store)" "row_moved r r' (bl_store db) store" "os_snapshot r' = s"
      by blast
    let ?db = "stamp (os_id r) (be_occurredAt ev) (db\<lparr>bl_store := store\<rparr>)"
    have "reconcile_live env ids api r rec ev now db = Inr (processed None (os_accountId r), remind ?org r' (stage_after r') ?db)"
      using assms mv(1) False by (auto simp: reconcile_live_def Let_def need_def simp del: movesFor.simps)
    with stamp_moved [of r r' "bl_store db" "db\<lparr>bl_store := store\<rparr>" "be_occurredAt ev"] mv(2,3) s(2) run tables show ?thesis by auto
  qed
qed

section \<open>Witnesses\<close>

definition ex_event :: billing_event where
  "ex_event = \<lparr>be_providerEventId = ''evt_1'', be_type = EV_IGNORED, be_providerSubscriptionRef = None, be_paymentRef = None,
     be_objectRef = None, be_occurredAt = None, be_payload = []\<rparr>"

text \<open>An event that means nothing is recorded and settled, and leaves the accounts and the prices.\<close>

lemma ex_delivered:
  assumes "bl_webhooks db = []"
  shows "\<exists>db'. receive ex_env ex_ids ''w1'' ex_api ex_event 1600 db = Inr (OUT_IGNORED, db') \<and> bl_prices db' = bl_prices db \<and>
    sd_accounts (bl_store db') = sd_accounts (bl_store db) \<and> bl_purchases db' = bl_purchases db"
  using assms by (simp add: receive_def process_event_def apply_event_def ex_event_def ignored_def update_webhook_def Let_def)

theorem billing_books_invariant_witness:
  "\<exists>db'. intake_step\<^sup>*\<^sup>* (ex_db None) db' \<and> bl_webhooks db' \<noteq> [] \<and> billing_ok db'"
proof -
  obtain db' where rcv: "receive ex_env ex_ids ''w1'' ex_api ex_event 1600 (ex_db None) = Inr (OUT_IGNORED, db')"
    using ex_delivered [of "ex_db None"] by (auto simp: ex_db_def)
  then have run: "intake_step\<^sup>*\<^sup>* (ex_db None) db'" by (blast intro: intake_step.delivered)
  from rcv have "bl_webhooks db' \<noteq> []"
    by (auto simp: receive_def process_event_def apply_event_def ex_event_def ignored_def update_webhook_def Let_def ex_db_def)
  with run billing_books_invariant [OF run ex_billing_ok] show ?thesis by blast
qed

theorem payment_never_applied_twice_witness:
  "\<exists>a db1 db2 r. payment ex_env ex_ids ex_api (Some ''in_1'') 1500 (ex_db None) = Inr (a, db1) \<and> ap_status a = APPLIED \<and>
    intake_step db1 db2 \<and> payment ex_env ex_ids ex_api (Some ''in_1'') 1700 db2 = Inr (r, db2) \<and> ap_status r = NOT_APPLIED"
proof -
  obtain a db1 where p: "payment ex_env ex_ids ex_api (Some ''in_1'') 1500 (ex_db None) = Inr (a, db1)" "ap_status a = APPLIED"
    and same: "sd_accounts (bl_store db1) = sd_accounts (bl_store (ex_db None))" "bl_prices db1 = bl_prices (ex_db None)"
    using ex_payment_applied by blast
  have "bl_webhooks db1 = []" using payment_frame [OF p(1) ex_billing_ok] by (simp add: ex_db_def)
  then obtain db2 where rcv: "receive ex_env ex_ids ''w1'' ex_api ex_event 1600 db1 = Inr (OUT_IGNORED, db2)"
    and same2: "bl_prices db2 = bl_prices db1" "sd_accounts (bl_store db2) = sd_accounts (bl_store db1)"
    using ex_delivered by blast
  from rcv have step: "intake_step db1 db2" by (rule intake_step.delivered)
  obtain pf pf2 where pf: "check_payment ex_env ex_api (Some ''in_1'') 1500 (ex_db None) = Inr pf" "pr_paymentRef (pf_record pf) = ''in_1''"
    and pf2: "check_payment ex_env ex_api (Some ''in_1'') 1700 (ex_db None) = Inr pf2" "pr_paymentRef (pf_record pf2) = ''in_1''"
    using ex_checked [of 1500 None] ex_checked [of 1700 None] by blast
  have "check_payment ex_env ex_api (Some ''in_1'') 1700 db2 = Inr pf2"
    using pf2(1) check_payment_cong [of db2 "ex_db None"] same same2 by simp
  with payment_never_applied_twice [OF p(1) ex_billing_ok pf(1) r_into_rtranclp [of intake_step, OF step] this refl] pf(2) pf2(2) p step
  show ?thesis by metis
qed

lemma settled_event_never_reapplied_witness:
  "\<exists>db1. receive ex_env ex_ids ''w1'' ex_api ex_event 1600 (ex_db None) = Inr (OUT_IGNORED, db1) \<and>
    receive ex_env ex_ids ''w2'' ex_api ex_event 999999 db1 = Inr (DUPLICATE, db1)"
proof -
  obtain db1 where rcv: "receive ex_env ex_ids ''w1'' ex_api ex_event 1600 (ex_db None) = Inr (OUT_IGNORED, db1)"
    using ex_delivered [of "ex_db None"] by (auto simp: ex_db_def)
  with settled_event_never_reapplied [OF rcv ex_billing_ok _ _ rtranclp.rtrancl_refl refl refl] show ?thesis by simp
qed

definition ex_active :: sub_snapshot where
  "ex_active = fresh_sub ACTIVE PROVIDER ''premium'' 0 (Some 1000)"

definition ex_halted :: sub_record where
  "ex_halted = ex_subscription\<lparr>sr_status := PS_HALTED\<rparr>"

theorem reconcile_follows_provider_witness:
  "\<exists>a db' r'. reconcile ex_env ex_ids (ex_api\<lparr>pa_fetchSubscription := Some (\<lambda>_ _. Inr ex_halted)\<rparr>) (Some ''sub_ref'') ex_event 1500
      (ex_db (Some ex_active)) = Inr (a, db') \<and> r' \<in> set (sd_subs (bl_store db')) \<and> ss_status (os_snapshot r') = GRACE"
proof -
  let ?db = "ex_db (Some ex_active)" and ?r = "hd (sd_subs (bl_store (ex_db (Some ex_active))))"
  have ok: "billing_ok ?db"
    by (simp add: billing_ok_def payment_keys_def store_ok_def rows_apart_def row_ok_def ex_billing ex_active_def fresh_sub_def ok_defs)
  have r: "local_sub (Some ''sub_ref'') ?db = Some ?r" "?r \<in> set (sd_subs (bl_store ?db))"
    by (simp_all add: local_sub_def ex_db_def)
  have st: "os_snapshot ?r = ex_active" "ss_status ex_active = ACTIVE" by (simp_all add: ex_db_def ex_active_def fresh_sub_def)
  obtain a db' r' where "reconcile ex_env ex_ids (ex_api\<lparr>pa_fetchSubscription := Some (\<lambda>_ _. Inr ex_halted)\<rparr>) (Some ''sub_ref'') ex_event 1500
      ?db = Inr (a, db')" and mv: "row_moved ?r r' (bl_store ?db) (bl_store db')" and
    "(ss_status (os_snapshot r'), ss_cancelAtPeriodEnd (os_snapshot r')) = followed ex_halted (be_type ex_event) (os_snapshot ?r)"
    using reconcile_follows_provider [OF ok _ r(1), of ex_event "ex_api\<lparr>pa_fetchSubscription := Some (\<lambda>_ _. Inr ex_halted)\<rparr>"
      "\<lambda>_ _. Inr ex_halted" ex_halted ex_env ex_ids 1500] st
    by (auto simp: truthy_def stale_event_def ex_event_def another_customer_def ex_halted_def ex_billing)
  moreover have "r' \<in> set (sd_subs (bl_store db'))" by (rule row_moved_in [OF mv r(2)])
  ultimately show ?thesis using st by (auto simp: followed_def ex_halted_def ex_subscription_def)
qed

definition ex_pack_payment :: payment_record where
  "ex_pack_payment = ex_payment\<lparr>pr_purpose := CREDIT_PACK, pr_creditPackCode := Some ''EMAIL_1K'', pr_purchaseRef := Some ''pur''\<rparr>"

definition ex_pack_api :: provider_api where
  "ex_pack_api = ex_api\<lparr>pa_fetchPaymentRecord := Some (\<lambda>_ _. Inr ex_pack_payment)\<rparr>"

definition ex_pack_db :: "time_ms option \<Rightarrow> billing_db" where
  "ex_pack_db paid = (ex_db None)\<lparr>bl_purchases := [\<lparr>cp_purchaseRef = ''pur'', cp_organizationId = ''org'', cp_packCode = ''EMAIL_1K'',
     cp_currency = ''USD'', cp_netMinor = 2900, cp_taxMinor = 0, cp_totalMinor = 2900, cp_taxLines = [], cp_taxMode = MANUAL,
     cp_paidAt = paid\<rparr>]\<rparr>"

lemmas ex_pack = ex_pack_payment_def ex_pack_api_def ex_pack_db_def EMAIL_CREDIT_PACKS_def creditPackByCode_def check_pack_def
  truthy_def ask_def need_def chargedSplit_def quoted_purchase_def js_trunc_def

lemma ex_pack_checked:
  assumes "bl_store db = bl_store (ex_pack_db paid)" "bl_purchases db = bl_purchases (ex_pack_db paid)"
  shows "\<exists>kf. check_pack ex_pack_api (Some ''in_1'') db = Inr kf \<and> pr_paymentRef (kf_record kf) = ''in_1'' \<and>
    ck_credits (kf_pack kf) = 1000"
  using assms by (simp add: ex_pack ex_billing Let_def)

lemma ex_pack_applied: "\<exists>a db'. creditPack ex_env ex_ids ex_pack_api (Some ''in_1'') 1500 (ex_pack_db None) = Inr (a, db') \<and>
    ap_status a = APPLIED \<and> bl_store db' = bl_store (ex_pack_db (Some 1000)) \<and> bl_purchases db' = bl_purchases (ex_pack_db (Some 1000))"
  by (simp add: creditPack_def ex_pack ex_billing Let_def pack_tx_def find_payment_def add_payment_def grant_credits_def
    recordPaidInTx_def assertNoGstFromUnregistered_def case_prod_beta link_invoice_def)

theorem credits_granted_once_witness:
  "\<exists>a db1 row r. creditPack ex_env ex_ids ex_pack_api (Some ''in_1'') 1500 (ex_pack_db None) = Inr (a, db1) \<and>
    bl_ledger db1 = bl_ledger (ex_pack_db None) @ [row] \<and> lg_delta row = 1000 \<and>
    creditPack ex_env ex_ids ex_pack_api (Some ''in_1'') 1500 db1 = Inr (r, db1) \<and> ap_status r = NOT_APPLIED"
proof -
  obtain a db1 where app: "creditPack ex_env ex_ids ex_pack_api (Some ''in_1'') 1500 (ex_pack_db None) = Inr (a, db1)" "ap_status a = APPLIED"
    and db1: "bl_store db1 = bl_store (ex_pack_db (Some 1000))" "bl_purchases db1 = bl_purchases (ex_pack_db (Some 1000))"
    using ex_pack_applied by blast
  obtain kf kf1 where kf: "check_pack ex_pack_api (Some ''in_1'') (ex_pack_db None) = Inr kf" "ck_credits (kf_pack kf) = 1000"
    "check_pack ex_pack_api (Some ''in_1'') db1 = Inr kf1" "pr_paymentRef (kf_record kf1) = pr_paymentRef (kf_record kf)"
    using ex_pack_checked [OF refl refl, of None] ex_pack_checked [OF db1] by auto
  have "billing_ok (ex_pack_db None)" using ex_billing_ok by (simp add: billing_ok_def payment_keys_def ex_pack_db_def)
  from credits_granted_once [OF app(1) this kf(1) rtranclp.rtrancl_refl kf(3) refl kf(4), of ex_env ex_ids 1500] app kf(2) show ?thesis by auto
qed

end
