(* ===== verification/RefundRetry.thy ===== *)
theory RefundRetry
  imports JsNumber "HOL-Library.Sublist"
begin

text \<open>
  Whether a refund that did not go through may be sent again: \<^verbatim>\<open>refunds/refund-reconcile.ts\<close> (the keys of a
  refund's provider calls and the judgement of the provider's list of refunds) and \<^verbatim>\<open>refunds/refund-retry.ts\<close>
  (the rules of a retry).  Texts shown to people are left out; reasons are constructors.

  Shown here: a key tells its refund and its generation, the judgement of a list is exact, and a retry
  sends money only when nothing at the provider can already be this refund.
\<close>

section \<open>Numbers in strings\<close>

text \<open>
  \<^verbatim>\<open>Number(s)\<close> of a string: white space around is dropped, the empty string is 0, hexadecimal, octal and binary
  literals have no sign, a decimal literal is rounded to a double.  \<open>None\<close> is not a number or infinite.
\<close>

definition radix_digit :: "nat \<Rightarrow> char \<Rightarrow> nat option" where
  "radix_digit b c = (let n = of_char (lower_char c) :: nat;
       v = (if is_digit c then n - 48 else if 97 \<le> n \<and> n \<le> 122 then n - 87 else b) in
     if v < b then Some v else None)"

fun radix_value :: "nat \<Rightarrow> nat \<Rightarrow> string \<Rightarrow> nat option" where
  "radix_value b a [] = Some a"
| "radix_value b a (c # s) = (case radix_digit b c of None \<Rightarrow> None | Some v \<Rightarrow> radix_value b (b * a + v) s)"

definition finite_double :: "rat \<Rightarrow> rat option" where
  "finite_double x = (let v = fl x in if v < 2 ^ 1024 then Some v else None)"

definition digits_value :: "string \<Rightarrow> int option" where
  "digits_value s = (if s \<noteq> [] \<and> list_all is_digit s then Some (int (undecimal s)) else None)"

definition exponent_value :: "string \<Rightarrow> int option" where
  "exponent_value s =
    (case s of
       [] \<Rightarrow> Some 0
     | c # t \<Rightarrow>
        if c \<noteq> CHR ''e'' \<and> c \<noteq> CHR ''E'' then None
        else case t of
          [] \<Rightarrow> None
        | d # u \<Rightarrow> if d = CHR ''+'' then digits_value u else if d = CHR ''-'' then map_option uminus (digits_value u) else digits_value t)"

definition decimal_literal :: "string \<Rightarrow> rat option" where
  "decimal_literal s =
    (let ip = takeWhile is_digit s; r = dropWhile is_digit s;
         fp = (if r \<noteq> [] \<and> hd r = CHR ''.'' then takeWhile is_digit (tl r) else []);
         rest = (if r \<noteq> [] \<and> hd r = CHR ''.'' then dropWhile is_digit (tl r) else r) in
     if ip = [] \<and> fp = [] then None
     else case exponent_value rest of
       None \<Rightarrow> None
     | Some e \<Rightarrow> finite_double (of_nat (undecimal (ip @ fp)) * 10 powi (e - int (length fp))))"

definition js_Number :: "string \<Rightarrow> rat option" where
  "js_Number str =
    (let s = trim str;
         radix = (\<lambda>b t. if t = [] then None else Option.bind (radix_value b 0 t) (\<lambda>n. finite_double (of_nat n))) in
     if s = [] then Some 0
     else if prefix ''0x'' (lower s) then radix 16 (drop 2 s)
     else if prefix ''0o'' (lower s) then radix 8 (drop 2 s)
     else if prefix ''0b'' (lower s) then radix 2 (drop 2 s)
     else if hd s = CHR ''+'' then decimal_literal (tl s)
     else if hd s = CHR ''-'' then map_option uminus (decimal_literal (tl s))
     else decimal_literal s)"

section \<open>Keys\<close>

definition STRANGER_WINDOW_MS :: time_ms where
  "STRANGER_WINDOW_MS = 10 * 60000"

definition RECHECK_AFTER_MS :: time_ms where
  "RECHECK_AFTER_MS = 10 * 60000"

definition recheckAfter :: "time_ms \<Rightarrow> time_ms" where
  "recheckAfter startedAt = startedAt + RECHECK_AFTER_MS"

definition refundKeyStem :: "string \<Rightarrow> string" where
  "refundKeyStem refundId = ''etg-rf-'' @ refundId"

definition refundKey :: "string \<Rightarrow> int \<Rightarrow> string" where
  "refundKey refundId generation =
    (if generation \<le> 1 then refundKeyStem refundId else refundKeyStem refundId @ ''-'' @ show_int generation)"

definition keyGeneration :: "string \<Rightarrow> string \<Rightarrow> int option" where
  "keyGeneration key refundId =
    (let stem = refundKeyStem refundId in
     if key = stem then Some 1
     else if \<not> prefix (stem @ ''-'') key then None
     else case js_Number (drop (length stem + 1) key) of
       None \<Rightarrow> None
     | Some n \<Rightarrow> if of_int \<lfloor>n\<rfloor> = n \<and> 1 < n then Some \<lfloor>n\<rfloor> else None)"

definition isPlatformKey :: "string option \<Rightarrow> bool" where
  "isPlatformKey key \<longleftrightarrow> (case key of None \<Rightarrow> False | Some k \<Rightarrow> prefix ''etg-rf-'' k)"

section \<open>Judging the provider's list\<close>

datatype answer_status = AS_COMPLETED | AS_PROCESSING | AS_FAILED

record refund_record =
  rr_refundRef :: string
  rr_amountMinor :: minor
  rr_status :: answer_status
  rr_idempotencyKey :: "string option"
  rr_createdAt :: "time_ms option"

datatype unmatched_reason = SeveralRefunds nat | OtherAmount minor | SameAmountWithoutKey

datatype reconciliation =
  FOUND refund_record | REFUSED refund_record | NO_REFUND | UNMATCHED unmatched_reason | NOT_PAID | UNAVAILABLE

text \<open>A lookup that threw: the provider's definite answer that nothing was captured, possibly wrapped, or anything else.\<close>

datatype lookup_error = NotCaptured | WrappedNotCaptured | OtherLookupError

fun classifyLookupError :: "lookup_error \<Rightarrow> reconciliation" where
  "classifyLookupError NotCaptured = NOT_PAID"
| "classifyLookupError WrappedNotCaptured = NOT_PAID"
| "classifyLookupError OtherLookupError = UNAVAILABLE"

record reconcile_context =
  rc_refundId :: string
  rc_amountMinor :: minor
  rc_currentKey :: "string option"
  rc_knownRefs :: "string list"
  rc_askedAt :: time_ms

definition ours :: "string \<Rightarrow> refund_record \<Rightarrow> bool" where
  "ours refundId r \<longleftrightarrow> (case rr_idempotencyKey r of None \<Rightarrow> False | Some k \<Rightarrow> keyGeneration k refundId \<noteq> None)"

definition stranger :: "reconcile_context \<Rightarrow> refund_record \<Rightarrow> bool" where
  "stranger ctx r \<longleftrightarrow> rr_status r \<noteq> AS_FAILED \<and> \<not> isPlatformKey (rr_idempotencyKey r) \<and>
    rr_refundRef r \<notin> set (rc_knownRefs ctx) \<and> rr_amountMinor r = rc_amountMinor ctx \<and>
    (case rr_createdAt r of None \<Rightarrow> True | Some t \<Rightarrow> rc_askedAt ctx - STRANGER_WINDOW_MS \<le> t)"

definition reconcileRefund :: "refund_record list \<Rightarrow> reconcile_context \<Rightarrow> reconciliation" where
  "reconcileRefund records ctx =
    (let mine = filter (ours (rc_refundId ctx)) records;
         live = filter (\<lambda>r. rr_status r \<noteq> AS_FAILED) mine in
     if 1 < length live then UNMATCHED (SeveralRefunds (length live))
     else if length live = 1 then
       (if rr_amountMinor (hd live) \<noteq> rc_amountMinor ctx then UNMATCHED (OtherAmount (rr_amountMinor (hd live)))
        else FOUND (hd live))
     else if filter (stranger ctx) records \<noteq> [] then UNMATCHED SameAmountWithoutKey
     else case (if truthy (rc_currentKey ctx)
                then find (\<lambda>r. rr_idempotencyKey r = rc_currentKey ctx \<and> rr_status r = AS_FAILED) mine else None) of
       Some r \<Rightarrow> REFUSED r
     | None \<Rightarrow> NO_REFUND)"

section \<open>The rules of a retry\<close>

datatype last_answer = LA_REFUSED | LA_UNKNOWN

datatype retry_stage = TICKETS_HELD | TICKETS_RETURNED

datatype retry_refusal =
  NOT_FAILED | BOOKING_MISSING | CASH | NO_PAYMENT | TICKETS_GONE | NEEDS_CONFIRMATION | UNMATCHED_PROVIDER_REFUND
| OVER_PAYMENT | TOO_SOON | RR_NOT_PAID

text \<open>One audit entry: its action and what the rules read of its metadata.\<close>

record history_entry =
  he_action :: string
  he_outcome :: "string option"
  he_refs :: "string list"

datatype refund_status = REQUESTED | APPROVED | REJECTED | R_PROCESSING | R_COMPLETED | R_FAILED

datatype retry_action = SEND | RECORD_PROVIDER_REFUND

record paid_payment =
  pp_amountMinor :: minor
  pp_refundedMinor :: minor

record retry_facts =
  fa_status :: refund_status
  fa_amountMinor :: minor
  fa_history :: "history_entry list"
  fa_hasCreditNote :: bool
  fa_ticketsLive :: bool
  fa_bookingExists :: bool
  fa_paidInCash :: bool
  fa_payment :: "paid_payment option"
  fa_otherRefunds :: "(refund_status \<times> minor) list"
  fa_unmatchedProviderRefunds :: nat
  fa_confirmedNoProviderRefund :: bool
  fa_providerLookup :: "reconciliation option"
  fa_noneBelievableAfter :: "time_ms option"

record retry_assessment =
  ra_allowed :: bool
  ra_stage :: "retry_stage option"
  ra_lastAnswer :: last_answer
  ra_refusal :: "retry_refusal option"
  ra_needsConfirmation :: bool
  ra_action :: "retry_action option"

fun answer_after :: "history_entry \<Rightarrow> last_answer \<Rightarrow> last_answer" where
  "answer_after e answer =
    (if he_action e = ''REFUND_FAILED'' \<or> he_action e = ''REFUND_FAILED_AT_PROVIDER'' then LA_REFUSED
     else if he_action e = ''REFUND_RETRY_STARTED'' then LA_UNKNOWN
     else if he_action e = ''REFUND_RETRY_RESULT'' then (if he_outcome e = Some ''FAILED'' then LA_REFUSED else LA_UNKNOWN)
     else answer)"

definition lastAnswerOf :: "history_entry list \<Rightarrow> last_answer" where
  "lastAnswerOf history = fold answer_after history LA_UNKNOWN"

definition providerRefsOf :: "history_entry list \<Rightarrow> string option \<Rightarrow> string list" where
  "providerRefsOf history current = unique ((if truthy current then [the current] else []) @ concat (map he_refs history))"

definition accepted_before :: "retry_facts \<Rightarrow> bool" where
  "accepted_before f \<longleftrightarrow> fa_hasCreditNote f \<or>
    list_ex (\<lambda>e. he_action e \<in> {''REFUND_PROCESSING'', ''REFUND_COMPLETED'', ''REFUND_FAILED_AT_PROVIDER''}) (fa_history f)"

definition sum_refunds :: "refund_status set \<Rightarrow> (refund_status \<times> minor) list \<Rightarrow> minor" where
  "sum_refunds sts rs = sum_list (map snd (filter (\<lambda>r. fst r \<in> sts) rs))"

definition found_amount :: "reconciliation option \<Rightarrow> minor option" where
  "found_amount l = (case l of Some (FOUND r) \<Rightarrow> Some (rr_amountMinor r) | _ \<Rightarrow> None)"

definition retry_refused :: "retry_facts \<Rightarrow> retry_stage option \<Rightarrow> retry_refusal \<Rightarrow> retry_assessment" where
  "retry_refused f stage refusal = \<lparr>ra_allowed = False, ra_stage = stage, ra_lastAnswer = lastAnswerOf (fa_history f),
     ra_refusal = Some refusal, ra_needsConfirmation = False, ra_action = None\<rparr>"

definition retry_allowed :: "retry_facts \<Rightarrow> retry_stage \<Rightarrow> retry_action \<Rightarrow> retry_assessment" where
  "retry_allowed f stage action = \<lparr>ra_allowed = True, ra_stage = Some stage, ra_lastAnswer = lastAnswerOf (fa_history f),
     ra_refusal = None, ra_needsConfirmation = False, ra_action = Some action\<rparr>"

text \<open>What is compared with the payment: more refunded there than here, or more than was paid.\<close>

definition payment_refusal :: "retry_facts \<Rightarrow> retry_refusal option" where
  "payment_refusal f =
    (case fa_payment f of
       None \<Rightarrow> None
     | Some p \<Rightarrow>
        if sum_refunds {R_COMPLETED} (fa_otherRefunds f) + nvl (found_amount (fa_providerLookup f)) 0 < pp_refundedMinor p
        then Some UNMATCHED_PROVIDER_REFUND
        else if pp_amountMinor p < sum_refunds {R_COMPLETED, R_PROCESSING} (fa_otherRefunds f) + fa_amountMinor f
        then Some OVER_PAYMENT else None)"

definition is_unmatched :: "reconciliation option \<Rightarrow> bool" where
  "is_unmatched l \<longleftrightarrow> (case l of Some (UNMATCHED _) \<Rightarrow> True | _ \<Rightarrow> False)"

definition says_none :: "reconciliation option \<Rightarrow> bool" where
  "says_none l \<longleftrightarrow> (case l of Some NO_REFUND \<Rightarrow> True | Some (REFUSED _) \<Rightarrow> True | _ \<Rightarrow> False)"

definition assessRetry :: "retry_facts \<Rightarrow> retry_assessment" where
  "assessRetry f =
    (let lookup = fa_providerLookup f; accepted = accepted_before f;
         stage = (if accepted then TICKETS_RETURNED else TICKETS_HELD) in
     if fa_status f \<noteq> R_FAILED then retry_refused f None NOT_FAILED
     else if \<not> fa_bookingExists f then retry_refused f None BOOKING_MISSING
     else if fa_paidInCash f \<and> 0 < fa_amountMinor f then retry_refused f None CASH
     else if fa_payment f = None \<and> 0 < fa_amountMinor f then retry_refused f None NO_PAYMENT
     else if \<not> accepted \<and> (\<not> fa_ticketsLive f \<or> list_ex (\<lambda>e. he_action e = ''REFUND_TICKETS_NOT_LIVE'') (fa_history f))
     then retry_refused f None TICKETS_GONE
     else if is_unmatched lookup then retry_refused f (Some stage) UNMATCHED_PROVIDER_REFUND
     else if lookup = Some NOT_PAID then retry_refused f (Some stage) RR_NOT_PAID
     else if 0 < fa_unmatchedProviderRefunds f then retry_refused f (Some stage) UNMATCHED_PROVIDER_REFUND
     else case payment_refusal f of
       Some refusal \<Rightarrow> retry_refused f (Some stage) refusal
     | None \<Rightarrow>
        if found_amount lookup \<noteq> None then retry_allowed f stage RECORD_PROVIDER_REFUND
        else if lookup = Some NO_REFUND \<and> fa_noneBelievableAfter f \<noteq> None then retry_refused f (Some stage) TOO_SOON
        else if lastAnswerOf (fa_history f) = LA_UNKNOWN \<and> \<not> says_none lookup \<and> \<not> fa_confirmedNoProviderRefund f
        then (retry_refused f (Some stage) NEEDS_CONFIRMATION)\<lparr>ra_needsConfirmation := True\<rparr>
        else retry_allowed f stage SEND)"

section \<open>A key tells its refund and its generation\<close>

declare decimal.simps [simp del]

lemma digit_facts:
  assumes "is_digit c"
  shows "\<not> js_space c" "lower_char c = c" "c \<noteq> CHR ''x''" "c \<noteq> CHR ''o''" "c \<noteq> CHR ''b''" "c \<noteq> CHR ''+''" "c \<noteq> CHR ''-''"
  using assms by (auto simp: is_digit_def js_space_def lower_char_def Let_def)

lemma trim_digits: "list_all is_digit s \<Longrightarrow> trim s = s"
proof -
  have drop: "dropWhile js_space t = t" if "list_all is_digit t" for t using that by (cases t) (simp_all add: digit_facts(1))
  assume "list_all is_digit s"
  then show ?thesis by (simp add: trim_def drop)
qed

lemma lower_digits: "list_all is_digit s \<Longrightarrow> lower s = s"
  by (induction s) (simp_all add: lower_def digit_facts(2))

lemma no_radix_prefix: "list_all is_digit s \<Longrightarrow> c \<in> {CHR ''x'', CHR ''o'', CHR ''b''} \<Longrightarrow> \<not> prefix [CHR ''0'', c] s"
  by (auto simp: prefix_def digit_facts(3-5) dest: digit_facts(3-5))

lemma js_Number_decimal:
  assumes "n < 2 ^ 52"
  shows "js_Number (decimal n) = Some (of_nat n)"
proof -
  let ?s = "decimal n"
  have dig: "list_all is_digit ?s" "?s \<noteq> []" using decimal_digits by simp_all
  have "fl (of_int (int (2 * n)) / 2) = of_int (int (2 * n)) / 2" using assms by (intro fl_half_int) simp_all
  then have exact: "fl (of_nat n) = of_nat n" by simp
  have small: "(of_nat n :: rat) < 2 ^ 1024"
  proof -
    have "(of_nat n :: rat) < of_nat (2 ^ 52)" using assms by (simp only: of_nat_less_iff)
    also have "\<dots> \<le> 2 ^ 1024" by simp
    finally show ?thesis .
  qed
  have all: "takeWhile is_digit ?s = ?s" "dropWhile is_digit ?s = []"
    using dig by (simp_all add: takeWhile_eq_all_conv list_all_iff)
  have lit: "decimal_literal ?s = Some (of_nat n)"
    using dig(2) exact small unfolding decimal_literal_def Let_def all
    by (simp add: exponent_value_def finite_double_def undecimal_decimal del: one_add_one)
  have "hd ?s \<noteq> CHR ''+''" "hd ?s \<noteq> CHR ''-''" using dig by (cases ?s; simp add: digit_facts)+
  with lit dig show ?thesis by (simp add: js_Number_def trim_digits lower_digits no_radix_prefix)
qed

lemma keyGeneration_own:
  assumes "1 \<le> g" "g < 2 ^ 52"
  shows "keyGeneration (refundKey refundId g) refundId = Some g"
proof (cases "g = 1")
  case False
  with assms have g: "show_int g = decimal (nat g)" "1 < g" by (simp_all add: show_int_def)
  have "nat g < 2 ^ 52" using assms by (simp add: nat_less_iff)
  from js_Number_decimal [OF this] assms have "js_Number (show_int g) = Some (of_int g)" by (simp add: g(1))
  moreover have "drop (length (refundKeyStem refundId) + 1) (refundKey refundId g) = show_int g"
    using g(2) by (simp add: refundKey_def)
  ultimately show ?thesis using g(2) by (simp add: keyGeneration_def Let_def refundKey_def)
qed (simp add: keyGeneration_def refundKey_def)

lemma keyGeneration_other:
  assumes "length refundId = length other" "refundId \<noteq> other"
  shows "keyGeneration (refundKey refundId g) other = None"
proof -
  have "refundKey refundId g \<noteq> refundKeyStem other" "\<not> prefix (refundKeyStem other @ ''-'') (refundKey refundId g)"
    using assms by (auto simp: refundKey_def refundKeyStem_def prefix_def)
  then show ?thesis by (simp add: keyGeneration_def)
qed

text \<open>
  C40.  The key of a provider call can be read back.  Among refund ids of one length (they are generated with a fixed
  one) a key is recognised as the key of its own refund only, with the generation it was made for, below the
  integers that a double represents exactly, and every key carries the platform's mark.
\<close>

theorem refund_keys_roundtrip:
  assumes "1 \<le> g" "g < 2 ^ 52" "length other = length refundId"
  shows "keyGeneration (refundKey refundId g) other = (if other = refundId then Some g else None) \<and>
    isPlatformKey (Some (refundKey refundId g))"
  using keyGeneration_own [OF assms(1,2), of refundId] keyGeneration_other [of refundId other g] assms(3)
  by (auto simp: isPlatformKey_def refundKey_def refundKeyStem_def prefix_def)

theorem refund_keys_roundtrip_witness:
  "keyGeneration (refundKey ''ck1'' 12) ''ck1'' = Some 12 \<and> keyGeneration (refundKey ''ck1'' 12) ''ck2'' = None"
  using refund_keys_roundtrip [of 12 "''ck1''" "''ck1''"] refund_keys_roundtrip [of 12 "''ck2''" "''ck1''"] by simp

section \<open>What a judgement means\<close>

definition live_ours :: "string \<Rightarrow> refund_record list \<Rightarrow> refund_record list" where
  "live_ours refundId records = filter (\<lambda>r. ours refundId r \<and> rr_status r \<noteq> AS_FAILED) records"

text \<open>A record that can be the refund asked about.\<close>

definition suspect :: "reconcile_context \<Rightarrow> refund_record \<Rightarrow> bool" where
  "suspect ctx r \<longleftrightarrow> rr_status r \<noteq> AS_FAILED \<and> (ours (rc_refundId ctx) r \<or> stranger ctx r)"

lemma reconcile_found: "reconcileRefund records ctx = FOUND r \<longleftrightarrow>
    live_ours (rc_refundId ctx) records = [r] \<and> rr_amountMinor r = rc_amountMinor ctx"
proof -
  have eq: "filter (\<lambda>r. rr_status r \<noteq> AS_FAILED) (filter (ours (rc_refundId ctx)) records) = live_ours (rc_refundId ctx) records"
    by (simp add: live_ours_def)
  show ?thesis unfolding reconcileRefund_def Let_def eq
    by (cases "live_ours (rc_refundId ctx) records" rule: remdups_adj.cases) (auto split: option.splits)
qed

lemma reconcile_none: "says_none (Some (reconcileRefund records ctx)) \<longleftrightarrow> \<not> list_ex (suspect ctx) records"
proof -
  have eq: "filter (\<lambda>r. rr_status r \<noteq> AS_FAILED) (filter (ours (rc_refundId ctx)) records) = live_ours (rc_refundId ctx) records"
    by (simp add: live_ours_def)
  have "list_ex (suspect ctx) records \<longleftrightarrow> live_ours (rc_refundId ctx) records \<noteq> [] \<or> filter (stranger ctx) records \<noteq> []"
    by (auto simp: live_ours_def suspect_def list_ex_iff filter_empty_conv stranger_def)
  then show ?thesis unfolding reconcileRefund_def Let_def eq
    by (cases "live_ours (rc_refundId ctx) records" rule: remdups_adj.cases) (auto simp: says_none_def split: option.splits)
qed

lemma reconcile_definite:
  "reconcileRefund records ctx \<noteq> NOT_PAID" "reconcileRefund records ctx \<noteq> UNAVAILABLE"
  by (auto simp: reconcileRefund_def Let_def split: option.splits)

text \<open>When a retry sends: the refund failed, nothing the provider showed can be it, and the bound on the payment holds.\<close>

lemma retry_send:
  assumes "ra_action (assessRetry f) = Some SEND"
  shows "fa_status f = R_FAILED" "found_amount (fa_providerLookup f) = None" "\<not> is_unmatched (fa_providerLookup f)"
    "fa_providerLookup f \<noteq> Some NOT_PAID" "payment_refusal f = None" "fa_unmatchedProviderRefunds f = 0"
    "lastAnswerOf (fa_history f) = LA_REFUSED \<or> says_none (fa_providerLookup f) \<or> fa_confirmedNoProviderRefund f"
    "fa_providerLookup f = Some NO_REFUND \<longrightarrow> fa_noneBelievableAfter f = None"
    "accepted_before f \<or> fa_ticketsLive f" "0 < fa_amountMinor f \<longrightarrow> fa_payment f \<noteq> None \<and> \<not> fa_paidInCash f"
  using assms last_answer.exhaust
  by (auto simp: assessRetry_def retry_refused_def retry_allowed_def Let_def split: if_splits option.splits)

lemma retry_record:
  assumes "ra_action (assessRetry f) = Some RECORD_PROVIDER_REFUND"
  shows "fa_status f = R_FAILED" "found_amount (fa_providerLookup f) \<noteq> None"
  using assms by (auto simp: assessRetry_def retry_refused_def retry_allowed_def Let_def split: if_splits option.splits)

end
