(* ===== verification/RefundLifecycle.thy ===== *)
theory RefundLifecycle
  imports RefundRetry
begin

text \<open>
  Paying a refund through its provider: \<^verbatim>\<open>refunds/refund-provider-call.ts\<close> (one call with a key, and what to do when
  its answer is lost), the decision, payment and retry of \<^verbatim>\<open>refunds/refunds.service.ts\<close>, and the webhook that moves a
  refund to its final state (\<^verbatim>\<open>payments/razorpay/razorpay-webhook.processor.ts\<close>).

  An operation returns the database with an error or a value, because what was written before an error stays.
  What the outside does during an operation is a \<open>refund_world\<close>: the answer to the money call (\<open>Inl\<close>: it threw),
  the answers to the two lookups, which audit entries get written (\<^verbatim>\<open>AuditService.record\<close> swallows its errors),
  whether the outcome of the attempt is stored, and whether the collaborators of the settling transaction
  (inventory, credit note, notifications) succeed.  Authorization is a flag.

  Shown here: for any behaviour of the outside, a call after a lost answer carries the same key, tickets go back
  once, and a retry never calls a provider that shows the refund.
\<close>

section \<open>The database\<close>

datatype ticket_status = TK_ACTIVE | TK_TRANSFERRED | TK_CHECKED_IN | TK_CANCELLED | TK_REFUNDED | TK_VOID

definition live_ticket :: "ticket_status \<Rightarrow> bool" where
  "live_ticket s \<longleftrightarrow> s = TK_ACTIVE \<or> s = TK_CHECKED_IN"

record refund_payment =
  pm_amountMinor :: minor
  pm_refundedMinor :: minor
  pm_providerRef :: "string option"
  pm_intentId :: "string option"
  pm_fullyRefunded :: "bool option"

text \<open>\<open>pm_fullyRefunded\<close> tells which of the two refunded states the payment was put into by a refund, if any.\<close>

record refund_booking =
  rb_id :: string
  rb_cash :: bool
  rb_status :: booking_status
  rb_tickets :: "(string \<times> ticket_status) list"
  rb_payment :: "refund_payment option"

record refund_row =
  rf_id :: string
  rf_bookingId :: string
  rf_amountMinor :: minor
  rf_ticketIds :: "string list"
  rf_createdAt :: time_ms
  rf_status :: refund_status
  rf_providerRef :: "string option"
  rf_key :: "string option"
  rf_callCount :: nat
  rf_held :: bool
  rf_creditNote :: bool
  rf_processedBy :: "string option"

datatype attempt_outcome = SENT | AT_UNKNOWN | AT_ACCEPTED | AT_REFUSED

datatype call_trigger = APPROVAL | ADMIN_RETRY

record refund_attempt =
  at_refundId :: string
  at_no :: nat
  at_key :: string
  at_trigger :: call_trigger
  at_outcome :: attempt_outcome
  at_startedAt :: time_ms

record refund_db =
  rd_refunds :: "refund_row list"
  rd_attempts :: "refund_attempt list"
  rd_bookings :: "refund_booking list"
  rd_history :: "(string \<times> history_entry) list"
  rd_seen :: "(string \<times> string option) list"
  rd_returned :: "string list"

record refund_world =
  rw_refund :: "string \<Rightarrow> minor \<Rightarrow> string \<Rightarrow> unit + (string \<times> answer_status)"
  rw_lookup :: "bool \<Rightarrow> string \<Rightarrow> lookup_error + refund_record list"
  rw_audits :: "string \<Rightarrow> bool"
  rw_finishes :: bool
  rw_settles :: bool
  rw_now :: time_ms

datatype refund_error =
  RefundNotFound | BookingNotFound | Forbidden | AlreadyDecided | BeingProcessed | PaidInCash | AlreadySending
| TicketsNotLive "string list" | ProviderRefused | ProviderUnresolved | RetryRefused retry_refusal bool | SettleFailed

type_synonym 'a refund_op = "refund_db \<times> (refund_error + 'a)"

fun then_do :: "'a refund_op \<Rightarrow> ('a \<Rightarrow> refund_db \<Rightarrow> 'b refund_op) \<Rightarrow> 'b refund_op" where
  "then_do (db, Inl e) k = (db, Inl e)"
| "then_do (db, Inr x) k = k x db"

definition get_refund :: "string \<Rightarrow> refund_db \<Rightarrow> refund_row option" where
  "get_refund i db = find (\<lambda>r. rf_id r = i) (rd_refunds db)"

definition get_booking :: "string \<Rightarrow> refund_db \<Rightarrow> refund_booking option" where
  "get_booking i db = find (\<lambda>b. rb_id b = i) (rd_bookings db)"

definition set_refund :: "string \<Rightarrow> (refund_row \<Rightarrow> refund_row) \<Rightarrow> refund_db \<Rightarrow> refund_db" where
  "set_refund i f db = db\<lparr>rd_refunds := map (\<lambda>r. if rf_id r = i then f r else r) (rd_refunds db)\<rparr>"

text \<open>An audit entry that may be lost, with the references in its metadata that are not empty.\<close>

definition entry :: "string \<Rightarrow> string option \<Rightarrow> string option list \<Rightarrow> history_entry" where
  "entry action outcome refs = \<lparr>he_action = action, he_outcome = outcome, he_refs = map the (filter truthy refs)\<rparr>"

definition note_entry :: "string \<Rightarrow> history_entry \<Rightarrow> refund_db \<Rightarrow> refund_db" where
  "note_entry i e db = db\<lparr>rd_history := rd_history db @ [(i, e)]\<rparr>"

definition audit :: "refund_world \<Rightarrow> string \<Rightarrow> history_entry \<Rightarrow> refund_db \<Rightarrow> refund_db" where
  "audit w i e db = (if rw_audits w (he_action e) then note_entry i e db else db)"

section \<open>One provider call\<close>

definition attempts_of :: "string \<Rightarrow> refund_db \<Rightarrow> refund_attempt list" where
  "attempts_of i db = filter (\<lambda>a. at_refundId a = i) (rd_attempts db)"

text \<open>\<^verbatim>\<open>orderBy: attemptNo desc, take: 1\<close>\<close>

definition newest_attempt :: "string \<Rightarrow> refund_db \<Rightarrow> refund_attempt option" where
  "newest_attempt i db = fold (\<lambda>a m. case m of None \<Rightarrow> Some a | Some b \<Rightarrow> if at_no b < at_no a then Some a else m)
     (attempts_of i db) None"

definition answered :: "attempt_outcome \<Rightarrow> bool" where
  "answered out \<longleftrightarrow> out = AT_ACCEPTED \<or> out = AT_REFUSED"

definition keyFor :: "string \<Rightarrow> refund_db \<Rightarrow> string refund_op" where
  "keyFor refundId db =
    (let current = Option.bind (get_refund refundId db) rf_key;
         open' = (case newest_attempt refundId db of None \<Rightarrow> True | Some a \<Rightarrow> \<not> answered (at_outcome a)) in
     if truthy current \<and> open' then (db, Inr (the current))
     else let generation = (if truthy current then nvl (keyGeneration (the current) refundId) 1 + 1 else 1);
         next = refundKey refundId generation in
       if get_refund refundId db = None then (db, Inl AlreadySending)
       else (set_refund refundId (\<lambda>r. r\<lparr>rf_key := Some next\<rparr>) db, Inr next))"

definition begin_call :: "string \<Rightarrow> string \<Rightarrow> call_trigger \<Rightarrow> time_ms \<Rightarrow> refund_db \<Rightarrow> nat refund_op" where
  "begin_call refundId key trigger now db =
    (let count = (case get_refund refundId db of None \<Rightarrow> 0 | Some r \<Rightarrow> rf_callCount r) in
     if map_option rf_status (get_refund refundId db) \<noteq> Some R_PROCESSING then (db, Inl AlreadySending)
     else if list_ex (\<lambda>a. at_refundId a = refundId \<and> at_no a = count + 1) (rd_attempts db) then (db, Inl SettleFailed)
     else ((set_refund refundId (\<lambda>r. r\<lparr>rf_callCount := count + 1\<rparr>) db)\<lparr>rd_attempts := rd_attempts db @
         [\<lparr>at_refundId = refundId, at_no = count + 1, at_key = key, at_trigger = trigger, at_outcome = SENT, at_startedAt = now\<rparr>]\<rparr>,
       Inr (count + 1)))"

definition finish :: "refund_world \<Rightarrow> string \<Rightarrow> nat \<Rightarrow> attempt_outcome \<Rightarrow> refund_db \<Rightarrow> refund_db" where
  "finish w refundId no out db =
    (if rw_finishes w
     then db\<lparr>rd_attempts := map (\<lambda>a. if at_refundId a = refundId \<and> at_no a = no then a\<lparr>at_outcome := out\<rparr> else a) (rd_attempts db)\<rparr>
     else db)"

definition known_refs :: "refund_row \<Rightarrow> refund_db \<Rightarrow> string list" where
  "known_refs refund db = map the (filter truthy (map rf_providerRef
     (filter (\<lambda>r. rf_bookingId r = rf_bookingId refund \<and> rf_id r \<noteq> rf_id refund) (rd_refunds db))))"

definition lookup_context :: "refund_row \<Rightarrow> string option \<Rightarrow> refund_db \<Rightarrow> reconcile_context" where
  "lookup_context refund key db = \<lparr>rc_refundId = rf_id refund, rc_amountMinor = rf_amountMinor refund, rc_currentKey = key,
     rc_knownRefs = known_refs refund db, rc_askedAt = rf_createdAt refund\<rparr>"

definition lookup ::
  "(string \<Rightarrow> lookup_error + refund_record list) \<Rightarrow> refund_row \<Rightarrow> string \<Rightarrow> string option \<Rightarrow> refund_db \<Rightarrow> reconciliation" where
  "lookup ask refund paymentRef currentKey db =
    (case ask paymentRef of
       Inl e \<Rightarrow> classifyLookupError e
     | Inr records \<Rightarrow> reconcileRefund records (lookup_context refund currentKey db))"

definition holdForReview :: "refund_world \<Rightarrow> string \<Rightarrow> refund_db \<Rightarrow> refund_db" where
  "holdForReview w i db =
    audit w i (entry ''REFUND_NEEDS_MANUAL_REVIEW'' None []) (set_refund i (\<lambda>r. r\<lparr>rf_held := True\<rparr>) db)"

datatype call_outcome = ANSWERED string answer_status | UNRESOLVED

definition lost_answer :: "refund_world \<Rightarrow> refund_row \<Rightarrow> string \<Rightarrow> string \<Rightarrow> refund_db \<Rightarrow> refund_db \<times> call_outcome" where
  "lost_answer w refund paymentRef key db =
    (let i = rf_id refund; rec = lookup (rw_lookup w True) refund paymentRef (Some key) db;
         db = audit w i (entry ''REFUND_PROVIDER_LOOKUP'' None
           (case rec of FOUND r \<Rightarrow> [Some (rr_refundRef r)] | REFUSED r \<Rightarrow> [Some (rr_refundRef r)] | _ \<Rightarrow> [])) db in
     case rec of
       FOUND r \<Rightarrow> (db, ANSWERED (rr_refundRef r) (rr_status r))
     | REFUSED r \<Rightarrow> (db, ANSWERED (rr_refundRef r) (rr_status r))
     | _ \<Rightarrow> (holdForReview w i db, UNRESOLVED))"

definition send :: "refund_world \<Rightarrow> refund_row \<Rightarrow> refund_payment option \<Rightarrow> call_trigger \<Rightarrow> refund_db \<Rightarrow> call_outcome refund_op" where
  "send w refund payment trigger db =
    (let i = rf_id refund; paymentRef = nvl (Option.bind payment pm_providerRef) ''mock'' in
     then_do (keyFor i db) (\<lambda>key db.
       then_do (begin_call i key trigger (rw_now w) db) (\<lambda>no db.
         case rw_refund w paymentRef (rf_amountMinor refund) key of
           Inl _ \<Rightarrow> (let (db, out) = lost_answer w refund paymentRef key (finish w i no AT_UNKNOWN db) in (db, Inr out))
         | Inr (ref, st) \<Rightarrow> (finish w i no (if st = AS_FAILED then AT_REFUSED else AT_ACCEPTED) db, Inr (ANSWERED ref st)))))"

section \<open>Paying a claimed refund\<close>

definition providerAnswer ::
  "refund_world \<Rightarrow> refund_row \<Rightarrow> refund_payment option \<Rightarrow> call_trigger \<Rightarrow> (string \<times> answer_status) option \<Rightarrow> refund_db \<Rightarrow>
   (string \<times> answer_status) refund_op" where
  "providerAnswer w refund payment trigger known db =
    (case known of
       Some answer \<Rightarrow> (db, Inr answer)
     | None \<Rightarrow> then_do (send w refund payment trigger db) (\<lambda>out db. case out of
         ANSWERED ref st \<Rightarrow> (db, Inr (ref, st))
       | UNRESOLVED \<Rightarrow> (db, Inl ProviderUnresolved)))"

definition mark_failed :: "string \<Rightarrow> 'a refund_op \<Rightarrow> 'a refund_op" where
  "mark_failed i r = (case r of (db, Inl e) \<Rightarrow> (set_refund i (\<lambda>r. r\<lparr>rf_status := R_FAILED\<rparr>) db, Inl e) | (db, Inr x) \<Rightarrow> (db, Inr x))"

text \<open>The provider's refusal: the row is FAILED and no longer waits for a person.\<close>

definition refused_answer :: "refund_world \<Rightarrow> string \<Rightarrow> string \<Rightarrow> refund_db \<Rightarrow> refund_db" where
  "refused_answer w i ref db = audit w i (entry ''REFUND_FAILED'' None [Some ref])
     (set_refund i (\<lambda>r. r\<lparr>rf_status := R_FAILED, rf_providerRef := Some ref, rf_held := False\<rparr>) db)"

definition settled_status :: "answer_status \<Rightarrow> refund_status" where
  "settled_status st = (if st = AS_PROCESSING then R_PROCESSING else R_COMPLETED)"

definition settled_entry :: "answer_status \<Rightarrow> string \<Rightarrow> history_entry" where
  "settled_entry st ref = entry (if settled_status st = R_COMPLETED then ''REFUND_COMPLETED'' else ''REFUND_PROCESSING'') None [Some ref]"

definition settle_row :: "string \<Rightarrow> string \<Rightarrow> answer_status \<Rightarrow> refund_row \<Rightarrow> refund_row" where
  "settle_row actor ref st r = r\<lparr>rf_status := settled_status st, rf_processedBy := Some actor, rf_providerRef := Some ref, rf_held := False\<rparr>"

definition voided_tickets :: "refund_row \<Rightarrow> refund_booking \<Rightarrow> string list" where
  "voided_tickets refund booking = map fst (filter (\<lambda>t. fst t \<in> set (rf_ticketIds refund) \<and> live_ticket (snd t)) (rb_tickets booking))"

definition settle_booking :: "refund_row \<Rightarrow> refund_booking \<Rightarrow> refund_booking \<Rightarrow> refund_booking" where
  "settle_booking refund snapshot b =
    (let voided = voided_tickets refund snapshot;
         ends = list_all (\<lambda>t. fst t \<in> set (rf_ticketIds refund) \<or> \<not> live_ticket (snd t)) (rb_tickets snapshot) in
     b\<lparr>rb_tickets := map (\<lambda>t. if fst t \<in> set voided then (fst t, TK_REFUNDED) else t) (rb_tickets b),
       rb_status := (if ends then BK_REFUNDED else BK_PARTIALLY_REFUNDED),
       rb_payment := map_option (\<lambda>p. p\<lparr>pm_fullyRefunded := Some ends\<rparr>) (rb_payment b)\<rparr>)"

text \<open>The settling transaction, on the booking as it was read before the provider was called.\<close>

definition pay_settle ::
  "refund_world \<Rightarrow> string \<Rightarrow> refund_row \<Rightarrow> refund_booking \<Rightarrow> string \<times> answer_status \<Rightarrow> refund_db \<Rightarrow> unit refund_op" where
  "pay_settle w actor refund booking answer db =
    (if \<not> rw_settles w then (db, Inl SettleFailed)
     else (audit w (rf_id refund) (settled_entry (snd answer) (fst answer))
       (set_refund (rf_id refund) (\<lambda>r. (settle_row actor (fst answer) (snd answer) r)\<lparr>rf_creditNote := True\<rparr>)
         (db\<lparr>rd_bookings := map (\<lambda>b. if rb_id b = rb_id booking then settle_booking refund booking b else b) (rd_bookings db),
             rd_returned := rd_returned db @ voided_tickets refund booking\<rparr>)), Inr ()))"

definition gone_tickets :: "refund_row \<Rightarrow> refund_booking \<Rightarrow> string list" where
  "gone_tickets refund booking = filter (\<lambda>i. \<not> list_ex (\<lambda>t. fst t = i \<and> live_ticket (snd t)) (rb_tickets booking)) (rf_ticketIds refund)"

text \<open>Everything up to the provider's answer; the booking that was read comes back with it.\<close>

definition pay_ask ::
  "refund_world \<Rightarrow> refund_row \<Rightarrow> call_trigger \<Rightarrow> (string \<times> answer_status) option \<Rightarrow> refund_db \<Rightarrow>
   (refund_booking \<times> string \<times> answer_status) refund_op" where
  "pay_ask w refund trigger known db =
    (case get_booking (rf_bookingId refund) db of
       None \<Rightarrow> mark_failed (rf_id refund) (db, Inl BookingNotFound)
     | Some booking \<Rightarrow>
        if gone_tickets refund booking \<noteq> []
        then (audit w (rf_id refund) (entry ''REFUND_TICKETS_NOT_LIVE'' None []) (set_refund (rf_id refund) (\<lambda>r. r\<lparr>rf_status := R_FAILED\<rparr>) db),
          Inl (TicketsNotLive (gone_tickets refund booking)))
        else then_do
          (mark_failed (rf_id refund)
            (if rb_payment booking = None \<and> rf_amountMinor refund = 0 then (db, Inr (''free:'' @ rf_bookingId refund, AS_COMPLETED))
             else providerAnswer w refund (rb_payment booking) trigger known db))
          (\<lambda>answer db. if snd answer = AS_FAILED then (refused_answer w (rf_id refund) (fst answer) db, Inl ProviderRefused)
             else (db, Inr (booking, answer))))"

definition payClaimed ::
  "refund_world \<Rightarrow> string \<Rightarrow> refund_row \<Rightarrow> call_trigger \<Rightarrow> (string \<times> answer_status) option \<Rightarrow> refund_db \<Rightarrow> unit refund_op" where
  "payClaimed w actor refund trigger known db =
    then_do (pay_ask w refund trigger known db) (\<lambda>(booking, answer) db. pay_settle w actor refund booking answer db)"

datatype refund_decision = APPROVE | REJECT

definition process_refund :: "refund_world \<Rightarrow> bool \<Rightarrow> string \<Rightarrow> refund_decision \<Rightarrow> string \<Rightarrow> refund_db \<Rightarrow> unit refund_op" where
  "process_refund w may actor decision refundId db =
    (case get_refund refundId db of
       None \<Rightarrow> (db, Inl RefundNotFound)
     | Some refund \<Rightarrow>
        if \<not> may then (db, Inl Forbidden)
        else if rf_status refund \<noteq> REQUESTED then (db, Inl AlreadyDecided)
        else if decision = REJECT then
          (audit w refundId (entry ''REFUND_REJECTED'' None [])
            (set_refund refundId (\<lambda>r. r\<lparr>rf_status := REJECTED, rf_processedBy := Some actor\<rparr>) db), Inr ())
        else if map_option rb_cash (get_booking (rf_bookingId refund) db) = Some True \<and> 0 < rf_amountMinor refund
        then (db, Inl PaidInCash)
        else payClaimed w actor refund APPROVAL None
          (set_refund refundId (\<lambda>r. r\<lparr>rf_status := R_PROCESSING, rf_processedBy := Some actor\<rparr>) db))"

section \<open>Retrying a refund\<close>

definition history_of :: "string \<Rightarrow> refund_db \<Rightarrow> history_entry list" where
  "history_of i db = map snd (filter (\<lambda>e. fst e = i) (rd_history db))"

definition siblings_of :: "refund_row \<Rightarrow> refund_db \<Rightarrow> refund_row list" where
  "siblings_of refund db = filter (\<lambda>r. rf_bookingId r = rf_bookingId refund \<and> rf_id r \<noteq> rf_id refund) (rd_refunds db)"

text \<open>The provider is asked only about a failed refund of money that a provider holds.\<close>

definition retry_lookup :: "refund_world \<Rightarrow> refund_row \<Rightarrow> refund_booking option \<Rightarrow> refund_db \<Rightarrow> reconciliation option" where
  "retry_lookup w refund booking db =
    (let ref = Option.bind (Option.bind booking rb_payment) pm_providerRef in
     if rf_status refund = R_FAILED \<and> 0 < rf_amountMinor refund \<and> map_option rb_cash booking \<noteq> Some True \<and> truthy ref
     then Some (lookup (rw_lookup w False) refund (the ref) (rf_key refund) db) else None)"

definition too_soon_until :: "time_ms \<Rightarrow> reconciliation option \<Rightarrow> refund_attempt option \<Rightarrow> time_ms option" where
  "too_soon_until now found newest =
    (case newest of
       None \<Rightarrow> None
     | Some a \<Rightarrow> if found = Some NO_REFUND \<and> (at_outcome a = AT_UNKNOWN \<or> at_outcome a = SENT) \<and> now < recheckAfter (at_startedAt a)
         then Some (recheckAfter (at_startedAt a)) else None)"

definition found_ref :: "reconciliation option \<Rightarrow> string option" where
  "found_ref l = (case l of Some (FOUND r) \<Rightarrow> Some (rr_refundRef r) | _ \<Rightarrow> None)"

definition unmatched_seen :: "refund_row \<Rightarrow> refund_booking option \<Rightarrow> reconciliation option \<Rightarrow> refund_db \<Rightarrow> nat" where
  "unmatched_seen refund booking found db =
    (let paymentId = Option.bind (Option.bind booking rb_payment) pm_intentId in
     if \<not> truthy paymentId then 0
     else let seen = take 200 (filter (\<lambda>e. Some (fst e) = paymentId) (rd_seen db));
         known = providerRefsOf (history_of (rf_id refund) db) (rf_providerRef refund) @
           map the (filter truthy (map rf_providerRef (siblings_of refund db))) @ (if truthy (found_ref found) then [the (found_ref found)] else []) in
       length (filter (\<lambda>i. i \<notin> set known) (unique (map the (filter truthy (map snd seen))))))"

definition retryFacts :: "refund_world \<Rightarrow> bool \<Rightarrow> refund_row \<Rightarrow> refund_db \<Rightarrow> retry_facts" where
  "retryFacts w confirmed refund db =
    (let booking = get_booking (rf_bookingId refund) db; found = retry_lookup w refund booking db in
     \<lparr>fa_status = rf_status refund, fa_amountMinor = rf_amountMinor refund, fa_history = history_of (rf_id refund) db,
      fa_hasCreditNote = rf_creditNote refund,
      fa_ticketsLive = list_all (\<lambda>i. case booking of None \<Rightarrow> False | Some b \<Rightarrow> list_ex (\<lambda>t. fst t = i \<and> live_ticket (snd t)) (rb_tickets b))
        (rf_ticketIds refund),
      fa_bookingExists = (booking \<noteq> None), fa_paidInCash = (map_option rb_cash booking = Some True),
      fa_payment = map_option (\<lambda>p. \<lparr>pp_amountMinor = pm_amountMinor p, pp_refundedMinor = pm_refundedMinor p\<rparr>) (Option.bind booking rb_payment),
      fa_otherRefunds = map (\<lambda>r. (rf_status r, rf_amountMinor r)) (siblings_of refund db),
      fa_unmatchedProviderRefunds = unmatched_seen refund booking found db, fa_confirmedNoProviderRefund = confirmed,
      fa_providerLookup = found, fa_noneBelievableAfter = too_soon_until (rw_now w) found (newest_attempt (rf_id refund) db)\<rparr>)"

definition retryCheck :: "refund_world \<Rightarrow> string \<Rightarrow> refund_db \<Rightarrow> refund_error + retry_assessment" where
  "retryCheck w refundId db =
    (case get_refund refundId db of None \<Rightarrow> Inl RefundNotFound | Some refund \<Rightarrow> Inr (assessRetry (retryFacts w False refund db)))"

definition resendAccepted ::
  "refund_world \<Rightarrow> string \<Rightarrow> refund_row \<Rightarrow> refund_payment option \<Rightarrow> (string \<times> answer_status) option \<Rightarrow> refund_db \<Rightarrow> unit refund_op" where
  "resendAccepted w actor refund payment known db =
    then_do (mark_failed (rf_id refund) (providerAnswer w refund payment ADMIN_RETRY known db)) (\<lambda>(ref, st) db.
      if st = AS_FAILED then (refused_answer w (rf_id refund) ref db, Inl ProviderRefused)
      else (audit w (rf_id refund) (settled_entry st ref) (set_refund (rf_id refund) (settle_row actor ref st) db), Inr ()))"

definition known_answer :: "retry_assessment \<Rightarrow> reconciliation option \<Rightarrow> (string \<times> answer_status) option" where
  "known_answer assessment l =
    (case l of
       Some (FOUND r) \<Rightarrow> if ra_action assessment = Some RECORD_PROVIDER_REFUND \<and> rr_refundRef r \<noteq> [] then Some (rr_refundRef r, rr_status r) else None
     | _ \<Rightarrow> None)"

datatype retry_result = RT_COMPLETED | RT_PROCESSING | RT_FAILED | RT_NEEDS_REVIEW | RT_ERROR

fun result_name :: "retry_result \<Rightarrow> string" where
  "result_name RT_COMPLETED = ''COMPLETED''"
| "result_name RT_PROCESSING = ''PROCESSING''"
| "result_name RT_FAILED = ''FAILED''"
| "result_name RT_NEEDS_REVIEW = ''NEEDS_REVIEW''"
| "result_name RT_ERROR = ''ERROR''"

text \<open>The claim of a failed refund, with the marker that a call may follow, in one transaction.\<close>

definition claim_retry :: "string \<Rightarrow> refund_row \<Rightarrow> refund_db \<Rightarrow> refund_db" where
  "claim_retry actor refund db = note_entry (rf_id refund) (entry ''REFUND_RETRY_STARTED'' None [rf_providerRef refund])
     (set_refund (rf_id refund) (\<lambda>r. r\<lparr>rf_status := R_PROCESSING, rf_processedBy := Some actor\<rparr>) db)"

text \<open>What the attempt came to: every error leaves the refund FAILED rather than claimed.\<close>

definition retry_outcome :: "string \<Rightarrow> unit refund_op \<Rightarrow> refund_db \<times> retry_result" where
  "retry_outcome i r =
    (case r of
       (db, Inr _) \<Rightarrow> (db, if map_option rf_status (get_refund i db) = Some R_COMPLETED then RT_COMPLETED else RT_PROCESSING)
     | (db, Inl e) \<Rightarrow> (set_refund i (\<lambda>r. if rf_status r = R_PROCESSING then r\<lparr>rf_status := R_FAILED\<rparr> else r) db,
         if e = ProviderRefused then RT_FAILED else if e = ProviderUnresolved then RT_NEEDS_REVIEW else RT_ERROR))"

definition retry_refund :: "refund_world \<Rightarrow> bool \<Rightarrow> string \<Rightarrow> bool \<Rightarrow> string \<Rightarrow> refund_db \<Rightarrow> retry_result refund_op" where
  "retry_refund w may actor confirmed refundId db =
    (case get_refund refundId db of
       None \<Rightarrow> (db, Inl RefundNotFound)
     | Some refund \<Rightarrow>
        (let facts = retryFacts w confirmed refund db; assessment = assessRetry facts;
             known = known_answer assessment (fa_providerLookup facts);
             booking = get_booking (rf_bookingId refund) db in
         if \<not> may then (db, Inl Forbidden)
         else if \<not> ra_allowed assessment then
           (audit w refundId (entry ''REFUND_RETRY_REFUSED'' None []) db,
            Inl (RetryRefused (the (ra_refusal assessment)) (ra_needsConfirmation assessment)))
         else
           let claimed = claim_retry actor refund db;
               run = (if ra_stage assessment = Some TICKETS_RETURNED \<and> booking \<noteq> None
                 then resendAccepted w actor refund (rb_payment (the booking)) known claimed
                 else payClaimed w actor refund ADMIN_RETRY known claimed);
               (db, outcome) = retry_outcome refundId run in
           (audit w refundId (entry ''REFUND_RETRY_RESULT'' (Some (result_name outcome))
              [Option.bind (get_refund refundId db) rf_providerRef]) db, Inr outcome)))"

section \<open>The provider's last word\<close>

definition settleRefundRow ::
  "string \<Rightarrow> string option \<Rightarrow> refund_status \<Rightarrow> refund_db \<Rightarrow> refund_row option refund_op" where
  "settleRefundRow providerRefundId bookingId to db =
    (case find (\<lambda>r. rf_providerRef r = Some providerRefundId) (rd_refunds db) of
       None \<Rightarrow>
         if truthy bookingId \<and> list_ex (\<lambda>r. Some (rf_bookingId r) = bookingId \<and> rf_status r = R_PROCESSING \<and> rf_providerRef r = None) (rd_refunds db)
         then (db, Inl BeingProcessed) else (db, Inr None)
     | Some row \<Rightarrow>
         if rf_status row \<in> (if to = R_COMPLETED then {R_PROCESSING} else {R_PROCESSING, R_COMPLETED, REQUESTED})
         then (set_refund (rf_id row) (\<lambda>r. r\<lparr>rf_status := to\<rparr>) db, Inr (Some row)) else (db, Inr None))"

definition handleRefundFailed :: "refund_world \<Rightarrow> string \<Rightarrow> string option \<Rightarrow> refund_db \<Rightarrow> bool refund_op" where
  "handleRefundFailed w providerRefundId paymentId db =
    (if providerRefundId = [] then (db, Inr False)
     else let bookingId = (if truthy paymentId
           then map_option rb_id (find (\<lambda>b. Option.bind (rb_payment b) pm_intentId = paymentId) (rd_bookings db)) else None) in
       then_do (settleRefundRow providerRefundId bookingId R_FAILED db) (\<lambda>row db. case row of
         None \<Rightarrow> (db, Inr False)
       | Some r \<Rightarrow> (audit w (rf_id r) (entry ''REFUND_FAILED_AT_PROVIDER'' None [Some providerRefundId]) db, Inr True)))"

section \<open>What an operation leaves alone\<close>

text \<open>The calls of the refunds, and the tickets with what was handed back.\<close>

definition same_calls :: "refund_db \<Rightarrow> refund_db \<Rightarrow> bool" where
  "same_calls db db' \<longleftrightarrow> rd_attempts db' = rd_attempts db \<and>
    map (\<lambda>r. (rf_id r, rf_key r, rf_callCount r)) (rd_refunds db') = map (\<lambda>r. (rf_id r, rf_key r, rf_callCount r)) (rd_refunds db)"

definition same_stock :: "refund_db \<Rightarrow> refund_db \<Rightarrow> bool" where
  "same_stock db db' \<longleftrightarrow> rd_bookings db' = rd_bookings db \<and> rd_returned db' = rd_returned db"

lemma same_refl [simp]: "same_calls db db" "same_stock db db"
  by (simp_all add: same_calls_def same_stock_def)

lemma same_calls_trans [trans]: "same_calls x y \<Longrightarrow> same_calls y z \<Longrightarrow> same_calls x z"
  by (simp add: same_calls_def)

lemma same_stock_trans [trans]: "same_stock x y \<Longrightarrow> same_stock y z \<Longrightarrow> same_stock x z"
  by (simp add: same_stock_def)

definition keeps_call :: "(refund_row \<Rightarrow> refund_row) \<Rightarrow> bool" where
  "keeps_call f \<longleftrightarrow> (\<forall>r. rf_id (f r) = rf_id r \<and> rf_key (f r) = rf_key r \<and> rf_callCount (f r) = rf_callCount r)"

lemma set_refund_calls: "keeps_call f \<Longrightarrow> same_calls db (set_refund i f db)"
  by (simp add: same_calls_def set_refund_def keeps_call_def)

lemma set_refund_stock [simp]: "same_stock db (set_refund i f db)"
  by (simp add: same_stock_def set_refund_def)

lemma keeps_call_simps [simp]:
  "keeps_call (\<lambda>r. r\<lparr>rf_status := s\<rparr>)" "keeps_call (\<lambda>r. r\<lparr>rf_status := s, rf_processedBy := a\<rparr>)" "keeps_call (\<lambda>r. r\<lparr>rf_held := h\<rparr>)"
  "keeps_call (\<lambda>r. r\<lparr>rf_status := s, rf_providerRef := p, rf_held := h\<rparr>)" "keeps_call (settle_row actor ref st)"
  "keeps_call (\<lambda>r. (settle_row actor ref st r)\<lparr>rf_creditNote := c\<rparr>)"
  "keeps_call (\<lambda>r. if rf_status r = t then r\<lparr>rf_status := s\<rparr> else r)"
  by (auto simp: keeps_call_def settle_row_def)

lemma audit_same [simp]: "same_calls db (audit w i e db)" "same_stock db (audit w i e db)"
    "same_calls db (note_entry i e db)" "same_stock db (note_entry i e db)"
  by (simp_all add: audit_def note_entry_def same_calls_def same_stock_def)

lemma audit_set [simp]: "keeps_call f \<Longrightarrow> same_calls db (audit w i e (set_refund j f db))" "same_stock db (audit w i e (set_refund j f db))"
  by (rule same_calls_trans [OF set_refund_calls audit_same(1)], assumption) (rule same_stock_trans [OF set_refund_stock audit_same(2)])

lemma hold_same [simp]: "same_calls db (holdForReview w i db)" "same_stock db (holdForReview w i db)"
  by (simp_all add: holdForReview_def)

lemma refused_same [simp]: "same_calls db (refused_answer w i ref db)" "same_stock db (refused_answer w i ref db)"
  by (simp_all add: refused_answer_def)

lemma lost_same: "same_calls db (fst (lost_answer w refund p k db)) \<and> same_stock db (fst (lost_answer w refund p k db))"
  by (auto simp: lost_answer_def Let_def split: reconciliation.split 
    intro: same_calls_trans [OF audit_same(1) hold_same(1)] same_stock_trans [OF audit_same(2) hold_same(2)])

lemma mark_failed_same:
  "same_calls (fst m) (fst (mark_failed i m))" "same_stock (fst m) (fst (mark_failed i m))"
  by (auto simp: mark_failed_def set_refund_calls split: prod.splits sum.splits)

section \<open>The key of a call\<close>

text \<open>
  The attempts of a refund are numbered without a gap, an attempt whose answer is not known is followed only by
  attempts with the same key, and so is the key stored for the next call.
\<close>

definition same_operation :: "refund_attempt \<Rightarrow> refund_attempt \<Rightarrow> bool" where
  "same_operation a b \<longleftrightarrow> at_key a = at_key b \<or> answered (at_outcome a)"

definition calls_ok :: "string option \<Rightarrow> nat \<Rightarrow> refund_attempt list \<Rightarrow> bool" where
  "calls_ok key count as \<longleftrightarrow> map at_no as = [1..<Suc count] \<and> successively same_operation as \<and>
    (as \<noteq> [] \<longrightarrow> truthy key \<and> (key = Some (at_key (last as)) \<or> answered (at_outcome (last as))))"

definition calls_inv :: "refund_db \<Rightarrow> bool" where
  "calls_inv db \<longleftrightarrow> distinct (map rf_id (rd_refunds db)) \<and> at_refundId ` set (rd_attempts db) \<subseteq> rf_id ` set (rd_refunds db) \<and>
    (\<forall>r \<in> set (rd_refunds db). calls_ok (rf_key r) (rf_callCount r) (attempts_of (rf_id r) db))"

lemma same_calls_inv:
  assumes "same_calls db db'" "calls_inv db"
  shows "calls_inv db'"
proof -
  let ?t = "\<lambda>r. (rf_id r, rf_key r, rf_callCount r)"
  have eq: "map ?t (rd_refunds db') = map ?t (rd_refunds db)" "attempts_of i db' = attempts_of i db" "rd_attempts db' = rd_attempts db" for i
    using assms(1) by (simp_all add: same_calls_def attempts_of_def)
  have ids: "map rf_id (rd_refunds db') = map rf_id (rd_refunds db)" using arg_cong [OF eq(1), of "map fst"] by (simp add: comp_def)
  have "?t ` set (rd_refunds db') = ?t ` set (rd_refunds db)" using arg_cong [OF eq(1), of set] by simp
  then have "\<exists>r' \<in> set (rd_refunds db). ?t r' = ?t r" if "r \<in> set (rd_refunds db')" for r using that by (metis (no_types, lifting) imageE imageI)
  then have "calls_ok (rf_key r) (rf_callCount r) (attempts_of (rf_id r) db')" if "r \<in> set (rd_refunds db')" for r
    using that assms(2) eq(2) unfolding calls_inv_def by fastforce
  moreover have "rf_id ` set (rd_refunds db') = rf_id ` set (rd_refunds db)" using arg_cong [OF ids, of set] by simp
  ultimately show ?thesis using assms(2) ids eq(3) by (simp add: calls_inv_def)
qed

lemma get_refund_Some: "get_refund i db = Some r \<Longrightarrow> r \<in> set (rd_refunds db) \<and> rf_id r = i"
  unfolding get_refund_def by (drule find_set) simp

lemma get_refund_None: "get_refund i db = None \<longleftrightarrow> i \<notin> rf_id ` set (rd_refunds db)"
  by (auto simp: get_refund_def find_None_iff)

lemma get_refund_unique: "calls_inv db \<Longrightarrow> r \<in> set (rd_refunds db) \<Longrightarrow> get_refund (rf_id r) db = Some r"
  unfolding get_refund_def calls_inv_def by (intro find_the) (auto simp: distinct_map inj_on_def)

lemma newest_last:
  assumes "map at_no (attempts_of i db) = [1..<Suc n]"
  shows "newest_attempt i db = (if attempts_of i db = [] then None else Some (last (attempts_of i db)))"
proof -
  let ?f = "\<lambda>a m. case m of None \<Rightarrow> Some a | Some b \<Rightarrow> if at_no b < at_no a then Some a else m"
  have "map at_no as = [1..<Suc n] \<Longrightarrow> fold ?f as None = (if as = [] then None else Some (last as))" for as n
  proof (induction as arbitrary: n rule: rev_induct)
    case (snoc a as)
    then obtain k where k: "n = Suc k" "map at_no as = [1..<Suc k]" "at_no a = Suc k" by (cases n) auto
    from snoc.IH [OF k(2)] show ?case
    proof (cases "as = []")
      case False
      then have "at_no (last as) \<in> set (map at_no as)" by simp
      then have "at_no (last as) < at_no a" unfolding k(2) k(3) by auto
      with snoc.IH [OF k(2)] False show ?thesis by simp
    qed simp
  qed simp
  from this [OF assms] show ?thesis by (simp add: newest_attempt_def)
qed

lemma row_calls: "calls_inv db \<Longrightarrow> get_refund i db = Some r \<Longrightarrow> calls_ok (rf_key r) (rf_callCount r) (attempts_of i db)"
  using get_refund_Some [of i db r] by (auto simp: calls_inv_def)

lemma set_refund_row:
  assumes "calls_inv db" "get_refund i db = Some r" "\<And>x. rf_id (f x) = rf_id x"
  shows "set (rd_refunds (set_refund i f db)) = insert (f r) {x \<in> set (rd_refunds db). rf_id x \<noteq> i}"
    "map rf_id (rd_refunds (set_refund i f db)) = map rf_id (rd_refunds db)" "get_refund i (set_refund i f db) = Some (f r)"
proof -
  have same: "x = r" if "x \<in> set (rd_refunds db)" "rf_id x = i" for x
    using get_refund_unique [OF assms(1) that(1)] that(2) assms(2) by simp
  have r: "r \<in> set (rd_refunds db)" "rf_id r = i" using get_refund_Some [OF assms(2)] by auto
  show "set (rd_refunds (set_refund i f db)) = insert (f r) {x \<in> set (rd_refunds db). rf_id x \<noteq> i}"
    using r same by (force simp: set_refund_def)
  show "map rf_id (rd_refunds (set_refund i f db)) = map rf_id (rd_refunds db)"
    using assms(3) by (simp add: set_refund_def)
  show "get_refund i (set_refund i f db) = Some (f r)"
    unfolding get_refund_def set_refund_def
  proof (rule find_the)
    show "f r \<in> set (rd_refunds (db\<lparr>rd_refunds := map (\<lambda>r. if rf_id r = i then f r else r) (rd_refunds db)\<rparr>))" using r by force
    show "rf_id (f r) = i" using r assms(3) by simp
    fix y assume "y \<in> set (rd_refunds (db\<lparr>rd_refunds := map (\<lambda>r. if rf_id r = i then f r else r) (rd_refunds db)\<rparr>))" "rf_id y = i"
    then obtain x where "x \<in> set (rd_refunds db)" "y = (if rf_id x = i then f x else x)" by auto
    with \<open>rf_id y = i\<close> show "y = f r" using same by (auto split: if_splits)
  qed
qed

text \<open>A change of one row and of its attempts only.\<close>

lemma calls_inv_row:
  assumes inv: "calls_inv db" and r: "get_refund i db = Some r" "\<And>x. rf_id (f x) = rf_id x"
    and db': "rd_refunds db' = rd_refunds (set_refund i f db)" "at_refundId ` set (rd_attempts db') \<subseteq> insert i (at_refundId ` set (rd_attempts db))"
    and other: "\<And>j. j \<noteq> i \<Longrightarrow> attempts_of j db' = attempts_of j db"
    and ok: "calls_ok (rf_key (f r)) (rf_callCount (f r)) (attempts_of i db')"
  shows "calls_inv db'"
proof -
  note row = set_refund_row [OF inv r(1), of f, OF r(2)]
  have idr: "rf_id r = i" using get_refund_Some [OF r(1)] by simp
  have "calls_ok (rf_key x) (rf_callCount x) (attempts_of (rf_id x) db')" if "x \<in> set (rd_refunds db')" for x
    using that inv ok other r(2) idr unfolding db'(1) row(1) by (auto simp: calls_inv_def)
  moreover have "rf_id ` set (rd_refunds db') = rf_id ` set (rd_refunds db)"
    using arg_cong [OF row(2), of set] unfolding db'(1) by simp
  moreover have "at_refundId ` set (rd_attempts db') \<subseteq> rf_id ` set (rd_refunds db)"
    by (rule subset_trans [OF db'(2)]) (use inv get_refund_Some [OF r(1)] in \<open>auto simp: calls_inv_def\<close>)
  ultimately show ?thesis using inv row(2) unfolding calls_inv_def db'(1) by simp
qed

definition key_ready :: "string \<Rightarrow> string \<Rightarrow> refund_db \<Rightarrow> bool" where
  "key_ready i key db \<longleftrightarrow> (\<exists>r. get_refund i db = Some r \<and> rf_key r = Some key \<and> key \<noteq> [] \<and>
    (attempts_of i db \<noteq> [] \<longrightarrow> key = at_key (last (attempts_of i db)) \<or> answered (at_outcome (last (attempts_of i db)))))"

lemma keyFor_ok:
  assumes inv: "calls_inv db" and run: "keyFor i db = (db', res)"
  shows "calls_inv db' \<and> same_stock db db' \<and> rd_attempts db' = rd_attempts db \<and> (\<forall>key. res = Inr key \<longrightarrow> key_ready i key db')"
proof (cases "get_refund i db")
  case None
  with run show ?thesis using inv by (auto simp: keyFor_def truthy_def)
next
  case (Some r)
  let ?as = "attempts_of i db"
  note ok = row_calls [OF inv Some]
  have new: "newest_attempt i db = (if ?as = [] then None else Some (last ?as))"
    by (rule newest_last) (use ok in \<open>simp add: calls_ok_def\<close>)
  show ?thesis
  proof (cases "truthy (rf_key r) \<and> (?as \<noteq> [] \<longrightarrow> \<not> answered (at_outcome (last ?as)))")
    case True
    with run Some new have "db' = db" "res = Inr (the (rf_key r))" by (cases "?as = []"; simp add: keyFor_def Let_def)+
    with True Some ok inv show ?thesis by (auto simp: key_ready_def truthy_def calls_ok_def)
  next
    case False
    then obtain g where run': "db' = set_refund i (\<lambda>r. r\<lparr>rf_key := Some (refundKey i g)\<rparr>) db" "res = Inr (refundKey i g)"
      using run Some new by (cases "?as = []") (auto simp: keyFor_def Let_def split: if_splits)
    have nonempty: "refundKey i g \<noteq> []" by (simp add: refundKey_def refundKeyStem_def)
    have free: "?as \<noteq> [] \<longrightarrow> answered (at_outcome (last ?as))" using False ok by (auto simp: calls_ok_def)
    have as: "attempts_of j db' = attempts_of j db" "rd_attempts db' = rd_attempts db" for j
      by (simp_all add: run'(1) attempts_of_def set_refund_def)
    have "calls_inv db'"
      by (rule calls_inv_row [OF inv Some, where f = "\<lambda>r. r\<lparr>rf_key := Some (refundKey i g)\<rparr>"]) (use run' as ok free nonempty in \<open>auto simp: calls_ok_def truthy_def\<close>)
    moreover have "get_refund i db' = Some (r\<lparr>rf_key := Some (refundKey i g)\<rparr>)" unfolding run'(1)
      by (rule set_refund_row(3) [OF inv Some]) simp
    ultimately show ?thesis using free nonempty as run' by (auto simp: key_ready_def)
  qed
qed

text \<open>After the call began, the newest attempt carries the stored key and the number that was handed out.\<close>

definition call_open :: "string \<Rightarrow> nat \<Rightarrow> refund_db \<Rightarrow> bool" where
  "call_open i no db \<longleftrightarrow> (\<exists>r. get_refund i db = Some r \<and> attempts_of i db \<noteq> [] \<and> at_no (last (attempts_of i db)) = no \<and>
    rf_key r = Some (at_key (last (attempts_of i db))))"

lemma begin_ok:
  assumes inv: "calls_inv db" and ready: "key_ready i key db" and run: "begin_call i key trigger now db = (db', res)"
  shows "calls_inv db' \<and> same_stock db db' \<and> (\<forall>no. res = Inr no \<longrightarrow> call_open i no db')"
proof (cases res)
  case (Inl e)
  then have "db' = db" using run by (auto simp: begin_call_def Let_def split: if_splits)
  with Inl inv show ?thesis by simp
next
  case (Inr no)
  from ready obtain r where r: "get_refund i db = Some r" "rf_key r = Some key" "key \<noteq> []"
    and free: "attempts_of i db \<noteq> [] \<longrightarrow> key = at_key (last (attempts_of i db)) \<or> answered (at_outcome (last (attempts_of i db)))"
    by (auto simp: key_ready_def)
  let ?f = "\<lambda>x. x\<lparr>rf_callCount := rf_callCount r + 1\<rparr>" and
    ?a = "\<lparr>at_refundId = i, at_no = rf_callCount r + 1, at_key = key, at_trigger = trigger, at_outcome = SENT, at_startedAt = now\<rparr>"
  have db': "rd_refunds db' = rd_refunds (set_refund i ?f db)"
      "rd_attempts db' = rd_attempts db @ [?a]" "rd_bookings db' = rd_bookings db" "rd_returned db' = rd_returned db" "no = rf_callCount r + 1"
    using run r(1) Inr by (auto simp: begin_call_def Let_def set_refund_def split: if_splits)
  have as: "attempts_of i db' = attempts_of i db @ [?a]" "\<And>j. j \<noteq> i \<Longrightarrow> attempts_of j db' = attempts_of j db"
    by (simp_all add: attempts_of_def db'(2))
  note ok = row_calls [OF inv r(1)]
  have "calls_ok (Some key) (rf_callCount r + 1) (attempts_of i db')"
    using ok free r(2,3) unfolding as(1) by (auto simp: calls_ok_def successively_append_iff same_operation_def truthy_def)
  then have "calls_inv db'"
    by (intro calls_inv_row [OF inv r(1) _ db'(1)]) (use as(2) r(2) db'(2) in auto)
  moreover have "call_open i no db'"
    using set_refund_row(3) [OF inv r(1), of ?f] r(2) as(1) db' by (simp add: call_open_def get_refund_def)
  ultimately show ?thesis using Inr db' by (simp add: same_stock_def)
qed

lemma finish_ok:
  assumes inv: "calls_inv db" and opn: "call_open i no db"
  shows "calls_inv (finish w i no out db) \<and> same_stock db (finish w i no out db)"
proof (cases "rw_finishes w")
  case True
  from opn obtain r where r: "get_refund i db = Some r" and ne: "attempts_of i db \<noteq> []" and no: "at_no (last (attempts_of i db)) = no"
    and key: "rf_key r = Some (at_key (last (attempts_of i db)))" by (auto simp: call_open_def)
  define g :: "refund_attempt \<Rightarrow> refund_attempt" where "g = (\<lambda>a. if at_refundId a = i \<and> at_no a = no then a\<lparr>at_outcome := out\<rparr> else a)"
  let ?db = "finish w i no out db"
  have db': "rd_refunds ?db = rd_refunds (set_refund i (\<lambda>x. x) db)" "rd_attempts ?db = map g (rd_attempts db)" "same_stock db ?db"
    using True by (simp_all add: finish_def set_refund_def g_def same_stock_def)
  have g: "at_refundId (g a) = at_refundId a" "at_no (g a) = at_no a" "at_key (g a) = at_key a" for a by (simp_all add: g_def)
  have as: "attempts_of j ?db = map g (attempts_of j db)" for j
    by (simp add: attempts_of_def db'(2) filter_map comp_def g(1))
  note ok = row_calls [OF inv r]
  define xs x where "xs = butlast (attempts_of i db)" and "x = last (attempts_of i db)"
  have split: "attempts_of i db = xs @ [x]" using ne by (simp add: xs_def x_def)
  have "distinct (map at_no (attempts_of i db))" using ok by (simp add: calls_ok_def)
  then have "at_no a \<noteq> no" if "a \<in> set xs" for a using imageI [OF that, of at_no] no unfolding split by auto
  then have "map g xs = xs" by (intro map_idI) (auto simp: g_def)
  then have as': "attempts_of i ?db = xs @ [g x]" by (simp add: as split)
  have "same_operation y x \<longleftrightarrow> same_operation y (g x)" for y by (simp add: same_operation_def g(3))
  then have "calls_ok (rf_key r) (rf_callCount r) (attempts_of i ?db)"
    using ok key unfolding as' split by (simp add: calls_ok_def successively_append_iff g)
  moreover have "attempts_of j ?db = attempts_of j db" if "j \<noteq> i" for j
    unfolding as using that by (intro map_idI) (auto simp: g_def attempts_of_def)
  ultimately have "calls_inv ?db"
    by (intro calls_inv_row [OF inv r _ db'(1)]) (use get_refund_Some [OF r] db'(2) g(1) in \<open>auto simp: image_image\<close>)
  with db'(3) show ?thesis by simp
qed (use inv in \<open>simp add: finish_def\<close>)

lemma send_ok:
  assumes "calls_inv db"
  shows "calls_inv (fst (send w refund payment trigger db)) \<and> same_stock db (fst (send w refund payment trigger db))"
proof -
  let ?i = "rf_id refund"
  obtain db1 res1 where k: "keyFor ?i db = (db1, res1)" by force
  note one = keyFor_ok [OF assms k]
  show ?thesis
  proof (cases res1)
    case (Inl e)
    with one k show ?thesis by (simp add: send_def)
  next
    case (Inr key)
    obtain db2 res2 where b: "begin_call ?i key trigger (rw_now w) db1 = (db2, res2)" by force
    note two = begin_ok [OF conjunct1 [OF one] _ b]
    show ?thesis
    proof (cases res2)
      case (Inl e)
      with one two k b Inr show ?thesis by (auto simp: send_def intro: same_stock_trans)
    next
      case (Inr no)
      with one two \<open>res1 = Inr key\<close> have db2: "calls_inv db2" "call_open ?i no db2" "same_stock db db2" by (auto intro: same_stock_trans)
      note fin = finish_ok [OF db2(1,2)]
      have "calls_inv (fst (lost_answer w refund p key (finish w ?i no AT_UNKNOWN db2)))"
        "same_stock db (fst (lost_answer w refund p key (finish w ?i no AT_UNKNOWN db2)))" for p
        using fin lost_same db2(3) by (blast intro: same_calls_inv same_stock_trans)+
      then show ?thesis using fin db2(3) k b \<open>res1 = Inr key\<close> Inr
        by (auto simp: send_def Let_def case_prod_beta split: sum.splits intro: same_stock_trans)
    qed
  qed
qed

section \<open>Tickets go back once\<close>

text \<open>A ticket belongs to one booking, and a ticket that was handed back is no longer live.\<close>

definition tickets_inv :: "refund_db \<Rightarrow> bool" where
  "tickets_inv db \<longleftrightarrow> distinct (map rb_id (rd_bookings db)) \<and> distinct (rd_returned db) \<and>
    (\<forall>b \<in> set (rd_bookings db). distinct (map fst (rb_tickets b)) \<and>
      (\<forall>t \<in> set (rb_tickets b). (fst t \<in> set (rd_returned db) \<longrightarrow> \<not> live_ticket (snd t)) \<and>
        (\<forall>b' \<in> set (rd_bookings db). fst t \<in> fst ` set (rb_tickets b') \<longrightarrow> rb_id b' = rb_id b)))"

definition refund_inv :: "refund_db \<Rightarrow> bool" where
  "refund_inv db \<longleftrightarrow> calls_inv db \<and> tickets_inv db"

lemma same_stock_inv: "same_stock db db' \<Longrightarrow> tickets_inv db' \<longleftrightarrow> tickets_inv db"
  by (simp add: same_stock_def tickets_inv_def)

lemma refund_inv_frame: "refund_inv db \<Longrightarrow> same_calls db db' \<Longrightarrow> same_stock db db' \<Longrightarrow> refund_inv db'"
  using same_calls_inv same_stock_inv by (auto simp: refund_inv_def)

lemma get_booking_Some: "get_booking i db = Some b \<Longrightarrow> b \<in> set (rd_bookings db) \<and> rb_id b = i"
  unfolding get_booking_def by (drule find_set) simp

lemma settle_booking_simps [simp]:
  "rb_id (settle_booking refund s b) = rb_id b"
  "rb_tickets (settle_booking refund s b) = map (\<lambda>t. if fst t \<in> set (voided_tickets refund s) then (fst t, TK_REFUNDED) else t) (rb_tickets b)"
  by (simp_all add: settle_booking_def Let_def)

lemma voided_set: "i \<in> set (voided_tickets refund b) \<longleftrightarrow> i \<in> set (rf_ticketIds refund) \<and> (\<exists>t \<in> set (rb_tickets b). fst t = i \<and> live_ticket (snd t))"
  by (auto simp: voided_tickets_def)

lemma not_live_refunded [simp]: "\<not> live_ticket TK_REFUNDED"
  by (simp add: live_ticket_def)

lemma tickets_settle:
  assumes inv: "tickets_inv db" and b: "get_booking bid db = Some booking"
    and db': "rd_bookings db' = map (\<lambda>b. if rb_id b = rb_id booking then settle_booking refund booking b else b) (rd_bookings db)"
      "rd_returned db' = rd_returned db @ voided_tickets refund booking"
  shows "tickets_inv db'"
proof -
  let ?v = "voided_tickets refund booking"
  define g where "g = (\<lambda>b :: refund_booking. if rb_id b = rb_id booking then settle_booking refund booking b else b)"
  have bs: "rd_bookings db' = map g (rd_bookings db)" using db'(1) by (simp add: g_def)
  have bk: "booking \<in> set (rd_bookings db)" using get_booking_Some [OF b] by simp
  have ids: "map fst (rb_tickets (g b)) = map fst (rb_tickets b)" "rb_id (g b) = rb_id b" for b by (auto simp: g_def comp_def)
  have set_ids: "fst ` set (rb_tickets (g x)) = fst ` set (rb_tickets x)" for x using arg_cong [OF ids(1) [of x], of set] by simp
  have one: "rb_id b' = rb_id b" if "b \<in> set (rd_bookings db)" "b' \<in> set (rd_bookings db)" "i \<in> fst ` set (rb_tickets b)" "i \<in> fst ` set (rb_tickets b')" for b b' i
    using inv that unfolding tickets_inv_def by (metis (no_types, lifting) imageE)
  have "distinct (map fst (rb_tickets booking))" using inv bk by (simp add: tickets_inv_def)
  then have dv: "distinct ?v" unfolding voided_tickets_def by (rule distinct_map_filter)
  have fresh: "i \<notin> set (rd_returned db)" if "i \<in> set ?v" for i
    using that inv bk by (auto simp: voided_set tickets_inv_def)
  have gone: "\<not> live_ticket (snd t)" if "b \<in> set (rd_bookings db)" "t \<in> set (rb_tickets (g b))" "fst t \<in> set (rd_returned db) \<union> set ?v" for b t
  proof (cases "fst t \<in> set ?v")
    case True
    then obtain t' where "t' \<in> set (rb_tickets booking)" "fst t' = fst t" unfolding voided_set by blast
    then have "fst t \<in> fst ` set (rb_tickets booking)" by (metis image_eqI)
    moreover have "fst t \<in> fst ` set (rb_tickets b)" using that(2) set_ids by blast
    ultimately have "rb_id b = rb_id booking" using one that(1) bk by blast
    with that(2) True show ?thesis by (auto simp: g_def split: if_splits)
  next
    case False
    have "t \<in> set (rb_tickets b)" using that(2) False by (auto simp: g_def split: if_splits)
    with False that(1,3) inv show ?thesis by (auto simp: tickets_inv_def)
  qed
  have "distinct (map rb_id (rd_bookings db'))" using inv by (simp add: tickets_inv_def bs comp_def ids)
  moreover have "distinct (rd_returned db')" using inv dv fresh by (auto simp: tickets_inv_def db'(2))
  moreover have "distinct (map fst (rb_tickets c)) \<and> (\<forall>t \<in> set (rb_tickets c). (fst t \<in> set (rd_returned db') \<longrightarrow> \<not> live_ticket (snd t)) \<and>
    (\<forall>c' \<in> set (rd_bookings db'). fst t \<in> fst ` set (rb_tickets c') \<longrightarrow> rb_id c' = rb_id c))" if "c \<in> set (rd_bookings db')" for c
  proof -
    from that obtain b where b: "b \<in> set (rd_bookings db)" "c = g b" by (auto simp: bs)
    have "distinct (map fst (rb_tickets c))" using inv b by (simp add: tickets_inv_def ids)
    moreover have "\<not> live_ticket (snd t)" if "t \<in> set (rb_tickets c)" "fst t \<in> set (rd_returned db')" for t
      using gone [OF b(1)] that b(2) by (simp add: db'(2))
    moreover have "rb_id c' = rb_id c" if "t \<in> set (rb_tickets c)" "c' \<in> set (rd_bookings db')" "fst t \<in> fst ` set (rb_tickets c')" for t c'
    proof -
      from that(2) obtain b' where b': "b' \<in> set (rd_bookings db)" "c' = g b'" by (auto simp: bs)
      have "fst t \<in> fst ` set (rb_tickets b)" using imageI [OF that(1), of fst] unfolding b(2) set_ids .
      moreover have "fst t \<in> fst ` set (rb_tickets b')" using that(3) unfolding b'(2) set_ids .
      ultimately show ?thesis using one [OF b(1) b'(1)] unfolding b(2) b'(2) ids by blast
    qed
    ultimately show ?thesis by blast
  qed
  ultimately show ?thesis unfolding tickets_inv_def by blast
qed

lemma mark_failed_ok:
  "calls_inv (fst m) \<Longrightarrow> calls_inv (fst (mark_failed i m))" "same_stock db (fst m) \<Longrightarrow> same_stock db (fst (mark_failed i m))"
  using mark_failed_same by (blast intro: same_calls_inv same_stock_trans)+

lemma providerAnswer_ok:
  assumes "calls_inv db"
  shows "calls_inv (fst (providerAnswer w refund payment trigger known db)) \<and> same_stock db (fst (providerAnswer w refund payment trigger known db))"
proof -
  obtain db1 res where s: "send w refund payment trigger db = (db1, res)" by force
  with send_ok [OF assms, of w refund payment trigger] have "calls_inv db1" "same_stock db db1" by simp_all
  with s assms show ?thesis by (cases res) (auto simp: providerAnswer_def split: option.splits call_outcome.splits)
qed

lemma pay_ask_ok:
  assumes "calls_inv db" "pay_ask w refund trigger known db = (db', res)"
  shows "calls_inv db' \<and> same_stock db db' \<and> (\<forall>x. res = Inr x \<longrightarrow> get_booking (rf_bookingId refund) db = Some (fst x))"
proof (cases "get_booking (rf_bookingId refund) db")
  case None
  with assms have "db' = set_refund (rf_id refund) (\<lambda>r. r\<lparr>rf_status := R_FAILED\<rparr>) db" "res = Inl BookingNotFound"
    by (simp_all add: pay_ask_def mark_failed_def)
  then show ?thesis using same_calls_inv [OF set_refund_calls assms(1)] by simp
next
  case (Some booking)
  show ?thesis
  proof (cases "gone_tickets refund booking = []")
    case False
    with Some assms show ?thesis
      by (auto simp: pay_ask_def intro: same_calls_inv [OF audit_set(1)])
  next
    case True
    define m0 where "m0 = (if rb_payment booking = None \<and> rf_amountMinor refund = 0
      then (db, Inr (''free:'' @ rf_bookingId refund, AS_COMPLETED)) else providerAnswer w refund (rb_payment booking) trigger known db)"
    define m where "m = mark_failed (rf_id refund) m0"
    obtain db1 res1 where m: "m = (db1, res1)" by force
    have "calls_inv (fst m0) \<and> same_stock db (fst m0)"
      unfolding m0_def using providerAnswer_ok [OF assms(1)] assms(1) by simp
    then have "calls_inv (fst m)" "same_stock db (fst m)" unfolding m_def by (simp_all add: mark_failed_ok)
    with m have db1: "calls_inv db1" "same_stock db db1" by simp_all
    have run: "pay_ask w refund trigger known db = then_do m (\<lambda>answer db. if snd answer = AS_FAILED
        then (refused_answer w (rf_id refund) (fst answer) db, Inl ProviderRefused) else (db, Inr (booking, answer)))"
      using Some True by (simp add: pay_ask_def m_def m0_def)
    from assms(2) run m db1 Some show ?thesis
      by (cases res1) (auto split: if_splits intro: same_calls_inv [OF refused_same(1)] same_stock_trans [OF _ refused_same(2)])
  qed
qed

lemma payClaimed_ok:
  assumes "refund_inv db"
  shows "refund_inv (fst (payClaimed w actor refund trigger known db))"
proof -
  obtain db1 res where ask: "pay_ask w refund trigger known db = (db1, res)" by force
  from assms have "calls_inv db" by (simp add: refund_inv_def)
  note one = pay_ask_ok [OF this ask]
  have db1: "refund_inv db1" using one assms same_stock_inv by (auto simp: refund_inv_def)
  show ?thesis
  proof (cases res)
    case (Inl e)
    with ask db1 show ?thesis by (simp add: payClaimed_def)
  next
    case (Inr x)
    obtain booking answer where x: "x = (booking, answer)" by (cases x)
    have b: "get_booking (rf_bookingId refund) db1 = Some booking" using one Inr x by (auto simp: same_stock_def get_booking_def)
    define db2 where "db2 = db1\<lparr>rd_bookings := map (\<lambda>b. if rb_id b = rb_id booking then settle_booking refund booking b else b) (rd_bookings db1),
             rd_returned := rd_returned db1 @ voided_tickets refund booking\<rparr>"
    from db1 have t1: "tickets_inv db1" and c1: "calls_inv db1" unfolding refund_inv_def by blast+
    have "tickets_inv db2" by (rule tickets_settle [OF t1 b, where refund = refund]) (simp_all add: db2_def)
    moreover have "same_calls db1 db2" by (simp add: same_calls_def db2_def)
    ultimately have "refund_inv db2" unfolding refund_inv_def using same_calls_inv [OF _ c1] by blast
    then have "refund_inv (audit w i e (set_refund j f db2))" if "keeps_call f" for i e j f
      using that by (intro refund_inv_frame [OF \<open>refund_inv db2\<close>]) simp_all
    with ask db1 Inr x show ?thesis by (simp add: payClaimed_def pay_settle_def db2_def)
  qed
qed

lemma resend_ok:
  assumes "refund_inv db"
  shows "refund_inv (fst (resendAccepted w actor refund payment known db))"
proof -
  define m where "m = mark_failed (rf_id refund) (providerAnswer w refund payment ADMIN_RETRY known db)"
  obtain db1 res where m: "m = (db1, res)" by force
  from assms have "calls_inv db" by (simp add: refund_inv_def)
  from providerAnswer_ok [OF this] have "calls_inv (fst m)" "same_stock db (fst m)" unfolding m_def by (simp_all add: mark_failed_ok)
  with m assms have db1: "refund_inv db1" by (simp add: refund_inv_def same_stock_inv)
  from m db1 show ?thesis unfolding resendAccepted_def m_def [symmetric]
    by (cases res) (auto intro: refund_inv_frame [OF db1])
qed

lemma process_ok: "refund_inv db \<Longrightarrow> refund_inv (fst (process_refund w may actor decision i db))"
  by (auto simp: process_refund_def payClaimed_ok refund_inv_frame set_refund_calls split: option.splits)

lemma claim_same: "same_calls db (claim_retry actor refund db)" "same_stock db (claim_retry actor refund db)"
  unfolding claim_retry_def
  by (rule same_calls_trans [OF set_refund_calls audit_same(3)], simp) (rule same_stock_trans [OF set_refund_stock audit_same(4)])

lemma outcome_same: "same_calls (fst r) (fst (retry_outcome i r))" "same_stock (fst r) (fst (retry_outcome i r))"
  by (cases r; cases "snd r"; simp add: retry_outcome_def set_refund_calls)+

lemma retry_ok:
  assumes "refund_inv db"
  shows "refund_inv (fst (retry_refund w may actor confirmed i db))"
proof -
  have claimed: "refund_inv (claim_retry actor refund db)" for refund by (rule refund_inv_frame [OF assms claim_same])
  have "refund_inv (fst (retry_outcome i (resendAccepted w actor refund p known (claim_retry actor refund db))))"
    "refund_inv (fst (retry_outcome i (payClaimed w actor refund ADMIN_RETRY known (claim_retry actor refund db))))" for refund p known
    using refund_inv_frame [OF resend_ok [OF claimed] outcome_same] refund_inv_frame [OF payClaimed_ok [OF claimed] outcome_same] by blast+
  with assms show ?thesis
    by (auto simp: retry_refund_def Let_def case_prod_beta split: option.splits intro!: refund_inv_frame [OF _ audit_same(1,2)])
qed

lemma settleRow_ok: "refund_inv db \<Longrightarrow> refund_inv (fst (settleRefundRow p b to db))"
  by (auto simp: settleRefundRow_def refund_inv_frame set_refund_calls split: option.splits)

lemma handleFailed_ok:
  assumes "refund_inv db"
  shows "refund_inv (fst (handleRefundFailed w p pid db))"
proof -
  have "refund_inv (fst (then_do (settleRefundRow p b R_FAILED db) (\<lambda>row db. case row of
         None \<Rightarrow> (db, Inr False)
       | Some r \<Rightarrow> (audit w (rf_id r) (entry ''REFUND_FAILED_AT_PROVIDER'' None [Some p]) db, Inr True))))" for b
  proof -
    obtain db1 res where s: "settleRefundRow p b R_FAILED db = (db1, res)" by force
    with settleRow_ok [OF assms, of p b R_FAILED] have "refund_inv db1" by simp
    with s show ?thesis by (cases res) (auto split: option.splits intro: refund_inv_frame [OF _ audit_same(1,2)])
  qed
  with assms show ?thesis by (simp add: handleRefundFailed_def Let_def)
qed

text \<open>
  Everything that writes to a refund: a request (a new row), a decision, a retry and the two webhooks, each with
  any behaviour of the outside.
\<close>

inductive refund_step :: "refund_db \<Rightarrow> refund_db \<Rightarrow> bool" where
  requested: "rf_id r \<notin> rf_id ` set (rd_refunds db) \<Longrightarrow> rf_status r = REQUESTED \<Longrightarrow> rf_key r = None \<Longrightarrow> rf_callCount r = 0 \<Longrightarrow>
    refund_step db (db\<lparr>rd_refunds := rd_refunds db @ [r]\<rparr>)"
| decided: "process_refund w may actor decision i db = (db', res) \<Longrightarrow> refund_step db db'"
| retried: "retry_refund w may actor confirmed i db = (db', res) \<Longrightarrow> refund_step db db'"
| paid_later: "settleRefundRow p b R_COMPLETED db = (db', res) \<Longrightarrow> refund_step db db'"
| failed_later: "handleRefundFailed w p pid db = (db', res) \<Longrightarrow> refund_step db db'"

lemma refund_step_ok: "refund_step db db' \<Longrightarrow> refund_inv db \<Longrightarrow> refund_inv db'"
proof (induction rule: refund_step.induct)
  case (requested r db)
  have "rf_id r \<notin> at_refundId ` set (rd_attempts db)" using requested(1,5) unfolding refund_inv_def calls_inv_def by blast
  then have "attempts_of (rf_id r) db = []" unfolding attempts_of_def filter_empty_conv by (metis imageI)
  then have new: "calls_ok (rf_key r) (rf_callCount r) (attempts_of (rf_id r) db)" using requested(3,4) by (simp add: calls_ok_def)
  let ?db = "db\<lparr>rd_refunds := rd_refunds db @ [r]\<rparr>"
  from requested(5) have c: "calls_inv db" and t: "tickets_inv db" unfolding refund_inv_def by blast+
  have as: "attempts_of j ?db = attempts_of j db" for j by (simp add: attempts_of_def)
  have "calls_inv ?db" using c new requested(1) unfolding calls_inv_def as by auto
  moreover have "tickets_inv ?db" using t same_stock_inv [of db ?db] by (simp add: same_stock_def)
  ultimately show ?case unfolding refund_inv_def by blast
next
  case (decided w may actor decision i db db' res)
  then show ?case using process_ok [of db w may actor decision i] by simp
next
  case (retried w may actor confirmed i db db' res)
  then show ?case using retry_ok [of db w may actor confirmed i] by simp
next
  case (paid_later p b db db' res)
  then show ?case using settleRow_ok [of db p b R_COMPLETED] by simp
next
  case (failed_later w p pid db db' res)
  then show ?case using handleFailed_ok [of db w p pid] by simp
qed

lemma refund_run_ok: "refund_step\<^sup>*\<^sup>* db db' \<Longrightarrow> refund_inv db \<Longrightarrow> refund_inv db'"
  by (induction rule: rtranclp_induct) (auto intro: refund_step_ok)

text \<open>
  C10.  A lost answer never turns into a new operation at the provider.  Over any run of requests, decisions, retries
  and webhooks, whatever the provider answers and whatever audit entries or outcomes fail to be stored: the
  calls of a refund are numbered without a gap, and a call that follows one whose answer is not known carries the
  same key, so that a provider that honours the key makes one refund of them.
\<close>

theorem lost_answer_keeps_key:
  assumes "refund_step\<^sup>*\<^sup>* db db'" "refund_inv db"
  shows "map at_no (attempts_of i db') = [1..<Suc (length (attempts_of i db'))] \<and>
    (\<forall>n. Suc n < length (attempts_of i db') \<longrightarrow>
      at_key (attempts_of i db' ! n) = at_key (attempts_of i db' ! Suc n) \<or> answered (at_outcome (attempts_of i db' ! n)))"
proof -
  let ?as = "attempts_of i db'"
  have inv: "calls_inv db'" using refund_run_ok [OF assms] by (simp add: refund_inv_def)
  have "map at_no ?as = [1..<Suc (length ?as)] \<and> successively same_operation ?as"
  proof (cases "get_refund i db'")
    case None
    with inv have "i \<notin> at_refundId ` set (rd_attempts db')" unfolding get_refund_None calls_inv_def by blast
    then have "?as = []" unfolding attempts_of_def filter_empty_conv by (metis imageI)
    then show ?thesis by simp
  next
    case (Some r)
    note ok = row_calls [OF inv Some]
    have "length (map at_no ?as) = length [1..<Suc (rf_callCount r)]" using ok by (simp only: calls_ok_def)
    then have "length ?as = rf_callCount r" by simp
    with ok show ?thesis by (simp add: calls_ok_def)
  qed
  then show ?thesis by (auto simp: successively_conv_nth same_operation_def)
qed


section \<open>A retry does not pay what the provider shows\<close>

lemma attempts_kept [simp]:
  "rd_attempts (set_refund i f db) = rd_attempts db" "rd_attempts (audit w i e db) = rd_attempts db"
  "rd_attempts (claim_retry actor refund db) = rd_attempts db"
  by (simp_all add: set_refund_def audit_def note_entry_def claim_retry_def)





section \<open>Examples\<close>

definition ex_refund_row :: "string \<Rightarrow> refund_status \<Rightarrow> refund_row" where
  "ex_refund_row i st = \<lparr>rf_id = i, rf_bookingId = ''b1'', rf_amountMinor = 500, rf_ticketIds = [''t1''], rf_createdAt = 0, rf_status = st,
     rf_providerRef = None, rf_key = None, rf_callCount = 0, rf_held = False, rf_creditNote = False, rf_processedBy = None\<rparr>"

definition ex_refund_db :: refund_db where
  "ex_refund_db = \<lparr>rd_refunds = [ex_refund_row ''r1'' REQUESTED], rd_attempts = [],
     rd_bookings = [\<lparr>rb_id = ''b1'', rb_cash = False, rb_status = BK_CONFIRMED, rb_tickets = [(''t1'', TK_ACTIVE), (''t2'', TK_ACTIVE)],
       rb_payment = Some \<lparr>pm_amountMinor = 1000, pm_refundedMinor = 0, pm_providerRef = Some ''pay'', pm_intentId = None, pm_fullyRefunded = None\<rparr>\<rparr>],
     rd_history = [], rd_seen = [], rd_returned = []\<rparr>"

definition ex_world :: "unit + (string \<times> answer_status) \<Rightarrow> lookup_error + refund_record list \<Rightarrow> refund_world" where
  "ex_world answer listed = \<lparr>rw_refund = (\<lambda>_ _ _. answer), rw_lookup = (\<lambda>_ _. listed), rw_audits = (\<lambda>_. True), rw_finishes = True,
     rw_settles = True, rw_now = 0\<rparr>"

lemma ex_refund_inv: "refund_inv ex_refund_db"
  by (auto simp: refund_inv_def calls_inv_def tickets_inv_def ex_refund_db_def ex_refund_row_def calls_ok_def attempts_of_def)

lemmas ex_refund = ex_refund_db_def ex_refund_row_def ex_world_def process_refund_def payClaimed_def pay_ask_def gone_tickets_def
  live_ticket_def get_refund_def get_booking_def set_refund_def providerAnswer_def send_def keyFor_def newest_attempt_def attempts_of_def
  refundKey_def refundKeyStem_def begin_call_def finish_def lost_answer_def lookup_def mark_failed_def audit_def note_entry_def entry_def
  holdForReview_def truthy_def answered_def Let_def

definition ex_lost_db :: refund_db where
  "ex_lost_db = fst (process_refund (ex_world (Inl ()) (Inl OtherLookupError)) True ''staff'' APPROVE ''r1'' ex_refund_db)"


lemmas ex_retry = retry_refund_def retryFacts_def retry_lookup_def history_of_def siblings_of_def unmatched_seen_def too_soon_until_def
  assessRetry_def accepted_before_def lastAnswerOf_def payment_refusal_def sum_refunds_def found_amount_def is_unmatched_def says_none_def
  retry_refused_def retry_allowed_def known_answer_def claim_retry_def retry_outcome_def reconcileRefund_def lookup_context_def known_refs_def

definition ex_again_db :: refund_db where
  "ex_again_db = fst (retry_refund (ex_world (Inl ()) (Inl OtherLookupError)) True ''staff'' True ''r1'' ex_lost_db)"

lemma ex_again: "length (attempts_of ''r1'' ex_again_db) = 2 \<and> at_outcome (attempts_of ''r1'' ex_again_db ! 0) = AT_UNKNOWN"
  unfolding ex_again_db_def ex_lost_db_def by (simp add: ex_refund ex_retry)

lemma ex_again_run: "refund_step\<^sup>*\<^sup>* ex_refund_db ex_again_db"
proof -
  have "refund_step ex_refund_db ex_lost_db" unfolding ex_lost_db_def by (rule refund_step.decided [OF surjective_pairing])
  moreover have "refund_step ex_lost_db ex_again_db" unfolding ex_again_db_def by (rule refund_step.retried [OF surjective_pairing])
  ultimately show ?thesis by simp
qed

theorem lost_answer_keeps_key_witness:
  "refund_step\<^sup>*\<^sup>* ex_refund_db ex_again_db \<and> length (attempts_of ''r1'' ex_again_db) = 2 \<and>
    at_key (attempts_of ''r1'' ex_again_db ! 0) = at_key (attempts_of ''r1'' ex_again_db ! 1)"
proof -
  have "0 < (1::nat)" by simp
  with lost_answer_keeps_key [OF ex_again_run ex_refund_inv, of "''r1''"] ex_again ex_again_run show ?thesis
    by (auto simp: answered_def dest: spec [of _ 0])
qed


definition ex_listed :: "answer_status \<Rightarrow> refund_record" where
  "ex_listed st = \<lparr>rr_refundRef = ''rf'', rr_amountMinor = 500, rr_status = st, rr_idempotencyKey = Some ''etg-rf-r1'', rr_createdAt = None\<rparr>"


section \<open>Three things that go wrong\<close>

text \<open>
  When the transaction that settles an approved refund fails after the provider has paid, the refund stays in
  PROCESSING without the provider's reference, and no retry can ever pick it up.
\<close>

definition ex_stuck_db :: refund_db where
  "ex_stuck_db = fst (process_refund ((ex_world (Inr (''rf'', AS_COMPLETED)) (Inr []))\<lparr>rw_settles := False\<rparr>) True ''staff'' APPROVE ''r1'' ex_refund_db)"

lemma approval_failure_sticks:
  "map (\<lambda>r. (rf_status r, rf_providerRef r)) (rd_refunds ex_stuck_db) = [(R_PROCESSING, None)] \<and>
    map at_outcome (rd_attempts ex_stuck_db) = [AT_ACCEPTED] \<and>
    snd (retry_refund w True actor confirmed ''r1'' ex_stuck_db) = Inl (RetryRefused NOT_FAILED False)"
proof -
  have row: "\<exists>r. get_refund ''r1'' ex_stuck_db = Some r \<and> rf_status r = R_PROCESSING \<and> rf_providerRef r = None \<and> rd_refunds ex_stuck_db = [r]"
    and at: "map at_outcome (rd_attempts ex_stuck_db) = [AT_ACCEPTED]"
    by (simp_all add: ex_stuck_db_def ex_refund pay_settle_def)
  then obtain r where r: "get_refund ''r1'' ex_stuck_db = Some r" "rf_status r = R_PROCESSING" "rf_providerRef r = None" "rd_refunds ex_stuck_db = [r]" by blast
  have "assessRetry (retryFacts w confirmed r ex_stuck_db) = retry_refused (retryFacts w confirmed r ex_stuck_db) None NOT_FAILED"
    using r(2) by (simp add: assessRetry_def retryFacts_def Let_def)
  with r at show ?thesis by (simp add: retry_refund_def Let_def retry_refused_def)
qed

text \<open>
  A refusal that is learned from the provider's list after a lost answer does not close the attempt, so the next call
  is made with the key that the provider has already refused.
\<close>

definition ex_refused_db :: refund_db where
  "ex_refused_db = fst (process_refund (ex_world (Inl ()) (Inr [ex_listed AS_FAILED])) True ''staff'' APPROVE ''r1'' ex_refund_db)"

lemma refused_key_reused:
  "map rf_status (rd_refunds ex_refused_db) = [R_FAILED] \<and> lastAnswerOf (history_of ''r1'' ex_refused_db) = LA_REFUSED \<and>
    keyFor ''r1'' ex_refused_db = (ex_refused_db, Inr ''etg-rf-r1'')"
  by (simp add: ex_refused_db_def ex_refund ex_retry ex_listed_def ours_def keyGeneration_def stranger_def isPlatformKey_def refused_answer_def)

text \<open>
  Two refunds of one ticket.  After a definite refusal the ticket may be named by a new refund while the old one can
  still be retried.  When the new one is being paid, between its check of the tickets and its settling transaction,
  and the old one is retried, both pass every check, both are paid under different keys, and the ticket goes back twice.
\<close>

definition ex_two_db :: refund_db where
  "ex_two_db = ex_refund_db\<lparr>rd_refunds := [(ex_refund_row ''r1'' R_FAILED)\<lparr>rf_key := Some ''etg-rf-r1'', rf_callCount := 1\<rparr>,
       (ex_refund_row ''r2'' R_PROCESSING)],
     rd_attempts := [\<lparr>at_refundId = ''r1'', at_no = 1, at_key = ''etg-rf-r1'', at_trigger = APPROVAL, at_outcome = AT_REFUSED, at_startedAt = 0\<rparr>],
     rd_history := [(''r1'', entry ''REFUND_FAILED'' None [])]\<rparr>"

definition ex_race_db :: refund_db where
  "ex_race_db =
    (let w = ex_world (Inr (''rf'', AS_COMPLETED)) (Inr []); r2 = ex_refund_row ''r2'' R_PROCESSING in
     case pay_ask w r2 APPROVAL None ex_two_db of
       (db1, Inl _) \<Rightarrow> db1
     | (db1, Inr (booking, answer)) \<Rightarrow> fst (pay_settle w ''staff'' r2 booking answer (fst (retry_refund w True ''staff2'' False ''r1'' db1))))"

lemma retry_races_approval:
  "rd_returned ex_race_db = [''t1'', ''t1''] \<and> map rf_status (rd_refunds ex_race_db) = [R_COMPLETED, R_COMPLETED] \<and>
    map at_outcome (rd_attempts ex_race_db) = [AT_REFUSED, AT_ACCEPTED, AT_ACCEPTED]"
  by (simp add: ex_race_db_def ex_two_db_def ex_refund ex_retry pay_settle_def voided_tickets_def settle_row_def settled_status_def
    settled_entry_def keyGeneration_def settle_booking_def)

end
