(* ===== verification/Settlement.thy ===== *)
theory Settlement
  imports Payouts
begin

text \<open>
  Releasing money to organizers and taking it back: \<^verbatim>\<open>payments/settlement/settlement.service.ts\<close> with the rules it
  uses, \<^verbatim>\<open>settlement-reversal.ts\<close> and the settlement part of \<^verbatim>\<open>marketplace.ts\<close> (both shared types) and
  \<^verbatim>\<open>transfer-evidence.ts\<close>.  One settlement per event and currency accrues what was sold (\<open>syncForEvent\<close>), is
  approved or blocked by a person, and is released by one provider transfer; refunds and lost disputes take money back
  through reversals, and evidence of the provider about a transfer says how much has come back in all.

  The database is a record of tables; a row that the program creates gets the length of its table as its id, which is
  fresh since rows are not deleted.  A provider call happens between two database transactions, so a release is split
  into \<open>release_start\<close>, which ends with the call being in flight, and \<open>release_finish\<close>, which records what the call
  answered; anything may happen between them.  The provider's answers, the configuration and whether a write succeeds are
  parameters.  Texts (reasons, messages, notes), notices and audit rows are left out.
\<close>

section \<open>The rules of marketplace.ts\<close>

datatype settlement_status =
  ST_PENDING | ST_HELD | ST_ELIGIBLE | ST_APPROVED | ST_TRANSFER_PROCESSING | ST_TRANSFERRED | ST_PARTIALLY_REFUNDED
| ST_BLOCKED | ST_FAILED | ST_REVERSED

fun SETTLEMENT_TRANSITIONS :: "settlement_status \<Rightarrow> settlement_status list" where
  "SETTLEMENT_TRANSITIONS ST_PENDING = [ST_HELD, ST_ELIGIBLE, ST_BLOCKED]"
| "SETTLEMENT_TRANSITIONS ST_HELD = [ST_ELIGIBLE, ST_BLOCKED]"
| "SETTLEMENT_TRANSITIONS ST_ELIGIBLE = [ST_APPROVED, ST_BLOCKED, ST_HELD]"
| "SETTLEMENT_TRANSITIONS ST_APPROVED = [ST_TRANSFER_PROCESSING, ST_BLOCKED]"
| "SETTLEMENT_TRANSITIONS ST_TRANSFER_PROCESSING = [ST_TRANSFERRED, ST_FAILED]"
| "SETTLEMENT_TRANSITIONS ST_TRANSFERRED = [ST_PARTIALLY_REFUNDED, ST_REVERSED]"
| "SETTLEMENT_TRANSITIONS ST_PARTIALLY_REFUNDED = [ST_REVERSED]"
| "SETTLEMENT_TRANSITIONS ST_BLOCKED = [ST_ELIGIBLE, ST_HELD, ST_PENDING]"
| "SETTLEMENT_TRANSITIONS ST_FAILED = [ST_APPROVED, ST_BLOCKED]"
| "SETTLEMENT_TRANSITIONS ST_REVERSED = []"

definition canTransitionSettlement :: "settlement_status \<Rightarrow> settlement_status \<Rightarrow> bool" where
  "canTransitionSettlement from to \<longleftrightarrow> to \<in> set (SETTLEMENT_TRANSITIONS from)"

definition isReleasableSettlementStatus :: "settlement_status \<Rightarrow> bool" where
  "isReleasableSettlementStatus s \<longleftrightarrow> s = ST_APPROVED \<or> s = ST_FAILED"

record settlement_payable =
  sp_baseMinor :: minor
  sp_reserveMinor :: minor
  sp_payableMinor :: minor

text \<open>The arguments are gross, refunds, disputes, what was transferred before, and the reserve in basis points.\<close>

definition computeSettlementPayable ::
  "minor \<Rightarrow> minor \<Rightarrow> minor \<Rightarrow> minor \<Rightarrow> bps \<Rightarrow> unit + settlement_payable" where
  "computeSettlementPayable gross refunds disputes prior reserveBps =
    (if list_ex (\<lambda>v. v < 0) [gross, refunds, disputes, prior, reserveBps] \<or> 10000 < reserveBps then Inl ()
     else let base = max 0 (gross - refunds - disputes - prior); reserve = base * reserveBps div 10000 in
       Inr \<lparr>sp_baseMinor = base, sp_reserveMinor = reserve, sp_payableMinor = max 0 (base - reserve)\<rparr>)"

section \<open>The rules of settlement-reversal.ts\<close>

datatype reversal_status = SR_REQUESTED | SR_PROCESSING | SR_COMPLETED | SR_FAILED | SR_UNKNOWN

fun REVERSAL_TRANSITIONS :: "reversal_status \<Rightarrow> reversal_status list" where
  "REVERSAL_TRANSITIONS SR_REQUESTED = [SR_PROCESSING, SR_COMPLETED, SR_FAILED, SR_UNKNOWN]"
| "REVERSAL_TRANSITIONS SR_PROCESSING = [SR_COMPLETED, SR_FAILED, SR_UNKNOWN]"
| "REVERSAL_TRANSITIONS SR_UNKNOWN = [SR_COMPLETED, SR_FAILED]"
| "REVERSAL_TRANSITIONS SR_COMPLETED = []"
| "REVERSAL_TRANSITIONS SR_FAILED = []"

definition canTransitionReversal :: "reversal_status \<Rightarrow> reversal_status \<Rightarrow> bool" where
  "canTransitionReversal from to \<longleftrightarrow> to \<in> set (REVERSAL_TRANSITIONS from)"

definition isTerminalReversal :: "reversal_status \<Rightarrow> bool" where
  "isTerminalReversal s \<longleftrightarrow> REVERSAL_TRANSITIONS s = []"

datatype reversal_reason = RV_REFUND | RV_DISPUTE | RV_ADJUSTMENT

record reversal_attempt =
  sr_id :: nat
  sr_settlementId :: string
  sr_reason :: reversal_reason
  sr_requestedMinor :: minor
  sr_confirmedMinor :: minor
  sr_currency :: string
  sr_provider :: string
  sr_status :: reversal_status
  sr_key :: string

definition movedMinor :: "reversal_attempt \<Rightarrow> minor" where
  "movedMinor a = (if sr_status a = SR_COMPLETED then sr_confirmedMinor a else 0)"

definition confirmedTotalMinor :: "reversal_attempt list \<Rightarrow> minor" where
  "confirmedTotalMinor attempts = sum_list (map movedMinor attempts)"

definition outstandingTransferredMinor :: "minor \<Rightarrow> reversal_attempt list \<Rightarrow> minor" where
  "outstandingTransferredMinor released attempts = released - confirmedTotalMinor attempts"

definition reversibleMinor :: "minor \<Rightarrow> minor \<Rightarrow> reversal_attempt list \<Rightarrow> minor" where
  "reversibleMinor wanted released attempts = max 0 (min wanted (outstandingTransferredMinor released attempts))"

definition unresolved :: "reversal_status \<Rightarrow> bool" where
  "unresolved s \<longleftrightarrow> s = SR_REQUESTED \<or> s = SR_PROCESSING \<or> s = SR_UNKNOWN"

section \<open>Evidence about a transfer\<close>

text \<open>\<open>te_cumulativeReversedMinor\<close> is \<open>None\<close> where the provider's figure is not an integer.\<close>

record transfer_evidence =
  te_providerTransferId :: string
  te_currency :: string
  te_originalTransferredMinor :: "minor option"
  te_cumulativeReversedMinor :: "minor option"

record reversal_facts =
  rx_providerTransferId :: "string option"
  rx_currency :: string
  rx_releasedMinor :: minor
  rx_confirmedReversedMinor :: minor
  rx_unresolvedAttempts :: nat

datatype mismatch =
  DifferentTransfer | DifferentCurrency | ImpossibleAmount | MoreThanReleased | OriginalDisagrees | LessThanConfirmed
| NoSettlement

datatype evidence_outcome =
  AGREES minor | NEWLY_CONFIRMED minor minor | STALE minor minor | MISMATCH mismatch

definition sameCurrency :: "string \<Rightarrow> string \<Rightarrow> bool" where
  "sameCurrency a b \<longleftrightarrow> upper (trim a) = upper (trim b)"

definition reconcileTransferEvidence :: "reversal_facts \<Rightarrow> transfer_evidence \<Rightarrow> evidence_outcome" where
  "reconcileTransferEvidence facts evidence =
    (if rx_providerTransferId facts \<noteq> Some (te_providerTransferId evidence) then MISMATCH DifferentTransfer
     else if \<not> sameCurrency (rx_currency facts) (te_currency evidence) then MISMATCH DifferentCurrency
     else case te_cumulativeReversedMinor evidence of
       None \<Rightarrow> MISMATCH ImpossibleAmount
     | Some cumulative \<Rightarrow>
        if cumulative < 0 then MISMATCH ImpossibleAmount
        else if rx_releasedMinor facts < cumulative then MISMATCH MoreThanReleased
        else if te_originalTransferredMinor evidence \<noteq> None
            \<and> te_originalTransferredMinor evidence \<noteq> Some (rx_releasedMinor facts) then MISMATCH OriginalDisagrees
        else let delta = cumulative - rx_confirmedReversedMinor facts in
          if delta = 0 then AGREES cumulative
          else if delta < 0 then
            (if 0 < rx_unresolvedAttempts facts then STALE cumulative (rx_confirmedReversedMinor facts)
             else MISMATCH LessThanConfirmed)
          else NEWLY_CONFIRMED delta cumulative)"

section \<open>The tables\<close>

record settlement =
  st_id :: string
  st_organizationId :: string
  st_eventId :: string
  st_provider :: string
  st_currency :: string
  st_connectedAccountId :: "string option"
  st_grossSalesMinor :: minor
  st_refundsMinor :: minor
  st_disputesMinor :: minor
  st_platformFeesMinor :: minor
  st_reserveMinor :: minor
  st_payableMinor :: minor
  st_transferredMinor :: minor
  st_releasedMinor :: minor
  st_providerTransferId :: "string option"
  st_status :: settlement_status
  st_approvedBy :: "string option"

datatype transfer_status = TA_REQUESTED | TA_SUCCEEDED | TA_FAILED | TA_UNKNOWN

record transfer_attempt =
  ta_id :: nat
  ta_settlementId :: string
  ta_requestedMinor :: minor
  ta_currency :: string
  ta_provider :: string
  ta_destination :: string
  ta_key :: string
  ta_status :: transfer_status
  ta_providerTransferId :: "string option"

record payout_claim =
  pc_id :: string
  pc_organizationId :: string
  pc_eventId :: "string option"
  pc_currency :: string
  pc_status :: string

record sold_event =
  ev_id :: string
  ev_organizationId :: string
  ev_status :: string

record captured_payment =
  py_id :: string
  py_eventId :: string
  py_status :: string
  py_currency :: string
  py_provider :: string
  py_organizerNetMinor :: minor
  py_platformFeeMinor :: minor
  py_settlementId :: "string option"

record organizer_account =
  ac_organizationId :: string
  ac_provider :: string
  ac_providerAccountId :: "string option"

text \<open>A transfer call that has been sent and not been recorded yet.\<close>

record in_flight =
  fl_attempt :: nat
  fl_settlementId :: string
  fl_payable :: settlement_payable

record settlement_db =
  sd_settlements :: "settlement list"
  sd_transfers :: "transfer_attempt list"
  sd_reversals :: "reversal_attempt list"
  sd_payouts :: "payout_claim list"
  sd_events :: "sold_event list"
  sd_payments :: "captured_payment list"
  sd_accounts :: "organizer_account list"
  sd_inflight :: "in_flight list"

datatype transfer_outcome = T_ACCEPTED string | T_REFUSED | T_INDETERMINATE

datatype reversal_outcome = RO_CONFIRMED minor | RO_ACCEPTED | RO_REFUSED | RO_INDETERMINATE

text \<open>
  The configuration and the adapter of a provider: whether one can be built, whether it can transfer and reverse, and
  whether a repeated transfer under one key is one transfer.
\<close>

record settlement_world =
  sw_payoutExecutionEnabled :: bool
  sw_routeEnabled :: bool
  sw_reserveBps :: bps
  sw_adapter :: "string \<Rightarrow> bool"
  sw_createTransfer :: "string \<Rightarrow> bool"
  sw_reverseTransfer :: "string \<Rightarrow> bool"
  sw_idempotentTransfer :: "string \<Rightarrow> bool"
  sw_reverse :: "string \<Rightarrow> minor \<Rightarrow> string \<Rightarrow> reversal_outcome"

datatype settlement_error =
  SettlementNotFound | CannotMove settlement_status settlement_status | NotApproved settlement_status | ExecutionOff
| LedgerCovers "string list" | ReleaseBlocked | NoAdapter | BadAmounts | NoDestination | TransferFailed | KeyTaken | IdTaken

type_synonym 'a settlement_op = "settlement_db \<times> (settlement_error + 'a)"

definition get_settlement :: "string \<Rightarrow> settlement_db \<Rightarrow> settlement option" where
  "get_settlement i db = find (\<lambda>s. st_id s = i) (sd_settlements db)"

definition event_settlement :: "string \<Rightarrow> string \<Rightarrow> settlement_db \<Rightarrow> settlement option" where
  "event_settlement eventId currency db = find (\<lambda>s. st_eventId s = eventId \<and> st_currency s = currency) (sd_settlements db)"

definition set_settlement :: "string \<Rightarrow> (settlement \<Rightarrow> settlement) \<Rightarrow> settlement_db \<Rightarrow> settlement_db" where
  "set_settlement i f db = db\<lparr>sd_settlements := map (\<lambda>s. if st_id s = i then f s else s) (sd_settlements db)\<rparr>"

definition transfers_of :: "string \<Rightarrow> settlement_db \<Rightarrow> transfer_attempt list" where
  "transfers_of i db = filter (\<lambda>a. ta_settlementId a = i) (sd_transfers db)"

definition set_transfer :: "nat \<Rightarrow> (transfer_attempt \<Rightarrow> transfer_attempt) \<Rightarrow> settlement_db \<Rightarrow> settlement_db" where
  "set_transfer n f db = db\<lparr>sd_transfers := map (\<lambda>a. if ta_id a = n then f a else a) (sd_transfers db)\<rparr>"

definition reversals_of :: "string \<Rightarrow> settlement_db \<Rightarrow> reversal_attempt list" where
  "reversals_of i db = filter (\<lambda>a. sr_settlementId a = i) (sd_reversals db)"

definition set_reversal :: "nat \<Rightarrow> (reversal_attempt \<Rightarrow> reversal_attempt) \<Rightarrow> settlement_db \<Rightarrow> settlement_db" where
  "set_reversal n f db = db\<lparr>sd_reversals := map (\<lambda>a. if sr_id a = n then f a else a) (sd_reversals db)\<rparr>"

section \<open>Accrual\<close>

definition CAPTURED_PAYMENT_STATUSES :: "string list" where
  "CAPTURED_PAYMENT_STATUSES = [''SUCCEEDED'', ''PARTIALLY_REFUNDED'', ''REFUNDED'']"

definition captured_of :: "string \<Rightarrow> settlement_db \<Rightarrow> captured_payment list" where
  "captured_of eventId db =
    filter (\<lambda>p. py_status p \<in> set CAPTURED_PAYMENT_STATUSES \<and> py_eventId p = eventId) (sd_payments db)"

definition next_status :: "sold_event \<Rightarrow> settlement option \<Rightarrow> settlement_status" where
  "next_status event existing =
    (case existing of
       Some s \<Rightarrow> if st_status s \<noteq> ST_PENDING \<and> st_status s \<noteq> ST_HELD then st_status s
         else if ev_status event = ''COMPLETED'' then ST_ELIGIBLE else ST_HELD
     | None \<Rightarrow> if ev_status event = ''COMPLETED'' then ST_ELIGIBLE else ST_HELD)"

definition link_payments :: "string \<Rightarrow> string \<Rightarrow> settlement_db \<Rightarrow> settlement_db" where
  "link_payments eventId i db = db\<lparr>sd_payments := map (\<lambda>p.
     if py_status p \<in> set CAPTURED_PAYMENT_STATUSES \<and> py_eventId p = eventId \<and> py_settlementId p = None
     then p\<lparr>py_settlementId := Some i\<rparr> else p) (sd_payments db)\<rparr>"

definition syncForEvent :: "string \<Rightarrow> string \<Rightarrow> settlement_db \<Rightarrow> string option settlement_op" where
  "syncForEvent newId eventId db =
    (case find (\<lambda>e. ev_id e = eventId) (sd_events db) of
       None \<Rightarrow> (db, Inr None)
     | Some event \<Rightarrow>
        (let paid = captured_of eventId db;
             gross = sum_list (map py_organizerNetMinor paid); fees = sum_list (map py_platformFeeMinor paid);
             currency = lower (case paid of [] \<Rightarrow> ''usd'' | p # _ \<Rightarrow> py_currency p);
             provider = (case paid of [] \<Rightarrow> ''stripe'' | p # _ \<Rightarrow> py_provider p);
             account = Option.bind (find (\<lambda>a. ac_organizationId a = ev_organizationId event \<and> ac_provider a = provider)
               (sd_accounts db)) ac_providerAccountId;
             existing = event_settlement eventId currency db; status = next_status event existing in
         case existing of
           Some s \<Rightarrow> (link_payments eventId (st_id s) (set_settlement (st_id s) (\<lambda>s. s\<lparr>st_provider := provider,
             st_grossSalesMinor := gross, st_platformFeesMinor := fees, st_connectedAccountId := account, st_status := status\<rparr>) db),
             Inr (Some (st_id s)))
         | None \<Rightarrow>
            if get_settlement newId db \<noteq> None then (db, Inl IdTaken)
            else (link_payments eventId newId (db\<lparr>sd_settlements := sd_settlements db @
              [\<lparr>st_id = newId, st_organizationId = ev_organizationId event, st_eventId = eventId, st_provider = provider,
                st_currency = currency, st_connectedAccountId = account, st_grossSalesMinor = gross, st_refundsMinor = 0,
                st_disputesMinor = 0, st_platformFeesMinor = fees, st_reserveMinor = 0, st_payableMinor = 0,
                st_transferredMinor = 0, st_releasedMinor = 0, st_providerTransferId = None, st_status = status,
                st_approvedBy = None\<rparr>]\<rparr>), Inr (Some newId))))"

text \<open>The sweep over completed events; each event brings the id a new settlement would get.\<close>

definition promotable :: "settlement_db \<Rightarrow> settlement list" where
  "promotable db = filter (\<lambda>s. (st_status s = ST_PENDING \<or> st_status s = ST_HELD) \<and>
     map_option ev_status (find (\<lambda>e. ev_id e = st_eventId s) (sd_events db)) = Some ''COMPLETED'') (sd_settlements db)"

definition promoteCompletedEvents :: "(nat \<Rightarrow> string) \<Rightarrow> nat \<Rightarrow> settlement_db \<Rightarrow> settlement_db" where
  "promoteCompletedEvents newIds limit db =
    (let held = take limit (promotable db) in
     fold (\<lambda>(n, s) db. fst (syncForEvent (newIds n) (st_eventId s) db)) (enumerate 0 held) db)"

section \<open>Decisions of a person\<close>

definition transition :: "string \<Rightarrow> settlement_status \<Rightarrow> (settlement \<Rightarrow> settlement) \<Rightarrow> settlement_db \<Rightarrow> unit settlement_op" where
  "transition i to extra db =
    (case get_settlement i db of
       None \<Rightarrow> (db, Inl SettlementNotFound)
     | Some s \<Rightarrow>
        if \<not> canTransitionSettlement (st_status s) to then (db, Inl (CannotMove (st_status s) to))
        else (set_settlement i (\<lambda>s. extra (s\<lparr>st_status := to\<rparr>)) db, Inr ()))"

definition approve :: "string \<Rightarrow> string \<Rightarrow> settlement_db \<Rightarrow> unit settlement_op" where
  "approve actor i db = transition i ST_APPROVED (\<lambda>s. s\<lparr>st_approvedBy := Some actor\<rparr>) db"

definition block :: "string \<Rightarrow> settlement_db \<Rightarrow> unit settlement_op" where
  "block i db = transition i ST_BLOCKED id db"

section \<open>Release\<close>

definition block_claimed :: "settlement \<Rightarrow> settlement_db \<Rightarrow> unit settlement_op" where
  "block_claimed s db = (set_settlement (st_id s) (\<lambda>s. s\<lparr>st_status := ST_BLOCKED\<rparr>) db, Inl ReleaseBlocked)"

definition fail_claimed :: "string \<Rightarrow> settlement_db \<Rightarrow> unit settlement_op" where
  "fail_claimed i db = (set_settlement i (\<lambda>s. s\<lparr>st_status := ST_FAILED\<rparr>) db, Inl TransferFailed)"

text \<open>The payouts of the ledger that claim the same money.\<close>

definition claimed_by_ledger :: "settlement \<Rightarrow> settlement_db \<Rightarrow> payout_claim list" where
  "claimed_by_ledger s db = filter (\<lambda>p. pc_organizationId p = st_organizationId s \<and> pc_currency p = st_currency s \<and>
     (pc_eventId p = Some (st_eventId s) \<or> pc_eventId p = None) \<and> pc_status p \<in> {''PENDING'', ''SCHEDULED'', ''PAID''})
     (sd_payouts db)"

definition is_replay :: "settlement \<Rightarrow> settlement_db \<Rightarrow> bool" where
  "is_replay s db \<longleftrightarrow>
    list_ex (\<lambda>a. ta_status a = TA_UNKNOWN \<or> ta_status a = TA_REQUESTED) (transfers_of (st_id s) db) \<or>
    (transfers_of (st_id s) db = [] \<and> st_status s = ST_FAILED \<and> \<not> truthy (st_providerTransferId s))"

definition transfer_key :: "settlement \<Rightarrow> string" where
  "transfer_key s = ''settlement_'' @ st_id s @ ''_'' @ show_int (st_transferredMinor s)"

text \<open>The durable intent; from here on the call is in flight.\<close>

definition begin_transfer :: "settlement \<Rightarrow> settlement_payable \<Rightarrow> settlement_db \<Rightarrow> settlement_db" where
  "begin_transfer s p db = (let n = length (sd_transfers db) in
     db\<lparr>sd_transfers := sd_transfers db @ [\<lparr>ta_id = n, ta_settlementId = st_id s, ta_requestedMinor = sp_payableMinor p,
          ta_currency = st_currency s, ta_provider = st_provider s, ta_destination = nvl (st_connectedAccountId s) [],
          ta_key = transfer_key s, ta_status = TA_REQUESTED, ta_providerTransferId = None\<rparr>],
        sd_inflight := sd_inflight db @ [\<lparr>fl_attempt = n, fl_settlementId = st_id s, fl_payable = p\<rparr>]\<rparr>)"

text \<open>
  The settlement \<open>s\<close> as it was read before the claim, in the database in which it is claimed.  The result tells whether a
  call was sent.
\<close>

definition release_claimed :: "settlement_world \<Rightarrow> settlement \<Rightarrow> settlement_db \<Rightarrow> bool settlement_op" where
  "release_claimed w s db =
    (let blocked = apsnd (\<lambda>r. case r of Inl e \<Rightarrow> Inl e | Inr _ \<Rightarrow> Inr False) (block_claimed s db) in
     if st_provider s = ''razorpay'' \<and> (\<not> sw_routeEnabled w \<or> \<not> truthy (st_connectedAccountId s)) then blocked
     else if \<not> sw_adapter w (st_provider s) then (db, Inl NoAdapter)
     else if is_replay s db \<and> \<not> sw_idempotentTransfer w (st_provider s) then blocked
     else case computeSettlementPayable (st_grossSalesMinor s) (st_refundsMinor s) (st_disputesMinor s) (st_transferredMinor s)
         (sw_reserveBps w) of
       Inl _ \<Rightarrow> (db, Inl BadAmounts)
     | Inr p \<Rightarrow>
        if sp_payableMinor p \<le> 0 then
          (set_settlement (st_id s) (\<lambda>s. s\<lparr>st_status := ST_TRANSFERRED, st_reserveMinor := sp_reserveMinor p, st_payableMinor := 0\<rparr>) db,
           Inr False)
        else if \<not> truthy (st_connectedAccountId s) \<or> \<not> sw_createTransfer w (st_provider s) then
          (set_settlement (st_id s) (\<lambda>s. s\<lparr>st_status := ST_FAILED\<rparr>) db, Inl NoDestination)
        else if list_ex (\<lambda>a. ta_key a = transfer_key s \<and> ta_requestedMinor a \<noteq> sp_payableMinor p) (transfers_of (st_id s) db)
        then blocked
        else (begin_transfer s p db, Inr True))"

definition release_start :: "settlement_world \<Rightarrow> string \<Rightarrow> settlement_db \<Rightarrow> bool settlement_op" where
  "release_start w i db =
    (case get_settlement i db of
       None \<Rightarrow> (db, Inl SettlementNotFound)
     | Some s \<Rightarrow>
        if st_status s = ST_TRANSFERRED then (db, Inr False)
        else if \<not> isReleasableSettlementStatus (st_status s) then (db, Inl (NotApproved (st_status s)))
        else if \<not> sw_payoutExecutionEnabled w then (db, Inl ExecutionOff)
        else if claimed_by_ledger s db \<noteq> [] then (db, Inl (LedgerCovers (map pc_id (claimed_by_ledger s db))))
        else release_claimed w s (set_settlement i (\<lambda>s. s\<lparr>st_status := ST_TRANSFER_PROCESSING\<rparr>) db))"

text \<open>What the answer proved.  \<open>records\<close> tells whether the transaction that records an accepted transfer commits.\<close>

definition release_finish :: "bool \<Rightarrow> in_flight \<Rightarrow> transfer_outcome \<Rightarrow> settlement_db \<Rightarrow> unit settlement_op" where
  "release_finish records f outcome db =
    (let db = db\<lparr>sd_inflight := filter (\<lambda>g. fl_attempt g \<noteq> fl_attempt f) (sd_inflight db)\<rparr>; p = fl_payable f in
     case outcome of
       T_ACCEPTED transferId \<Rightarrow>
         if records then
           (set_transfer (fl_attempt f) (\<lambda>a. a\<lparr>ta_status := TA_SUCCEEDED, ta_providerTransferId := Some transferId\<rparr>)
             (set_settlement (fl_settlementId f) (\<lambda>s. s\<lparr>st_status := ST_TRANSFERRED, st_providerTransferId := Some transferId,
               st_reserveMinor := sp_reserveMinor p, st_payableMinor := sp_payableMinor p,
               st_transferredMinor := st_transferredMinor s + sp_payableMinor p,
               st_releasedMinor := st_releasedMinor s + sp_payableMinor p\<rparr>) db), Inr ())
         else fail_claimed (fl_settlementId f) (set_transfer (fl_attempt f) (\<lambda>a. a\<lparr>ta_status := TA_UNKNOWN\<rparr>) db)
     | T_REFUSED \<Rightarrow> fail_claimed (fl_settlementId f) (set_transfer (fl_attempt f) (\<lambda>a. a\<lparr>ta_status := TA_FAILED\<rparr>) db)
     | T_INDETERMINATE \<Rightarrow> fail_claimed (fl_settlementId f) (set_transfer (fl_attempt f) (\<lambda>a. a\<lparr>ta_status := TA_UNKNOWN\<rparr>) db))"

text \<open>The whole operation: the call is answered by \<open>ask amount key\<close>.\<close>

definition release ::
  "settlement_world \<Rightarrow> (minor \<Rightarrow> string \<Rightarrow> transfer_outcome) \<Rightarrow> bool \<Rightarrow> string \<Rightarrow> settlement_db \<Rightarrow> unit settlement_op" where
  "release w ask records i db =
    (case release_start w i db of
       (db, Inl e) \<Rightarrow> (db, Inl e)
     | (db, Inr False) \<Rightarrow> (db, Inr ())
     | (db, Inr True) \<Rightarrow>
        let f = last (sd_inflight db); a = last (sd_transfers db) in
        release_finish records f (ask (ta_requestedMinor a) (ta_key a)) db)"

section \<open>Refunds, disputes and evidence\<close>

definition recordReversalOutcome :: "string \<Rightarrow> nat \<Rightarrow> reversal_outcome \<Rightarrow> settlement_db \<Rightarrow> settlement_db" where
  "recordReversalOutcome i n outcome db =
    (case outcome of
       RO_CONFIRMED confirmed \<Rightarrow>
         if list_ex (\<lambda>a. sr_id a = n \<and> sr_status a = SR_REQUESTED) (sd_reversals db) then
           set_settlement i (\<lambda>s. s\<lparr>st_transferredMinor := st_transferredMinor s - confirmed\<rparr>)
             (set_reversal n (\<lambda>a. a\<lparr>sr_status := SR_COMPLETED, sr_confirmedMinor := confirmed\<rparr>) db)
         else db
     | RO_ACCEPTED \<Rightarrow> set_reversal n (\<lambda>a. a\<lparr>sr_status := SR_PROCESSING\<rparr>) db
     | RO_REFUSED \<Rightarrow> set_reversal n (\<lambda>a. a\<lparr>sr_status := SR_FAILED\<rparr>) db
     | RO_INDETERMINATE \<Rightarrow> set_reversal n (\<lambda>a. a\<lparr>sr_status := SR_UNKNOWN\<rparr>) db)"

definition new_reversal :: "settlement \<Rightarrow> reversal_reason \<Rightarrow> reversal_status \<Rightarrow> minor \<Rightarrow> minor \<Rightarrow> string \<Rightarrow> settlement_db \<Rightarrow> reversal_attempt" where
  "new_reversal s reason status requested confirmed key db = \<lparr>sr_id = length (sd_reversals db), sr_settlementId = st_id s,
     sr_reason = reason, sr_requestedMinor = requested, sr_confirmedMinor = confirmed, sr_currency = st_currency s,
     sr_provider = st_provider s, sr_status = status, sr_key = key\<rparr>"

definition add_reversal :: "reversal_attempt \<Rightarrow> settlement_db \<Rightarrow> settlement_db" where
  "add_reversal a db = db\<lparr>sd_reversals := sd_reversals db @ [a]\<rparr>"

text \<open>What went out: stored, or reconstructed for settlements released before it was stored.\<close>

definition released_of :: "settlement \<Rightarrow> reversal_attempt list \<Rightarrow> minor" where
  "released_of s prior = (if st_releasedMinor s \<noteq> 0 then st_releasedMinor s else st_transferredMinor s + confirmedTotalMinor prior)"

definition reverseIfTransferred ::
  "settlement_world \<Rightarrow> settlement \<Rightarrow> minor \<Rightarrow> reversal_reason \<Rightarrow> string \<Rightarrow> settlement_db \<Rightarrow> unit settlement_op" where
  "reverseIfTransferred w s amount reason key db =
    (if \<not> sw_adapter w (st_provider s) then (db, Inl NoAdapter)
     else if \<not> sw_reverseTransfer w (st_provider s) \<or> \<not> truthy (st_providerTransferId s) then (db, Inr ())
     else let prior = reversals_of (st_id s) db; reverse = reversibleMinor amount (released_of s prior) prior in
       if reverse \<le> 0 then (db, Inr ())
       else if key \<in> sr_key ` set (sd_reversals db) then (db, Inl KeyTaken)
       else let a = new_reversal s reason SR_REQUESTED reverse 0 key db in
         (recordReversalOutcome (st_id s) (sr_id a) (sw_reverse w (the (st_providerTransferId s)) reverse key) (add_reversal a db),
          Inr ()))"

definition applyRefund :: "settlement_world \<Rightarrow> string \<Rightarrow> string \<Rightarrow> minor \<Rightarrow> settlement_db \<Rightarrow> unit settlement_op" where
  "applyRefund w eventId currency share db =
    (if share \<le> 0 then (db, Inr ())
     else case event_settlement eventId (lower currency) db of
       None \<Rightarrow> (db, Inr ())
     | Some s \<Rightarrow> reverseIfTransferred w s share RV_REFUND (''reverse_'' @ st_id s @ ''_'' @ show_int (st_refundsMinor s))
         (set_settlement (st_id s) (\<lambda>s. s\<lparr>st_refundsMinor := st_refundsMinor s + share\<rparr>) db))"

definition applyDispute :: "settlement_world \<Rightarrow> string \<Rightarrow> string \<Rightarrow> minor \<Rightarrow> bool \<Rightarrow> bool \<Rightarrow> settlement_db \<Rightarrow> unit settlement_op" where
  "applyDispute w eventId currency amount open' lost db =
    (case event_settlement eventId (lower currency) db of
       None \<Rightarrow> (db, Inr ())
     | Some s \<Rightarrow>
        (let db = (if open' \<and> canTransitionSettlement (st_status s) ST_BLOCKED
               then set_settlement (st_id s) (\<lambda>s. s\<lparr>st_status := ST_BLOCKED\<rparr>) db else db) in
         if \<not> lost then (db, Inr ())
         else reverseIfTransferred w s amount RV_DISPUTE (''reverse_dispute_'' @ st_id s @ ''_'' @ show_int (st_disputesMinor s))
           (set_settlement (st_id s) (\<lambda>s. s\<lparr>st_disputesMinor := st_disputesMinor s + amount\<rparr>) db)))"

definition by_transfer :: "string \<Rightarrow> settlement_db \<Rightarrow> settlement option" where
  "by_transfer transferId db = find (\<lambda>s. st_providerTransferId s = Some transferId) (sd_settlements db)"

definition onTransferFailed :: "string \<Rightarrow> settlement_db \<Rightarrow> settlement_db" where
  "onTransferFailed transferId db =
    (case by_transfer transferId db of
       None \<Rightarrow> db
     | Some s \<Rightarrow> if st_status s = ST_FAILED then db else set_settlement (st_id s) (\<lambda>s. s\<lparr>st_status := ST_FAILED\<rparr>) db)"

definition facts_of :: "settlement \<Rightarrow> settlement_db \<Rightarrow> reversal_facts" where
  "facts_of s db = (let attempts = reversals_of (st_id s) db in
     \<lparr>rx_providerTransferId = st_providerTransferId s, rx_currency = st_currency s,
      rx_releasedMinor = released_of s attempts, rx_confirmedReversedMinor = confirmedTotalMinor attempts,
      rx_unresolvedAttempts = length (filter (\<lambda>a. unresolved (sr_status a)) attempts)\<rparr>)"

definition evidence_key :: "settlement \<Rightarrow> minor \<Rightarrow> string" where
  "evidence_key s cumulative = ''evidence:'' @ st_id s @ '':'' @ show_int cumulative"

definition recordEvidenceOutcome :: "settlement \<Rightarrow> evidence_outcome \<Rightarrow> settlement_db \<Rightarrow> unit settlement_op" where
  "recordEvidenceOutcome s outcome db =
    (case outcome of
       NEWLY_CONFIRMED delta cumulative \<Rightarrow>
         (let moved = set_settlement (st_id s) (\<lambda>s. s\<lparr>st_transferredMinor := st_transferredMinor s - delta\<rparr>);
              waiting = find (\<lambda>a. unresolved (sr_status a)) (reversals_of (st_id s) db);
              key = evidence_key s cumulative in
          case waiting of
            Some a \<Rightarrow>
              if delta \<le> sr_requestedMinor a
              then (moved (set_reversal (sr_id a) (\<lambda>a. a\<lparr>sr_status := SR_COMPLETED, sr_confirmedMinor := delta\<rparr>) db), Inr ())
              else if key \<in> sr_key ` set (sd_reversals db) then (db, Inl KeyTaken)
              else (moved (add_reversal (new_reversal s RV_ADJUSTMENT SR_COMPLETED delta delta key db) db), Inr ())
          | None \<Rightarrow>
              if key \<in> sr_key ` set (sd_reversals db) then (db, Inl KeyTaken)
              else (moved (add_reversal (new_reversal s RV_ADJUSTMENT SR_COMPLETED delta delta key db) db), Inr ()))
     | _ \<Rightarrow> (db, Inr ()))"

definition applyTransferEvidence :: "transfer_evidence \<Rightarrow> settlement_db \<Rightarrow> evidence_outcome settlement_op" where
  "applyTransferEvidence evidence db =
    (case by_transfer (te_providerTransferId evidence) db of
       None \<Rightarrow> (db, Inr (MISMATCH NoSettlement))
     | Some s \<Rightarrow>
        (let outcome = reconcileTransferEvidence (facts_of s db) evidence in
         case recordEvidenceOutcome s outcome db of (db, Inl e) \<Rightarrow> (db, Inl e) | (db, Inr _) \<Rightarrow> (db, Inr outcome)))"

section \<open>Bookkeeping of rows\<close>

definition conf :: "string \<Rightarrow> settlement_db \<Rightarrow> minor" where
  "conf i db = confirmedTotalMinor (reversals_of i db)"

definition sent :: "string \<Rightarrow> settlement_db \<Rightarrow> minor" where
  "sent i db = sum_list (map ta_requestedMinor (filter (\<lambda>a. ta_status a = TA_SUCCEEDED) (transfers_of i db)))"

lemma conf_sum: "conf i db = (\<Sum>a\<leftarrow>sd_reversals db. if sr_settlementId a = i then movedMinor a else 0)"
  by (simp add: conf_def confirmedTotalMinor_def reversals_of_def sum_list_map_filter')

lemma sent_sum:
  "sent i db = (\<Sum>a\<leftarrow>sd_transfers db. if ta_settlementId a = i \<and> ta_status a = TA_SUCCEEDED then ta_requestedMinor a else 0)"
  by (simp add: sent_def transfers_of_def sum_list_map_filter' conj_commute)

lemma sum_map_row:
  fixes g :: "'a \<Rightarrow> int"
  assumes "distinct (map k xs)" "r \<in> set xs"
  shows "(\<Sum>a\<leftarrow>map (\<lambda>a. if k a = k r then f a else a) xs. g a) = (\<Sum>a\<leftarrow>xs. g a) + (g (f r) - g r)"
  using assms
proof (induction xs)
  case (Cons x xs)
  show ?case
  proof (cases "x = r")
    case True
    have "map (\<lambda>a. if k a = k r then f a else a) xs = xs" using Cons.prems True by (intro map_idI) (auto simp: rev_image_eqI)
    then show ?thesis using True by simp
  next
    case False
    then have "r \<in> set xs" "k x \<noteq> k r" using Cons.prems by auto
    then show ?thesis using Cons by simp
  qed
qed simp

definition approved_ok :: "settlement \<Rightarrow> bool" where
  "approved_ok s \<longleftrightarrow>
    (st_status s \<in> {ST_APPROVED, ST_TRANSFER_PROCESSING, ST_TRANSFERRED, ST_FAILED} \<or> st_providerTransferId s \<noteq> None \<longrightarrow>
     st_approvedBy s \<noteq> None)"

definition rows_ok :: "settlement_db \<Rightarrow> bool" where
  "rows_ok db \<longleftrightarrow> distinct (map st_id (sd_settlements db)) \<and>
    map ta_id (sd_transfers db) = [0..<length (sd_transfers db)] \<and> map sr_id (sd_reversals db) = [0..<length (sd_reversals db)] \<and>
    (\<forall>a\<in>set (sd_transfers db). ta_settlementId a \<in> st_id ` set (sd_settlements db)) \<and>
    (\<forall>a\<in>set (sd_reversals db). sr_settlementId a \<in> st_id ` set (sd_settlements db))"

definition flights_ok :: "settlement_db \<Rightarrow> bool" where
  "flights_ok db \<longleftrightarrow> distinct (map fl_attempt (sd_inflight db)) \<and>
    (\<forall>f\<in>set (sd_inflight db). \<exists>a\<in>set (sd_transfers db). ta_id a = fl_attempt f \<and> ta_settlementId a = fl_settlementId f \<and>
       ta_status a = TA_REQUESTED \<and> ta_requestedMinor a = sp_payableMinor (fl_payable f))"

definition money_ok :: "settlement_db \<Rightarrow> bool" where
  "money_ok db \<longleftrightarrow> (\<forall>s\<in>set (sd_settlements db).
     st_transferredMinor s = st_releasedMinor s - conf (st_id s) db \<and> st_releasedMinor s = sent (st_id s) db) \<and>
     (\<forall>a\<in>set (sd_reversals db). sr_status a \<noteq> SR_COMPLETED \<longrightarrow> sr_confirmedMinor a = 0)"

definition resolved :: "transfer_status \<Rightarrow> bool" where
  "resolved s \<longleftrightarrow> s = TA_SUCCEEDED \<or> s = TA_FAILED"

definition sends_ok :: "(string \<Rightarrow> bool) \<Rightarrow> settlement_db \<Rightarrow> bool" where
  "sends_ok cap db \<longleftrightarrow> (\<forall>a\<in>set (sd_transfers db). \<forall>b\<in>set (sd_transfers db).
     ta_id a < ta_id b \<and> ta_settlementId a = ta_settlementId b \<longrightarrow>
     (ta_key a = ta_key b \<longrightarrow> ta_requestedMinor a = ta_requestedMinor b) \<and> (\<not> cap (ta_provider b) \<longrightarrow> resolved (ta_status a)))"

definition approvals_ok :: "settlement_db \<Rightarrow> bool" where
  "approvals_ok db \<longleftrightarrow> (\<forall>s\<in>set (sd_settlements db).
     approved_ok s \<and> (transfers_of (st_id s) db \<noteq> [] \<longrightarrow> st_approvedBy s \<noteq> None))"

definition ledger_inv :: "(string \<Rightarrow> bool) \<Rightarrow> settlement_db \<Rightarrow> bool" where
  "ledger_inv cap db \<longleftrightarrow> rows_ok db \<and> flights_ok db \<and> money_ok db \<and> sends_ok cap db \<and> approvals_ok db"

lemmas ledger_defs = ledger_inv_def rows_ok_def flights_ok_def money_ok_def sends_ok_def approvals_ok_def

lemma ledger_other_tables [simp]:
  "ledger_inv cap (db\<lparr>sd_events := es, sd_payments := ps, sd_payouts := os, sd_accounts := as\<rparr>) = ledger_inv cap db"
  "ledger_inv cap (db\<lparr>sd_payments := ps\<rparr>) = ledger_inv cap db"
  "ledger_inv cap (link_payments e i db) = ledger_inv cap db"
  by (simp_all add: ledger_defs conf_sum sent_sum transfers_of_def link_payments_def)

lemma set_settlement_tables [simp]:
  "sd_transfers (set_settlement i f db) = sd_transfers db" "sd_reversals (set_settlement i f db) = sd_reversals db"
  "sd_inflight (set_settlement i f db) = sd_inflight db" "sd_payouts (set_settlement i f db) = sd_payouts db"
  "transfers_of j (set_settlement i f db) = transfers_of j db" "reversals_of j (set_settlement i f db) = reversals_of j db"
  "conf j (set_settlement i f db) = conf j db" "sent j (set_settlement i f db) = sent j db"
  by (simp_all add: set_settlement_def transfers_of_def reversals_of_def conf_def sent_def)

lemma set_settlement_rows: "sd_settlements (set_settlement i f db) = map (\<lambda>s. if st_id s = i then f s else s) (sd_settlements db)"
  by (simp add: set_settlement_def)

lemma set_settlement_ids:
  "(\<And>s. st_id (f s) = st_id s) \<Longrightarrow> map st_id (sd_settlements (set_settlement i f db)) = map st_id (sd_settlements db)"
  by (simp add: set_settlement_rows)

lemma image_ids: "map st_id xs = map st_id ys \<Longrightarrow> st_id ` set xs = st_id ` set ys"
  by (metis list.set_map)

lemma set_settlement_id_set:
  "(\<And>s. st_id (f s) = st_id s) \<Longrightarrow> st_id ` set (sd_settlements (set_settlement i f db)) = st_id ` set (sd_settlements db)"
  by (rule image_ids) (rule set_settlement_ids)

text \<open>A change of a settlement that leaves its money and its approval.\<close>

lemma ledger_settlement:
  assumes inv: "ledger_inv cap db"
    and keeps: "\<And>s. st_id (f s) = st_id s \<and> st_transferredMinor (f s) = st_transferredMinor s \<and> st_releasedMinor (f s) = st_releasedMinor s \<and>
      (st_approvedBy s \<noteq> None \<longrightarrow> st_approvedBy (f s) \<noteq> None)"
    and approved: "\<And>s. s \<in> set (sd_settlements db) \<Longrightarrow> st_id s = i \<Longrightarrow> approved_ok (f s)"
  shows "ledger_inv cap (set_settlement i f db)"
proof -
  have ids: "map st_id (sd_settlements (set_settlement i f db)) = map st_id (sd_settlements db)"
    using keeps by (intro set_settlement_ids) simp
  have "rows_ok (set_settlement i f db)"
    using inv ids image_ids [OF ids] by (simp add: ledger_inv_def rows_ok_def)
  moreover have "money_ok (set_settlement i f db)"
    using inv keeps by (auto simp: ledger_inv_def money_ok_def set_settlement_rows)
  moreover have "approvals_ok (set_settlement i f db)"
    using inv keeps approved by (auto simp: ledger_inv_def approvals_ok_def set_settlement_rows)
  ultimately show ?thesis using inv by (simp add: ledger_inv_def flights_ok_def sends_ok_def)
qed

lemma get_settlement_Some: "get_settlement i db = Some s \<Longrightarrow> s \<in> set (sd_settlements db) \<and> st_id s = i"
  using find_set by (fastforce simp: get_settlement_def)

lemma event_settlement_Some: "event_settlement e c db = Some s \<Longrightarrow> s \<in> set (sd_settlements db) \<and> st_eventId s = e \<and> st_currency s = c"
  using find_set by (fastforce simp: event_settlement_def)

lemma by_transfer_Some: "by_transfer t db = Some s \<Longrightarrow> s \<in> set (sd_settlements db) \<and> st_providerTransferId s = Some t"
  using find_set by (fastforce simp: by_transfer_def)

lemma get_settlement_None: "get_settlement i db = None \<longleftrightarrow> i \<notin> st_id ` set (sd_settlements db)"
  by (auto simp: get_settlement_def find_None_iff)

lemma same_row: "ledger_inv cap db \<Longrightarrow> s \<in> set (sd_settlements db) \<Longrightarrow> t \<in> set (sd_settlements db) \<Longrightarrow> st_id s = st_id t \<Longrightarrow> s = t"
  by (auto simp: ledger_inv_def rows_ok_def distinct_map inj_on_def)

lemma row_approved: "ledger_inv cap db \<Longrightarrow> s \<in> set (sd_settlements db) \<Longrightarrow> approved_ok s"
  by (simp add: ledger_inv_def approvals_ok_def)

section \<open>Every operation keeps the ledger\<close>

lemma ledger_new_settlement:
  assumes inv: "ledger_inv cap db" and new: "get_settlement (st_id s) db = None"
    and zero: "st_transferredMinor s = 0" "st_releasedMinor s = 0" and ok: "approved_ok s"
  shows "ledger_inv cap (db\<lparr>sd_settlements := sd_settlements db @ [s]\<rparr>)"
proof -
  have none: "\<And>a. a \<in> set (sd_transfers db) \<Longrightarrow> ta_settlementId a \<noteq> st_id s" "\<And>a. a \<in> set (sd_reversals db) \<Longrightarrow> sr_settlementId a \<noteq> st_id s"
    using inv new by (simp_all add: ledger_inv_def rows_ok_def get_settlement_None) metis+
  have "conf (st_id s) db = 0" "sent (st_id s) db = 0" "transfers_of (st_id s) db = []"
    using none by (auto simp: conf_def sent_def reversals_of_def transfers_of_def confirmedTotalMinor_def filter_False)
  moreover have "conf i (db\<lparr>sd_settlements := xs\<rparr>) = conf i db" "sent i (db\<lparr>sd_settlements := xs\<rparr>) = sent i db"
      "transfers_of i (db\<lparr>sd_settlements := xs\<rparr>) = transfers_of i db" for i xs
    by (simp_all add: conf_sum sent_sum transfers_of_def)
  ultimately show ?thesis
    using inv new zero ok by (auto simp: ledger_defs get_settlement_None)
qed

lemma next_status_ok: "map_option st_status e = Some t \<Longrightarrow> next_status ev e \<in> {t, ST_ELIGIBLE, ST_HELD}"
  by (auto simp: next_status_def split: option.splits)

lemma sync_ledger:
  assumes inv: "ledger_inv cap db" shows "ledger_inv cap (fst (syncForEvent newId e db))"
proof (cases "find (\<lambda>x. ev_id x = e) (sd_events db)")
  case (Some event)
  define paid where "paid = captured_of e db"
  define currency where "currency = lower (case paid of [] \<Rightarrow> ''usd'' | p # _ \<Rightarrow> py_currency p)"
  show ?thesis
  proof (cases "event_settlement e currency db")
    case None
    with Some inv show ?thesis
      by (auto simp: syncForEvent_def paid_def currency_def Let_def next_status_def approved_ok_def intro!: ledger_new_settlement)
  next
    case (Some s)
    have "ledger_inv cap (set_settlement (st_id s) (\<lambda>s. s\<lparr>st_provider := p, st_grossSalesMinor := g, st_platformFeesMinor := fe,
        st_connectedAccountId := a, st_status := next_status event (Some s')\<rparr>) db)" if "s' = s" for p g fe a s'
      using inv
    proof (rule ledger_settlement)
      fix t assume "t \<in> set (sd_settlements db)" "st_id t = st_id s"
      then have "t = s" using same_row [OF inv] event_settlement_Some [OF Some] by blast
      then show "approved_ok (t\<lparr>st_provider := p, st_grossSalesMinor := g, st_platformFeesMinor := fe, st_connectedAccountId := a,
          st_status := next_status event (Some s')\<rparr>)"
        using that row_approved [OF inv, of s] event_settlement_Some [OF Some] by (auto simp: approved_ok_def next_status_def)
    qed simp
    with Some \<open>find _ _ = Some event\<close> show ?thesis
      by (simp add: syncForEvent_def paid_def currency_def Let_def)
  qed
qed (use inv in \<open>simp add: syncForEvent_def\<close>)

lemma transition_ledger:
  assumes "ledger_inv cap db" "\<And>s. s \<in> set (sd_settlements db) \<Longrightarrow> approved_ok s \<Longrightarrow> canTransitionSettlement (st_status s) to \<Longrightarrow> approved_ok (f (s\<lparr>st_status := to\<rparr>))"
    "\<And>s. st_id (f s) = st_id s \<and> st_transferredMinor (f s) = st_transferredMinor s \<and> st_releasedMinor (f s) = st_releasedMinor s \<and>
      (st_approvedBy s \<noteq> None \<longrightarrow> st_approvedBy (f s) \<noteq> None)"
  shows "ledger_inv cap (fst (transition i to f db))"
proof (cases "get_settlement i db")
  case (Some s)
  have "ledger_inv cap (set_settlement i (\<lambda>s. f (s\<lparr>st_status := to\<rparr>)) db)" if "canTransitionSettlement (st_status s) to"
    using assms(1) assms(3)
  proof (intro ledger_settlement)
    fix t assume "t \<in> set (sd_settlements db)" "st_id t = i"
    then show "approved_ok (f (t\<lparr>st_status := to\<rparr>))"
      using that same_row [OF assms(1)] get_settlement_Some [OF Some] assms(1,2) row_approved by metis
  qed simp_all
  then show ?thesis using Some assms(1) by (simp add: transition_def)
qed (use assms(1) in \<open>simp add: transition_def\<close>)

lemma approve_ledger: "ledger_inv cap db \<Longrightarrow> ledger_inv cap (fst (approve actor i db))"
  unfolding approve_def by (rule transition_ledger) (auto simp: approved_ok_def)

lemma block_ledger: "ledger_inv cap db \<Longrightarrow> ledger_inv cap (fst (block i db))"
  unfolding block_def by (rule transition_ledger) (auto simp: approved_ok_def)

text \<open>A settlement whose approval is known may take any status.\<close>

lemma status_ledger:
  assumes inv: "ledger_inv cap db" and s: "s \<in> set (sd_settlements db)" "st_approvedBy s \<noteq> None \<or> to = ST_BLOCKED"
    and f: "\<And>s. st_id (f s) = st_id s \<and> st_transferredMinor (f s) = st_transferredMinor s \<and> st_releasedMinor (f s) = st_releasedMinor s \<and>
      st_approvedBy (f s) = st_approvedBy s \<and> st_providerTransferId (f s) = st_providerTransferId s \<and> st_status (f s) = to"
  shows "ledger_inv cap (set_settlement (st_id s) f db)"
  using inv
proof (rule ledger_settlement)
  fix t assume "t \<in> set (sd_settlements db)" "st_id t = st_id s"
  then have "t = s" using same_row [OF inv] s by blast
  then show "approved_ok (f t)" using f [of s] s row_approved [OF inv, of s] by (auto simp: approved_ok_def)
qed (simp add: f)

lemma block_claimed_ledger: "ledger_inv cap db \<Longrightarrow> s \<in> set (sd_settlements db) \<or> (\<exists>t\<in>set (sd_settlements db). st_id t = st_id s) \<Longrightarrow> ledger_inv cap (fst (block_claimed s db))"
  by (auto simp: block_claimed_def intro: status_ledger [where to = ST_BLOCKED] dest!: status_ledger [where to = ST_BLOCKED, of cap db _ "\<lambda>s. s\<lparr>st_status := ST_BLOCKED\<rparr>"])

lemma ids_bound: "map k xs = [0..<length xs] \<Longrightarrow> x \<in> set xs \<Longrightarrow> k x < length xs"
  by (metis atLeast0LessThan in_set_conv_nth length_map lessThan_iff nth_map nth_upt set_upt add_0)

lemma begin_ledger:
  assumes inv: "ledger_inv cap db" and s: "t \<in> set (sd_settlements db)" "st_id t = st_id s" "st_approvedBy t \<noteq> None"
    and key: "\<And>a. a \<in> set (transfers_of (st_id s) db) \<Longrightarrow> ta_key a = transfer_key s \<Longrightarrow> ta_requestedMinor a = sp_payableMinor p"
    and replay: "\<not> cap (st_provider s) \<Longrightarrow> (\<And>a. a \<in> set (transfers_of (st_id s) db) \<Longrightarrow> resolved (ta_status a))"
  shows "ledger_inv cap (begin_transfer s p db)"
proof -
  let ?db = "begin_transfer s p db"
  have same: "sd_settlements ?db = sd_settlements db" "sd_reversals ?db = sd_reversals db" "conf i ?db = conf i db" "sent i ?db = sent i db" for i
    by (simp_all add: begin_transfer_def Let_def conf_sum sent_sum)
  have less: "ta_id a < length (sd_transfers db)" if "a \<in> set (sd_transfers db)" for a
    using inv that by (intro ids_bound) (simp_all add: ledger_inv_def rows_ok_def)
  have "st_id s \<in> st_id ` set (sd_settlements db)" using s(1,2) by (metis imageI)
  then have "rows_ok ?db"
    using inv by (simp add: ledger_inv_def rows_ok_def begin_transfer_def Let_def)
  moreover have "flights_ok ?db"
  proof -
    have "length (sd_transfers db) \<notin> fl_attempt ` set (sd_inflight db)"
      using inv less by (fastforce simp: ledger_inv_def flights_ok_def)
    then show ?thesis using inv by (fastforce simp: ledger_inv_def flights_ok_def begin_transfer_def Let_def)
  qed
  moreover have "sends_ok cap ?db"
    using inv less key replay
    by (auto simp: ledger_inv_def sends_ok_def begin_transfer_def Let_def transfers_of_def dest: less_asym)
  moreover have "approvals_ok ?db"
  proof -
    have "st_approvedBy r \<noteq> None" if "r \<in> set (sd_settlements db)" "st_id r = st_id s" for r
      using same_row [OF inv] that s by metis
    then show ?thesis using inv by (auto simp: ledger_inv_def approvals_ok_def begin_transfer_def Let_def transfers_of_def split: if_splits)
  qed
  ultimately show ?thesis using inv same by (auto simp: ledger_inv_def money_ok_def)
qed

lemma drop_flight_ledger: "ledger_inv cap db \<Longrightarrow> ledger_inv cap (db\<lparr>sd_inflight := filter P (sd_inflight db)\<rparr>)"
  by (auto simp: ledger_defs conf_sum sent_sum transfers_of_def intro: distinct_map_filter)

lemma set_transfer_tables [simp]:
  "sd_settlements (set_transfer n f db) = sd_settlements db" "sd_reversals (set_transfer n f db) = sd_reversals db"
  "sd_inflight (set_transfer n f db) = sd_inflight db" "conf i (set_transfer n f db) = conf i db"
  "sd_transfers (set_transfer n f db) = map (\<lambda>a. if ta_id a = n then f a else a) (sd_transfers db)"
  by (simp_all add: set_transfer_def conf_sum)

text \<open>An attempt without a call in flight gets its outcome; \<open>f\<close> says what the settlement gets.\<close>

lemma ledger_answer:
  assumes inv: "ledger_inv cap db" and a: "a \<in> set (sd_transfers db)" "ta_status a = TA_REQUESTED"
    and free: "ta_id a \<notin> fl_attempt ` set (sd_inflight db)"
    and g: "\<And>a. ta_id (g a) = ta_id a \<and> ta_settlementId (g a) = ta_settlementId a \<and> ta_requestedMinor (g a) = ta_requestedMinor a \<and>
      ta_key (g a) = ta_key a \<and> ta_provider (g a) = ta_provider a \<and> ta_status (g a) = to"
    and f: "\<And>s. st_id (f s) = st_id s \<and> st_approvedBy (f s) = st_approvedBy s \<and>
      st_transferredMinor (f s) = st_transferredMinor s + (if to = TA_SUCCEEDED then ta_requestedMinor a else 0) \<and>
      st_releasedMinor (f s) = st_releasedMinor s + (if to = TA_SUCCEEDED then ta_requestedMinor a else 0)"
  shows "ledger_inv cap (set_transfer (ta_id a) g (set_settlement (ta_settlementId a) f db))"
proof -
  let ?db = "set_transfer (ta_id a) g (set_settlement (ta_settlementId a) f db)"
  have ids: "map st_id (sd_settlements ?db) = map st_id (sd_settlements db)" using f by (simp add: set_settlement_rows)
  have dist: "distinct (map ta_id (sd_transfers db))" using inv by (simp add: ledger_inv_def rows_ok_def)
  have keep: "map ta_id (sd_transfers ?db) = map ta_id (sd_transfers db)" using g by simp
  have sent: "sent i ?db = sent i db + (if i = ta_settlementId a \<and> to = TA_SUCCEEDED then ta_requestedMinor a else 0)" for i
    using sum_map_row [OF dist a(1), where f = g and g = "\<lambda>a. if ta_settlementId a = i \<and> ta_status a = TA_SUCCEEDED then ta_requestedMinor a else 0"]
      a(2) g by (simp add: sent_sum)
  have "rows_ok ?db"
    using inv ids image_ids [OF ids] keep g by (auto simp: ledger_inv_def rows_ok_def)
  moreover have "flights_ok ?db"
    unfolding flights_ok_def
  proof (intro conjI ballI)
    fix h assume h: "h \<in> set (sd_inflight ?db)"
    then obtain b where "b \<in> set (sd_transfers db)" "ta_id b = fl_attempt h \<and> ta_settlementId b = fl_settlementId h \<and>
        ta_status b = TA_REQUESTED \<and> ta_requestedMinor b = sp_payableMinor (fl_payable h)"
      using inv by (auto simp: ledger_inv_def flights_ok_def)
    moreover from this have "ta_id b \<noteq> ta_id a" using free h by (auto simp: image_iff)
    ultimately show "\<exists>b\<in>set (sd_transfers ?db). ta_id b = fl_attempt h \<and> ta_settlementId b = fl_settlementId h \<and>
        ta_status b = TA_REQUESTED \<and> ta_requestedMinor b = sp_payableMinor (fl_payable h)"
      by (intro bexI [of _ b]) auto
  qed (use inv in \<open>simp add: ledger_inv_def flights_ok_def\<close>)
  moreover have "money_ok ?db"
    using inv f sent by (auto simp: ledger_inv_def money_ok_def set_settlement_rows)
  moreover have "sends_ok cap ?db"
  proof -
    let ?g = "\<lambda>b. if ta_id b = ta_id a then g b else b"
    have same: "ta_id (?g b) = ta_id b" "ta_settlementId (?g b) = ta_settlementId b" "ta_requestedMinor (?g b) = ta_requestedMinor b"
        "ta_key (?g b) = ta_key b" "ta_provider (?g b) = ta_provider b" for b
      using g by simp_all
    have answered: "resolved (ta_status (?g b))" if "b \<in> set (sd_transfers db)" "resolved (ta_status b)" for b
    proof -
      have "b = a" if "ta_id b = ta_id a" using dist a(1) that \<open>b \<in> _\<close> by (auto simp: distinct_map inj_on_def)
      then show ?thesis using that(2) a(2) by (auto simp: resolved_def)
    qed
    have "sends_ok cap db" using inv by (simp add: ledger_inv_def)
    then show ?thesis unfolding sends_ok_def set_transfer_tables set_settlement_tables set_map ball_simps(9) same
      using answered by blast
  qed
  moreover have "approvals_ok ?db"
  proof -
    have used: "transfers_of (ta_settlementId a) db \<noteq> []" using a(1) by (auto simp: transfers_of_def filter_empty_conv)
    have "(transfers_of i ?db \<noteq> []) = (transfers_of i db \<noteq> [])" for i
      using g by (auto simp: transfers_of_def filter_empty_conv)
    then show ?thesis using inv f used by (auto simp: ledger_inv_def approvals_ok_def set_settlement_rows approved_ok_def)
  qed
  ultimately show ?thesis by (simp add: ledger_inv_def)
qed

lemma set_both: "set_settlement i f (set_transfer n g db) = set_transfer n g (set_settlement i f db)"
  by (simp add: set_settlement_def set_transfer_def)

lemma finish_ledger:
  assumes inv: "ledger_inv cap db" and f: "f \<in> set (sd_inflight db)"
  shows "ledger_inv cap (fst (release_finish records f out db))"
proof -
  obtain a where a: "a \<in> set (sd_transfers db)" "ta_id a = fl_attempt f" "ta_settlementId a = fl_settlementId f"
      "ta_status a = TA_REQUESTED" "ta_requestedMinor a = sp_payableMinor (fl_payable f)"
    using inv f by (auto simp: ledger_inv_def flights_ok_def)
  let ?db = "db\<lparr>sd_inflight := filter (\<lambda>g. fl_attempt g \<noteq> ta_id a) (sd_inflight db)\<rparr>"
  have answer: "ledger_inv cap (set_transfer (ta_id a) g (set_settlement (ta_settlementId a) h ?db))"
    if "\<And>a. ta_id (g a) = ta_id a \<and> ta_settlementId (g a) = ta_settlementId a \<and> ta_requestedMinor (g a) = ta_requestedMinor a \<and>
        ta_key (g a) = ta_key a \<and> ta_provider (g a) = ta_provider a \<and> ta_status (g a) = to"
      "\<And>s. st_id (h s) = st_id s \<and> st_approvedBy (h s) = st_approvedBy s \<and>
        st_transferredMinor (h s) = st_transferredMinor s + (if to = TA_SUCCEEDED then ta_requestedMinor a else 0) \<and>
        st_releasedMinor (h s) = st_releasedMinor s + (if to = TA_SUCCEEDED then ta_requestedMinor a else 0)" for g h to
    using a that by (intro ledger_answer [OF drop_flight_ledger [OF inv], where to = to]) auto
  note finish = release_finish_def Let_def fail_claimed_def set_both
  show ?thesis
  proof (cases out)
    case (T_ACCEPTED t)
    show ?thesis
      using answer [where to = TA_SUCCEEDED] answer [where to = TA_UNKNOWN] T_ACCEPTED
      by (cases records) (simp_all add: finish flip: a(2,3,5))
  qed (use answer [where to = TA_FAILED] answer [where to = TA_UNKNOWN] in \<open>simp_all add: finish flip: a(2,3)\<close>)
qed

lemma release_start_ledger:
  assumes inv: "ledger_inv (sw_idempotentTransfer w) db"
  shows "ledger_inv (sw_idempotentTransfer w) (fst (release_start w i db))"
proof (cases "\<exists>s. get_settlement i db = Some s \<and> isReleasableSettlementStatus (st_status s)")
  case True
  then obtain s where s: "get_settlement i db = Some s" "isReleasableSettlementStatus (st_status s)" by blast
  note row = get_settlement_Some [OF s(1)]
  let ?db = "set_settlement i (\<lambda>s. s\<lparr>st_status := ST_TRANSFER_PROCESSING\<rparr>) db"
  let ?t = "s\<lparr>st_status := ST_TRANSFER_PROCESSING\<rparr>"
  have approved: "st_approvedBy s \<noteq> None"
    using row_approved [OF inv, of s] row s(2) by (auto simp: approved_ok_def isReleasableSettlementStatus_def)
  have claimed: "ledger_inv (sw_idempotentTransfer w) ?db"
    using status_ledger [OF inv, of s ST_TRANSFER_PROCESSING "\<lambda>s. s\<lparr>st_status := ST_TRANSFER_PROCESSING\<rparr>"] row approved by simp
  have t: "?t \<in> set (sd_settlements ?db)" using row by (force simp: set_settlement_rows)
  have moves: "ledger_inv (sw_idempotentTransfer w) (set_settlement (st_id s) f ?db)"
    if "\<And>s. st_id (f s) = st_id s \<and> st_transferredMinor (f s) = st_transferredMinor s \<and> st_releasedMinor (f s) = st_releasedMinor s \<and>
      st_approvedBy (f s) = st_approvedBy s \<and> st_providerTransferId (f s) = st_providerTransferId s \<and> st_status (f s) = to" for f to
    using status_ledger [OF claimed t, of to f] that approved by simp
  have begins: "ledger_inv (sw_idempotentTransfer w) (begin_transfer s p ?db)"
    if "\<not> (is_replay s ?db \<and> \<not> sw_idempotentTransfer w (st_provider s))"
      "\<not> list_ex (\<lambda>a. ta_key a = transfer_key s \<and> ta_requestedMinor a \<noteq> sp_payableMinor p) (transfers_of (st_id s) ?db)" for p
  proof (rule begin_ledger [OF claimed t])
    fix a assume "a \<in> set (transfers_of (st_id s) ?db)" "\<not> sw_idempotentTransfer w (st_provider s)"
    with that(1) show "resolved (ta_status a)" by (cases "ta_status a") (auto simp: is_replay_def list_ex_iff resolved_def)
  qed (use that(2) approved in \<open>auto simp: list_ex_iff\<close>)
  have "ledger_inv (sw_idempotentTransfer w) (fst (release_claimed w s ?db))"
    using claimed moves begins
    by (auto simp: release_claimed_def Let_def block_claimed_def split: sum.splits)
  then show ?thesis using s inv by (auto simp: release_start_def)
qed (use inv in \<open>auto simp: release_start_def split: option.splits\<close>)

text \<open>A change of the reversals of one settlement that moves \<open>x\<close> back.\<close>

lemma ledger_reversals:
  assumes inv: "ledger_inv cap db" and ids: "map sr_id rs = [0..<length rs]"
    and known: "\<And>a. a \<in> set rs \<Longrightarrow> sr_settlementId a \<in> st_id ` set (sd_settlements db)"
    and open': "\<And>a. a \<in> set rs \<Longrightarrow> sr_status a \<noteq> SR_COMPLETED \<Longrightarrow> sr_confirmedMinor a = 0"
    and moved: "\<And>j. (\<Sum>a\<leftarrow>rs. if sr_settlementId a = j then movedMinor a else 0) = conf j db + (if j = i then x else 0)"
  shows "ledger_inv cap (set_settlement i (\<lambda>s. s\<lparr>st_transferredMinor := st_transferredMinor s - x\<rparr>) (db\<lparr>sd_reversals := rs\<rparr>))"
    (is "ledger_inv cap ?db")
proof -
  have rows: "sd_settlements ?db = map (\<lambda>s. if st_id s = i then s\<lparr>st_transferredMinor := st_transferredMinor s - x\<rparr> else s) (sd_settlements db)"
    by (simp add: set_settlement_rows)
  have ids': "map st_id (sd_settlements ?db) = map st_id (sd_settlements db)" by (simp add: rows)
  have "rows_ok ?db" using inv ids known ids' image_ids [OF ids'] by (simp add: ledger_inv_def rows_ok_def)
  moreover have "money_ok ?db"
  proof -
    have "conf j ?db = conf j db + (if j = i then x else 0)" "sent j ?db = sent j db" for j
      using moved by (simp_all add: conf_sum sent_sum)
    then show ?thesis using inv open' by (auto simp: ledger_inv_def money_ok_def rows)
  qed
  moreover have "approvals_ok ?db"
    using inv by (auto simp: ledger_inv_def approvals_ok_def approved_ok_def rows transfers_of_def)
  moreover have "flights_ok ?db" "sends_ok cap ?db"
    using inv by (simp_all add: ledger_inv_def flights_ok_def sends_ok_def)
  ultimately show ?thesis by (simp add: ledger_inv_def)
qed

lemma no_money: "set_settlement i (\<lambda>s. s\<lparr>st_transferredMinor := st_transferredMinor s - 0\<rparr>) db = db"
  by (simp add: set_settlement_def map_idI)

lemma add_reversal_ledger:
  assumes "ledger_inv cap db" "sr_id a = length (sd_reversals db)" "sr_settlementId a \<in> st_id ` set (sd_settlements db)"
    "sr_status a \<noteq> SR_COMPLETED \<longrightarrow> sr_confirmedMinor a = 0"
  shows "ledger_inv cap (set_settlement (sr_settlementId a) (\<lambda>s. s\<lparr>st_transferredMinor := st_transferredMinor s - movedMinor a\<rparr>) (add_reversal a db))"
  unfolding add_reversal_def
  by (rule ledger_reversals [OF assms(1)]) (use assms in \<open>auto simp: ledger_inv_def rows_ok_def money_ok_def conf_sum\<close>)

lemma set_reversal_ledger:
  assumes inv: "ledger_inv cap db" and r: "r \<in> set (sd_reversals db)"
    and f: "\<And>a. sr_id (f a) = sr_id a \<and> sr_settlementId (f a) = sr_settlementId a" "sr_status (f r) \<noteq> SR_COMPLETED \<longrightarrow> sr_confirmedMinor (f r) = 0"
  shows "ledger_inv cap (set_settlement (sr_settlementId r)
    (\<lambda>s. s\<lparr>st_transferredMinor := st_transferredMinor s - (movedMinor (f r) - movedMinor r)\<rparr>) (set_reversal (sr_id r) f db))"
proof -
  let ?f = "\<lambda>a. if sr_id a = sr_id r then f a else a"
  have dist: "distinct (map sr_id (sd_reversals db))" using inv by (simp add: ledger_inv_def rows_ok_def)
  have one: "a = r" if "a \<in> set (sd_reversals db)" "sr_id a = sr_id r" for a
    using dist r that by (auto simp: distinct_map inj_on_def)
  have ids: "map sr_id (map ?f (sd_reversals db)) = map sr_id (sd_reversals db)" using f(1) by simp
  show ?thesis unfolding set_reversal_def
  proof (rule ledger_reversals [OF inv])
    show "map sr_id (map ?f (sd_reversals db)) = [0..<length (map ?f (sd_reversals db))]"
      unfolding ids using inv by (simp add: ledger_inv_def rows_ok_def)
    fix j
    show "(\<Sum>a\<leftarrow>map ?f (sd_reversals db). if sr_settlementId a = j then movedMinor a else 0) =
        conf j db + (if j = sr_settlementId r then movedMinor (f r) - movedMinor r else 0)"
      using sum_map_row [OF dist r, where f = f and g = "\<lambda>a. if sr_settlementId a = j then movedMinor a else 0"] f(1)
      by (simp add: conf_sum)
  next
    fix a assume "a \<in> set (map ?f (sd_reversals db))"
    then obtain b where b: "b \<in> set (sd_reversals db)" "a = ?f b" by auto
    show "sr_settlementId a \<in> st_id ` set (sd_settlements db)"
      using b f(1) inv by (auto simp: ledger_inv_def rows_ok_def)
    assume "sr_status a \<noteq> SR_COMPLETED"
    then show "sr_confirmedMinor a = 0" using b f(2) one [OF b(1)] inv by (auto simp: ledger_inv_def money_ok_def split: if_splits)
  qed
qed

lemma record_ledger:
  assumes inv: "ledger_inv cap db" and r: "r \<in> set (sd_reversals db)" "sr_status r = SR_REQUESTED"
  shows "ledger_inv cap (recordReversalOutcome (sr_settlementId r) (sr_id r) out db)"
proof -
  have zero: "sr_confirmedMinor r = 0" "movedMinor r = 0" using inv r by (auto simp: ledger_inv_def money_ok_def movedMinor_def)
  have status: "ledger_inv cap (set_reversal (sr_id r) (\<lambda>a. a\<lparr>sr_status := to\<rparr>) db)" if "to \<noteq> SR_COMPLETED" for to
    using set_reversal_ledger [OF inv r(1), of "\<lambda>a. a\<lparr>sr_status := to\<rparr>"] that zero no_money by (simp add: movedMinor_def)
  have money: "ledger_inv cap (set_settlement (sr_settlementId r) (\<lambda>s. s\<lparr>st_transferredMinor := st_transferredMinor s - c\<rparr>)
      (set_reversal (sr_id r) (\<lambda>a. a\<lparr>sr_status := SR_COMPLETED, sr_confirmedMinor := c\<rparr>) db))" for c
    using set_reversal_ledger [OF inv r(1), of "\<lambda>a. a\<lparr>sr_status := SR_COMPLETED, sr_confirmedMinor := c\<rparr>"] zero
    by (simp add: movedMinor_def)
  show ?thesis using inv status money by (cases out) (simp_all add: recordReversalOutcome_def)
qed

lemma reverse_ledger:
  assumes inv: "ledger_inv cap db" and s: "st_id s \<in> st_id ` set (sd_settlements db)"
  shows "ledger_inv cap (fst (reverseIfTransferred w s amount reason key db))"
proof -
  define a where "a r = new_reversal s reason SR_REQUESTED r 0 key db" for r
  have "ledger_inv cap (add_reversal (a r) db)" for r
    using add_reversal_ledger [OF inv, of "a r"] s no_money by (simp add: a_def new_reversal_def movedMinor_def)
  then have "ledger_inv cap (recordReversalOutcome (st_id s) (sr_id (a r)) out (add_reversal (a r) db))" for r out
    using record_ledger [of cap "add_reversal (a r) db" "a r" out] by (simp add: a_def new_reversal_def add_reversal_def)
  then show ?thesis using inv by (simp add: reverseIfTransferred_def Let_def a_def)
qed

lemma deduct_ledger:
  assumes inv: "ledger_inv cap db" and f: "\<And>s. st_id (f s) = st_id s \<and> st_transferredMinor (f s) = st_transferredMinor s \<and>
    st_releasedMinor (f s) = st_releasedMinor s \<and> st_approvedBy (f s) = st_approvedBy s \<and> st_status (f s) = st_status s \<and>
    st_providerTransferId (f s) = st_providerTransferId s"
  shows "ledger_inv cap (set_settlement i f db)"
  using inv by (rule ledger_settlement) (use f row_approved [OF inv] in \<open>auto simp: approved_ok_def\<close>)

lemma refund_ledger:
  assumes inv: "ledger_inv cap db" shows "ledger_inv cap (fst (applyRefund w e c share db))"
proof (cases "event_settlement e (lower c) db")
  case (Some s)
  let ?f = "\<lambda>s. s\<lparr>st_refundsMinor := st_refundsMinor s + share\<rparr>"
  have "ledger_inv cap (set_settlement (st_id s) ?f db)" by (rule deduct_ledger [OF inv]) simp
  moreover have "st_id s \<in> st_id ` set (sd_settlements (set_settlement (st_id s) ?f db))"
    using event_settlement_Some [OF Some] by (subst set_settlement_id_set) auto
  ultimately show ?thesis using inv Some by (simp add: applyRefund_def reverse_ledger)
qed (use inv in \<open>simp add: applyRefund_def\<close>)

lemma dispute_ledger:
  assumes inv: "ledger_inv cap db" shows "ledger_inv cap (fst (applyDispute w e c amount open' lost db))"
proof (cases "event_settlement e (lower c) db")
  case (Some s)
  note row = event_settlement_Some [OF Some]
  let ?db = "if open' \<and> canTransitionSettlement (st_status s) ST_BLOCKED then set_settlement (st_id s) (\<lambda>s. s\<lparr>st_status := ST_BLOCKED\<rparr>) db else db"
  let ?f = "\<lambda>s. s\<lparr>st_disputesMinor := st_disputesMinor s + amount\<rparr>"
  have blocked: "ledger_inv cap ?db" using inv row by (auto intro: status_ledger [where to = ST_BLOCKED])
  then have "ledger_inv cap (set_settlement (st_id s) ?f ?db)" by (rule deduct_ledger) simp
  moreover have "st_id s \<in> st_id ` set (sd_settlements (set_settlement (st_id s) ?f ?db))"
    using row by (subst set_settlement_id_set) (auto simp: set_settlement_id_set)
  ultimately show ?thesis using blocked Some by (simp add: applyDispute_def Let_def reverse_ledger)
qed (use inv in \<open>simp add: applyDispute_def\<close>)

lemma failed_ledger:
  assumes inv: "ledger_inv cap db" shows "ledger_inv cap (onTransferFailed t db)"
proof (cases "by_transfer t db")
  case (Some s)
  note row = by_transfer_Some [OF Some]
  then have "st_approvedBy s \<noteq> None" using row_approved [OF inv, of s] by (auto simp: approved_ok_def)
  then show ?thesis using inv Some row by (auto simp: onTransferFailed_def intro: status_ledger [where to = ST_FAILED])
qed (use inv in \<open>simp add: onTransferFailed_def\<close>)

lemma record_evidence_ledger:
  assumes inv: "ledger_inv cap db" and s: "s \<in> set (sd_settlements db)"
  shows "ledger_inv cap (fst (recordEvidenceOutcome s out db))"
proof (cases out)
  case (NEWLY_CONFIRMED delta cumulative)
  let ?moved = "set_settlement (st_id s) (\<lambda>s. s\<lparr>st_transferredMinor := st_transferredMinor s - delta\<rparr>)"
  have added: "ledger_inv cap (?moved (add_reversal (new_reversal s RV_ADJUSTMENT SR_COMPLETED delta delta key db) db))" for key
    using add_reversal_ledger [OF inv, of "new_reversal s RV_ADJUSTMENT SR_COMPLETED delta delta key db"] s
    by (simp add: new_reversal_def movedMinor_def)
  have settled: "ledger_inv cap (?moved (set_reversal (sr_id a) (\<lambda>a. a\<lparr>sr_status := SR_COMPLETED, sr_confirmedMinor := delta\<rparr>) db))"
    if "find (\<lambda>a. unresolved (sr_status a)) (reversals_of (st_id s) db) = Some a" for a
  proof -
    have a: "a \<in> set (sd_reversals db)" "sr_settlementId a = st_id s" "unresolved (sr_status a)"
      using find_set [OF that] by (auto simp: reversals_of_def)
    then show ?thesis
      using set_reversal_ledger [OF inv a(1), of "\<lambda>a. a\<lparr>sr_status := SR_COMPLETED, sr_confirmedMinor := delta\<rparr>"]
      by (auto simp: movedMinor_def unresolved_def)
  qed
  show ?thesis using inv added settled NEWLY_CONFIRMED
    by (auto simp: recordEvidenceOutcome_def Let_def split: option.splits)
qed (use inv in \<open>simp_all add: recordEvidenceOutcome_def\<close>)

lemma evidence_fst:
  "fst (applyTransferEvidence e db) =
    (case by_transfer (te_providerTransferId e) db of None \<Rightarrow> db
     | Some s \<Rightarrow> fst (recordEvidenceOutcome s (reconcileTransferEvidence (facts_of s db) e) db))"
  by (simp add: applyTransferEvidence_def Let_def split: option.split prod.split sum.split)

lemma evidence_ledger: "ledger_inv cap db \<Longrightarrow> ledger_inv cap (fst (applyTransferEvidence e db))"
  by (auto simp: evidence_fst split: option.splits dest!: by_transfer_Some intro: record_evidence_ledger)

end
