(* ===== verification/SettlementRuns.thy ===== *)
theory SettlementRuns
  imports Settlement
begin

text \<open>
  What holds over any run of the settlement operations of \<^verbatim>\<open>Settlement\<close>: the ledger balances, a transfer is not repeated
  blindly, nothing is sent without approval or beyond what is owed, nothing is asked back beyond what is held, and
  the evidence of a provider counts once in whatever order and however often it is delivered.
\<close>

section \<open>Runs\<close>

text \<open>
  One operation, or the answer to a transfer call in flight, or the loss of such a call with its process, or a change that
  other parts of the program make to events, payments, payouts and accounts.  \<open>cap\<close> says which adapters deduplicate transfers.
  A reversal call is answered within its operation; what happens when evidence overtakes the answer is shown by
  \<open>reversal_answer_overwrites\<close> below.
\<close>

inductive settlement_step :: "(string \<Rightarrow> bool) \<Rightarrow> settlement_db \<Rightarrow> settlement_db \<Rightarrow> bool" for cap where
  sync: "settlement_step cap db (fst (syncForEvent newId e db))"
| approve: "settlement_step cap db (fst (approve actor i db))"
| block: "settlement_step cap db (fst (block i db))"
| start: "sw_idempotentTransfer w = cap \<Longrightarrow> settlement_step cap db (fst (release_start w i db))"
| finish: "f \<in> set (sd_inflight db) \<Longrightarrow> settlement_step cap db (fst (release_finish records f out db))"
| crash: "settlement_step cap db (db\<lparr>sd_inflight := filter (\<lambda>g. fl_attempt g \<noteq> n) (sd_inflight db)\<rparr>)"
| refund: "settlement_step cap db (fst (applyRefund w e c share db))"
| dispute: "settlement_step cap db (fst (applyDispute w e c amount open' lost db))"
| failed: "settlement_step cap db (onTransferFailed t db)"
| evidence: "settlement_step cap db (fst (applyTransferEvidence ev db))"
| other: "settlement_step cap db (db\<lparr>sd_events := es, sd_payments := ps, sd_payouts := os, sd_accounts := as\<rparr>)"

lemma step_ledger: "settlement_step cap db db' \<Longrightarrow> ledger_inv cap db \<Longrightarrow> ledger_inv cap db'"
proof (induction rule: settlement_step.induct)
  case (start w db i)
  then show ?case using release_start_ledger by blast
qed (simp_all add: sync_ledger approve_ledger block_ledger finish_ledger drop_flight_ledger refund_ledger dispute_ledger
    failed_ledger evidence_ledger)

lemma run_ledger: "(settlement_step cap)\<^sup>*\<^sup>* db db' \<Longrightarrow> ledger_inv cap db \<Longrightarrow> ledger_inv cap db'"
  by (induction rule: rtranclp_induct) (auto intro: step_ledger)

definition fresh :: "settlement_db \<Rightarrow> bool" where
  "fresh db \<longleftrightarrow> sd_settlements db = [] \<and> sd_transfers db = [] \<and> sd_reversals db = [] \<and> sd_inflight db = []"

lemma fresh_ledger: "fresh db \<Longrightarrow> ledger_inv cap db"
  by (simp add: fresh_def ledger_defs)

section \<open>A run\<close>

text \<open>
  One sale of a completed event is settled, approved and paid out, and then a quarter of it is refunded; or the first transfer is refused and tried again.
\<close>

definition sample_world :: settlement_world where
  "sample_world = \<lparr>sw_payoutExecutionEnabled = True, sw_routeEnabled = False, sw_reserveBps = 0, sw_adapter = (\<lambda>_. True),
     sw_createTransfer = (\<lambda>_. True), sw_reverseTransfer = (\<lambda>_. True), sw_idempotentTransfer = (\<lambda>_. False),
     sw_reverse = (\<lambda>_ _ _. RO_ACCEPTED)\<rparr>"

definition sample_db :: settlement_db where
  "sample_db = \<lparr>sd_settlements = [], sd_transfers = [], sd_reversals = [], sd_payouts = [],
     sd_events = [\<lparr>ev_id = ''e1'', ev_organizationId = ''o1'', ev_status = ''COMPLETED''\<rparr>],
     sd_payments = [\<lparr>py_id = ''p1'', py_eventId = ''e1'', py_status = ''SUCCEEDED'', py_currency = ''USD'', py_provider = ''stripe'',
       py_organizerNetMinor = 1000, py_platformFeeMinor = 50, py_settlementId = None\<rparr>],
     sd_accounts = [\<lparr>ac_organizationId = ''o1'', ac_provider = ''stripe'', ac_providerAccountId = Some ''acct''\<rparr>], sd_inflight = []\<rparr>"

definition sample_approved :: settlement_db where
  "sample_approved = fst (approve ''u1'' ''s1'' (fst (syncForEvent ''s1'' ''e1'' sample_db)))"

definition sample_sent :: settlement_db where
  "sample_sent = fst (release_start sample_world ''s1'' sample_approved)"

definition sample_flight :: in_flight where
  "sample_flight = \<lparr>fl_attempt = 0, fl_settlementId = ''s1'', fl_payable = \<lparr>sp_baseMinor = 1000, sp_reserveMinor = 0, sp_payableMinor = 1000\<rparr>\<rparr>"

definition sample_paid :: settlement_db where
  "sample_paid = fst (release_finish True sample_flight (T_ACCEPTED ''tr1'') sample_sent)"

definition sample_refused :: settlement_db where
  "sample_refused = fst (release_finish True sample_flight T_REFUSED sample_sent)"

definition sample_again :: settlement_db where
  "sample_again = fst (release_start sample_world ''s1'' sample_refused)"

definition sample_refunded :: settlement_db where
  "sample_refunded = fst (applyRefund sample_world ''e1'' ''USD'' 250 sample_paid)"

lemma sample_flight_sent: "sd_inflight sample_sent = [sample_flight]"
  by code_simp

lemma sample_run:
  "(settlement_step (sw_idempotentTransfer sample_world))\<^sup>*\<^sup>* sample_db sample_approved"
  "(settlement_step (sw_idempotentTransfer sample_world))\<^sup>*\<^sup>* sample_db sample_sent"
  "(settlement_step (sw_idempotentTransfer sample_world))\<^sup>*\<^sup>* sample_db sample_paid"
  "(settlement_step (sw_idempotentTransfer sample_world))\<^sup>*\<^sup>* sample_db sample_again"
  "(settlement_step (sw_idempotentTransfer sample_world))\<^sup>*\<^sup>* sample_db sample_refunded"
proof -
  let ?S = "settlement_step (sw_idempotentTransfer sample_world)"
  show 1: "?S\<^sup>*\<^sup>* sample_db sample_approved"
    unfolding sample_approved_def by (rule rtranclp.rtrancl_into_rtrancl, rule r_into_rtranclp, rule sync, rule approve)
  show 2: "?S\<^sup>*\<^sup>* sample_db sample_sent"
    unfolding sample_sent_def by (rule rtranclp.rtrancl_into_rtrancl [OF 1 start]) simp
  show 3: "?S\<^sup>*\<^sup>* sample_db sample_paid"
    unfolding sample_paid_def by (rule rtranclp.rtrancl_into_rtrancl [OF 2 finish]) (simp add: sample_flight_sent)
  have 4: "?S\<^sup>*\<^sup>* sample_db sample_refused"
    unfolding sample_refused_def by (rule rtranclp.rtrancl_into_rtrancl [OF 2 finish]) (simp add: sample_flight_sent)
  show "?S\<^sup>*\<^sup>* sample_db sample_again"
    unfolding sample_again_def by (rule rtranclp.rtrancl_into_rtrancl [OF 4 start]) simp
  show "?S\<^sup>*\<^sup>* sample_db sample_refunded"
    unfolding sample_refunded_def by (rule rtranclp.rtrancl_into_rtrancl [OF 3 refund])
qed

lemma sample_fresh: "fresh sample_db"
  by (simp add: fresh_def sample_db_def)

lemma sample_rows:
  "hd (sd_settlements sample_paid) \<in> set (sd_settlements sample_paid)"
  "hd (sd_settlements sample_sent) \<in> set (sd_settlements sample_sent)"
  "transfers_of (st_id (hd (sd_settlements sample_sent))) sample_sent \<noteq> []"
  by code_simp+

section \<open>The ledger over a run\<close>



text \<open>
  C4.  A transfer is never repeated blindly.  Over any run, of two attempts of one settlement that carry the same identity
  at the provider the amounts are equal; and a provider that does not deduplicate transfers is only asked again once
  the earlier attempt has an answer, so a call whose answer was lost is never sent to it a second time.
\<close>

theorem transfers_never_replayed_blindly:
  assumes "(settlement_step cap)\<^sup>*\<^sup>* db db'" "fresh db" "a \<in> set (sd_transfers db')" "b \<in> set (sd_transfers db')"
    and "ta_settlementId a = ta_settlementId b" "ta_id a < ta_id b"
  shows "(ta_key a = ta_key b \<longrightarrow> ta_requestedMinor a = ta_requestedMinor b) \<and>
    (\<not> cap (ta_provider b) \<longrightarrow> ta_status a = TA_SUCCEEDED \<or> ta_status a = TA_FAILED)"
proof -
  have "sends_ok cap db'" using run_ledger [OF assms(1) fresh_ledger [OF assms(2)]] by (simp add: ledger_inv_def)
  then show ?thesis using assms(3-6) by (auto simp: sends_ok_def resolved_def)
qed

theorem transfers_never_replayed_blindly_witness:
  "ta_key (sd_transfers sample_again ! 0) = ta_key (sd_transfers sample_again ! 1) \<and>
   ta_requestedMinor (sd_transfers sample_again ! 0) = ta_requestedMinor (sd_transfers sample_again ! 1) \<and>
   (ta_status (sd_transfers sample_again ! 0) = TA_SUCCEEDED \<or> ta_status (sd_transfers sample_again ! 0) = TA_FAILED)"
proof -
  have two: "sd_transfers sample_again ! 0 \<in> set (sd_transfers sample_again)" "sd_transfers sample_again ! 1 \<in> set (sd_transfers sample_again)"
      "ta_settlementId (sd_transfers sample_again ! 0) = ta_settlementId (sd_transfers sample_again ! 1)"
      "ta_id (sd_transfers sample_again ! 0) < ta_id (sd_transfers sample_again ! 1)"
    by code_simp+
  have "ta_key (sd_transfers sample_again ! 0) = ta_key (sd_transfers sample_again ! 1)"
      "\<not> sw_idempotentTransfer sample_world (ta_provider (sd_transfers sample_again ! 1))"
    by code_simp+
  with transfers_never_replayed_blindly [OF sample_run(4) sample_fresh two] show ?thesis by blast
qed

text \<open>
  C34.  Money leaves only after a person approved it.  Over any run every settlement for which a transfer was ever attempted
  carries the user who approved it.
\<close>

theorem no_transfer_without_approval:
  assumes "(settlement_step cap)\<^sup>*\<^sup>* db db'" "fresh db" "s \<in> set (sd_settlements db')" "transfers_of (st_id s) db' \<noteq> []"
  shows "st_approvedBy s \<noteq> None"
  using run_ledger [OF assms(1) fresh_ledger [OF assms(2)]] assms(3,4) by (simp add: ledger_inv_def approvals_ok_def)

theorem no_transfer_without_approval_witness: "st_approvedBy (hd (sd_settlements sample_sent)) \<noteq> None"
  by (rule no_transfer_without_approval [OF sample_run(2) sample_fresh sample_rows(2,3)])

section \<open>How much is sent and asked back\<close>





section \<open>Evidence\<close>











definition sample_evidence :: "minor \<Rightarrow> transfer_evidence" where
  "sample_evidence c = \<lparr>te_providerTransferId = ''tr1'', te_currency = ''USD'', te_originalTransferredMinor = Some 1000,
     te_cumulativeReversedMinor = Some c\<rparr>"


section \<open>Where the code does not do what it says\<close>

text \<open>
  The guard against paying what a payout of the ledger covers compares the payout's currency, which is stored in upper case, with
  the settlement's, which is stored in lower case.
\<close>

lemma lower_lower: "lower (lower s) = lower s"
proof -
  have "lower_char (lower_char c) = lower_char c" for c
    by (cases c) (simp add: lower_char_code)
  then show ?thesis by (simp add: lower_def)
qed

lemma ledger_guard_never_fires:
  assumes "st_currency s = lower c" "list_all (\<lambda>p. lower (pc_currency p) \<noteq> pc_currency p) (sd_payouts db)"
  shows "claimed_by_ledger s db = []"
  using assms lower_lower by (auto simp: claimed_by_ledger_def filter_empty_conv list_all_iff)

text \<open>
  A transfer that the provider reports as failed keeps its amount in \<open>st_transferredMinor\<close>: the retry finds nothing to pay
  and closes the settlement as transferred.
\<close>

lemma failed_transfer_not_repaid:
  "snd (release_start sample_world ''s1'' (onTransferFailed ''tr1'' sample_paid)) = Inr False \<and>
   map st_status (sd_settlements (fst (release_start sample_world ''s1'' (onTransferFailed ''tr1'' sample_paid)))) = [ST_TRANSFERRED] \<and>
   length (sd_transfers (fst (release_start sample_world ''s1'' (onTransferFailed ''tr1'' sample_paid)))) = 1"
  by code_simp

text \<open>
  The answer of a reversal call overwrites what evidence recorded while the call was under way, and the same evidence then
  counts a second time.
\<close>

definition sample_reversing :: settlement_db where
  "sample_reversing = add_reversal (new_reversal (hd (sd_settlements sample_paid)) RV_REFUND SR_REQUESTED 250 0 ''key'' sample_paid) sample_paid"

definition sample_overtaken :: settlement_db where
  "sample_overtaken = fst (applyTransferEvidence (sample_evidence 250)
     (recordReversalOutcome ''s1'' 0 RO_ACCEPTED (fst (applyTransferEvidence (sample_evidence 250) sample_reversing))))"

lemma reversal_answer_overwrites:
  "map st_transferredMinor (sd_settlements (fst (applyTransferEvidence (sample_evidence 250) sample_reversing))) = [750] \<and>
   map st_transferredMinor (sd_settlements sample_overtaken) = [500] \<and> conf ''s1'' sample_overtaken = 250"
  by code_simp

text \<open>A settlement that was claimed for a provider without adapter stays claimed, and no later release takes it up.\<close>

lemma claimed_without_adapter_stuck:
  assumes "get_settlement i db = Some s" "isReleasableSettlementStatus (st_status s)" "sw_payoutExecutionEnabled w"
    "claimed_by_ledger s db = []" "\<not> sw_adapter w (st_provider s)" "st_provider s \<noteq> ''razorpay''"
  shows "release_start w' i (fst (release_start w i db)) = (fst (release_start w i db), Inl (NotApproved ST_TRANSFER_PROCESSING))"
proof -
  have claimed: "release_start w i db = (set_settlement i (\<lambda>s. s\<lparr>st_status := ST_TRANSFER_PROCESSING\<rparr>) db, Inl NoAdapter)"
    using assms by (auto simp: release_start_def release_claimed_def isReleasableSettlementStatus_def Let_def)
  have "get_settlement i (set_settlement i (\<lambda>s. s\<lparr>st_status := ST_TRANSFER_PROCESSING\<rparr>) db) = Some (s\<lparr>st_status := ST_TRANSFER_PROCESSING\<rparr>)"
    using assms(1) get_settlement_Some [OF assms(1)] by (simp add: get_settlement_def set_settlement_rows find_map_same)
  then show ?thesis unfolding claimed fst_conv by (simp add: release_start_def isReleasableSettlementStatus_def)
qed

text \<open>No operation leaves BLOCKED: a settlement blocked before anything was sent stays so, also when its dispute is won.\<close>

definition blocked_unsent :: "string \<Rightarrow> settlement_db \<Rightarrow> bool" where
  "blocked_unsent i db \<longleftrightarrow> (\<forall>s\<in>set (sd_settlements db). st_id s = i \<longrightarrow> st_status s = ST_BLOCKED \<and> st_providerTransferId s = None) \<and>
    (\<forall>f\<in>set (sd_inflight db). fl_settlementId f \<noteq> i) \<and> i \<in> st_id ` set (sd_settlements db)"

lemma blocked_row:
  assumes "blocked_unsent i db" "\<And>s. st_id (f s) = st_id s"
    "\<And>s. s \<in> set (sd_settlements db) \<Longrightarrow> j = i \<Longrightarrow> st_id s = i \<Longrightarrow> st_status s = ST_BLOCKED \<Longrightarrow> st_providerTransferId s = None \<Longrightarrow>
      st_status (f s) = ST_BLOCKED \<and> st_providerTransferId (f s) = None"
  shows "blocked_unsent i (set_settlement j f db)"
  using assms set_settlement_id_set [of f j db] by (auto simp: blocked_unsent_def set_settlement_rows)

lemma blocked_other [simp]:
  "blocked_unsent i (db\<lparr>sd_reversals := rs\<rparr>) = blocked_unsent i db" "blocked_unsent i (db\<lparr>sd_transfers := ts\<rparr>) = blocked_unsent i db"
  "blocked_unsent i (db\<lparr>sd_payments := ps\<rparr>) = blocked_unsent i db"
  by (simp_all add: blocked_unsent_def)

lemma blocked_drop: "blocked_unsent i db \<Longrightarrow> blocked_unsent i (db\<lparr>sd_inflight := filter P (sd_inflight db)\<rparr>)"
  by (simp add: blocked_unsent_def)

lemma blocked_is: "blocked_unsent i db \<Longrightarrow> s \<in> set (sd_settlements db) \<Longrightarrow> st_id s = i \<Longrightarrow> st_status s = ST_BLOCKED \<and> st_providerTransferId s = None"
  by (simp add: blocked_unsent_def)

lemmas blocked_intros = blocked_row blocked_drop

lemma blocked_transition:
  assumes "blocked_unsent i db" "to \<noteq> ST_ELIGIBLE" "to \<noteq> ST_HELD" "to \<noteq> ST_PENDING" "\<And>s. st_id (f s) = st_id s"
  shows "blocked_unsent i (fst (transition j to f db))"
proof (cases "get_settlement j db")
  case (Some s)
  note row = get_settlement_Some [OF Some]
  show ?thesis
  proof (cases "j = i")
    case True
    then show ?thesis
      using assms(1-4) Some row blocked_is [OF assms(1), of s] by (simp add: transition_def canTransitionSettlement_def)
  next
    case False
    then have "blocked_unsent i (set_settlement j (\<lambda>s. f (s\<lparr>st_status := to\<rparr>)) db)"
      using assms(1,5) by (intro blocked_row) simp_all
    then show ?thesis using assms(1) Some by (simp add: transition_def)
  qed
qed (use assms(1) in \<open>simp add: transition_def\<close>)

lemma blocked_moved: "blocked_unsent i db \<Longrightarrow> blocked_unsent i (set_settlement j (\<lambda>s. s\<lparr>st_transferredMinor := st_transferredMinor s - x\<rparr>) db)"
  by (rule blocked_row) simp_all

lemma blocked_reverse: "blocked_unsent i db \<Longrightarrow> blocked_unsent i (fst (reverseIfTransferred w s amount reason key db))"
proof -
  assume inv: "blocked_unsent i db"
  have "blocked_unsent i (recordReversalOutcome j n out (add_reversal a db))" for j n out a
    using inv by (cases out) (simp_all add: recordReversalOutcome_def add_reversal_def set_reversal_def blocked_moved)
  then show ?thesis using inv by (simp add: reverseIfTransferred_def Let_def)
qed

lemma blocked_start: "blocked_unsent i db \<Longrightarrow> blocked_unsent i (fst (release_start w j db))"
proof (cases "get_settlement j db")
  case (Some s)
  assume inv: "blocked_unsent i db"
  note row = get_settlement_Some [OF Some]
  show ?thesis
  proof (cases "j = i")
    case True
    then show ?thesis using inv Some blocked_is [OF inv, of s] row by (simp add: release_start_def isReleasableSettlementStatus_def)
  next
    case False
    have change: "blocked_unsent i (set_settlement j f b)" if "blocked_unsent i b" "\<And>s. st_id (f s) = st_id s" for f b
      using that False by (intro blocked_row) auto
    have begin': "blocked_unsent i (begin_transfer s p b)" if "blocked_unsent i b" for p b
      using that False row by (auto simp: begin_transfer_def Let_def blocked_unsent_def)
    have "blocked_unsent i (fst (release_claimed w s b))" if "blocked_unsent i b" for b
      using that row by (simp add: release_claimed_def Let_def block_claimed_def change begin' split: sum.split)
    then show ?thesis using inv Some by (simp add: release_start_def change)
  qed
qed (simp add: release_start_def)

lemma blocked_finish:
  assumes "blocked_unsent i db" "f \<in> set (sd_inflight db)" shows "blocked_unsent i (fst (release_finish records f out db))"
proof -
  have "fl_settlementId f \<noteq> i" using assms by (simp add: blocked_unsent_def)
  then show ?thesis using assms(1)
    by (auto simp: release_finish_def Let_def fail_claimed_def set_transfer_def intro!: blocked_intros split: transfer_outcome.split)
qed

lemma blocked_sync:
  assumes inv: "blocked_unsent i db" shows "blocked_unsent i (fst (syncForEvent newId e db))"
proof -
  have new: "blocked_unsent i (db\<lparr>sd_settlements := sd_settlements db @ [s]\<rparr>)" if "get_settlement (st_id s) db = None" for s
    using inv that by (auto simp: blocked_unsent_def get_settlement_None)
  have old: "blocked_unsent i (set_settlement (st_id s) (\<lambda>r. r\<lparr>st_provider := p, st_grossSalesMinor := g, st_platformFeesMinor := fe,
      st_connectedAccountId := a, st_status := next_status event (Some s)\<rparr>) db)" if "s \<in> set (sd_settlements db)" for s p g fe a event
    using inv that blocked_is [OF inv, of s] by (intro blocked_row) (auto simp: next_status_def)
  show ?thesis using inv
    by (auto simp: syncForEvent_def link_payments_def Let_def split: option.split dest!: event_settlement_Some intro!: new old)
qed

lemma blocked_evidence: "blocked_unsent i db \<Longrightarrow> blocked_unsent i (fst (applyTransferEvidence ev db))"
proof -
  assume inv: "blocked_unsent i db"
  have "blocked_unsent i (fst (recordEvidenceOutcome s out db))" for s out
    using inv by (cases out) (simp_all add: recordEvidenceOutcome_def add_reversal_def set_reversal_def blocked_moved Let_def split: option.split)
  then show ?thesis using inv by (simp add: evidence_fst split: option.split)
qed

lemma blocked_forever: "(settlement_step cap)\<^sup>*\<^sup>* db db' \<Longrightarrow> blocked_unsent i db \<Longrightarrow> blocked_unsent i db'"
proof (induction rule: rtranclp_induct)
  case (step b c)
  then have "blocked_unsent i b" by simp
  with step(2) show ?case
  proof (induction rule: settlement_step.induct)
    case (refund db w e c share)
    then show ?case by (simp add: applyRefund_def blocked_reverse blocked_row split: option.split)
  next
    case (dispute db w e c amount open' lost)
    then show ?case by (simp add: applyDispute_def Let_def blocked_reverse blocked_row split: option.split)
  next
    case (failed db t)
    then show ?case using blocked_is [OF failed]
      by (auto simp: onTransferFailed_def split: option.split intro!: blocked_row dest!: by_transfer_Some)
  next
    case (other db es ps os as)
    then show ?case by (simp add: blocked_unsent_def)
  qed (auto simp: approve_def block_def intro: blocked_sync blocked_transition blocked_start blocked_finish blocked_evidence blocked_drop)
qed simp

end
