(* ===== verification/CheckIn.thy ===== *)
theory CheckIn
  imports Prelude
begin

text \<open>
  Admission at the door: \<^verbatim>\<open>checkins.service.ts\<close> (the online gate), the rules of offline check-in that devices and
  server share (\<^verbatim>\<open>offline-checkin.ts\<close>, \<^verbatim>\<open>offline-queue.ts\<close>), and the server side of it under \<^verbatim>\<open>checkins/offline\<close>: devices and
  their gate, signed ticket lists and deltas, the reconciliation of uploaded scans and its review.

  A status is the string that the sources compare.  Rows of the database are records in lists.  Whether the caller has a
  role in an organization, the verification of a QR token and the keyed hash are parameters.  Audit rows, notices,
  metrics and texts are left out.  The claim of a ticket and its entry in the check-in log, two statements in the
  code, are one step.  An operation that decides on a row it has read takes that row as an argument, so that it may be out of date.
\<close>

section \<open>The rules on the device\<close>

datatype offline_result =
  OC_VALID | OC_ALREADY_CHECKED_IN_LOCAL | OC_ALREADY_CHECKED_IN_SERVER_KNOWN | OC_INVALID_SIGNATURE | OC_WRONG_EVENT
| OC_WRONG_SESSION | OC_REVOKED | OC_REFUNDED | OC_CANCELLED | OC_TRANSFERRED | OC_EXPIRED | OC_MANIFEST_STALE
| OC_DEVICE_NOT_AUTHORIZED | OC_REQUIRES_ONLINE_VALIDATION | OC_SUPERVISOR_REVIEW_REQUIRED

record manifest_entry =
  me_ticketId :: string
  me_eventSessionId :: string
  me_nonce :: string
  me_version :: int
  me_status :: string
  me_eligible :: bool

record manifest_meta =
  mm_organizationId :: string
  mm_eventId :: string
  mm_eventSessionId :: string
  mm_version :: int
  mm_validFrom :: time_ms
  mm_expiresAt :: time_ms
  mm_deviceId :: string

record device_scope =
  ds_deviceId :: string
  ds_organizationId :: string
  ds_eventId :: "string option"
  ds_eventSessionId :: "string option"
  ds_active :: bool

record decoded_qr =
  qr_ticketId :: string
  qr_eventSessionId :: string
  qr_nonce :: string
  qr_version :: int

definition STATUS_RESULT :: "string \<Rightarrow> offline_result option" where
  "STATUS_RESULT = map_of [(''REFUNDED'', OC_REFUNDED), (''CANCELLED'', OC_CANCELLED), (''VOID'', OC_CANCELLED),
     (''TRANSFERRED'', OC_TRANSFERRED), (''REVOKED'', OC_REVOKED)]"

type_synonym entry_map = "string \<Rightarrow> manifest_entry option"

definition validateOfflineScan ::
  "decoded_qr option \<Rightarrow> manifest_meta \<Rightarrow> entry_map \<Rightarrow> device_scope \<Rightarrow> time_ms \<Rightarrow> string set \<Rightarrow> string option \<Rightarrow> offline_result" where
  "validateOfflineScan decoded meta entries device now localCheckedIn expectedSessionId =
    (case decoded of
       None \<Rightarrow> OC_INVALID_SIGNATURE
     | Some qr \<Rightarrow>
        if qr_ticketId qr = [] \<or> qr_nonce qr = [] then OC_INVALID_SIGNATURE
        else if \<not> ds_active device \<or> ds_organizationId device \<noteq> mm_organizationId meta then OC_DEVICE_NOT_AUTHORIZED
        else if truthy (ds_eventId device) \<and> ds_eventId device \<noteq> Some (mm_eventId meta) then OC_DEVICE_NOT_AUTHORIZED
        else if truthy (ds_eventSessionId device) \<and> ds_eventSessionId device \<noteq> Some (mm_eventSessionId meta) then OC_DEVICE_NOT_AUTHORIZED
        else if mm_deviceId meta = [] \<or> mm_deviceId meta \<noteq> ds_deviceId device then OC_DEVICE_NOT_AUTHORIZED
        else if now < mm_validFrom meta \<or> mm_expiresAt meta < now then OC_MANIFEST_STALE
        else if qr_eventSessionId qr \<noteq> mm_eventSessionId meta then OC_WRONG_SESSION
        else if truthy expectedSessionId \<and> expectedSessionId \<noteq> Some (qr_eventSessionId qr) then OC_WRONG_SESSION
        else case entries (qr_ticketId qr) of
          None \<Rightarrow> OC_REQUIRES_ONLINE_VALIDATION
        | Some entry \<Rightarrow>
           if me_eventSessionId entry \<noteq> mm_eventSessionId meta then OC_WRONG_SESSION
           else if me_nonce entry \<noteq> qr_nonce qr \<or> me_version entry \<noteq> qr_version qr then OC_REQUIRES_ONLINE_VALIDATION
           else case STATUS_RESULT (me_status entry) of
             Some r \<Rightarrow> r
           | None \<Rightarrow>
              if me_status entry = ''CHECKED_IN'' then OC_ALREADY_CHECKED_IN_SERVER_KNOWN
              else if me_status entry \<noteq> ''ACTIVE'' then OC_REQUIRES_ONLINE_VALIDATION
              else if \<not> me_eligible entry then OC_REQUIRES_ONLINE_VALIDATION
              else if qr_ticketId qr \<in> localCheckedIn then OC_ALREADY_CHECKED_IN_LOCAL
              else OC_VALID)"

datatype manifest_validity = MV_VALID | MV_EXPIRED | MV_NOT_YET_VALID | MV_OTHER_DEVICE

definition manifestValidity :: "manifest_meta \<Rightarrow> string option \<Rightarrow> time_ms \<Rightarrow> manifest_validity" where
  "manifestValidity meta deviceId now =
    (if mm_deviceId meta = [] \<or> \<not> truthy deviceId \<or> Some (mm_deviceId meta) \<noteq> deviceId then MV_OTHER_DEVICE
     else if mm_expiresAt meta < now then MV_EXPIRED
     else if now < mm_validFrom meta then MV_NOT_YET_VALID
     else MV_VALID)"

text \<open>Half of the life of a list is gone: twice both sides of the source's comparison.\<close>

definition manifestNeedsRefresh :: "manifest_meta \<Rightarrow> time_ms \<Rightarrow> bool" where
  "manifestNeedsRefresh meta now \<longleftrightarrow> 2 * mm_validFrom meta + (mm_expiresAt meta - mm_validFrom meta) \<le> 2 * now"

definition isOverridable :: "offline_result \<Rightarrow> bool" where
  "isOverridable r \<longleftrightarrow> r \<in> {OC_REQUIRES_ONLINE_VALIDATION, OC_ALREADY_CHECKED_IN_LOCAL, OC_WRONG_SESSION}"

section \<open>The rules of reconciliation\<close>

datatype reconcile_outcome =
  RC_ACCEPTED | RC_DUPLICATE_SAME_DEVICE | RC_DUPLICATE_OTHER_DEVICE | RC_REVOKED_AFTER_DOWNLOAD | RC_REFUNDED_AFTER_DOWNLOAD
| RC_TRANSFERRED_AFTER_DOWNLOAD | RC_WRONG_SESSION | RC_ALREADY_CHECKED_IN_ONLINE | RC_SUPERVISOR_REVIEW_REQUIRED
| RC_DEVICE_NOT_ACTIVE | RC_MANIFEST_NOT_VALID

datatype review_state = NOT_REQUIRED | REVIEW_PENDING | REVIEW_RESOLVED

datatype resolution_action = ACKNOWLEDGED | DISMISSED

definition reconcileAdmitted :: "reconcile_outcome \<Rightarrow> bool" where
  "reconcileAdmitted r \<longleftrightarrow> r = RC_ACCEPTED"

definition reconcileNeedsReview :: "reconcile_outcome \<Rightarrow> bool" where
  "reconcileNeedsReview r \<longleftrightarrow> r \<in> {RC_SUPERVISOR_REVIEW_REQUIRED, RC_DEVICE_NOT_ACTIVE, RC_MANIFEST_NOT_VALID}"

definition initialReviewState :: "reconcile_outcome \<Rightarrow> review_state" where
  "initialReviewState r = (if reconcileNeedsReview r then REVIEW_PENDING else NOT_REQUIRED)"

definition allowedReconcileResolutions :: "reconcile_outcome \<Rightarrow> review_state \<Rightarrow> resolution_action list" where
  "allowedReconcileResolutions r s = (if s \<noteq> REVIEW_PENDING \<or> \<not> reconcileNeedsReview r then [] else [ACKNOWLEDGED, DISMISSED])"

definition canResolveReconcile :: "reconcile_outcome \<Rightarrow> review_state \<Rightarrow> resolution_action \<Rightarrow> bool" where
  "canResolveReconcile r s a \<longleftrightarrow> a \<in> set (allowedReconcileResolutions r s)"

text \<open>\<open>qc_checkedInAt\<close> is \<open>None\<close> where the body of the upload holds no number and nothing that gives a date.\<close>

record queued_checkin =
  qc_ticketId :: string
  qc_deviceId :: string
  qc_nonce :: string
  qc_version :: int
  qc_eventSessionId :: string
  qc_checkedInAt :: "time_ms option"
  qc_wasOverride :: bool
  qc_manifestVersion :: "int option"
  qc_manifestSignature :: "string option"

record server_ticket_state =
  sv_status :: string
  sv_nonce :: string
  sv_version :: int
  sv_eventSessionId :: string
  sv_checkedIn :: "(string option \<times> bool) option"

definition classifyReconciliation :: "queued_checkin \<Rightarrow> server_ticket_state option \<Rightarrow> reconcile_outcome" where
  "classifyReconciliation q server =
    (case server of
       None \<Rightarrow> RC_SUPERVISOR_REVIEW_REQUIRED
     | Some s \<Rightarrow>
        if sv_status s = ''REFUNDED'' then RC_REFUNDED_AFTER_DOWNLOAD
        else if sv_status s \<in> {''CANCELLED'', ''VOID'', ''REVOKED''} then RC_REVOKED_AFTER_DOWNLOAD
        else if sv_eventSessionId s \<noteq> qc_eventSessionId q then RC_WRONG_SESSION
        else if sv_nonce s \<noteq> qc_nonce q \<or> sv_version s \<noteq> qc_version q then RC_TRANSFERRED_AFTER_DOWNLOAD
        else case sv_checkedIn s of
          Some (by, online) \<Rightarrow>
            if online then RC_ALREADY_CHECKED_IN_ONLINE
            else if by = Some (qc_deviceId q) then RC_DUPLICATE_SAME_DEVICE
            else RC_DUPLICATE_OTHER_DEVICE
        | None \<Rightarrow> if sv_status s \<noteq> ''ACTIVE'' then RC_SUPERVISOR_REVIEW_REQUIRED else RC_ACCEPTED)"

section \<open>Deltas\<close>

record delta_change =
  dc_ticketId :: string
  dc_nonce :: string
  dc_version :: int
  dc_status :: string
  dc_eligible :: bool

record revocation_delta =
  rd_eventSessionId :: string
  rd_deviceId :: string
  rd_baseVersion :: int
  rd_toVersion :: int
  rd_changes :: "delta_change list"
  rd_signature :: string

definition hasDeltaGap :: "int \<Rightarrow> int \<Rightarrow> bool" where
  "hasDeltaGap localVersion baseVersion \<longleftrightarrow> localVersion < baseVersion"

definition entry_of_change :: "string \<Rightarrow> delta_change \<Rightarrow> manifest_entry" where
  "entry_of_change session c = \<lparr>me_ticketId = dc_ticketId c, me_eventSessionId = session, me_nonce = dc_nonce c,
     me_version = dc_version c, me_status = dc_status c, me_eligible = dc_eligible c\<rparr>"

text \<open>\<open>Inl ()\<close> is the thrown gap, after which the device fetches a whole list.\<close>

definition applyDelta :: "entry_map \<Rightarrow> int \<Rightarrow> revocation_delta \<Rightarrow> unit + entry_map" where
  "applyDelta entries localVersion delta =
    (if rd_toVersion delta \<le> localVersion then Inr entries
     else if hasDeltaGap localVersion (rd_baseVersion delta) then Inl ()
     else Inr (fold (\<lambda>c m. m(dc_ticketId c := Some (entry_of_change (rd_eventSessionId delta) c))) (rd_changes delta) entries))"

section \<open>The upload queue of the device\<close>

datatype queue_failure_category = RETRYABLE_NETWORK | RETRYABLE_SERVER | NON_RETRYABLE

definition QUEUE_MAX_RETRIES :: int where "QUEUE_MAX_RETRIES = 6"
definition QUEUE_BACKOFF_BASE_MS :: int where "QUEUE_BACKOFF_BASE_MS = 5000"
definition QUEUE_BACKOFF_MAX_MS :: int where "QUEUE_BACKOFF_MAX_MS = 300000"

text \<open>\<open>None\<close> is a request without response; the flag tells whether the failure may be retried.\<close>

definition classifyQueueFailure :: "int option \<Rightarrow> queue_failure_category \<times> bool" where
  "classifyQueueFailure input =
    (case input of
       None \<Rightarrow> (RETRYABLE_NETWORK, True)
     | Some status \<Rightarrow>
        if 500 \<le> status then (RETRYABLE_SERVER, True)
        else if status = 429 then (RETRYABLE_SERVER, True)
        else (NON_RETRYABLE, False))"

definition backoffDelayMs :: "int \<Rightarrow> int" where
  "backoffDelayMs priorAttempts = min (QUEUE_BACKOFF_BASE_MS * 2 ^ nat (max 0 priorAttempts)) QUEUE_BACKOFF_MAX_MS"

datatype retry_disposition = RETRYING | BLOCKED

record retry_plan =
  rp_disposition :: retry_disposition
  rp_retryCount :: int
  rp_lastAttemptAt :: time_ms
  rp_nextAttemptAt :: "time_ms option"
  rp_failureCategory :: queue_failure_category

definition planRetry :: "int \<Rightarrow> queue_failure_category \<times> bool \<Rightarrow> time_ms \<Rightarrow> int \<Rightarrow> retry_plan" where
  "planRetry currentRetryCount failure now maxRetries =
    (case failure of (category, retryable) \<Rightarrow>
       if \<not> retryable then \<lparr>rp_disposition = BLOCKED, rp_retryCount = currentRetryCount, rp_lastAttemptAt = now,
         rp_nextAttemptAt = None, rp_failureCategory = category\<rparr>
       else if maxRetries < currentRetryCount + 1 then \<lparr>rp_disposition = BLOCKED, rp_retryCount = currentRetryCount + 1,
         rp_lastAttemptAt = now, rp_nextAttemptAt = None, rp_failureCategory = category\<rparr>
       else \<lparr>rp_disposition = RETRYING, rp_retryCount = currentRetryCount + 1, rp_lastAttemptAt = now,
         rp_nextAttemptAt = Some (now + backoffDelayMs currentRetryCount), rp_failureCategory = category\<rparr>)"

definition isSyncEligible :: "string \<Rightarrow> time_ms option \<Rightarrow> time_ms \<Rightarrow> bool" where
  "isSyncEligible status nextAttemptAt now \<longleftrightarrow>
    status = ''PENDING'' \<or> status = ''RETRYING'' \<and> (case nextAttemptAt of None \<Rightarrow> False | Some t \<Rightarrow> t \<le> now)"

section \<open>The tables\<close>

record gate_ticket =
  tk_id :: string
  tk_bookingId :: string
  tk_organizationId :: string
  tk_eventSessionId :: string
  tk_nonce :: string
  tk_qrVersion :: int
  tk_status :: string
  tk_vendorBarcode :: "string option"
  tk_updatedAt :: time_ms

record gate_booking =
  gb_id :: string
  gb_status :: booking_status

record gate_session =
  se_id :: string
  se_eventId :: string
  se_organizationId :: string
  se_status :: string

datatype checkin_result = CR_SUCCESS | CR_DUPLICATE | CR_INVALID | CR_CANCELLED | CR_WRONG_SESSION | CR_EXTERNAL

record gate_checkin =
  ci_ticketId :: string
  ci_result :: checkin_result
  ci_byUserId :: string
  ci_deviceInfo :: "string option"
  ci_visual :: bool
  ci_reversed :: bool

datatype device_status = DV_PENDING | DV_ACTIVE | DV_SUSPENDED | DV_REVOKED | DV_EXPIRED

record checkin_device =
  cd_id :: string
  cd_organizationId :: string
  cd_eventId :: "string option"
  cd_eventSessionId :: "string option"
  cd_status :: device_status
  cd_expiresAt :: "time_ms option"
  cd_revokedAt :: "time_ms option"
  cd_revokeReason :: "string option"
  cd_revokeReasons :: "(time_ms \<times> string) list"
  cd_manifestVersion :: "int option"

record issued_manifest =
  im_eventSessionId :: string
  im_version :: int
  im_deviceId :: "string option"
  im_validFrom :: time_ms
  im_expiresAt :: time_ms
  im_signature :: string

record reconciliation_record =
  rr_organizationId :: string
  rr_eventSessionId :: string
  rr_deviceId :: string
  rr_ticketId :: string
  rr_operatorUserId :: string
  rr_localScannedAt :: time_ms
  rr_outcome :: reconcile_outcome
  rr_wasOverride :: bool
  rr_reviewState :: review_state
  rr_resolution :: "(resolution_action \<times> string \<times> string) option"

text \<open>\<open>gd_suspended\<close> lists the organizations whose status is SUSPENDED.\<close>

record gate_db =
  gd_tickets :: "gate_ticket list"
  gd_bookings :: "gate_booking list"
  gd_sessions :: "gate_session list"
  gd_suspended :: "string list"
  gd_checkins :: "gate_checkin list"
  gd_devices :: "checkin_device list"
  gd_manifests :: "issued_manifest list"
  gd_records :: "reconciliation_record list"

datatype gate_error =
  AccessDenied | TicketNotFound | NotCheckedIn | DeviceIdRequired | DeviceIdTaken | SessionNotFound | DeviceNotFound | DeviceOtherScope
| DeviceNotActive device_status nat | DeviceRevoked | OrganizationSuspended nat | InvalidDate | RecordNotFound
| ReasonRequired | NotResolvable

definition get_ticket :: "string \<Rightarrow> gate_db \<Rightarrow> gate_ticket option" where
  "get_ticket i db = find (\<lambda>t. tk_id t = i) (gd_tickets db)"

definition get_session :: "string \<Rightarrow> gate_db \<Rightarrow> gate_session option" where
  "get_session i db = find (\<lambda>s. se_id s = i) (gd_sessions db)"

definition booking_status_of :: "gate_ticket \<Rightarrow> gate_db \<Rightarrow> booking_status option" where
  "booking_status_of t db = map_option gb_status (find (\<lambda>b. gb_id b = tk_bookingId t) (gd_bookings db))"

definition get_device :: "string \<Rightarrow> gate_db \<Rightarrow> checkin_device option" where
  "get_device i db = find (\<lambda>d. cd_id d = i) (gd_devices db)"

definition set_device :: "string \<Rightarrow> (checkin_device \<Rightarrow> checkin_device) \<Rightarrow> gate_db \<Rightarrow> gate_db" where
  "set_device i f db = db\<lparr>gd_devices := map (\<lambda>d. if cd_id d = i then f d else d) (gd_devices db)\<rparr>"

section \<open>The online gate\<close>

definition bookingAdmits :: "booking_status option \<Rightarrow> bool" where
  "bookingAdmits s \<longleftrightarrow> (case s of None \<Rightarrow> False | Some b \<Rightarrow> b \<notin> {PENDING_PAYMENT, BK_CANCELLED, BK_EXPIRED, BK_REFUNDED})"

text \<open>\<^verbatim>\<open>updateMany\<close> on the tickets that satisfy a guard, which sets them CHECKED_IN and tells whether there was one.\<close>

definition claim_where :: "(gate_ticket \<Rightarrow> bool) \<Rightarrow> time_ms \<Rightarrow> gate_db \<Rightarrow> gate_db \<times> bool" where
  "claim_where P now db =
    (db\<lparr>gd_tickets := map (\<lambda>t. if P t then t\<lparr>tk_status := ''CHECKED_IN'', tk_updatedAt := now\<rparr> else t) (gd_tickets db)\<rparr>,
     list_ex P (gd_tickets db))"

definition claim_online :: "string \<Rightarrow> time_ms \<Rightarrow> gate_db \<Rightarrow> gate_db \<times> bool" where
  "claim_online i now db = claim_where (\<lambda>t. tk_id t = i \<and> tk_status t = ''ACTIVE'') now db"

definition log_checkin :: "string \<Rightarrow> checkin_result \<Rightarrow> string \<Rightarrow> string option \<Rightarrow> bool \<Rightarrow> gate_db \<Rightarrow> gate_db" where
  "log_checkin i result byUserId deviceInfo visual db = db\<lparr>gd_checkins := gd_checkins db @
     [\<lparr>ci_ticketId = i, ci_result = result, ci_byUserId = byUserId, ci_deviceInfo = deviceInfo, ci_visual = visual, ci_reversed = False\<rparr>]\<rparr>"

record admit_opts =
  ao_expectedSessionId :: "string option"
  ao_expectedEventId :: "string option"
  ao_deviceInfo :: "string option"
  ao_visual :: bool

text \<open>The verdict on a ticket and its booking's status as they were read; where it is for is read again. \<open>None\<close>: go on and claim.\<close>

definition admit_refusal :: "gate_ticket \<Rightarrow> booking_status option \<Rightarrow> admit_opts \<Rightarrow> gate_db \<Rightarrow> checkin_result option" where
  "admit_refusal t booking opts db =
    (let context = get_ticket (tk_id t) db;
         session = Option.bind context (\<lambda>c. get_session (tk_eventSessionId c) db);
         bstatus = Option.bind context (\<lambda>c. booking_status_of c db) in
     if truthy (ao_expectedEventId opts) \<and> map_option se_eventId session \<noteq> ao_expectedEventId opts then Some CR_WRONG_SESSION
     else if map_option se_status session = Some ''CANCELLED'' \<or> bstatus \<in> {Some BK_CANCELLED, Some BK_REFUNDED, Some BK_EXPIRED}
       then Some CR_CANCELLED
     else if truthy (ao_expectedSessionId opts) \<and> ao_expectedSessionId opts \<noteq> Some (tk_eventSessionId t) then Some CR_WRONG_SESSION
     else if tk_status t \<in> {''CANCELLED'', ''REFUNDED'', ''VOID''} then Some CR_CANCELLED
     else if \<not> bookingAdmits booking then Some CR_CANCELLED
     else if truthy (tk_vendorBarcode t) then Some CR_EXTERNAL
     else None)"

definition admit :: "gate_ticket \<Rightarrow> booking_status option \<Rightarrow> admit_opts \<Rightarrow> string \<Rightarrow> time_ms \<Rightarrow> gate_db \<Rightarrow> gate_db \<times> checkin_result" where
  "admit t booking opts staff now db =
    (let log = (\<lambda>r. log_checkin (tk_id t) r staff (ao_deviceInfo opts) (ao_visual opts)) in
     case admit_refusal t booking opts db of
       Some r \<Rightarrow> (log r db, r)
     | None \<Rightarrow> (case claim_online (tk_id t) now db of
         (db, True) \<Rightarrow> (log CR_SUCCESS db, CR_SUCCESS)
       | (db, False) \<Rightarrow> (log CR_DUPLICATE db, CR_DUPLICATE)))"

text \<open>\<open>verify\<close> gives the ticket and the nonce of a token whose signature is right.\<close>

definition scan ::
  "(string \<Rightarrow> (string \<times> string) option) \<Rightarrow> (string \<Rightarrow> bool) \<Rightarrow> string \<Rightarrow> string \<Rightarrow> admit_opts \<Rightarrow> time_ms \<Rightarrow> gate_db \<Rightarrow>
    gate_db \<times> (gate_error + checkin_result)" where
  "scan verify member staff token opts now db =
    (case verify token of
       None \<Rightarrow> (db, Inr CR_INVALID)
     | Some (ticketId, nonce) \<Rightarrow>
        (case get_ticket ticketId db of
           None \<Rightarrow> (db, Inr CR_INVALID)
         | Some t \<Rightarrow>
            if tk_nonce t \<noteq> nonce then (db, Inr CR_INVALID)
            else if \<not> member (tk_organizationId t) then (db, Inl AccessDenied)
            else apsnd Inr (admit t (booking_status_of t db) (opts\<lparr>ao_visual := False\<rparr>) staff now db)))"

definition admitVisually ::
  "(string \<Rightarrow> bool) \<Rightarrow> string \<Rightarrow> string \<Rightarrow> admit_opts \<Rightarrow> time_ms \<Rightarrow> gate_db \<Rightarrow> gate_db \<times> (gate_error + checkin_result)" where
  "admitVisually member staff ticketId opts now db =
    (case get_ticket ticketId db of
       None \<Rightarrow> (db, Inr CR_INVALID)
     | Some t \<Rightarrow>
        if \<not> member (tk_organizationId t) then (db, Inl AccessDenied)
        else apsnd Inr (admit t (booking_status_of t db) (opts\<lparr>ao_visual := True\<rparr>) staff now db))"

text \<open>The transaction of a reversal, which writes the ticket whatever has become of it since it was read.\<close>

definition reverse_write :: "string \<Rightarrow> time_ms \<Rightarrow> gate_db \<Rightarrow> gate_db" where
  "reverse_write i now db = db\<lparr>
     gd_tickets := map (\<lambda>t. if tk_id t = i then t\<lparr>tk_status := ''ACTIVE'', tk_updatedAt := now\<rparr> else t) (gd_tickets db),
     gd_checkins := map (\<lambda>c. if ci_ticketId c = i \<and> ci_result c = CR_SUCCESS \<and> \<not> ci_reversed c then c\<lparr>ci_reversed := True\<rparr> else c)
       (gd_checkins db)\<rparr>"

definition reverse_checkin :: "(string \<Rightarrow> bool) \<Rightarrow> string \<Rightarrow> time_ms \<Rightarrow> gate_db \<Rightarrow> gate_db \<times> (gate_error + unit)" where
  "reverse_checkin manager i now db =
    (case get_ticket i db of
       None \<Rightarrow> (db, Inl TicketNotFound)
     | Some t \<Rightarrow>
        if \<not> manager (tk_organizationId t) then (db, Inl AccessDenied)
        else if tk_status t \<noteq> ''CHECKED_IN'' then (db, Inl NotCheckedIn)
        else (reverse_write i now db, Inr ()))"

section \<open>Devices\<close>

definition DEVICE_TTL_MS :: int where "DEVICE_TTL_MS = 30 * 86400000"

definition deviceIsOperational :: "checkin_device \<Rightarrow> time_ms \<Rightarrow> bool" where
  "deviceIsOperational d now \<longleftrightarrow> cd_status d = DV_ACTIVE \<and> (case cd_expiresAt d of None \<Rightarrow> True | Some t \<Rightarrow> now < t)"

definition effectiveDeviceStatus :: "checkin_device \<Rightarrow> time_ms \<Rightarrow> device_status" where
  "effectiveDeviceStatus d now = (if cd_status d = DV_ACTIVE \<and> \<not> deviceIsOperational d now then DV_EXPIRED else cd_status d)"

definition revocation :: "string \<Rightarrow> time_ms \<Rightarrow> checkin_device \<Rightarrow> checkin_device \<Rightarrow> checkin_device" where
  "revocation reason now device d = (let already = cd_status device = DV_REVOKED in
     d\<lparr>cd_status := DV_REVOKED,
       cd_revokedAt := Some (if already then nvl (cd_revokedAt device) now else now),
       cd_revokeReason := Some (if already \<and> truthy (cd_revokeReason device) then the (cd_revokeReason device) else reason),
       cd_revokeReasons := cd_revokeReasons d @ [(now, reason)]\<rparr>)"

text \<open>\<open>newId\<close> is the id the database gives to the row.\<close>

definition register_device ::
  "(string \<Rightarrow> bool) \<Rightarrow> string \<Rightarrow> string \<Rightarrow> string option \<Rightarrow> string option \<Rightarrow> gate_db \<Rightarrow> gate_db \<times> (gate_error + unit)" where
  "register_device member newId organizationId eventId eventSessionId db =
    (if \<not> member organizationId then (db, Inl AccessDenied)
     else if get_device newId db \<noteq> None then (db, Inl DeviceIdTaken)
     else (db\<lparr>gd_devices := gd_devices db @ [\<lparr>cd_id = newId, cd_organizationId = organizationId, cd_eventId = eventId,
         cd_eventSessionId = eventSessionId, cd_status = DV_PENDING, cd_expiresAt = None, cd_revokedAt = None,
         cd_revokeReason = None, cd_revokeReasons = [], cd_manifestVersion = None\<rparr>]\<rparr>, Inr ()))"

definition load_device :: "(string \<Rightarrow> bool) \<Rightarrow> string \<Rightarrow> gate_db \<Rightarrow> gate_error + checkin_device" where
  "load_device manager i db =
    (case get_device i db of
       None \<Rightarrow> Inl DeviceNotFound
     | Some d \<Rightarrow> if manager (cd_organizationId d) then Inr d else Inl AccessDenied)"

definition approve_write :: "string \<Rightarrow> time_ms \<Rightarrow> gate_db \<Rightarrow> gate_db" where
  "approve_write i now db = set_device i (\<lambda>d. d\<lparr>cd_status := DV_ACTIVE, cd_expiresAt := Some (now + DEVICE_TTL_MS)\<rparr>) db"

definition approve_device :: "(string \<Rightarrow> bool) \<Rightarrow> string \<Rightarrow> time_ms \<Rightarrow> gate_db \<Rightarrow> gate_db \<times> (gate_error + unit)" where
  "approve_device manager i now db =
    (case load_device manager i db of
       Inl e \<Rightarrow> (db, Inl e)
     | Inr d \<Rightarrow> if cd_status d = DV_REVOKED then (db, Inl DeviceRevoked) else (approve_write i now db, Inr ()))"

definition suspend_device :: "(string \<Rightarrow> bool) \<Rightarrow> string \<Rightarrow> gate_db \<Rightarrow> gate_db \<times> (gate_error + unit)" where
  "suspend_device manager i db =
    (case load_device manager i db of
       Inl e \<Rightarrow> (db, Inl e)
     | Inr d \<Rightarrow> if cd_status d = DV_REVOKED then (db, Inl DeviceRevoked)
         else (set_device i (\<lambda>d. d\<lparr>cd_status := DV_SUSPENDED\<rparr>) db, Inr ()))"

definition revoke_device :: "(string \<Rightarrow> bool) \<Rightarrow> string \<Rightarrow> time_ms \<Rightarrow> gate_db \<Rightarrow> gate_db \<times> (gate_error + unit)" where
  "revoke_device manager i now db =
    (case load_device manager i db of
       Inl e \<Rightarrow> (db, Inl e) | Inr d \<Rightarrow> (set_device i (revocation ''MANUAL'' now d) db, Inr ()))"

definition reportLost :: "(string \<Rightarrow> bool) \<Rightarrow> string \<Rightarrow> time_ms \<Rightarrow> gate_db \<Rightarrow> gate_db \<times> (gate_error + unit)" where
  "reportLost manager i now db =
    (case load_device manager i db of
       Inl e \<Rightarrow> (db, Inl e) | Inr d \<Rightarrow> (set_device i (revocation ''LOST'' now d) db, Inr ()))"

section \<open>Ticket lists\<close>

definition OFFLINE_LEASE_MAX_MINUTES :: int where "OFFLINE_LEASE_MAX_MINUTES = 45"

definition offlineRevocationWindowMs :: "int option \<Rightarrow> int" where
  "offlineRevocationWindowMs minutes = min (nvl minutes 45) OFFLINE_LEASE_MAX_MINUTES * 60000"

definition bar :: "string list \<Rightarrow> string" where
  "bar xs = concat (map (\<lambda>x. x @ ''|'') xs)"

definition line_of :: "string \<Rightarrow> string \<Rightarrow> int \<Rightarrow> string \<Rightarrow> bool \<Rightarrow> string" where
  "line_of ticketId nonce version status eligible =
    ticketId @ '':'' @ nonce @ '':'' @ show_int version @ '':'' @ status @ '':'' @ (if eligible then ''1'' else ''0'')"

definition sign_manifest :: "(string \<Rightarrow> string) \<Rightarrow> manifest_meta \<Rightarrow> manifest_entry list \<Rightarrow> string" where
  "sign_manifest hmac meta entries = hmac
    (bar [mm_organizationId meta, mm_eventId meta, mm_eventSessionId meta, show_int (mm_version meta),
          show_int (mm_validFrom meta), show_int (mm_expiresAt meta), mm_deviceId meta] @
     join '','' (map (\<lambda>e. line_of (me_ticketId e) (me_nonce e) (me_version e) (me_status e) (me_eligible e)) entries))"

definition verify_manifest :: "(string \<Rightarrow> string) \<Rightarrow> manifest_meta \<Rightarrow> manifest_entry list \<Rightarrow> string \<Rightarrow> bool" where
  "verify_manifest hmac meta entries signature \<longleftrightarrow> sign_manifest hmac meta entries = signature"

definition sign_delta :: "(string \<Rightarrow> string) \<Rightarrow> revocation_delta \<Rightarrow> string" where
  "sign_delta hmac d = hmac
    (bar [rd_eventSessionId d, rd_deviceId d, show_int (rd_baseVersion d), show_int (rd_toVersion d)] @
     join '','' (map (\<lambda>c. line_of (dc_ticketId c) (dc_nonce c) (dc_version c) (dc_status c) (dc_eligible c)) (rd_changes d)))"

definition deviceFor :: "string option \<Rightarrow> gate_session \<Rightarrow> time_ms \<Rightarrow> gate_db \<Rightarrow> gate_error + checkin_device" where
  "deviceFor deviceId session now db =
    (if \<not> truthy deviceId then Inl DeviceIdRequired
     else case get_device (the deviceId) db of
       None \<Rightarrow> Inl DeviceNotFound
     | Some d \<Rightarrow>
        if cd_organizationId d \<noteq> se_organizationId session then Inl DeviceNotFound
        else if truthy (cd_eventId d) \<and> cd_eventId d \<noteq> Some (se_eventId session) \<or>
            truthy (cd_eventSessionId d) \<and> cd_eventSessionId d \<noteq> Some (se_id session) then Inl DeviceOtherScope
        else if \<not> deviceIsOperational d now then Inl (DeviceNotActive (effectiveDeviceStatus d now) 0)
        else Inr d)"

definition eligible_ticket :: "gate_ticket \<Rightarrow> gate_db \<Rightarrow> bool" where
  "eligible_ticket t db \<longleftrightarrow> tk_status t = ''ACTIVE'' \<and> bookingAdmits (booking_status_of t db)"

definition manifest_entries :: "string \<Rightarrow> gate_db \<Rightarrow> manifest_entry list" where
  "manifest_entries session db = map (\<lambda>t. \<lparr>me_ticketId = tk_id t, me_eventSessionId = session, me_nonce = tk_nonce t,
     me_version = tk_qrVersion t, me_status = tk_status t, me_eligible = eligible_ticket t db\<rparr>)
     (filter (\<lambda>t. tk_eventSessionId t = session \<and> tk_status t \<in> {''ACTIVE'', ''CHECKED_IN''}) (gd_tickets db))"

definition next_manifest_version :: "string \<Rightarrow> gate_db \<Rightarrow> int" where
  "next_manifest_version session db =
    (case map im_version (filter (\<lambda>m. im_eventSessionId m = session) (gd_manifests db)) of [] \<Rightarrow> 0 | vs \<Rightarrow> Max (set vs)) + 1"

text \<open>\<open>window\<close> is the configured number of minutes.\<close>

definition build_manifest ::
  "(string \<Rightarrow> string) \<Rightarrow> int option \<Rightarrow> (string \<Rightarrow> bool) \<Rightarrow> string \<Rightarrow> string option \<Rightarrow> time_ms \<Rightarrow> gate_db \<Rightarrow>
    gate_db \<times> (gate_error + manifest_meta \<times> manifest_entry list \<times> string)" where
  "build_manifest hmac window member eventSessionId deviceId now db =
    (case get_session eventSessionId db of
       None \<Rightarrow> (db, Inl SessionNotFound)
     | Some session \<Rightarrow>
        if \<not> member (se_organizationId session) then (db, Inl AccessDenied)
        else case deviceFor deviceId session now db of
          Inl e \<Rightarrow> (db, Inl e)
        | Inr device \<Rightarrow>
           (let version = next_manifest_version eventSessionId db;
                meta = \<lparr>mm_organizationId = se_organizationId session, mm_eventId = se_eventId session,
                  mm_eventSessionId = eventSessionId, mm_version = version, mm_validFrom = now,
                  mm_expiresAt = now + offlineRevocationWindowMs window, mm_deviceId = cd_id device\<rparr>;
                entries = manifest_entries eventSessionId db; signature = sign_manifest hmac meta entries in
            (set_device (cd_id device) (\<lambda>d. d\<lparr>cd_manifestVersion := Some version\<rparr>)
               (db\<lparr>gd_manifests := gd_manifests db @ [\<lparr>im_eventSessionId = eventSessionId, im_version = version,
                 im_deviceId = Some (cd_id device), im_validFrom = now, im_expiresAt = mm_expiresAt meta, im_signature = signature\<rparr>]\<rparr>),
             Inr (meta, entries, signature))))"

definition delta_changes :: "string \<Rightarrow> time_ms \<Rightarrow> gate_db \<Rightarrow> delta_change list" where
  "delta_changes session sinceMs db = map (\<lambda>t. \<lparr>dc_ticketId = tk_id t, dc_nonce = tk_nonce t, dc_version = tk_qrVersion t,
     dc_status = tk_status t, dc_eligible = eligible_ticket t db\<rparr>)
     (filter (\<lambda>t. tk_eventSessionId t = session \<and> sinceMs < tk_updatedAt t) (gd_tickets db))"

definition buildDelta ::
  "(string \<Rightarrow> string) \<Rightarrow> (string \<Rightarrow> bool) \<Rightarrow> string \<Rightarrow> time_ms \<Rightarrow> string option \<Rightarrow> time_ms \<Rightarrow> gate_db \<Rightarrow> gate_error + revocation_delta" where
  "buildDelta hmac member eventSessionId sinceMs deviceId now db =
    (case get_session eventSessionId db of
       None \<Rightarrow> Inl SessionNotFound
     | Some session \<Rightarrow>
        if \<not> member (se_organizationId session) then Inl AccessDenied
        else case deviceFor deviceId session now db of
          Inl e \<Rightarrow> Inl e
        | Inr device \<Rightarrow>
           (let base = \<lparr>rd_eventSessionId = eventSessionId, rd_deviceId = cd_id device, rd_baseVersion = sinceMs,
                  rd_toVersion = now, rd_changes = delta_changes eventSessionId sinceMs db, rd_signature = []\<rparr> in
            Inr (base\<lparr>rd_signature := sign_delta hmac base\<rparr>)))"

section \<open>Uploads\<close>

definition PREFLIGHT_CLOCK_TOLERANCE_MS :: int where "PREFLIGHT_CLOCK_TOLERANCE_MS = 120000"

datatype manifest_problem = NO_MANIFEST | OTHER_DEVICE | SIGNATURE_MISMATCH | OUTSIDE_VALIDITY

text \<open>A missing time compares false with every number, so it is never outside.\<close>

definition manifestProblem :: "queued_checkin \<Rightarrow> string \<Rightarrow> issued_manifest option \<Rightarrow> manifest_problem option" where
  "manifestProblem q deviceId issued =
    (case issued of
       None \<Rightarrow> Some NO_MANIFEST
     | Some m \<Rightarrow>
        if \<not> truthy (qc_manifestSignature q) then Some NO_MANIFEST
        else if \<not> truthy (im_deviceId m) \<or> im_deviceId m \<noteq> Some deviceId then Some OTHER_DEVICE
        else if Some (im_signature m) \<noteq> qc_manifestSignature q then Some SIGNATURE_MISMATCH
        else case qc_checkedInAt q of
          None \<Rightarrow> None
        | Some tm \<Rightarrow>
           if tm < im_validFrom m - PREFLIGHT_CLOCK_TOLERANCE_MS \<or> im_expiresAt m + PREFLIGHT_CLOCK_TOLERANCE_MS < tm
           then Some OUTSIDE_VALIDITY else None)"

text \<open>The list a scan cites among those read at the start of the upload.\<close>

definition cited :: "queued_checkin \<Rightarrow> issued_manifest list \<Rightarrow> issued_manifest option" where
  "cited q manifests = find (\<lambda>m. im_eventSessionId m = qc_eventSessionId q \<and> Some (im_version m) = qc_manifestVersion q) manifests"

text \<open>What the upload reads of a ticket: the row, the organization of its session and its first standing admission.\<close>

type_synonym found_ticket = "(gate_ticket \<times> string option \<times> gate_checkin option) option"

definition standing :: "string \<Rightarrow> gate_db \<Rightarrow> gate_checkin list" where
  "standing i db = filter (\<lambda>c. ci_ticketId c = i \<and> ci_result c = CR_SUCCESS \<and> \<not> ci_reversed c) (gd_checkins db)"

definition find_ticket :: "string \<Rightarrow> gate_db \<Rightarrow> found_ticket" where
  "find_ticket i db = map_option (\<lambda>t. (t, map_option se_organizationId (get_session (tk_eventSessionId t) db),
     case standing i db of [] \<Rightarrow> None | c # _ \<Rightarrow> Some c)) (get_ticket i db)"

definition own_ticket :: "checkin_device \<Rightarrow> found_ticket \<Rightarrow> (gate_ticket \<times> gate_checkin option) option" where
  "own_ticket device found =
    (case found of None \<Rightarrow> None | Some (t, org, c) \<Rightarrow> if org = Some (cd_organizationId device) then Some (t, c) else None)"

definition server_state :: "gate_ticket \<times> gate_checkin option \<Rightarrow> server_ticket_state" where
  "server_state = (\<lambda>(t, first). \<lparr>sv_status = tk_status t, sv_nonce = tk_nonce t, sv_version = tk_qrVersion t,
     sv_eventSessionId = tk_eventSessionId t,
     sv_checkedIn = (if tk_status t = ''CHECKED_IN'' \<or> first \<noteq> None
       then (let device = Option.bind first ci_deviceInfo in Some (device, \<not> truthy device)) else None)\<rparr>)"

definition claim_offline :: "string \<Rightarrow> time_ms \<Rightarrow> gate_db \<Rightarrow> gate_db \<times> bool" where
  "claim_offline i now db = claim_where (\<lambda>t. tk_id t = i \<and> tk_status t = ''ACTIVE'' \<and>
     (case get_session (tk_eventSessionId t) db of None \<Rightarrow> False | Some s \<Rightarrow> se_organizationId s \<notin> set (gd_suspended db))) now db"

definition add_record :: "string \<Rightarrow> checkin_device \<Rightarrow> queued_checkin \<Rightarrow> time_ms \<Rightarrow> reconcile_outcome \<Rightarrow> gate_db \<Rightarrow> gate_db" where
  "add_record user device q tm outcome db = db\<lparr>gd_records := gd_records db @ [\<lparr>rr_organizationId = cd_organizationId device,
     rr_eventSessionId = qc_eventSessionId q, rr_deviceId = cd_id device, rr_ticketId = qc_ticketId q, rr_operatorUserId = user,
     rr_localScannedAt = tm, rr_outcome = outcome, rr_wasOverride = qc_wasOverride q, rr_reviewState = initialReviewState outcome,
     rr_resolution = None\<rparr>]\<rparr>"

definition scan_verdict :: "checkin_device \<Rightarrow> issued_manifest list \<Rightarrow> queued_checkin \<Rightarrow> found_ticket \<Rightarrow> bool \<Rightarrow> reconcile_outcome" where
  "scan_verdict device manifests q found suspended =
    (let outcome = if manifestProblem q (cd_id device) (cited q manifests) \<noteq> None then RC_MANIFEST_NOT_VALID
       else classifyReconciliation q (map_option server_state (own_ticket device found)) in
     if outcome = RC_ACCEPTED \<and> suspended then RC_DEVICE_NOT_ACTIVE else outcome)"

text \<open>
  One scan of an upload, decided on what was read of its ticket.  The result is the outcome and whether the organization has been
  found suspended; a scan without a time fails when its record is written.
\<close>

definition reconcile_scan ::
  "string \<Rightarrow> checkin_device \<Rightarrow> issued_manifest list \<Rightarrow> time_ms \<Rightarrow> queued_checkin \<Rightarrow> found_ticket \<Rightarrow> bool \<Rightarrow> gate_db \<Rightarrow>
    gate_db \<times> (gate_error + reconcile_outcome \<times> bool)" where
  "reconcile_scan user device manifests now q found suspended db =
    (let record = (\<lambda>outcome suspended db. case qc_checkedInAt q of
           None \<Rightarrow> (db, Inl InvalidDate)
         | Some tm \<Rightarrow> (add_record user device q tm outcome db, Inr (outcome, suspended))) in
     if scan_verdict device manifests q found suspended = RC_ACCEPTED then
       (case claim_offline (qc_ticketId q) now db of
          (db, True) \<Rightarrow> record RC_ACCEPTED suspended (log_checkin (qc_ticketId q) CR_SUCCESS user (Some (cd_id device)) False db)
        | (db, False) \<Rightarrow>
           if cd_organizationId device \<in> set (gd_suspended db) then record RC_DEVICE_NOT_ACTIVE True db
           else (db, Inr (RC_DUPLICATE_OTHER_DEVICE, suspended)))
     else record (scan_verdict device manifests q found suspended) suspended db)"

fun reconcile_all ::
  "string \<Rightarrow> checkin_device \<Rightarrow> issued_manifest list \<Rightarrow> time_ms \<Rightarrow> bool \<Rightarrow> queued_checkin list \<Rightarrow> gate_db \<Rightarrow>
    gate_db \<times> (gate_error + (string \<times> reconcile_outcome) list)" where
  "reconcile_all user device manifests now suspended [] db = (db, Inr [])"
| "reconcile_all user device manifests now suspended (q # qs) db =
    (case reconcile_scan user device manifests now q (find_ticket (qc_ticketId q) db) suspended db of
       (db, Inl e) \<Rightarrow> (db, Inl e)
     | (db, Inr (outcome, suspended)) \<Rightarrow>
        apsnd (map_sum id (\<lambda>rs. (qc_ticketId q, outcome) # rs)) (reconcile_all user device manifests now suspended qs db))"

definition QUARANTINE_MAX_PER_UPLOAD :: nat where "QUARANTINE_MAX_PER_UPLOAD = 1000"

definition quarantine_one :: "string \<Rightarrow> checkin_device \<Rightarrow> queued_checkin \<Rightarrow> gate_db \<times> nat \<Rightarrow> gate_db \<times> nat" where
  "quarantine_one user device q = (\<lambda>(db, held).
     case qc_checkedInAt q of
       None \<Rightarrow> (db, held)
     | Some tm \<Rightarrow>
        if qc_ticketId q = [] \<or> qc_eventSessionId q = [] then (db, held)
        else if list_ex (\<lambda>r. rr_deviceId r = cd_id device \<and> rr_ticketId r = qc_ticketId q \<and> rr_localScannedAt r = tm \<and>
            rr_outcome r = RC_DEVICE_NOT_ACTIVE) (gd_records db) then (db, held)
        else (add_record user device q tm RC_DEVICE_NOT_ACTIVE db, held + 1))"

definition quarantine :: "string \<Rightarrow> checkin_device \<Rightarrow> queued_checkin list \<Rightarrow> gate_db \<Rightarrow> gate_db \<times> nat" where
  "quarantine user device queued db =
    (if cd_status device = DV_PENDING then (db, 0)
     else fold (quarantine_one user device) (take QUARANTINE_MAX_PER_UPLOAD queued) (db, 0))"

text \<open>\<open>doorSeat\<close> tells whether the caller holds an active door seat in the organization, suspension aside.\<close>

definition reconcile ::
  "(string \<Rightarrow> bool) \<Rightarrow> (string \<Rightarrow> bool) \<Rightarrow> string \<Rightarrow> string \<Rightarrow> queued_checkin list \<Rightarrow> time_ms \<Rightarrow> gate_db \<Rightarrow>
    gate_db \<times> (gate_error + (string \<times> reconcile_outcome) list)" where
  "reconcile member doorSeat user deviceId queued now db =
    (case get_device deviceId db of
       None \<Rightarrow> (db, Inl DeviceNotFound)
     | Some device \<Rightarrow>
        if cd_organizationId device \<in> set (gd_suspended db) then
          (if \<not> doorSeat (cd_organizationId device) \<and> \<not> member (cd_organizationId device) then (db, Inl AccessDenied)
           else case quarantine user device queued db of (db, held) \<Rightarrow> (db, Inl (OrganizationSuspended held)))
        else if \<not> member (cd_organizationId device) then (db, Inl AccessDenied)
        else if \<not> deviceIsOperational device now then
          (case quarantine user device queued db of (db, held) \<Rightarrow> (db, Inl (DeviceNotActive (effectiveDeviceStatus device now) held)))
        else reconcile_all user device (gd_manifests db) now False queued db)"

text \<open>A manager's decision on the \<open>n\<close>-th record of the ledger.\<close>

definition resolve_record :: "(string \<Rightarrow> bool) \<Rightarrow> string \<Rightarrow> nat \<Rightarrow> resolution_action \<Rightarrow> string \<Rightarrow> gate_db \<Rightarrow> gate_db \<times> (gate_error + unit)" where
  "resolve_record manager user n action reason db =
    (if length (gd_records db) \<le> n then (db, Inl RecordNotFound)
     else let r = gd_records db ! n in
       if \<not> manager (rr_organizationId r) then (db, Inl AccessDenied)
       else if trim reason = [] then (db, Inl ReasonRequired)
       else if \<not> canResolveReconcile (rr_outcome r) (rr_reviewState r) action then (db, Inl NotResolvable)
       else (db\<lparr>gd_records := (gd_records db)[n := r\<lparr>rr_reviewState := REVIEW_RESOLVED, rr_resolution := Some (action, trim reason, user)\<rparr>]\<rparr>, Inr ()))"

end
