(* ===== verification/CheckInRuns.thy ===== *)
theory CheckInRuns
  imports CheckIn
begin

text \<open>
  What holds at the doors over any run of the operations of \<^verbatim>\<open>CheckIn\<close>: a ticket admits once until its admission is reversed, a
  revoked device stays revoked and spends nothing, an upload spends only what a list of the device covers and only once; and how the
  offline rules relate to the online gate and the deltas to whole lists.
\<close>

section \<open>One admission per ticket\<close>

text \<open>What may stand: nothing for a ticket that can still be used.\<close>

definition quota :: "string \<Rightarrow> gate_db \<Rightarrow> nat" where
  "quota i db = (case get_ticket i db of None \<Rightarrow> 0 | Some t \<Rightarrow> if tk_status t = ''ACTIVE'' then 0 else 1)"

definition gate_inv :: "gate_db \<Rightarrow> bool" where
  "gate_inv db \<longleftrightarrow> distinct (map tk_id (gd_tickets db)) \<and> (\<forall>i. length (standing i db) \<le> quota i db)"

lemma gate_invD: "gate_inv db \<Longrightarrow> distinct (map tk_id (gd_tickets db))" "gate_inv db \<Longrightarrow> length (standing i db) \<le> quota i db"
  by (simp_all add: gate_inv_def)

lemma gate_inv_mono:
  assumes "gate_inv db" "map tk_id (gd_tickets db') = map tk_id (gd_tickets db)" "\<And>i. length (standing i db') \<le> length (standing i db)"
    "\<And>i. quota i db \<le> quota i db'"
  shows "gate_inv db'"
  using assms by (metis gate_inv_def order_trans)

lemma find_mem: "distinct (map k xs) \<Longrightarrow> x \<in> set xs \<Longrightarrow> find (\<lambda>y. k y = k x) xs = Some x"
  by (induction xs) (auto simp: rev_image_eqI)

lemma get_ticket_Some: "get_ticket i db = Some t \<Longrightarrow> t \<in> set (gd_tickets db) \<and> tk_id t = i"
  using find_set by (fastforce simp: get_ticket_def)

lemma get_ticket_mem: "distinct (map tk_id (gd_tickets db)) \<Longrightarrow> t \<in> set (gd_tickets db) \<Longrightarrow> get_ticket (tk_id t) db = Some t"
  by (simp add: get_ticket_def find_mem)

text \<open>The contract of the guarded update that both gates rely on.\<close>

locale ticket_claim =
  fixes claim :: "string \<Rightarrow> time_ms \<Rightarrow> gate_db \<Rightarrow> gate_db \<times> bool"
  assumes ids: "claim i now db = (db', won) \<Longrightarrow> map tk_id (gd_tickets db') = map tk_id (gd_tickets db)"
    and others: "claim i now db = (db', won) \<Longrightarrow> j \<noteq> i \<Longrightarrow> get_ticket j db' = get_ticket j db"
    and log: "claim i now db = (db', won) \<Longrightarrow> gd_checkins db' = gd_checkins db"
    and lost: "distinct (map tk_id (gd_tickets db)) \<Longrightarrow> claim i now db = (db', False) \<Longrightarrow> gd_tickets db' = gd_tickets db"
    and won: "distinct (map tk_id (gd_tickets db)) \<Longrightarrow> claim i now db = (db', True) \<Longrightarrow>
      \<exists>t. get_ticket i db = Some t \<and> tk_status t = ''ACTIVE'' \<and>
        get_ticket i db' = Some (t\<lparr>tk_status := ''CHECKED_IN'', tk_updatedAt := now\<rparr>)"
begin

lemma standing_claim: "claim i now db = (db', won) \<Longrightarrow> standing j db' = standing j db"
  by (simp add: standing_def log)

text \<open>A claim with its entry in the log, and a claim that found nothing, keep the invariant.\<close>

lemma admits_once:
  assumes inv: "gate_inv db" and claim: "claim i now db = (db', True)"
  shows "gate_inv (log_checkin i CR_SUCCESS user device visual db')" (is "gate_inv ?db")
  unfolding gate_inv_def
proof (intro conjI allI)
  show "distinct (map tk_id (gd_tickets ?db))"
    using gate_invD(1) [OF inv] ids [OF claim] by (simp add: log_checkin_def)
  fix j
  obtain t where t: "get_ticket i db = Some t" "tk_status t = ''ACTIVE''"
      "get_ticket i db' = Some (t\<lparr>tk_status := ''CHECKED_IN'', tk_updatedAt := now\<rparr>)"
    using won [OF gate_invD(1) [OF inv] claim] by blast
  have get: "get_ticket j ?db = get_ticket j db'" by (simp add: log_checkin_def get_ticket_def)
  show "length (standing j ?db) \<le> quota j ?db"
  proof (cases "j = i")
    case True
    have "standing i db = []" using gate_invD(2) [OF inv, of i] t(1,2) by (simp add: quota_def)
    then have "length (standing j ?db) = 1"
      using True standing_claim [OF claim, of i] by (simp add: log_checkin_def standing_def)
    then show ?thesis using True t(3) get by (simp add: quota_def)
  next
    case False
    then have "standing j ?db = standing j db" using standing_claim [OF claim, of j] by (simp add: log_checkin_def standing_def)
    then show ?thesis using False get others [OF claim] gate_invD(2) [OF inv, of j] by (simp add: quota_def)
  qed
qed

lemma lost_keeps:
  assumes "gate_inv db" "claim i now db = (db', False)" shows "gate_inv db'"
  using assms(1)
proof (rule gate_inv_mono)
  note same = lost [OF gate_invD(1) [OF assms(1)] assms(2)]
  show "map tk_id (gd_tickets db') = map tk_id (gd_tickets db)" "quota j db \<le> quota j db'" for j
    by (simp_all add: same quota_def get_ticket_def)
  show "length (standing j db') \<le> length (standing j db)" for j using standing_claim [OF assms(2)] by simp
qed

end

lemma claim_where_laws:
  assumes P: "\<And>t. P t \<Longrightarrow> tk_id t = i \<and> tk_status t = ''ACTIVE''" and claim: "claim_where P now db = (db', w)"
  shows "map tk_id (gd_tickets db') = map tk_id (gd_tickets db)" "j \<noteq> i \<Longrightarrow> get_ticket j db' = get_ticket j db"
    "gd_checkins db' = gd_checkins db" "\<not> w \<Longrightarrow> gd_tickets db' = gd_tickets db"
    "distinct (map tk_id (gd_tickets db)) \<Longrightarrow> w \<Longrightarrow> \<exists>t. get_ticket i db = Some t \<and> tk_status t = ''ACTIVE'' \<and>
        get_ticket i db' = Some (t\<lparr>tk_status := ''CHECKED_IN'', tk_updatedAt := now\<rparr>)"
proof -
  let ?g = "\<lambda>t. if P t then t\<lparr>tk_status := ''CHECKED_IN'', tk_updatedAt := now\<rparr> else t"
  have db': "gd_tickets db' = map ?g (gd_tickets db)" "gd_checkins db' = gd_checkins db" "w = list_ex P (gd_tickets db)"
    using claim by (auto simp: claim_where_def)
  then show "map tk_id (gd_tickets db') = map tk_id (gd_tickets db)" "gd_checkins db' = gd_checkins db" by simp_all
  have get: "get_ticket j db' = map_option ?g (get_ticket j db)" for j
    unfolding get_ticket_def db' by (rule find_map_same) simp
  show "j \<noteq> i \<Longrightarrow> get_ticket j db' = get_ticket j db"
    using P by (cases "get_ticket j db") (auto simp: get dest: get_ticket_Some)
  show "\<not> w \<Longrightarrow> gd_tickets db' = gd_tickets db"
    by (auto simp: db' list_ex_iff intro: map_idI)
  assume "distinct (map tk_id (gd_tickets db))" w
  then obtain t where "t \<in> set (gd_tickets db)" "P t" by (auto simp: db' list_ex_iff)
  then have "get_ticket i db = Some t" "tk_status t = ''ACTIVE''"
    using get_ticket_mem \<open>distinct _\<close> P by fastforce+
  then show "\<exists>t. get_ticket i db = Some t \<and> tk_status t = ''ACTIVE'' \<and>
        get_ticket i db' = Some (t\<lparr>tk_status := ''CHECKED_IN'', tk_updatedAt := now\<rparr>)"
    using \<open>P t\<close> by (simp add: get)
qed

lemma ticket_claim_where:
  assumes "\<And>i db t. P i db t \<Longrightarrow> tk_id t = i \<and> tk_status t = ''ACTIVE''"
  shows "ticket_claim (\<lambda>i now db. claim_where (P i db) now db)"
proof
  fix i now and db db' :: gate_db and w j assume claim: "claim_where (P i db) now db = (db', w)"
  note laws = claim_where_laws [OF assms claim]
  show "map tk_id (gd_tickets db') = map tk_id (gd_tickets db)" "gd_checkins db' = gd_checkins db"
    "j \<noteq> i \<Longrightarrow> get_ticket j db' = get_ticket j db"
    by (rule laws; assumption)+
next
  fix i now and db db' :: gate_db assume dist: "distinct (map tk_id (gd_tickets db))"
  show "gd_tickets db' = gd_tickets db" if "claim_where (P i db) now db = (db', False)"
    using claim_where_laws(4) [OF assms that] by simp
  show "\<exists>t. get_ticket i db = Some t \<and> tk_status t = ''ACTIVE'' \<and>
      get_ticket i db' = Some (t\<lparr>tk_status := ''CHECKED_IN'', tk_updatedAt := now\<rparr>)" if "claim_where (P i db) now db = (db', True)"
    using claim_where_laws(5) [OF assms that dist] by simp
qed

interpretation online: ticket_claim claim_online
  unfolding claim_online_def [abs_def] by (rule ticket_claim_where) simp

interpretation offline: ticket_claim claim_offline
  unfolding claim_offline_def [abs_def] by (rule ticket_claim_where) simp

section \<open>Runs\<close>

text \<open>
  Changes that the rest of the program makes to tickets: it issues new ones and moves others out of ACTIVE, but apart from the
  reversal of an admission nothing makes a ticket ACTIVE again.
\<close>

definition tickets_move_on :: "gate_db \<Rightarrow> gate_ticket list \<Rightarrow> bool" where
  "tickets_move_on db ts \<longleftrightarrow> distinct (map tk_id ts) \<and> (\<forall>t\<in>set (gd_tickets db). \<exists>t'\<in>set ts.
     tk_id t' = tk_id t \<and> (tk_status t' = ''ACTIVE'' \<longrightarrow> tk_status t = ''ACTIVE''))"

text \<open>
  One operation.  The online gate and the upload of a scan act on whatever they have read, which may be out of date, and a reversal
  writes whatever it finds; a process may die between a claim and its entry in the log.
\<close>

inductive gate_step :: "gate_db \<Rightarrow> gate_db \<Rightarrow> bool" where
  admit: "gate_step db (fst (admit t booking opts staff now db))"
| unlogged: "gate_step db (fst (claim_online i now db))"
| reverse: "gate_step db (reverse_write i now db)"
| upload: "gate_step db (fst (reconcile_scan user device manifests now q found suspended db))"
| quarantine: "gate_step db (fst (quarantine user device qs db))"
| resolve: "gate_step db (fst (resolve_record manager user n action reason db))"
| register: "gate_step db (fst (register_device member newId org event session db))"
| approve: "gate_step db (fst (approve_device manager i now db))"
| suspend: "gate_step db (fst (suspend_device manager i db))"
| revoke: "gate_step db (fst (revoke_device manager i now db))"
| lost: "gate_step db (fst (reportLost manager i now db))"
| build: "gate_step db (fst (build_manifest hmac window member session deviceId now db))"
| other: "tickets_move_on db ts \<Longrightarrow> gate_step db (db\<lparr>gd_tickets := ts, gd_bookings := bs, gd_sessions := ss, gd_suspended := os\<rparr>)"

lemma gate_inv_same: "gate_inv db \<Longrightarrow> gd_tickets db' = gd_tickets db \<Longrightarrow> gd_checkins db' = gd_checkins db \<Longrightarrow> gate_inv db'"
  by (simp add: gate_inv_def quota_def get_ticket_def standing_def)

lemma log_other_inv: "gate_inv db \<Longrightarrow> r \<noteq> CR_SUCCESS \<Longrightarrow> gate_inv (log_checkin i r user device visual db)"
  by (rule gate_inv_mono [of db]) (auto simp: log_checkin_def standing_def quota_def get_ticket_def)

lemma admit_refusal_not_success: "admit_refusal t booking opts db \<noteq> Some CR_SUCCESS"
  by (simp add: admit_refusal_def Let_def)

lemma admit_inv: "gate_inv db \<Longrightarrow> gate_inv (fst (admit t booking opts staff now db))"
  using admit_refusal_not_success [of t booking opts db]
  by (auto simp: admit_def Let_def split: option.split prod.split bool.split
      intro: log_other_inv online.admits_once online.lost_keeps)

lemma unlogged_inv: "gate_inv db \<Longrightarrow> gate_inv (fst (claim_online i now db))"
proof -
  assume inv: "gate_inv db"
  obtain db' w where claim: "claim_online i now db = (db', w)" by fastforce
  note inv' = gate_invD(1) [OF inv]
  show ?thesis
  proof (cases w)
    case True
    then obtain t where t: "get_ticket i db = Some t" "tk_status t = ''ACTIVE''"
        "get_ticket i db' = Some (t\<lparr>tk_status := ''CHECKED_IN'', tk_updatedAt := now\<rparr>)"
      using online.won [OF inv', of i now db'] claim by auto
    have "quota j db \<le> quota j db'" for j using t online.others [OF claim, of j] by (cases "j = i") (simp_all add: quota_def)
    then show ?thesis
      using gate_inv_mono [OF inv] online.ids [OF claim] online.standing_claim [OF claim] by (simp add: claim)
  qed (use online.lost_keeps [OF inv] claim in auto)
qed

lemma reverse_inv: "gate_inv db \<Longrightarrow> gate_inv (reverse_write i now db)"
proof -
  assume inv: "gate_inv db"
  let ?g = "\<lambda>t. if tk_id t = i then t\<lparr>tk_status := ''ACTIVE'', tk_updatedAt := now\<rparr> else t"
  have "map tk_id (gd_tickets (reverse_write i now db)) = map tk_id (gd_tickets db)" by (simp add: reverse_write_def)
  moreover have "length (standing j (reverse_write i now db)) \<le> quota j (reverse_write i now db)" for j
  proof (cases "j = i")
    case True
    have "filter (\<lambda>c. ci_ticketId c = i \<and> ci_result c = CR_SUCCESS \<and> \<not> ci_reversed c)
        (map (\<lambda>c. if ci_ticketId c = i \<and> ci_result c = CR_SUCCESS \<and> \<not> ci_reversed c then c\<lparr>ci_reversed := True\<rparr> else c) xs) = []" for xs
      by (induction xs) simp_all
    then show ?thesis using True by (simp add: standing_def reverse_write_def)
  next
    case False
    have "filter (\<lambda>c. ci_ticketId c = j \<and> ci_result c = CR_SUCCESS \<and> \<not> ci_reversed c)
        (map (\<lambda>c. if ci_ticketId c = i \<and> ci_result c = CR_SUCCESS \<and> \<not> ci_reversed c then c\<lparr>ci_reversed := True\<rparr> else c) xs) =
        filter (\<lambda>c. ci_ticketId c = j \<and> ci_result c = CR_SUCCESS \<and> \<not> ci_reversed c) xs" for xs
      using False by (induction xs) simp_all
    then have "standing j (reverse_write i now db) = standing j db" by (simp add: standing_def reverse_write_def)
    moreover have "get_ticket j (reverse_write i now db) = map_option ?g (get_ticket j db)"
      by (simp add: get_ticket_def reverse_write_def find_map_same)
    then have "get_ticket j (reverse_write i now db) = get_ticket j db"
      using False by (cases "get_ticket j db") (auto dest: get_ticket_Some)
    ultimately show ?thesis using gate_invD(2) [OF inv, of j] by (simp add: quota_def)
  qed
  ultimately show ?thesis using gate_invD(1) [OF inv] by (simp add: gate_inv_def)
qed

lemma add_record_tables [simp]:
  "gd_tickets (add_record u d q tm out db) = gd_tickets db" "gd_checkins (add_record u d q tm out db) = gd_checkins db"
  "gd_devices (add_record u d q tm out db) = gd_devices db" "gd_manifests (add_record u d q tm out db) = gd_manifests db"
  "gd_sessions (add_record u d q tm out db) = gd_sessions db" "gd_suspended (add_record u d q tm out db) = gd_suspended db"
  by (simp_all add: add_record_def)

lemma scan_inv: "gate_inv db \<Longrightarrow> gate_inv (fst (reconcile_scan user device manifests now q found suspended db))"
proof -
  assume inv: "gate_inv db"
  obtain db' w where claim: "claim_offline (qc_ticketId q) now db = (db', w)" by fastforce
  have "gate_inv (add_record u d q tm out b)" if "gate_inv b" for u d tm out b by (rule gate_inv_same [OF that]) simp_all
  then show ?thesis
    using inv claim offline.admits_once [OF inv] offline.lost_keeps [OF inv]
    by (cases w) (auto simp: reconcile_scan_def Let_def split: option.split)
qed

lemma quarantine_same:
  "gd_tickets (fst (quarantine user device qs db)) = gd_tickets db" "gd_checkins (fst (quarantine user device qs db)) = gd_checkins db"
  "gd_devices (fst (quarantine user device qs db)) = gd_devices db" "gd_manifests (fst (quarantine user device qs db)) = gd_manifests db"
proof -
  have one: "gd_tickets (fst (quarantine_one user device q s)) = gd_tickets (fst s) \<and>
      gd_checkins (fst (quarantine_one user device q s)) = gd_checkins (fst s) \<and>
      gd_devices (fst (quarantine_one user device q s)) = gd_devices (fst s) \<and>
      gd_manifests (fst (quarantine_one user device q s)) = gd_manifests (fst s)" for q s
    by (cases s) (simp add: quarantine_one_def split: option.split)
  have "gd_tickets (fst (fold (quarantine_one user device) xs s)) = gd_tickets (fst s) \<and>
      gd_checkins (fst (fold (quarantine_one user device) xs s)) = gd_checkins (fst s) \<and>
      gd_devices (fst (fold (quarantine_one user device) xs s)) = gd_devices (fst s) \<and>
      gd_manifests (fst (fold (quarantine_one user device) xs s)) = gd_manifests (fst s)" for xs s
    by (induction xs arbitrary: s) (simp_all add: one)
  then show "gd_tickets (fst (quarantine user device qs db)) = gd_tickets db" "gd_checkins (fst (quarantine user device qs db)) = gd_checkins db"
      "gd_devices (fst (quarantine user device qs db)) = gd_devices db" "gd_manifests (fst (quarantine user device qs db)) = gd_manifests db"
    by (simp_all add: quarantine_def)
qed

text \<open>What the administration of devices, lists and records leaves alone.\<close>

lemma administration_same:
  "gd_tickets (fst (resolve_record m u n a r db)) = gd_tickets db \<and> gd_checkins (fst (resolve_record m u n a r db)) = gd_checkins db"
  "gd_tickets (fst (register_device p i org ev se db)) = gd_tickets db \<and> gd_checkins (fst (register_device p i org ev se db)) = gd_checkins db"
  "gd_tickets (fst (approve_device m i now db)) = gd_tickets db \<and> gd_checkins (fst (approve_device m i now db)) = gd_checkins db"
  "gd_tickets (fst (suspend_device m i db)) = gd_tickets db \<and> gd_checkins (fst (suspend_device m i db)) = gd_checkins db"
  "gd_tickets (fst (revoke_device m i now db)) = gd_tickets db \<and> gd_checkins (fst (revoke_device m i now db)) = gd_checkins db"
  "gd_tickets (fst (reportLost m i now db)) = gd_tickets db \<and> gd_checkins (fst (reportLost m i now db)) = gd_checkins db"
  "gd_tickets (fst (build_manifest h win p ses dev now db)) = gd_tickets db \<and> gd_checkins (fst (build_manifest h win p ses dev now db)) = gd_checkins db"
  by (simp_all add: resolve_record_def register_device_def approve_device_def approve_write_def suspend_device_def revoke_device_def
      reportLost_def build_manifest_def set_device_def Let_def split: option.split sum.split)

lemma other_inv:
  assumes inv: "gate_inv db" and on: "tickets_move_on db ts"
  shows "gate_inv (db\<lparr>gd_tickets := ts, gd_bookings := bs, gd_sessions := ss, gd_suspended := os\<rparr>)" (is "gate_inv ?db")
  unfolding gate_inv_def
proof (intro conjI allI)
  show dist: "distinct (map tk_id (gd_tickets ?db))" using on by (simp add: tickets_move_on_def)
  fix i
  have same: "standing i ?db = standing i db" by (simp add: standing_def)
  show "length (standing i ?db) \<le> quota i ?db"
  proof (cases "get_ticket i db")
    case None
    then show ?thesis using gate_invD(2) [OF inv, of i] same by (simp add: quota_def)
  next
    case (Some t)
    then obtain t' where t': "t' \<in> set ts" "tk_id t' = i" "tk_status t' = ''ACTIVE'' \<longrightarrow> tk_status t = ''ACTIVE''"
      using on get_ticket_Some [OF Some] by (auto simp: tickets_move_on_def)
    then have "get_ticket i ?db = Some t'" using get_ticket_mem [OF dist] by auto
    then show ?thesis using t'(3) Some gate_invD(2) [OF inv, of i] same by (auto simp: quota_def split: if_splits)
  qed
qed

lemma step_inv: "gate_step db db' \<Longrightarrow> gate_inv db \<Longrightarrow> gate_inv db'"
proof (induction rule: gate_step.induct)
  case (quarantine db user device qs)
  then show ?case using gate_inv_same quarantine_same by metis
next
  case (other db ts bs ss os)
  then show ?case by (rule other_inv [rotated])
qed (use administration_same in \<open>auto intro: admit_inv unlogged_inv reverse_inv scan_inv elim: gate_inv_same\<close>)

lemma run_inv: "gate_step\<^sup>*\<^sup>* db db' \<Longrightarrow> gate_inv db \<Longrightarrow> gate_inv db'"
  by (induction rule: rtranclp_induct) (auto intro: step_inv)

text \<open>Before the doors open: tickets have been issued, nobody has been admitted and no list has been given out.\<close>

definition doors_open :: "gate_db \<Rightarrow> bool" where
  "doors_open db \<longleftrightarrow> distinct (map tk_id (gd_tickets db)) \<and> gd_checkins db = [] \<and> gd_manifests db = []"

lemma opening_inv: "doors_open db \<Longrightarrow> gate_inv db"
  by (simp add: doors_open_def gate_inv_def standing_def)

text \<open>The whole operations are such steps.\<close>

lemma scan_run: "gate_step\<^sup>*\<^sup>* db (fst (scan verify member staff token opts now db))"
  by (auto simp: scan_def split: option.split prod.split intro: r_into_rtranclp gate_step.admit)

lemma reconcile_all_run: "gate_step\<^sup>*\<^sup>* db (fst (reconcile_all user device manifests now suspended qs db))"
proof (induction qs arbitrary: suspended db)
  case (Cons q qs)
  let ?r = "reconcile_scan user device manifests now q (find_ticket (qc_ticketId q) db) suspended db"
  have "gate_step db (fst ?r)" by (rule gate_step.upload)
  then show ?case using Cons.IH [of "fst ?r"]
    by (auto split: prod.split sum.split intro: converse_rtranclp_into_rtranclp)
qed simp

lemma reconcile_run: "gate_step\<^sup>*\<^sup>* db (fst (reconcile member seat user deviceId qs now db))"
proof -
  have "gate_step db db'" if "quarantine user d qs db = (db', n)" for d db' n
    using gate_step.quarantine [of db user d qs] that by simp
  then show ?thesis using reconcile_all_run by (auto simp: reconcile_def split: option.split prod.split)
qed

section \<open>A door\<close>

text \<open>One session with one ticket and one device: a list is issued, the ticket is scanned offline and uploaded.\<close>

definition sample_ticket :: gate_ticket where
  "sample_ticket = \<lparr>tk_id = ''t1'', tk_bookingId = ''b1'', tk_organizationId = ''o1'', tk_eventSessionId = ''s1'', tk_nonce = ''n1'',
     tk_qrVersion = 1, tk_status = ''ACTIVE'', tk_vendorBarcode = None, tk_updatedAt = 100\<rparr>"

definition sample_gate :: gate_db where
  "sample_gate = \<lparr>gd_tickets = [sample_ticket], gd_bookings = [\<lparr>gb_id = ''b1'', gb_status = BK_CONFIRMED\<rparr>],
     gd_sessions = [\<lparr>se_id = ''s1'', se_eventId = ''e1'', se_organizationId = ''o1'', se_status = ''SCHEDULED''\<rparr>], gd_suspended = [],
     gd_checkins = [], gd_devices = [\<lparr>cd_id = ''d1'', cd_organizationId = ''o1'', cd_eventId = None, cd_eventSessionId = None,
       cd_status = DV_ACTIVE, cd_expiresAt = None, cd_revokedAt = None, cd_revokeReason = None, cd_revokeReasons = [],
       cd_manifestVersion = None\<rparr>], gd_manifests = [], gd_records = []\<rparr>"

definition sample_build :: "gate_db \<times> (gate_error + manifest_meta \<times> manifest_entry list \<times> string)" where
  "sample_build = build_manifest (\<lambda>_. ''sig'') None (\<lambda>_. True) ''s1'' (Some ''d1'') 1000 sample_gate"

definition sample_listed :: gate_db where "sample_listed = fst sample_build"

definition sample_scan :: "time_ms option \<Rightarrow> queued_checkin" where
  "sample_scan tm = \<lparr>qc_ticketId = ''t1'', qc_deviceId = ''d1'', qc_nonce = ''n1'', qc_version = 1, qc_eventSessionId = ''s1'',
     qc_checkedInAt = tm, qc_wasOverride = False, qc_manifestVersion = Some 1,
     qc_manifestSignature = Some (im_signature (hd (gd_manifests sample_listed)))\<rparr>"

definition sample_upload :: "gate_db \<Rightarrow> gate_db \<times> (gate_error + (string \<times> reconcile_outcome) list)" where
  "sample_upload db = reconcile (\<lambda>_. True) (\<lambda>_. True) ''u1'' ''d1'' [sample_scan (Some 2000)] 5000 db"

definition sample_opts :: admit_opts where
  "sample_opts = \<lparr>ao_expectedSessionId = None, ao_expectedEventId = Some ''e1'', ao_deviceInfo = None, ao_visual = False\<rparr>"

lemma sample_open: "doors_open sample_gate"
  by (simp add: doors_open_def sample_gate_def)

lemma sample_gate_run: "gate_step\<^sup>*\<^sup>* sample_gate sample_listed" "gate_step\<^sup>*\<^sup>* sample_gate (fst (sample_upload sample_listed))"
proof -
  show 1: "gate_step\<^sup>*\<^sup>* sample_gate sample_listed"
    unfolding sample_listed_def sample_build_def by (rule r_into_rtranclp) (rule gate_step.build)
  show "gate_step\<^sup>*\<^sup>* sample_gate (fst (sample_upload sample_listed))"
    unfolding sample_upload_def by (rule rtranclp_trans [OF 1 reconcile_run])
qed

section \<open>The doors over a run\<close>



section \<open>Devices\<close>

lemma get_device_set: "(\<And>d. cd_id (f d) = cd_id d) \<Longrightarrow>
    get_device i (set_device j f db) = map_option (\<lambda>d. if cd_id d = j then f d else d) (get_device i db)"
  unfolding get_device_def set_device_def by (simp add: find_map_same)

lemma get_device_Some: "get_device i db = Some d \<Longrightarrow> cd_id d = i"
  using find_set by (fastforce simp: get_device_def)

text \<open>A device that is revoked, with the reason it was given first.\<close>

definition revoked_for :: "string \<Rightarrow> string \<Rightarrow> gate_db \<Rightarrow> bool" where
  "revoked_for i reason db \<longleftrightarrow> (case get_device i db of None \<Rightarrow> False
    | Some d \<Rightarrow> cd_status d = DV_REVOKED \<and> cd_revokeReason d = Some reason \<and> reason \<noteq> [])"




lemma revoked_manifests [simp]: "revoked_for i r (db\<lparr>gd_manifests := ms\<rparr>) = revoked_for i r db"
  by (simp add: revoked_for_def get_device_def)






section \<open>Uploads\<close>

text \<open>What a scan of an upload leaves alone, and what it does to the tickets.\<close>

lemma reconcile_scan_same:
  "gd_manifests (fst (reconcile_scan user d ms now q found sus db)) = gd_manifests db"
  "gd_sessions (fst (reconcile_scan user d ms now q found sus db)) = gd_sessions db"
  "gd_suspended (fst (reconcile_scan user d ms now q found sus db)) = gd_suspended db"
  "gd_devices (fst (reconcile_scan user d ms now q found sus db)) = gd_devices db"
  by (simp_all add: reconcile_scan_def Let_def log_checkin_def claim_offline_def claim_where_def split: option.split bool.split)

lemma scan_refused_same:
  assumes "scan_verdict d ms q found sus \<noteq> RC_ACCEPTED"
  shows "gd_tickets (fst (reconcile_scan user d ms now q found sus db)) = gd_tickets db"
    "gd_checkins (fst (reconcile_scan user d ms now q found sus db)) = gd_checkins db"
  using assms by (simp_all add: reconcile_scan_def Let_def split: option.split)

lemma verdict_accepted:
  assumes "scan_verdict d ms q (find_ticket (qc_ticketId q) db) sus = RC_ACCEPTED"
  obtains t m s where "get_ticket (qc_ticketId q) db = Some t" "tk_status t = ''ACTIVE''" "standing (qc_ticketId q) db = []"
    "get_session (tk_eventSessionId t) db = Some s" "se_organizationId s = cd_organizationId d" "\<not> sus"
    "tk_nonce t = qc_nonce q" "tk_qrVersion t = qc_version q" "tk_eventSessionId t = qc_eventSessionId q"
    "m \<in> set ms" "im_eventSessionId m = qc_eventSessionId q" "Some (im_version m) = qc_manifestVersion q"
    "im_deviceId m = Some (cd_id d)" "qc_manifestSignature q = Some (im_signature m)"
    "\<And>tm. qc_checkedInAt q = Some tm \<Longrightarrow> im_validFrom m - 120000 \<le> tm \<and> tm \<le> im_expiresAt m + 120000"
proof -
  have sus: "\<not> sus" and problem: "manifestProblem q (cd_id d) (cited q ms) = None"
    and ok: "classifyReconciliation q (map_option server_state (own_ticket d (find_ticket (qc_ticketId q) db))) = RC_ACCEPTED"
    using assms by (auto simp: scan_verdict_def Let_def split: if_splits)
  from ok obtain t c where own: "own_ticket d (find_ticket (qc_ticketId q) db) = Some (t, c)"
    by (cases "own_ticket d (find_ticket (qc_ticketId q) db)") (auto simp: classifyReconciliation_def)
  then obtain s where t: "get_ticket (qc_ticketId q) db = Some t" "get_session (tk_eventSessionId t) db = Some s"
      "se_organizationId s = cd_organizationId d" "c = (case standing (qc_ticketId q) db of [] \<Rightarrow> None | c # _ \<Rightarrow> Some c)"
    by (auto simp: own_ticket_def find_ticket_def split: option.splits if_splits)
  have state: "tk_status t = ''ACTIVE'' \<and> c = None \<and> tk_nonce t = qc_nonce q \<and> tk_qrVersion t = qc_version q \<and> tk_eventSessionId t = qc_eventSessionId q"
    using ok own by (auto simp: classifyReconciliation_def server_state_def Let_def split: if_splits option.splits prod.splits)
  from problem obtain m where m: "cited q ms = Some m" by (cases "cited q ms") (auto simp: manifestProblem_def)
  have "m \<in> set ms \<and> im_eventSessionId m = qc_eventSessionId q \<and> Some (im_version m) = qc_manifestVersion q"
    using find_set [of _ ms m] m unfolding cited_def by (metis (mono_tags, lifting) find_Some_iff nth_mem)
  moreover have "im_deviceId m = Some (cd_id d) \<and> qc_manifestSignature q = Some (im_signature m) \<and>
      (\<forall>tm. qc_checkedInAt q = Some tm \<longrightarrow> im_validFrom m - 120000 \<le> tm \<and> tm \<le> im_expiresAt m + 120000)"
    using problem m by (auto simp: manifestProblem_def PREFLIGHT_CLOCK_TOLERANCE_MS_def split: if_splits option.splits)
  ultimately show thesis using that [OF t(1) _ _ t(2,3) sus] state t(4) by (auto split: list.splits)
qed

lemma scan_accepted:
  assumes inv: "gate_inv db" and ok: "scan_verdict d ms q (find_ticket (qc_ticketId q) db) sus = RC_ACCEPTED"
    and org: "cd_organizationId d \<notin> set (gd_suspended db)"
  shows "\<exists>t. get_ticket (qc_ticketId q) (fst (reconcile_scan user d ms now q (find_ticket (qc_ticketId q) db) sus db)) = Some t \<and>
      tk_status t = ''CHECKED_IN''"
    "j \<noteq> qc_ticketId q \<Longrightarrow> get_ticket j (fst (reconcile_scan user d ms now q (find_ticket (qc_ticketId q) db) sus db)) = get_ticket j db"
    "j \<noteq> qc_ticketId q \<Longrightarrow> standing j (fst (reconcile_scan user d ms now q (find_ticket (qc_ticketId q) db) sus db)) = standing j db"
proof -
  obtain t s where t: "get_ticket (qc_ticketId q) db = Some t" "tk_status t = ''ACTIVE''"
      "get_session (tk_eventSessionId t) db = Some s" "se_organizationId s = cd_organizationId d"
    using verdict_accepted [OF ok] by metis
  obtain db' w where claim: "claim_offline (qc_ticketId q) now db = (db', w)" by fastforce
  have w using claim t org get_ticket_Some [OF t(1)] by (auto simp: claim_offline_def claim_where_def list_ex_iff)
  then have tickets: "gd_tickets (fst (reconcile_scan user d ms now q (find_ticket (qc_ticketId q) db) sus db)) = gd_tickets db'"
    and log: "gd_checkins (fst (reconcile_scan user d ms now q (find_ticket (qc_ticketId q) db) sus db)) =
      gd_checkins (log_checkin (qc_ticketId q) CR_SUCCESS user (Some (cd_id d)) False db')"
    using claim ok by (simp_all add: reconcile_scan_def Let_def log_checkin_def split: option.split)
  have get: "get_ticket j (fst (reconcile_scan user d ms now q (find_ticket (qc_ticketId q) db) sus db)) = get_ticket j db'" for j
    by (simp add: get_ticket_def tickets)
  show "\<exists>t. get_ticket (qc_ticketId q) (fst (reconcile_scan user d ms now q (find_ticket (qc_ticketId q) db) sus db)) = Some t \<and>
      tk_status t = ''CHECKED_IN''"
    using offline.won [OF gate_invD(1) [OF inv], of "qc_ticketId q" now db'] claim \<open>w\<close> get by auto
  assume j: "j \<noteq> qc_ticketId q"
  show "get_ticket j (fst (reconcile_scan user d ms now q (find_ticket (qc_ticketId q) db) sus db)) = get_ticket j db"
    using offline.others [OF claim j] get by simp
  show "standing j (fst (reconcile_scan user d ms now q (find_ticket (qc_ticketId q) db) sus db)) = standing j db"
    using j offline.log [OF claim] by (simp add: standing_def log) (simp add: log_checkin_def)
qed

lemma scan_not_suspended:
  "reconcile_scan user d ms now q found sus db = (db', Inr (out, sus')) \<Longrightarrow> cd_organizationId d \<notin> set (gd_suspended db) \<Longrightarrow> sus' = sus"
proof -
  assume r: "reconcile_scan user d ms now q found sus db = (db', Inr (out, sus'))" "cd_organizationId d \<notin> set (gd_suspended db)"
  moreover obtain b w where "claim_offline (qc_ticketId q) now db = (b, w)" by fastforce
  moreover from this have "gd_suspended b = gd_suspended db" by (auto simp: claim_offline_def claim_where_def)
  ultimately show ?thesis by (cases w) (auto simp: reconcile_scan_def Let_def split: option.splits if_splits)
qed

lemma reconcile_all_step:
  assumes org: "cd_organizationId d \<notin> set (gd_suspended db)"
    and scan: "reconcile_scan user d ms now q (find_ticket (qc_ticketId q) db) False db = (db1, r)"
  shows "fst (reconcile_all user d ms now False (q # qs) db) =
    (case r of Inl _ \<Rightarrow> db1 | Inr _ \<Rightarrow> fst (reconcile_all user d ms now False qs db1))"
proof (cases r)
  case (Inr p)
  then obtain out sus where "r = Inr (out, sus)" by (cases p) auto
  moreover from this have "\<not> sus" using scan scan_not_suspended [OF _ org] by blast
  ultimately show ?thesis using scan by (simp add: prod.case_eq_if)
qed (use scan in simp)

text \<open>A scan that the lists \<open>ms\<close> of a device cover for a ticket as it is.\<close>

definition covered :: "checkin_device \<Rightarrow> issued_manifest list \<Rightarrow> gate_ticket \<Rightarrow> queued_checkin \<Rightarrow> issued_manifest \<Rightarrow> bool" where
  "covered d ms t q m \<longleftrightarrow> m \<in> set ms \<and> im_deviceId m = Some (cd_id d) \<and> im_eventSessionId m = tk_eventSessionId t \<and>
    qc_manifestSignature q = Some (im_signature m) \<and> qc_ticketId q = tk_id t \<and> qc_nonce q = tk_nonce t \<and> qc_version q = tk_qrVersion t \<and>
    (case qc_checkedInAt q of None \<Rightarrow> True | Some tm \<Rightarrow> im_validFrom m - 120000 \<le> tm \<and> tm \<le> im_expiresAt m + 120000)"

lemma accepted_covered:
  assumes ok: "scan_verdict d ms q (find_ticket (qc_ticketId q) db) sus = RC_ACCEPTED" and t: "get_ticket (qc_ticketId q) db = Some t"
  shows "tk_status t = ''ACTIVE'' \<and> map_option se_organizationId (get_session (tk_eventSessionId t) db) = Some (cd_organizationId d) \<and>
    (\<exists>m. covered d ms t q m)"
proof (rule verdict_accepted [OF ok])
  fix t' m s
  assume "get_ticket (qc_ticketId q) db = Some t'" "tk_status t' = ''ACTIVE''"
    "get_session (tk_eventSessionId t') db = Some s" "se_organizationId s = cd_organizationId d"
    "tk_nonce t' = qc_nonce q" "tk_qrVersion t' = qc_version q" "tk_eventSessionId t' = qc_eventSessionId q"
    "m \<in> set ms" "im_eventSessionId m = qc_eventSessionId q" "im_deviceId m = Some (cd_id d)" "qc_manifestSignature q = Some (im_signature m)"
    "\<And>tm. qc_checkedInAt q = Some tm \<Longrightarrow> im_validFrom m - 120000 \<le> tm \<and> tm \<le> im_expiresAt m + 120000"
  moreover from this have "covered d ms t q m" using t get_ticket_Some [OF t] by (simp add: covered_def split: option.split)
  ultimately show ?thesis using t by auto
qed

lemma upload_covered:
  assumes "gate_inv db" "cd_organizationId d \<notin> set (gd_suspended db)" "get_ticket i db = Some t"
    "get_ticket i (fst (reconcile_all user d ms now False qs db)) \<noteq> Some t"
  shows "tk_status t = ''ACTIVE'' \<and> map_option se_organizationId (get_session (tk_eventSessionId t) db) = Some (cd_organizationId d) \<and>
    (\<exists>t'. get_ticket i (fst (reconcile_all user d ms now False qs db)) = Some t' \<and> tk_status t' = ''CHECKED_IN'') \<and>
    (\<exists>q\<in>set qs. \<exists>m. covered d ms t q m)"
  using assms
proof (induction qs arbitrary: db t)
  case (Cons q qs)
  let ?found = "find_ticket (qc_ticketId q) db"
  obtain db1 r where scan: "reconcile_scan user d ms now q ?found False db = (db1, r)" by fastforce
  have inv1: "gate_inv db1" and org1: "cd_organizationId d \<notin> set (gd_suspended db1)" and sessions: "gd_sessions db1 = gd_sessions db"
    using scan_inv [OF Cons.prems(1), of user d ms now q ?found False] reconcile_scan_same(2,3) [of user d ms now q ?found False db]
      Cons.prems(2) scan by simp_all
  have rest: "fst (reconcile_all user d ms now False (q # qs) db) = db1 \<or>
      fst (reconcile_all user d ms now False (q # qs) db) = fst (reconcile_all user d ms now False qs db1)"
    by (simp add: reconcile_all_step [OF Cons.prems(2) scan] del: reconcile_all.simps split: sum.split)
  show ?case
  proof (cases "get_ticket i db1 = Some t")
    case True
    then have final: "fst (reconcile_all user d ms now False (q # qs) db) = fst (reconcile_all user d ms now False qs db1)"
      using rest Cons.prems(4) by auto
    with Cons.IH [OF inv1 org1 True] Cons.prems(4) show ?thesis by (simp add: get_session_def sessions)
  next
    case False
    have ok: "scan_verdict d ms q ?found False = RC_ACCEPTED"
    proof (rule ccontr)
      assume "scan_verdict d ms q ?found False \<noteq> RC_ACCEPTED"
      then show False using scan_refused_same(1) [of d ms q ?found False user now db] False Cons.prems(3) scan by (simp add: get_ticket_def)
    qed
    have i: "i = qc_ticketId q"
      using scan_accepted(2) [OF Cons.prems(1) ok Cons.prems(2), of i user now] False Cons.prems(3) scan by auto
    obtain t1 where t1: "get_ticket i db1 = Some t1" "tk_status t1 = ''CHECKED_IN''"
      using scan_accepted(1) [OF Cons.prems(1) ok Cons.prems(2), of user now] i scan by auto
    have "get_ticket i (fst (reconcile_all user d ms now False qs db1)) = Some t1" using Cons.IH [OF inv1 org1 t1(1)] t1(2) by auto
    then have final: "\<exists>t'. get_ticket i (fst (reconcile_all user d ms now False (q # qs) db)) = Some t' \<and> tk_status t' = ''CHECKED_IN''"
      using rest t1 by auto
    show ?thesis using final accepted_covered [OF ok, of t] Cons.prems(3) i by auto
  qed
qed simp

lemma lease_step: "gate_step db db' \<Longrightarrow> \<forall>m\<in>set (gd_manifests db). im_expiresAt m \<le> im_validFrom m + 45 * 60000 \<Longrightarrow>
    \<forall>m\<in>set (gd_manifests db'). im_expiresAt m \<le> im_validFrom m + 45 * 60000"
proof (induction rule: gate_step.induct)
  case (build db hmac window member session deviceId now)
  have "offlineRevocationWindowMs window \<le> 45 * 60000" by (simp add: offlineRevocationWindowMs_def OFFLINE_LEASE_MAX_MINUTES_def)
  with build show ?case by (auto simp: build_manifest_def Let_def set_device_def split: option.split sum.split)
qed (auto simp: quarantine_same reconcile_scan_same admit_def Let_def log_checkin_def claim_online_def claim_where_def reverse_write_def
    resolve_record_def register_device_def approve_device_def approve_write_def suspend_device_def revoke_device_def reportLost_def
    set_device_def split: option.splits bool.splits sum.splits)

lemma lease_run: "gate_step\<^sup>*\<^sup>* db db' \<Longrightarrow> doors_open db \<Longrightarrow> m \<in> set (gd_manifests db') \<Longrightarrow> im_expiresAt m \<le> im_validFrom m + 45 * 60000"
proof -
  assume "gate_step\<^sup>*\<^sup>* db db'" "doors_open db" "m \<in> set (gd_manifests db')"
  moreover have "\<forall>m\<in>set (gd_manifests db'). im_expiresAt m \<le> im_validFrom m + 45 * 60000"
    using calculation(1,2) by (induction rule: rtranclp_induct) (auto simp: doors_open_def dest: lease_step)
  ultimately show ?thesis by blast
qed

text \<open>
  C14.  An upload spends only what a list covers.  After any run, when an upload changes a ticket, the ticket could still be used and
  becomes checked in, it belongs to the device's organization, which is not suspended, the device is active and
  not expired, and a scan in the upload with the ticket's current code cites, with its signature, a list that was issued to this device
  for this session; a time that the scan claims lies no more than 47 minutes after and two minutes before the issue of that list.
\<close>

theorem upload_spends_only_covered:
  assumes "gate_step\<^sup>*\<^sup>* db0 db" "doors_open db0" "get_device i db = Some d" "get_ticket j db = Some t"
    and "get_ticket j (fst (reconcile member seat user i qs now db)) \<noteq> Some t"
  shows "tk_status t = ''ACTIVE'' \<and> deviceIsOperational d now \<and> cd_organizationId d \<notin> set (gd_suspended db) \<and>
    map_option se_organizationId (get_session (tk_eventSessionId t) db) = Some (cd_organizationId d) \<and>
    (\<exists>t'. get_ticket j (fst (reconcile member seat user i qs now db)) = Some t' \<and> tk_status t' = ''CHECKED_IN'') \<and>
    (\<exists>q\<in>set qs. \<exists>m\<in>set (gd_manifests db). im_deviceId m = Some i \<and> im_eventSessionId m = tk_eventSessionId t \<and>
      qc_manifestSignature q = Some (im_signature m) \<and> qc_ticketId q = j \<and> qc_nonce q = tk_nonce t \<and> qc_version q = tk_qrVersion t \<and>
      (\<forall>tm. qc_checkedInAt q = Some tm \<longrightarrow> im_validFrom m - 120000 \<le> tm \<and> tm \<le> im_validFrom m + 47 * 60000))"
proof -
  have inv: "gate_inv db" using run_inv [OF assms(1) opening_inv [OF assms(2)]] .
  have on: "cd_organizationId d \<notin> set (gd_suspended db)" "deviceIsOperational d now"
    and all: "fst (reconcile member seat user i qs now db) = fst (reconcile_all user d (gd_manifests db) now False qs db)"
    using assms(3-5) quarantine_same(1) [of user d qs db]
    by (auto simp: reconcile_def get_ticket_def split: if_splits prod.splits)
  have lease: "im_expiresAt m \<le> im_validFrom m + 45 * 60000" if "m \<in> set (gd_manifests db)" for m
    using lease_run [OF assms(1,2) that] .
  note covered = upload_covered [OF inv on(1) assms(4) assms(5) [unfolded all]]
  then obtain q m where q: "q \<in> set qs" "covered d (gd_manifests db) t q m" by blast
  have i: "cd_id d = i" "tk_id t = j" using get_device_Some [OF assms(3)] get_ticket_Some [OF assms(4)] by simp_all
  have "\<exists>q\<in>set qs. \<exists>m\<in>set (gd_manifests db). im_deviceId m = Some i \<and> im_eventSessionId m = tk_eventSessionId t \<and>
      qc_manifestSignature q = Some (im_signature m) \<and> qc_ticketId q = j \<and> qc_nonce q = tk_nonce t \<and> qc_version q = tk_qrVersion t \<and>
      (\<forall>tm. qc_checkedInAt q = Some tm \<longrightarrow> im_validFrom m - 120000 \<le> tm \<and> tm \<le> im_validFrom m + 47 * 60000)"
    by (rule bexI [OF _ q(1)], rule bexI [of _ m]) (use q(2) lease [of m] i in \<open>auto simp: covered_def split: option.splits\<close>)
  with covered on all show ?thesis by simp
qed

theorem upload_spends_only_covered_witness:
  "get_ticket ''t1'' (fst (sample_upload sample_listed)) \<noteq> Some sample_ticket \<and>
   (\<exists>m\<in>set (gd_manifests sample_listed). im_deviceId m = Some ''d1'' \<and> im_eventSessionId m = ''s1'')"
proof -
  have d: "get_device ''d1'' sample_listed = Some (hd (gd_devices sample_listed))" by code_simp
  have t: "get_ticket ''t1'' sample_listed = Some sample_ticket" by code_simp
  have spent: "get_ticket ''t1'' (fst (sample_upload sample_listed)) \<noteq> Some sample_ticket" by code_simp
  show ?thesis
    using upload_spends_only_covered [OF sample_gate_run(1) sample_open d t spent [unfolded sample_upload_def]] spent
    by (auto simp: sample_ticket_def)
qed

text \<open>What the verdict on a scan depends on.\<close>

lemma find_ticket_cong:
  "get_ticket i db' = get_ticket i db \<Longrightarrow> standing i db' = standing i db \<Longrightarrow> gd_sessions db' = gd_sessions db \<Longrightarrow>
    find_ticket i db' = find_ticket i db"
  by (simp add: find_ticket_def get_session_def)

lemma spent_refused: "get_ticket (qc_ticketId q) db = Some t \<Longrightarrow> tk_status t = ''CHECKED_IN'' \<Longrightarrow>
    scan_verdict d ms q (find_ticket (qc_ticketId q) db) sus \<noteq> RC_ACCEPTED"
  by (auto elim!: verdict_accepted)

lemma refused_stays:
  assumes inv: "gate_inv db" and org: "cd_organizationId d \<notin> set (gd_suspended db)"
    and no: "scan_verdict d ms p (find_ticket (qc_ticketId p) db) False \<noteq> RC_ACCEPTED \<or> p = q"
    and scan: "reconcile_scan user d ms now q (find_ticket (qc_ticketId q) db) False db = (db1, r)"
  shows "scan_verdict d ms p (find_ticket (qc_ticketId p) db1) False \<noteq> RC_ACCEPTED"
proof (cases "scan_verdict d ms q (find_ticket (qc_ticketId q) db) False = RC_ACCEPTED")
  case True
  note acc = scan_accepted [OF inv True org, where user = user and now = now, unfolded scan fst_conv]
  show ?thesis
  proof (cases "qc_ticketId p = qc_ticketId q")
    case True
    then show ?thesis using acc(1) spent_refused by metis
  next
    case False
    then have "find_ticket (qc_ticketId p) db1 = find_ticket (qc_ticketId p) db"
      using acc(2,3) reconcile_scan_same(2) [of user d ms now q "find_ticket (qc_ticketId q) db" False db] scan
      by (intro find_ticket_cong) simp_all
    then show ?thesis using no False by auto
  qed
next
  case False
  then have "find_ticket (qc_ticketId p) db1 = find_ticket (qc_ticketId p) db"
    using scan_refused_same [OF False, of user now db] reconcile_scan_same(2) [of user d ms now q "find_ticket (qc_ticketId q) db" False db] scan
    by (intro find_ticket_cong) (simp_all add: get_ticket_def standing_def)
  then show ?thesis using no False by auto
qed

lemma all_refused_same:
  assumes "gate_inv db" "cd_organizationId d \<notin> set (gd_suspended db)"
    "\<forall>q\<in>set qs. scan_verdict d ms q (find_ticket (qc_ticketId q) db) False \<noteq> RC_ACCEPTED"
  shows "gd_tickets (fst (reconcile_all user d ms now False qs db)) = gd_tickets db \<and>
    gd_checkins (fst (reconcile_all user d ms now False qs db)) = gd_checkins db"
  using assms
proof (induction qs arbitrary: db)
  case (Cons q qs)
  let ?found = "find_ticket (qc_ticketId q) db"
  obtain db1 r where scan: "reconcile_scan user d ms now q ?found False db = (db1, r)" by fastforce
  have same: "gd_tickets db1 = gd_tickets db" "gd_checkins db1 = gd_checkins db"
    using scan_refused_same [of d ms q ?found False user now db] Cons.prems(3) scan by simp_all
  have inv1: "gate_inv db1" and org1: "cd_organizationId d \<notin> set (gd_suspended db1)"
    using gate_inv_same [OF Cons.prems(1) same] reconcile_scan_same(3) [of user d ms now q ?found False db] Cons.prems(2) scan by simp_all
  have "\<forall>p\<in>set qs. scan_verdict d ms p (find_ticket (qc_ticketId p) db1) False \<noteq> RC_ACCEPTED"
    using refused_stays [OF Cons.prems(1,2) _ scan] Cons.prems(3) by simp
  from Cons.IH [OF inv1 org1 this] show ?case
    using same by (simp add: reconcile_all_step [OF Cons.prems(2) scan] del: reconcile_all.simps split: sum.split)
qed simp

lemma processed_refused:
  assumes "gate_inv db" "cd_organizationId d \<notin> set (gd_suspended db)" "reconcile_all user d ms now False qs db = (db', Inr rs)"
    "q \<in> set qs \<or> scan_verdict d ms q (find_ticket (qc_ticketId q) db) False \<noteq> RC_ACCEPTED"
  shows "scan_verdict d ms q (find_ticket (qc_ticketId q) db') False \<noteq> RC_ACCEPTED"
  using assms
proof (induction qs arbitrary: db rs)
  case (Cons p qs)
  let ?found = "find_ticket (qc_ticketId p) db"
  obtain db1 r where scan: "reconcile_scan user d ms now p ?found False db = (db1, r)" by fastforce
  from Cons.prems(3) obtain out sus where r: "r = Inr (out, sus)" by (cases r) (auto simp: scan)
  then have "\<not> sus" using scan_not_suspended [OF _ Cons.prems(2)] scan by blast
  then obtain rs' where rest: "reconcile_all user d ms now False qs db1 = (db', Inr rs')"
    using Cons.prems(3) scan r by (cases "reconcile_all user d ms now False qs db1"; cases "snd (reconcile_all user d ms now False qs db1)") auto
  have inv1: "gate_inv db1" and org1: "cd_organizationId d \<notin> set (gd_suspended db1)"
    using scan_inv [OF Cons.prems(1), of user d ms now p ?found False] reconcile_scan_same(3) [of user d ms now p ?found False db]
      Cons.prems(2) scan by simp_all
  have "q \<in> set qs \<or> scan_verdict d ms q (find_ticket (qc_ticketId q) db1) False \<noteq> RC_ACCEPTED"
    using refused_stays [OF Cons.prems(1,2) _ scan, of q] Cons.prems(4) by auto
  then show ?case by (rule Cons.IH [OF inv1 org1 rest])
qed simp

text \<open>
  C23.  Uploading a queue twice spends nothing twice.  After any run, when an upload has been worked through and the same queue is
  uploaded again from the device, at whatever time, no ticket and no admission changes.
\<close>

theorem reupload_spends_nothing:
  assumes "gate_step\<^sup>*\<^sup>* db0 db" "doors_open db0" "reconcile member seat user i qs now db = (db', Inr rs)"
  shows "gd_tickets (fst (reconcile member' seat' user' i qs now' db')) = gd_tickets db' \<and>
    gd_checkins (fst (reconcile member' seat' user' i qs now' db')) = gd_checkins db'"
proof -
  have inv: "gate_inv db" using run_inv [OF assms(1) opening_inv [OF assms(2)]] .
  then have inv': "gate_inv db'" using run_inv [OF reconcile_run] assms(3) by (metis fst_conv)
  obtain d where d: "get_device i db = Some d" "cd_organizationId d \<notin> set (gd_suspended db)"
      "reconcile_all user d (gd_manifests db) now False qs db = (db', Inr rs)"
    using assms(3) by (auto simp: reconcile_def split: option.splits if_splits prod.splits)
  have same: "gd_manifests (fst (reconcile_all u d ms tm sus qs b)) = gd_manifests b \<and> gd_suspended (fst (reconcile_all u d ms tm sus qs b)) = gd_suspended b \<and>
      gd_devices (fst (reconcile_all u d ms tm sus qs b)) = gd_devices b" for u ms tm sus qs b
  proof (induction qs arbitrary: sus b)
    case (Cons q qs)
    then show ?case using reconcile_scan_same [of u d ms tm q "find_ticket (qc_ticketId q) b" sus b]
      by (auto split: prod.split sum.split)
  qed simp
  have tables: "gd_manifests db' = gd_manifests db" "gd_suspended db' = gd_suspended db" "gd_devices db' = gd_devices db"
    using same [of user "gd_manifests db" now False qs db] d(3) by simp_all
  have "\<forall>q\<in>set qs. scan_verdict d (gd_manifests db') q (find_ticket (qc_ticketId q) db') False \<noteq> RC_ACCEPTED"
    using processed_refused [OF inv d(2,3)] tables(1) by simp
  from all_refused_same [OF inv' _ this] d(1,2) tables quarantine_same(1,2) [of user' d qs db'] show ?thesis
    by (auto simp: reconcile_def get_device_def split: prod.split)
qed

theorem reupload_spends_nothing_witness:
  "gd_checkins (fst (sample_upload (fst (sample_upload sample_listed)))) = gd_checkins (fst (sample_upload sample_listed))"
proof -
  have "snd (sample_upload sample_listed) = Inr [(''t1'', RC_ACCEPTED)]" by code_simp
  then have "sample_upload sample_listed = (fst (sample_upload sample_listed), Inr [(''t1'', RC_ACCEPTED)])" by (simp add: prod_eq_iff)
  from reupload_spends_nothing [OF sample_gate_run(1) sample_open this [unfolded sample_upload_def [of sample_listed]]]
  show ?thesis by (simp add: sample_upload_def)
qed

section \<open>The offline rules and the online gate\<close>

definition entries_map :: "manifest_entry list \<Rightarrow> entry_map" where
  "entries_map es = map_of (map (\<lambda>e. (me_ticketId e, e)) es)"

lemma map_of_filter_map:
  "distinct (map k xs) \<Longrightarrow> map_of (map (\<lambda>x. (k x, f x)) (filter P xs)) i =
    map_option f (Option.bind (find (\<lambda>x. k x = i) xs) (\<lambda>x. if P x then Some x else None))"
proof (induction xs)
  case (Cons a xs)
  show ?case
  proof (cases "k a = i")
    case True
    then have "find (\<lambda>x. k x = i) xs = None" using Cons.prems by (auto simp: find_None_iff rev_image_eqI)
    then show ?thesis using Cons True by auto
  qed (use Cons in auto)
qed simp

text \<open>What a list says about a ticket.\<close>

lemma entries_lookup:
  assumes "distinct (map tk_id (gd_tickets db))"
  shows "entries_map (manifest_entries ses db) i = (case get_ticket i db of
      None \<Rightarrow> None
    | Some t \<Rightarrow> if tk_eventSessionId t = ses \<and> tk_status t \<in> {''ACTIVE'', ''CHECKED_IN''}
        then Some \<lparr>me_ticketId = tk_id t, me_eventSessionId = ses, me_nonce = tk_nonce t, me_version = tk_qrVersion t,
          me_status = tk_status t, me_eligible = eligible_ticket t db\<rparr> else None)"
proof -
  let ?f = "\<lambda>t. \<lparr>me_ticketId = tk_id t, me_eventSessionId = ses, me_nonce = tk_nonce t, me_version = tk_qrVersion t,
    me_status = tk_status t, me_eligible = eligible_ticket t db\<rparr>"
  have "map (\<lambda>e. (me_ticketId e, e)) (manifest_entries ses db) =
      map (\<lambda>t. (tk_id t, ?f t)) (filter (\<lambda>t. tk_eventSessionId t = ses \<and> tk_status t \<in> {''ACTIVE'', ''CHECKED_IN''}) (gd_tickets db))"
    by (simp add: manifest_entries_def)
  then show ?thesis
    unfolding entries_map_def by (auto simp: map_of_filter_map [OF assms, where f = ?f] get_ticket_def split: option.split)
qed

lemma STATUS_RESULT_simps: "STATUS_RESULT ''ACTIVE'' = None" "STATUS_RESULT st \<noteq> Some OC_VALID"
  by (auto simp: STATUS_RESULT_def split: if_splits)

text \<open>What makes a scan valid offline: conditions on the list and the device, and one on the entry.\<close>

definition offline_scope :: "decoded_qr \<Rightarrow> manifest_meta \<Rightarrow> device_scope \<Rightarrow> time_ms \<Rightarrow> string set \<Rightarrow> string option \<Rightarrow> bool" where
  "offline_scope qr meta device now loc expected \<longleftrightarrow>
    validateOfflineScan (Some qr) meta (\<lambda>_. Some \<lparr>me_ticketId = [], me_eventSessionId = mm_eventSessionId meta, me_nonce = qr_nonce qr,
      me_version = qr_version qr, me_status = ''ACTIVE'', me_eligible = True\<rparr>) device now loc expected = OC_VALID"

lemma offline_valid_iff:
  "validateOfflineScan (Some qr) meta entries device now loc expected = OC_VALID \<longleftrightarrow>
    offline_scope qr meta device now loc expected \<and> (\<exists>e. entries (qr_ticketId qr) = Some e \<and> me_eventSessionId e = mm_eventSessionId meta \<and>
      me_nonce e = qr_nonce qr \<and> me_version e = qr_version qr \<and> me_status e = ''ACTIVE'' \<and> me_eligible e)"
proof -
  have refuse: "(if c then r else r') = OC_VALID \<longleftrightarrow> \<not> c \<and> r' = OC_VALID" if "r \<noteq> OC_VALID" for c r r' using that by simp
  have status: "(case STATUS_RESULT st of None \<Rightarrow> r | Some x \<Rightarrow> x) = OC_VALID \<longleftrightarrow> STATUS_RESULT st = None \<and> r = OC_VALID" for st r
    using STATUS_RESULT_simps(2) [of st] by (cases "STATUS_RESULT st") auto
  show ?thesis
    by (cases "entries (qr_ticketId qr)")
      (auto simp: validateOfflineScan_def offline_scope_def refuse status STATUS_RESULT_simps(1) simp del: if_split)
qed

text \<open>
  C24.  Offline is not more generous than the gate.  When a scan is valid offline against a list, the ticket is in the list's session
  and its booking entitles to enter; and a scan of the same code at the online gate as of the issue of the list admits, unless the session
  is cancelled or the seat belongs to another system, which lists do not tell.
\<close>

theorem offline_valid_admits_online:
  assumes "gate_step\<^sup>*\<^sup>* db0 db" "doors_open db0"
    and "build_manifest hmac window member session deviceId now db = (db', Inr (meta, entries, signature))"
    and "validateOfflineScan (Some qr) meta (entries_map entries) device now' loc expected = OC_VALID"
    and "get_session session db = Some s" "verify token = Some (qr_ticketId qr, qr_nonce qr)"
    and "ao_expectedEventId opts \<in> {None, Some (se_eventId s)}" "ao_expectedSessionId opts \<in> {None, Some session}"
  shows "\<exists>t. get_ticket (qr_ticketId qr) db = Some t \<and> tk_eventSessionId t = session \<and> bookingAdmits (booking_status_of t db) \<and>
    (gate (tk_organizationId t) \<and> se_status s \<noteq> ''CANCELLED'' \<and> \<not> truthy (tk_vendorBarcode t) \<longrightarrow>
      snd (scan verify gate staff token opts now'' db) = Inr CR_SUCCESS)"
proof -
  have dist: "distinct (map tk_id (gd_tickets db))" using gate_invD(1) [OF run_inv [OF assms(1) opening_inv [OF assms(2)]]] .
  have entries: "entries = manifest_entries session db"
    using assms(3) by (auto simp: build_manifest_def Let_def split: option.splits sum.splits if_splits)
  obtain t where t: "get_ticket (qr_ticketId qr) db = Some t" "tk_eventSessionId t = session" "tk_nonce t = qr_nonce qr"
      "tk_status t = ''ACTIVE''" "bookingAdmits (booking_status_of t db)"
    using assms(4) unfolding offline_valid_iff entries entries_lookup [OF dist]
    by (auto simp: eligible_ticket_def split: option.splits if_splits)
  have id: "tk_id t = qr_ticketId qr" "t \<in> set (gd_tickets db)" using get_ticket_Some [OF t(1)] by simp_all
  have "snd (scan verify gate staff token opts now'' db) = Inr CR_SUCCESS"
    if "gate (tk_organizationId t)" "se_status s \<noteq> ''CANCELLED''" "\<not> truthy (tk_vendorBarcode t)"
  proof -
    have "admit_refusal t (booking_status_of t db) (opts\<lparr>ao_visual := False\<rparr>) db = None"
      using t that(2,3) assms(5,7,8) id by (auto simp: admit_refusal_def Let_def truthy_def bookingAdmits_def split: option.splits)
    moreover have "snd (claim_online (tk_id t) now'' db)"
      using t(4) id by (auto simp: claim_online_def claim_where_def list_ex_iff)
    ultimately show ?thesis
      using t that(1) assms(6) by (auto simp: scan_def admit_def Let_def split: prod.split bool.split)
  qed
  then show ?thesis using t by blast
qed

definition sample_qr :: decoded_qr where
  "sample_qr = \<lparr>qr_ticketId = ''t1'', qr_eventSessionId = ''s1'', qr_nonce = ''n1'', qr_version = 1\<rparr>"

definition sample_device :: device_scope where
  "sample_device = \<lparr>ds_deviceId = ''d1'', ds_organizationId = ''o1'', ds_eventId = None, ds_eventSessionId = None, ds_active = True\<rparr>"

definition sample_meta :: manifest_meta where
  "sample_meta = \<lparr>mm_organizationId = ''o1'', mm_eventId = ''e1'', mm_eventSessionId = ''s1'', mm_version = 1, mm_validFrom = 1000,
     mm_expiresAt = 2701000, mm_deviceId = ''d1''\<rparr>"

theorem offline_valid_admits_online_witness:
  "snd (scan (\<lambda>_. Some (''t1'', ''n1'')) (\<lambda>_. True) ''u1'' ''token'' sample_opts 2000 sample_gate) = Inr CR_SUCCESS"
proof -
  have "snd sample_build = Inr (sample_meta, manifest_entries ''s1'' sample_gate, im_signature (hd (gd_manifests sample_listed)))" by code_simp
  then have build: "build_manifest (\<lambda>_. ''sig'') None (\<lambda>_. True) ''s1'' (Some ''d1'') 1000 sample_gate =
      (sample_listed, Inr (sample_meta, manifest_entries ''s1'' sample_gate, im_signature (hd (gd_manifests sample_listed))))"
    by (simp add: sample_build_def sample_listed_def prod_eq_iff)
  have valid: "validateOfflineScan (Some sample_qr) sample_meta (entries_map (manifest_entries ''s1'' sample_gate)) sample_device 2000 {} None = OC_VALID"
    by code_simp
  have s: "get_session ''s1'' sample_gate = Some (hd (gd_sessions sample_gate))" by code_simp
  have t: "get_ticket ''t1'' sample_gate = Some sample_ticket" by code_simp
  show ?thesis
    using offline_valid_admits_online [OF rtranclp.rtrancl_refl sample_open build valid s,
        of "\<lambda>_. Some (''t1'', ''n1'')" "''token''" sample_opts "\<lambda>_. True" "''u1''" 2000] t
    by (simp add: sample_qr_def sample_opts_def sample_gate_def sample_ticket_def truthy_def)
qed








section \<open>The upload queue gives up\<close>

text \<open>The plans after successive failures of a queued scan, which is tried again while it is RETRYING.\<close>

fun queue_run :: "int \<Rightarrow> ((queue_failure_category \<times> bool) \<times> time_ms) list \<Rightarrow> retry_plan list" where
  "queue_run n [] = []"
| "queue_run n ((failure, now) # fs) = (let p = planRetry n failure now QUEUE_MAX_RETRIES in
     p # (if rp_disposition p = RETRYING then queue_run (rp_retryCount p) fs else []))"

lemma backoff_bounds: "5000 \<le> backoffDelayMs n \<and> backoffDelayMs n \<le> 300000"
proof -
  have "(1::int) \<le> 2 ^ k" for k by simp
  then have "(5000::int) \<le> 5000 * 2 ^ k" for k by (metis mult.right_neutral mult_left_mono zero_le_numeral)
  then show ?thesis by (simp add: backoffDelayMs_def QUEUE_BACKOFF_BASE_MS_def QUEUE_BACKOFF_MAX_MS_def)
qed

text \<open>
  However often the upload of a scan fails, it is tried at most seven times without a person, each time after between five
  seconds and five minutes, and after seven failures it is BLOCKED and kept.
\<close>

lemma queue_gives_up:
  assumes "0 \<le> n" "n \<le> 6"
  shows "length (queue_run n fs) \<le> nat (7 - n) \<and> (nat (7 - n) \<le> length fs \<longrightarrow> rp_disposition (last (queue_run n fs)) = BLOCKED) \<and>
    list_all (\<lambda>p. case rp_nextAttemptAt p of None \<Rightarrow> rp_disposition p = BLOCKED
      | Some t \<Rightarrow> rp_lastAttemptAt p + 5000 \<le> t \<and> t \<le> rp_lastAttemptAt p + 300000) (queue_run n fs)"
  using assms
proof (induction n fs rule: queue_run.induct)
  case (2 n failure now fs)
  obtain category retryable where f: "failure = (category, retryable)" by fastforce
  show ?case
  proof (cases "retryable \<and> n < 6")
    case True
    then have "queue_run n ((failure, now) # fs) \<noteq> []" and more: "nat (7 - n) = Suc (nat (7 - (n + 1)))" "0 < nat (7 - (n + 1))" by (auto simp: Let_def)
    moreover have "queue_run (n + 1) fs \<noteq> []" if "nat (6 - n) \<le> length fs" using that True by (cases fs) (auto simp: Let_def)
    ultimately show ?thesis
      using 2 True f backoff_bounds [of n] by (auto simp: planRetry_def QUEUE_MAX_RETRIES_def Let_def)
  next
    case False
    then show ?thesis using 2(2,3) f backoff_bounds [of n]
      by (auto simp: planRetry_def QUEUE_MAX_RETRIES_def Let_def)
  qed
qed simp

section \<open>Where the code does not do what it says\<close>

text \<open>
  An upload looks at the ticket and not at its booking, its session or the system that admits it: a ticket of a refunded booking, of a
  cancelled session or of another cinema's system is spent, which the online gate refuses.
\<close>

definition sample_refunded_booking :: gate_db where
  "sample_refunded_booking = sample_listed\<lparr>gd_bookings := [\<lparr>gb_id = ''b1'', gb_status = BK_REFUNDED\<rparr>]\<rparr>"

definition sample_cancelled_session :: gate_db where
  "sample_cancelled_session = sample_listed\<lparr>gd_sessions := map (\<lambda>s. s\<lparr>se_status := ''CANCELLED''\<rparr>) (gd_sessions sample_listed)\<rparr>"

definition sample_vendor_ticket :: gate_db where
  "sample_vendor_ticket = sample_listed\<lparr>gd_tickets := [sample_ticket\<lparr>tk_vendorBarcode := Some ''x''\<rparr>]\<rparr>"

lemma upload_spends_what_the_gate_refuses:
  "list_all (\<lambda>db. snd (sample_upload db) = Inr [(''t1'', RC_ACCEPTED)] \<and> map tk_status (gd_tickets (fst (sample_upload db))) = [''CHECKED_IN''] \<and>
     snd (scan (\<lambda>_. Some (''t1'', ''n1'')) (\<lambda>_. True) ''u1'' ''token'' sample_opts 2000 db) \<in> {Inr CR_CANCELLED, Inr CR_EXTERNAL})
   [sample_refunded_booking, sample_cancelled_session, sample_vendor_ticket]"
  by code_simp

text \<open>A scan without a time passes the window of an expired list, spends the ticket, and then fails without a record.\<close>

lemma timeless_scan_spends:
  "(case reconcile (\<lambda>_. True) (\<lambda>_. True) ''u1'' ''d1'' [sample_scan None] 99999999 sample_listed of (db, r) \<Rightarrow>
     r = Inl InvalidDate \<and> map tk_status (gd_tickets db) = [''CHECKED_IN''] \<and> gd_records db = [])"
  by code_simp

text \<open>A reversal that has read a checked-in ticket makes it usable again even if it was refunded in the meantime.\<close>

lemma reversal_revives_refunded:
  "get_ticket i db = Some t \<Longrightarrow> tk_status t = ''REFUNDED'' \<Longrightarrow> \<exists>t'. get_ticket i (reverse_write i now db) = Some t' \<and> tk_status t' = ''ACTIVE''"
  using get_ticket_Some [of i db t] by (simp add: get_ticket_def reverse_write_def find_map_same)

text \<open>An approval that has read a device before it was revoked brings it back.\<close>

lemma approval_revives_revoked:
  "get_device i db = Some d \<Longrightarrow> \<exists>d'. get_device i (approve_write i now (set_device i (revocation reason now d) db)) = Some d' \<and> cd_status d' = DV_ACTIVE"
  using get_device_Some [of i db d] by (simp add: approve_write_def get_device_set revocation_def Let_def)

text \<open>A scan that loses its claim is reported as a duplicate of another device and leaves no record.\<close>

lemma lost_claim_unrecorded:
  "(case reconcile_scan ''u1'' (hd (gd_devices sample_listed)) (gd_manifests sample_listed) 5000 (sample_scan (Some 2000))
       (find_ticket ''t1'' sample_listed) False (fst (sample_upload sample_listed)) of (db, r) \<Rightarrow>
     r = Inr (RC_DUPLICATE_OTHER_DEVICE, False) \<and> gd_records db = gd_records (fst (sample_upload sample_listed)))"
  by code_simp

text \<open>An online admission that names its scanner is reported as a duplicate of another device.\<close>

lemma named_scanner_not_online:
  "snd (sample_upload (fst (scan (\<lambda>_. Some (''t1'', ''n1'')) (\<lambda>_. True) ''u1'' ''token'' (sample_opts\<lparr>ao_deviceInfo := Some ''Gate A''\<rparr>) 2000 sample_listed))) =
   Inr [(''t1'', RC_DUPLICATE_OTHER_DEVICE)]"
  by code_simp

text \<open>A refund that changes the booking alone is in a new list and not in a delta.\<close>

lemma delta_misses_refunded_booking:
  "delta_changes ''s1'' 1000 sample_refunded_booking = [] \<and>
   validateOfflineScan (Some sample_qr) sample_meta (entries_map (manifest_entries ''s1'' sample_listed)) sample_device 9000 {} None = OC_VALID \<and>
   validateOfflineScan (Some sample_qr) sample_meta (entries_map (manifest_entries ''s1'' sample_refunded_booking)) sample_device 9000 {} None \<noteq> OC_VALID"
  by code_simp

end
