(* ===== verification/OfflineReadiness.thy ===== *)
theory OfflineReadiness
  imports CheckIn JsSort
begin

text \<open>
  When offline check-in may be used: the activation gate, the downgrade during an event, the alerts of the command center and the
  preflight of a device, all of \<^verbatim>\<open>offline-checkin.ts\<close>.  Labels, explanations and guidance are left out; a check is its key, its
  status and whether it blocks.
\<close>

section \<open>Activation\<close>

datatype activation_verdict = GO | CONDITIONAL_GO | NO_GO

record activation_inputs =
  ai_flagEnabled :: bool
  ai_organizationApproved :: bool
  ai_eventApproved :: bool
  ai_deviceApproved :: bool
  ai_manifestValid :: bool
  ai_deltaFresh :: bool
  ai_queueOperational :: bool
  ai_reconciliationOperational :: bool
  ai_alertsOperational :: bool
  ai_auditHealthy :: bool
  ai_twoDeviceDrillPassed :: bool
  ai_deviceLossDrillPassed :: bool
  ai_reconciliationDrillPassed :: bool
  ai_openCriticalFindings :: int
  ai_adminActivationRecorded :: bool

record activation_check =
  ak_key :: string
  ak_passed :: bool
  ak_blocking :: bool

definition activation_checks :: "activation_inputs \<Rightarrow> activation_check list" where
  "activation_checks i = map (\<lambda>(key, passed, blocking). \<lparr>ak_key = key, ak_passed = passed, ak_blocking = blocking\<rparr>)
    [(''flag'', ai_flagEnabled i, True), (''org'', ai_organizationApproved i, True), (''event'', ai_eventApproved i, True),
     (''device'', ai_deviceApproved i, True), (''manifest'', ai_manifestValid i, True), (''delta'', ai_deltaFresh i, False),
     (''queue'', ai_queueOperational i, False), (''reconciliation'', ai_reconciliationOperational i, True),
     (''alerts'', ai_alertsOperational i, False), (''audit'', ai_auditHealthy i, True),
     (''drill_two_device'', ai_twoDeviceDrillPassed i, True), (''drill_device_loss'', ai_deviceLossDrillPassed i, True),
     (''drill_reconcile'', ai_reconciliationDrillPassed i, True), (''findings'', ai_openCriticalFindings i = 0, True),
     (''activation'', ai_adminActivationRecorded i, True)]"

definition deriveActivationVerdict :: "activation_inputs \<Rightarrow> activation_verdict \<times> activation_check list" where
  "deriveActivationVerdict i = (let checks = activation_checks i in
    (if list_ex (\<lambda>c. ak_blocking c \<and> \<not> ak_passed c) checks then NO_GO
     else if list_all ak_passed checks then GO else CONDITIONAL_GO, checks))"

record downgrade_signals =
  dg_deviceRevoked :: bool
  dg_manifestExpired :: bool
  dg_deltaTooStale :: bool
  dg_queueCorrupt :: bool
  dg_auditUnavailable :: bool
  dg_reconciliationUnavailable :: bool
  dg_securityConfigInvalid :: bool

definition mustDowngrade :: "downgrade_signals \<Rightarrow> bool" where
  "mustDowngrade s \<longleftrightarrow> dg_deviceRevoked s \<or> dg_manifestExpired s \<or> dg_deltaTooStale s \<or> dg_queueCorrupt s \<or> dg_auditUnavailable s \<or>
    dg_reconciliationUnavailable s \<or> dg_securityConfigInvalid s"

section \<open>Alerts\<close>

datatype alert_severity = AL_critical | AL_warning | AL_info

record command_center_signals =
  cs_eventSessionId :: string
  cs_verdict :: activation_verdict
  cs_hasActivationDecision :: bool
  cs_downgradeActive :: bool
  cs_manifestStale :: bool
  cs_activeDeviceCount :: int
  cs_revokedDeviceActivityCount :: int
  cs_totalScans :: int
  cs_duplicateCount :: int
  cs_pendingReviewCount :: int
  cs_syncFailureCount :: int
  cs_oldestActiveDeviceUnseenMs :: "int option"

record command_center_alert =
  al_key :: string
  al_type :: string
  al_severity :: alert_severity
  al_eventSessionId :: string

fun SEVERITY_RANK :: "alert_severity \<Rightarrow> int" where
  "SEVERITY_RANK AL_critical = 0"
| "SEVERITY_RANK AL_warning = 1"
| "SEVERITY_RANK AL_info = 2"

definition ALERT_DUP_MIN_SAMPLE :: int where "ALERT_DUP_MIN_SAMPLE = 10"
definition ALERT_DEVICE_UNSEEN_MS :: int where "ALERT_DEVICE_UNSEEN_MS = 5 * 60000"

text \<open>The conditions in the order of the source.  The rate of duplicates is compared with one quarter in integers.\<close>

definition alert_conditions :: "command_center_signals \<Rightarrow> (bool \<times> string \<times> alert_severity) list" where
  "alert_conditions s =
    [(cs_hasActivationDecision s \<and> (cs_downgradeActive s \<or> cs_verdict s = NO_GO), ''ACTIVATION_DOWNGRADE'', AL_critical),
     (0 < cs_revokedDeviceActivityCount s, ''REVOKED_DEVICE_ACTIVITY'', AL_critical),
     (cs_activeDeviceCount s = 0, ''NO_ACTIVE_DEVICES'', if cs_hasActivationDecision s then AL_critical else AL_warning),
     (cs_manifestStale s, ''STALE_MANIFEST'', AL_warning),
     (ALERT_DUP_MIN_SAMPLE \<le> cs_totalScans s \<and> cs_totalScans s \<le> 4 * cs_duplicateCount s, ''HIGH_DUPLICATE_RATE'', AL_warning),
     (0 < cs_pendingReviewCount s, ''PENDING_SUPERVISOR_REVIEWS'', AL_warning),
     (0 < cs_syncFailureCount s, ''SYNC_FAILURE'', AL_warning),
     (case cs_oldestActiveDeviceUnseenMs s of None \<Rightarrow> False | Some ms \<Rightarrow> ALERT_DEVICE_UNSEEN_MS < ms, ''QUEUE_GROWTH'', AL_warning)]"

definition deriveCommandCenterAlerts :: "command_center_signals \<Rightarrow> command_center_alert list" where
  "deriveCommandCenterAlerts s = sort_cmp (cmp_key (\<lambda>a. SEVERITY_RANK (al_severity a)))
    (map (\<lambda>(_, type, severity). \<lparr>al_key = type @ '':'' @ cs_eventSessionId s, al_type = type, al_severity = severity,
       al_eventSessionId = cs_eventSessionId s\<rparr>) (filter fst (alert_conditions s)))"

section \<open>Preflight\<close>

datatype preflight_status = PF_pass | PF_warn | PF_fail

datatype preflight_verdict = READY | WARNING | NOT_READY

record preflight_check =
  pk_key :: string
  pk_status :: preflight_status
  pk_blocking :: bool

record preflight_signals =
  ps_deviceActive :: bool
  ps_deviceInScope :: bool
  ps_latestManifestVersion :: "int option"
  ps_clientManifestVersion :: "int option"
  ps_manifestFresh :: bool
  ps_lastSeenMsAgo :: "int option"
  ps_deltaWindowMs :: int
  ps_clockSkewMs :: "int option"
  ps_clockToleranceMs :: int
  ps_queueDepth :: "int option"
  ps_syncFailureCount :: int
  ps_pendingReviewCount :: int
  ps_activationVerdict :: activation_verdict
  ps_criticalAlertCount :: int

definition buildPreflightChecks :: "preflight_signals \<Rightarrow> preflight_check list" where
  "buildPreflightChecks s = (let must = (\<lambda>b. if b then PF_pass else PF_fail); should = (\<lambda>b. if b then PF_pass else PF_warn) in
    map (\<lambda>(key, status, blocking). \<lparr>pk_key = key, pk_status = status, pk_blocking = blocking\<rparr>)
    [(''device_active'', must (ps_deviceActive s), True),
     (''device_scope'', must (ps_deviceInScope s), True),
     (''manifest_latest'', case ps_clientManifestVersion s of None \<Rightarrow> PF_warn
        | Some v \<Rightarrow> must (ps_latestManifestVersion s = Some v), True),
     (''manifest_fresh'', must (ps_manifestFresh s), True),
     (''deltas_current'', should (case ps_lastSeenMsAgo s of None \<Rightarrow> False | Some ms \<Rightarrow> ms \<le> ps_deltaWindowMs s), False),
     (''clock_skew'', case ps_clockSkewMs s of None \<Rightarrow> PF_warn | Some ms \<Rightarrow> must (ms \<le> ps_clockToleranceMs s), True),
     (''queue_empty'', case ps_queueDepth s of None \<Rightarrow> PF_warn | Some n \<Rightarrow> should (n = 0), False),
     (''sync_clean'', should (ps_syncFailureCount s + ps_pendingReviewCount s = 0), False),
     (''activation_go'', must (ps_activationVerdict s = GO), True),
     (''no_blocking_alerts'', must (ps_criticalAlertCount s = 0), True)])"

definition derivePreflightVerdict :: "preflight_check list \<Rightarrow> preflight_verdict" where
  "derivePreflightVerdict checks =
    (if list_ex (\<lambda>c. pk_blocking c \<and> pk_status c = PF_fail) checks then NOT_READY
     else if list_ex (\<lambda>c. pk_status c \<noteq> PF_pass) checks then WARNING
     else READY)"

section \<open>What the verdicts mean\<close>

lemma activation_go_iff:
  "fst (deriveActivationVerdict i) = GO \<longleftrightarrow> list_all ak_passed (activation_checks i)"
  "fst (deriveActivationVerdict i) = NO_GO \<longleftrightarrow> \<not> (ai_flagEnabled i \<and> ai_organizationApproved i \<and> ai_eventApproved i \<and> ai_deviceApproved i \<and>
    ai_manifestValid i \<and> ai_reconciliationOperational i \<and> ai_auditHealthy i \<and> ai_twoDeviceDrillPassed i \<and> ai_deviceLossDrillPassed i \<and>
    ai_reconciliationDrillPassed i \<and> ai_openCriticalFindings i = 0 \<and> ai_adminActivationRecorded i)"
  by (auto simp: deriveActivationVerdict_def Let_def activation_checks_def)

interpretation severity: js_comparator "cmp_key (\<lambda>a. SEVERITY_RANK (al_severity a))"
  by (rule js_comparator_key)

text \<open>Critical alerts come first, alerts of one severity keep the order of the rules, and no condition is reported twice.\<close>

lemma alerts_ranked:
  "sorted_wrt (\<lambda>a b. SEVERITY_RANK (al_severity a) \<le> SEVERITY_RANK (al_severity b)) (deriveCommandCenterAlerts s)"
  using severity.sorted_sort by (simp add: deriveCommandCenterAlerts_def cmp_key_def)

lemma alerts_distinct: "distinct (map al_type (deriveCommandCenterAlerts s))"
proof -
  let ?g = "\<lambda>(_, type, severity). \<lparr>al_key = type @ '':'' @ cs_eventSessionId s, al_type = type, al_severity = severity, al_eventSessionId = cs_eventSessionId s\<rparr>"
  have types: "map al_type (map ?g xs) = map (fst \<circ> snd) xs" for xs by (induction xs) auto
  have sort: "distinct (map al_type (sort_cmp cmp xs)) \<longleftrightarrow> distinct (map al_type xs)" for cmp xs
    by (metis mset_map mset_sort_cmp mset_eq_imp_distinct_iff)
  have "distinct (map (fst \<circ> snd) (alert_conditions s))" by (simp add: alert_conditions_def)
  then have "distinct (map al_type (map ?g (filter fst (alert_conditions s))))" unfolding types by (rule distinct_map_filter)
  then show ?thesis unfolding deriveCommandCenterAlerts_def sort .
qed

text \<open>
  A device is READY exactly when nothing is missing: it is active and in scope, holds the current list, which is fresh, has synced within
  the window, reports a clock within tolerance and an empty queue, nothing is unresolved, the activation is GO and no critical alert
  stands.  What a device does not report is never taken as passed.
\<close>

lemma preflight_ready_iff:
  "derivePreflightVerdict (buildPreflightChecks s) = READY \<longleftrightarrow>
    ps_deviceActive s \<and> ps_deviceInScope s \<and> ps_clientManifestVersion s \<noteq> None \<and> ps_clientManifestVersion s = ps_latestManifestVersion s \<and>
    ps_manifestFresh s \<and> (\<exists>ms\<le>ps_deltaWindowMs s. ps_lastSeenMsAgo s = Some ms) \<and> (\<exists>ms\<le>ps_clockToleranceMs s. ps_clockSkewMs s = Some ms) \<and>
    ps_queueDepth s = Some 0 \<and> ps_syncFailureCount s + ps_pendingReviewCount s = 0 \<and> ps_activationVerdict s = GO \<and> ps_criticalAlertCount s = 0"
  by (auto simp: derivePreflightVerdict_def buildPreflightChecks_def Let_def split: option.splits if_splits)

end
