(* ===== verification/Spec2Isabelle.thy ===== *)
theory Spec2Isabelle
  imports Regions TaxCalculator FeeCalculator FeePolicy CinemaPolicy SaleEligibility PricingService
    RedisLock LockService Inventory Payouts RefundTax BookingWorkflow CompensationWorker
    BillingIntake RefundLifecycle SettlementRuns CheckInRuns OfflineReadiness
begin

text \<open>
  ETicketsGo: pricing, selling and holding of tickets, and what happens to the money afterwards.

  The program is a ticketing platform: an API (\<^verbatim>\<open>src/apps/api\<close>) with a PostgreSQL database and Redis, a set
  of shared types (\<^verbatim>\<open>src/packages/shared-types\<close>) and several front ends.  This library models the part that
  decides what a buyer pays, whether a cart may be sold at all, and who gets the tickets: the path from a
  cart to a paid booking; and the part that moves money after the sale: the durable workflow of a booking,
  its compensation when something fails half way, refunds and the settlement with organizers.

  \<^bold>\<open>How the parts interact.\<close>  A cart is first judged by the cinema rules of its place
  (\<^verbatim>\<open>sale-eligibility.ts\<close>, which asks \<^verbatim>\<open>cinema-pricing-policy.resolver.ts\<close>); the effect of the rule that
  governs it (\<^verbatim>\<open>apply-policy.ts\<close>) caps the platform fee and may add a maintenance charge.
  \<^verbatim>\<open>PricingService.quote\<close> loads the fee schedule, lets a fee policy replace it, calculates the fee, applies
  the cap and asks a tax provider for the tax.  The hold of the booking takes one order of the fee policy
  (\<^verbatim>\<open>fee-policy-redemption.ts\<close>) and units of stock through an inventory strategy in one database
  transaction; a payment settles the stock, a sweep or a cancellation gives it back.  In front of the
  database, Redis locks (\<^verbatim>\<open>inventory/locking\<close>) keep two buyers from working on the same seats.  A durable
  workflow (\<^verbatim>\<open>bookings/orchestration\<close>) records how far a booking has come; when the provider, the payment and the
  database disagree, a planner turns the discrepancy into compensations (\<^verbatim>\<open>bookings/compensation\<close>), which a
  leased worker executes through the payment executors and the lock service or which an operator releases.
  Refunds return the ticket price with its tax (\<^verbatim>\<open>refunds\<close>): an approval claims the refund, asks the provider under a stable key,
  and hands the tickets back in the transaction that settles it; a payout (\<^verbatim>\<open>payouts\<close>) settles per currency
  what the organizer is owed and allocates it to bookings, and a settlement (\<^verbatim>\<open>payments/settlement\<close>) sends it through the
  provider and takes it back after refunds and disputes.  At the door a ticket is admitted by an online gate or by a device with a signed
  list that uploads its scans later (\<^verbatim>\<open>checkins\<close>).  Apart from ticket sales the platform sells plans to
  organizers (\<^verbatim>\<open>billing\<close>): a state machine decides what may happen to a subscription, a store applies it under the
  lock of the billing account, events of the billing providers and a sweep of the clock drive it, and every
  verified payment gets an invoice with a number of its series.

  \<^bold>\<open>Theories.\<close>
  \<^item> \<^verbatim>\<open>Prelude\<close>: lists, options, JavaScript strings, results as sums (\<open>rbind\<close>, \<open>rfold\<close>) and their lemmas.
  \<^item> \<^verbatim>\<open>JsNumber\<close>: \<^verbatim>\<open>Math.round\<close> of a quotient of integers.  The components round with \<open>round_div\<close> on the
    integers; \<open>js_round_div_exact\<close> shows that this is what the double precision computation gives for a
    non-negative numerator below \<open>2 ^ 52\<close>, which for amounts times 10,000 basis points is every order below
    4.5 billion currency units.  The discount share, a product of a rounded quotient, is modelled on the
    doubles themselves (\<open>js_scale\<close>).
  \<^item> \<^verbatim>\<open>JsSort\<close>: \<^verbatim>\<open>Array.prototype.sort\<close> as a stable insertion sort by a comparator, with the locale
    \<open>js_comparator\<close> for what a comparator has to satisfy.
  \<^item> \<^verbatim>\<open>Regions\<close>: \<^verbatim>\<open>country.ts\<close> and \<^verbatim>\<open>india-states.ts\<close>.  Spellings of countries and Indian states; matching is
    specified (\<open>regionMatches_spec\<close>) and symmetric.
  \<^item> \<^verbatim>\<open>TaxCalculator\<close>: \<^verbatim>\<open>tax-calculator.ts\<close>.  Which rules apply, which tickets cannot be classified, what each
    rule is charged on, the levy and the lines it is presented as.  The tax never depends on the buyer's
    state; every ticket is taxed once per group; a refusal names exactly the gaps.
  \<^item> \<^verbatim>\<open>FeeCalculator\<close>: \<^verbatim>\<open>fee-calculator.ts\<close>.  Bands of the schedule, their scope and limits, the fee and who
    pays it.  The most specific band wins, and the shares add up.
  \<^item> \<^verbatim>\<open>FeePolicy\<close>: \<^verbatim>\<open>fee-policy.ts\<close>, \<^verbatim>\<open>fee-policy-resolver.service.ts\<close>, \<^verbatim>\<open>fee-policy-redemption.ts\<close>.  Which
    policy prices a sale, that it only lowers the fee, and the redemption counter: an invariant under any
    interleaving of holds and releases and the exact outcome of a race.
  \<^item> \<^verbatim>\<open>CinemaPolicy\<close>: \<^verbatim>\<open>cinema-pricing-policy.resolver.ts\<close>, \<^verbatim>\<open>apply-policy.ts\<close>, \<^verbatim>\<open>class-ceilings.ts\<close>.  One rule
    governs an order or it is refused; absence of a rule is never permission.
  \<^item> \<^verbatim>\<open>SaleEligibility\<close>: \<^verbatim>\<open>sale-eligibility.ts\<close>.  When a cart is refused, with which blockers, and how the
    session-wide answer relates to single carts.
  \<^item> \<^verbatim>\<open>PricingService\<close>: \<^verbatim>\<open>pricing.service.ts\<close> with the coupon, fee tax and fingerprint helpers and the manual
    tax provider.  The locale \<open>tax_provider\<close> states what the quote relies on; the manual provider is an
    interpretation of it.
  \<^item> \<^verbatim>\<open>RedisLock\<close>: the Lua scripts, keys and store of \<^verbatim>\<open>inventory/locking\<close> on key spaces with expiry.  Two clocks
    are kept apart: Redis' own (\<open>rt\<close>), which expires keys, and the API node's (\<open>now\<close>), which is written into
    locks.  Acquisition is all or nothing, a live lock is not stolen, fencing tokens increase, counted
    quantities stay within capacity.
  \<^item> \<^verbatim>\<open>LockService\<close>: \<^verbatim>\<open>inventory-lock.service.ts\<close> and \<^verbatim>\<open>inventory-lock-confirmation.service.ts\<close>.  A \<open>world\<close> says for
    each call what the clocks show and whether the call is answered, lost after it took effect, or refused.
    Retries replay, renewals are bounded, confirmation happens only under a valid lock.
  \<^item> \<^verbatim>\<open>Inventory\<close>: the general admission, seat based and add-on strategies, \<^verbatim>\<open>expire-pending-booking.ts\<close>, and the
    stock part of the hold (\<^verbatim>\<open>bookings.service.ts\<close>) and of the settlement (\<^verbatim>\<open>payments.service.ts\<close>).  The locale
    \<open>stock_ledger\<close> states what a counter table promises and is interpreted for tickets and for add-ons;
    general admission is never oversold, an unpaid hold ends exactly once, seats are not double booked.
  \<^item> \<^verbatim>\<open>Payouts\<close>: the settlement calculator, the allocation and the membership query of \<^verbatim>\<open>payouts\<close>.  Every booking
    and refund is counted once, and the allocations of a currency add up to its settlement field by field,
    proved once in the locale \<open>draft_field\<close>; money is released only on proof that nobody else claims it.
  \<^item> \<^verbatim>\<open>RefundTax\<close>: \<^verbatim>\<open>refund-eligibility.ts\<close> and \<^verbatim>\<open>refund-tax.ts\<close>.  The tax of a refund stays within what was
    charged, and refunding the tickets of a booking one by one returns its tax exactly.
  \<^item> \<^verbatim>\<open>RefundRetry\<close>: \<^verbatim>\<open>refund-reconcile.ts\<close> and \<^verbatim>\<open>refund-retry.ts\<close>.  The idempotency key of a refund tells the refund and its
    generation and nothing else does; what the provider's list of refunds means for one refund, and when a retry is allowed.
  \<^item> \<^verbatim>\<open>RefundLifecycle\<close>: \<^verbatim>\<open>refund-provider-call.ts\<close>, the approval, payment and retry of \<^verbatim>\<open>refunds.service.ts\<close> and the
    provider's late failure of \<^verbatim>\<open>razorpay-webhook.processor.ts\<close>.  The relation \<open>refund_step\<close> is any decision, retry or webhook
    in a world where the provider answers anything or nothing and audit entries may be lost; a call after a lost answer carries
    the same key, a refund that the provider shows is recorded and never sent again, and a ticket is handed back once.
  \<^item> \<^verbatim>\<open>Settlement\<close>, \<^verbatim>\<open>SettlementRuns\<close>: \<^verbatim>\<open>settlement.service.ts\<close> with \<^verbatim>\<open>settlement-reversal.ts\<close>, \<^verbatim>\<open>transfer-evidence.ts\<close> and
    the settlement rules of \<^verbatim>\<open>marketplace.ts\<close>.  The relation \<open>settlement_step\<close> is any operation, answer or lost call, with
    transfer calls in flight; over its runs the ledger balances, a transfer is not repeated blindly and needs an approval, no
    more is sent than owed or asked back than held, and evidence counts once in any order.
  \<^item> \<^verbatim>\<open>CheckIn\<close>, \<^verbatim>\<open>CheckInRuns\<close>: \<^verbatim>\<open>checkins.service.ts\<close>, \<^verbatim>\<open>offline-checkin.ts\<close>, \<^verbatim>\<open>offline-queue.ts\<close> and, under
    \<^verbatim>\<open>checkins/offline\<close>, devices, signed lists, deltas, uploads and their review.  The locale \<open>ticket_claim\<close> is the contract of the guarded
    update, interpreted for the online gate and for uploads; over any run of \<open>gate_step\<close> a ticket has at most one standing admission, a
    revoked device spends nothing, an upload spends only what a list issued to the device covers and repeating it spends nothing more;
    a scan that is valid offline is one the online gate admits, and a delta is as good as a new list.
  \<^item> \<^verbatim>\<open>OfflineReadiness\<close>: the activation gate, alerts and preflight of \<^verbatim>\<open>offline-checkin.ts\<close>; what READY means.
  \<^item> \<^verbatim>\<open>VersionedRows\<close>: the locale \<open>versioned_rows\<close>, the contract of a guarded update on a version, which the
    workflow and the compensation repositories interpret: of all writers of one copy at most one wins.
  \<^item> \<^verbatim>\<open>BookingWorkflow\<close>: the states, matrix and repository of \<^verbatim>\<open>bookings/orchestration\<close>.  Without an operator every
    workflow ends within 17 transitions, none is stuck, and no interleaving of workers leaves the matrix.
  \<^item> \<^verbatim>\<open>Compensation\<close>, \<^verbatim>\<open>CompensationQueue\<close>, \<^verbatim>\<open>PaymentExecutors\<close>, \<^verbatim>\<open>CompensationWorker\<close>: \<^verbatim>\<open>bookings/compensation\<close>.
    The planner and the refund policy; the durable queue with its claims and leases as a step relation; the
    void and refund executors against a provider that may answer anything; the worker and the operators,
    composed of all of them and the lock service.  Money is planned only when the facts are certain and moves
    only when every switch is on, a claim is exclusive, and a run of the worker settles what it claims.
  \<^item> \<^verbatim>\<open>Subscription\<close>: \<^verbatim>\<open>subscription-state-machine.ts\<close> and the stages of \<^verbatim>\<open>billing-dunning.ts\<close>.  Every snapshot is
    well formed, a paid period rests on a verified payment over any history, and the clock and the entitlements agree.
  \<^item> \<^verbatim>\<open>SubscriptionStore\<close>: \<^verbatim>\<open>subscription.service.ts\<close> and \<^verbatim>\<open>billing-account.ts\<close>.  At most one live subscription per
    account under any sequence of operations; the sweep ends exactly what is due.
  \<^item> \<^verbatim>\<open>InvoiceNumber\<close>: \<^verbatim>\<open>invoice-number.ts\<close>.  The numbers of a series are consecutive and no two invoices share one.
  \<^item> \<^verbatim>\<open>BillingEvents\<close>, \<^verbatim>\<open>BillingIntake\<close>: \<^verbatim>\<open>billing-provider-events.service.ts\<close>, the paid invoice of
    \<^verbatim>\<open>billing-invoice.service.ts\<close>, \<^verbatim>\<open>credit-packs.ts\<close> and \<^verbatim>\<open>billing-sweep.service.ts\<close>, on one database and against a provider that
    may answer anything.  The relation \<open>intake_step\<close> is any delivery, retry, sweep or staff operation; over its runs
    a payment is applied once and for exactly the price, credits are granted once, a settled event is a duplicate from
    then on, and a status event brings the subscription to what the provider reports.

  \<^bold>\<open>Conventions.\<close>  A structure is a record whose fields carry a short prefix and the source's name; an optional
  or nullable field is an \<open>option\<close>; a thrown error is the left side of a sum; a database transaction is a
  function from the database to a result, so that a failure leaves the old database.  Amounts are integers
  in minor units, basis points are integers, times are integers in milliseconds.  Where the code calls what
  is not in the repository (a hash, a locale-aware string comparison, money formatting, the database's order
  of rows) the definition takes it as a parameter.  All recursion is structural or has a termination proof;
  no fuel is needed.

  \<^bold>\<open>What is not modelled.\<close>  Human-readable explanations of a resolution; logging, metrics and audit rows; HTTP
  handlers, authentication and persistence of everything a booking carries besides its stock, policy and
  seats; providers of payment and notification; the payloads of domain events beyond their kind and subject; the
  health snapshots; checkout, catalogue and tax rules of the plans sold to organizers; the front ends.  Transactions are taken as atomic, which is
  what the guarded single-statement updates and the claims on the booking's status rely on in PostgreSQL,
  and Lua scripts as atomic, which Redis guarantees.  In the oversell property the units held are those of
  the booking's own ticket items; components of bundles, which the hold adds to them, are not.

  \<^bold>\<open>What could come next.\<close>  The orchestrators that drive the workflow, the request for a refund and the free cancellation, the
  circuit breaker of the payment providers, the reconciliation workers of settlements and the payout account state.
\<close>

end
